(* ===== verification/GoPrelude.thy ===== *)
theory GoPrelude
  imports Complex_Main
begin

text \<open>
  The prelude: the part of Go's standard library the framework uses on strings and integers
  (packages strings, strconv), as executable functions, with the lemmas every component
  shares. A Go string is a sequence of bytes, here a \<^typ>\<open>string\<close> (a list of 8-bit
  characters). Functions that Go defines on Unicode code points are modelled on the ASCII range:
  bytes from 128 on are neither letters nor digits nor white space and are left unchanged.
  Go's \<^verbatim>\<open>int\<close> is a 64-bit integer; it is an \<^typ>\<open>int\<close> here and the range is written out where
  it matters (\<^verbatim>\<open>strconv.Atoi\<close>).
\<close>

named_theorems gostr \<open>rewriting of the string functions on constructors\<close>
named_theorems charset \<open>closure of character sets under the string functions\<close>

section \<open>Values of type any\<close>

text \<open>
  The dynamic values a Go \<^verbatim>\<open>any\<close> holds in this code base: nil, the scalar types the framework
  distinguishes by type switches, maps from strings and slices of values (the result of decoding
  JSON or YAML) with the nil map apart, errors by their message, times and
  pointers to times, and pointers to objects by their address. A float64 is
  a rational number: its rounding is not modelled.
\<close>

datatype goval =
    GNil
  | GBool bool
  | GInt int
  | GInt64 int
  | GUint64 int
  | GFloat rat
  | GStr string
  | GErr string
  | GPtr nat
  | GList "goval list"
  | GMap "(string \<times> goval) list"
  | GNilMap
  | GTime int
  | GTimePtr "int option"

section \<open>Characters\<close>

abbreviation ord :: "char \<Rightarrow> nat" where
  "ord c \<equiv> of_char c"

definition is_digit :: "char \<Rightarrow> bool" where
  "is_digit c \<longleftrightarrow> 48 \<le> ord c \<and> ord c \<le> 57"

definition is_upper :: "char \<Rightarrow> bool" where
  "is_upper c \<longleftrightarrow> 65 \<le> ord c \<and> ord c \<le> 90"

definition is_lower :: "char \<Rightarrow> bool" where
  "is_lower c \<longleftrightarrow> 97 \<le> ord c \<and> ord c \<le> 122"

definition lower_char :: "char \<Rightarrow> char" where
  "lower_char c = (if is_upper c then char_of (ord c + 32) else c)"

definition upper_char :: "char \<Rightarrow> char" where
  "upper_char c = (if is_lower c then char_of (ord c - 32) else c)"

text \<open>Tab, newline, vertical tab, form feed, carriage return and space.\<close>

definition is_space :: "char \<Rightarrow> bool" where
  "is_space c \<longleftrightarrow> ord c = 32 \<or> (9 \<le> ord c \<and> ord c \<le> 13)"

lemma ord_lt_256 [simp]: "ord c < 256"
  using of_char_mod_256 [of c, where ?'a = nat] by (metis mod_less_divisor zero_less_numeral)

lemma ord_char_of [simp]: "n < 256 \<Longrightarrow> ord (char_of (n :: nat)) = n"
  by (simp add: of_char_of)

lemma is_lower_lower_char [simp]: "is_upper c \<Longrightarrow> is_lower (lower_char c)"
  by (simp add: lower_char_def is_upper_def is_lower_def)

lemma is_upper_upper_char [simp]: "is_lower c \<Longrightarrow> is_upper (upper_char c)"
  by (auto simp: upper_char_def is_upper_def is_lower_def)

lemma not_upper_lower_char [simp]: "\<not> is_upper (lower_char c)"
  by (auto simp: lower_char_def is_upper_def)

lemma upper_lower_char: "is_upper c \<Longrightarrow> upper_char (lower_char c) = c"
  by (simp add: upper_char_def lower_char_def is_upper_def is_lower_def)

lemma lower_char_idem [simp]: "lower_char (lower_char c) = lower_char c"
  by (simp add: lower_char_def [of "lower_char c"])

lemma is_digit_not_space: "is_digit c \<Longrightarrow> \<not> is_space c"
  by (auto simp: is_digit_def is_space_def)

section \<open>Package strings\<close>

definition has_prefix :: "string \<Rightarrow> string \<Rightarrow> bool" where
  "has_prefix s p \<longleftrightarrow> take (length p) s = p"

definition has_suffix :: "string \<Rightarrow> string \<Rightarrow> bool" where
  "has_suffix s p \<longleftrightarrow> has_prefix (rev s) (rev p)"

definition trim_prefix :: "string \<Rightarrow> string \<Rightarrow> string" where
  "trim_prefix s p = (if has_prefix s p then drop (length p) s else s)"

definition trim_suffix :: "string \<Rightarrow> string \<Rightarrow> string" where
  "trim_suffix s p = (if has_suffix s p then take (length s - length p) s else s)"

fun contains :: "string \<Rightarrow> string \<Rightarrow> bool" where
  "contains [] sub = (sub = [])"
| "contains (c # cs) sub = (has_prefix (c # cs) sub \<or> contains cs sub)"

text \<open>\<^verbatim>\<open>strings.IndexByte\<close>; \<^const>\<open>None\<close> is Go's \<^verbatim>\<open>-1\<close>.\<close>

fun index_byte :: "string \<Rightarrow> char \<Rightarrow> nat option" where
  "index_byte [] b = None"
| "index_byte (c # cs) b = (if c = b then Some 0 else map_option Suc (index_byte cs b))"

text \<open>\<^verbatim>\<open>strings.Split\<close> by a one-byte separator: never the empty list.\<close>

fun split_by :: "char \<Rightarrow> string \<Rightarrow> string list" where
  "split_by b [] = [[]]"
| "split_by b (c # cs) =
     (if c = b then [] # split_by b cs
      else (case split_by b cs of [] \<Rightarrow> [[c]] | w # ws \<Rightarrow> (c # w) # ws))"

text \<open>\<^verbatim>\<open>strings.SplitN(s, sep, 2)\<close> by a one-byte separator.\<close>

definition split2 :: "char \<Rightarrow> string \<Rightarrow> string list" where
  "split2 b s = (case index_byte s b of None \<Rightarrow> [s] | Some i \<Rightarrow> [take i s, drop (Suc i) s])"

fun join :: "string list \<Rightarrow> string \<Rightarrow> string" where
  "join [] sep = []"
| "join [x] sep = x"
| "join (x # y # ys) sep = x @ sep @ join (y # ys) sep"

definition trim_space :: "string \<Rightarrow> string" where
  "trim_space s = rev (dropWhile is_space (rev (dropWhile is_space s)))"

definition trim_right_char :: "char \<Rightarrow> string \<Rightarrow> string" where
  "trim_right_char b s = rev (dropWhile (\<lambda>c. c = b) (rev s))"

text \<open>\<^verbatim>\<open>strings.Fields\<close>: the maximal runs of non-space bytes.\<close>

fun fields_go :: "string \<Rightarrow> string \<Rightarrow> string list" where
  "fields_go cur [] = (if cur = [] then [] else [rev cur])"
| "fields_go cur (c # cs) =
     (if is_space c then (if cur = [] then fields_go [] cs else rev cur # fields_go [] cs)
      else fields_go (c # cur) cs)"

definition fields :: "string \<Rightarrow> string list" where
  "fields s = fields_go [] s"

definition to_lower :: "string \<Rightarrow> string" where
  "to_lower = map lower_char"

definition to_upper :: "string \<Rightarrow> string" where
  "to_upper = map upper_char"

text \<open>\<^verbatim>\<open>strings.ReplaceAll(s, old, new)\<close> for a one-byte \<^verbatim>\<open>old\<close>.\<close>

definition replace_char :: "char \<Rightarrow> string \<Rightarrow> string \<Rightarrow> string" where
  "replace_char b r s = concat (map (\<lambda>c. if c = b then r else [c]) s)"

lemma has_prefix_Nil [simp, gostr]: "has_prefix s []"
  by (simp add: has_prefix_def)

lemma has_prefix_Cons [simp, gostr]:
  "has_prefix (c # cs) (b # bs) = (c = b \<and> has_prefix cs bs)"
  "has_prefix [] (b # bs) = False"
  by (simp_all add: has_prefix_def)

lemma has_prefix_append [simp]: "has_prefix (p @ s) p"
  by (simp add: has_prefix_def)

lemma has_prefix_iff: "has_prefix s p \<longleftrightarrow> (\<exists>t. s = p @ t)"
  by (metis append_take_drop_id has_prefix_append has_prefix_def)

lemma has_suffix_iff: "has_suffix s p \<longleftrightarrow> (\<exists>t. s = t @ p)"
  by (metis has_prefix_iff has_suffix_def rev_append rev_rev_ident)

lemma trim_prefix_append [simp]: "trim_prefix (p @ s) p = s"
  by (simp add: trim_prefix_def)

lemma trim_suffix_append [simp]: "trim_suffix (s @ p) p = s"
  by (simp add: trim_suffix_def has_suffix_iff)

lemma index_byte_None [simp]: "index_byte s b = None \<longleftrightarrow> b \<notin> set s"
  by (induction s) auto

lemma index_byte_Some:
  "index_byte s b = Some i \<Longrightarrow> i < length s \<and> s ! i = b \<and> b \<notin> set (take i s)"
  by (induction s arbitrary: i) (auto split: if_splits)

lemma index_byte_append [simp]: "b \<notin> set k \<Longrightarrow> index_byte (k @ b # v) b = Some (length k)"
  by (induction k) auto

lemma split_by_not_Nil [simp]: "split_by b s \<noteq> []"
  by (induction s) (auto split: list.splits)

lemma split_by_no_sep [simp]: "w \<in> set (split_by b s) \<Longrightarrow> b \<notin> set w"
  by (induction s arbitrary: w) (auto split: list.splits if_splits)

lemma join_Cons: "ys \<noteq> [] \<Longrightarrow> join (x # ys) sep = x @ sep @ join ys sep"
  by (cases ys) auto

lemma join_split_by [simp]: "join (split_by b s) [b] = s"
proof (induction s)
  case (Cons c cs)
  then show ?case
    by (cases "split_by b cs"; cases "tl (split_by b cs)") (auto simp: join_Cons)
qed simp

lemma split_by_absent [simp]: "b \<notin> set s \<Longrightarrow> split_by b s = [s]"
  by (induction s) auto

lemma split_by_append_sep:
  "b \<notin> set x \<Longrightarrow> split_by b (x @ b # s) = x # split_by b s"
  by (induction x) auto

lemma split_by_join:
  "xs \<noteq> [] \<Longrightarrow> (\<And>x. x \<in> set xs \<Longrightarrow> b \<notin> set x) \<Longrightarrow> split_by b (join xs [b]) = xs"
proof (induction xs rule: list.induct)
  case (Cons x ys)
  then show ?case
    by (cases "ys = []") (auto simp: join_Cons split_by_append_sep)
qed simp

lemma split2_pair [simp]: "b \<notin> set k \<Longrightarrow> split2 b (k @ b # v) = [k, v]"
  by (simp add: split2_def)

lemma split2_absent [simp]: "b \<notin> set s \<Longrightarrow> split2 b s = [s]"
  by (simp add: split2_def split: option.split)

lemma set_join: "set (join xs sep) \<subseteq> \<Union> (set ` set xs) \<union> set sep"
  by (induction xs sep rule: join.induct) auto

lemma join_append:
  "xs \<noteq> [] \<Longrightarrow> ys \<noteq> [] \<Longrightarrow> join (xs @ ys) sep = join xs sep @ sep @ join ys sep"
proof (induction xs)
  case (Cons x xs)
  then show ?case by (cases "xs = []") (auto simp: join_Cons)
qed simp

lemma dropWhile_eq_self: "s = [] \<or> \<not> P (hd s) \<Longrightarrow> dropWhile P s = s"
  by (cases s) auto

lemma trim_space_id:
  assumes "\<And>c. c \<in> set s \<Longrightarrow> \<not> is_space c"
  shows "trim_space s = s"
proof -
  have "dropWhile is_space s = s" and "dropWhile is_space (rev s) = rev s"
    using assms by (auto intro!: dropWhile_eq_self) (metis hd_in_set set_rev rev_is_Nil_conv)+
  then show ?thesis by (simp add: trim_space_def)
qed

lemma set_trim_space: "set (trim_space s) \<subseteq> set s"
  by (auto simp: trim_space_def dest!: set_dropWhileD)

lemma to_lower_append [simp]: "to_lower (s @ t) = to_lower s @ to_lower t"
  by (simp add: to_lower_def)

lemma to_lower_idem [simp]: "to_lower (to_lower s) = to_lower s"
  by (simp add: to_lower_def)

lemma length_to_lower [simp]: "length (to_lower s) = length s"
  by (simp add: to_lower_def)

lemma replace_char_absent [simp]: "b \<notin> set s \<Longrightarrow> replace_char b r s = s"
  by (induction s) (auto simp: replace_char_def)

lemma replace_char_Nil [simp, gostr]: "replace_char b r [] = []"
  by (simp add: replace_char_def)

lemma replace_char_Cons [simp, gostr]:
  "replace_char b r (c # s) = (if c = b then r else [c]) @ replace_char b r s"
  by (simp add: replace_char_def)

section \<open>Package strconv\<close>

text \<open>
  The decimal representation of integers. \<^verbatim>\<open>strconv.Atoi\<close> accepts an optional sign and
  decimal digits and reports a syntax error or, beyond 64 bits, a range error; next to an error
  it returns 0 or the nearest 64-bit integer, which \<open>atoi_value\<close> gives for the callers that
  ignore the error.
\<close>

datatype num_error = ErrSyntax | ErrRange

abbreviation max_int :: int where
  "max_int \<equiv> 9223372036854775807"

abbreviation min_int :: int where
  "min_int \<equiv> - 9223372036854775808"

definition digit_char :: "nat \<Rightarrow> char" where
  "digit_char d = char_of (48 + d)"

fun nat_str :: "nat \<Rightarrow> string" where
  "nat_str n = (if n < 10 then [digit_char n] else nat_str (n div 10) @ [digit_char (n mod 10)])"

declare nat_str.simps [simp del]

definition itoa :: "int \<Rightarrow> string" where
  "itoa i = (if i < 0 then CHR ''-'' # nat_str (nat (- i)) else nat_str (nat i))"

fun digits_val :: "nat \<Rightarrow> string \<Rightarrow> nat option" where
  "digits_val acc [] = Some acc"
| "digits_val acc (c # cs) =
     (if is_digit c then digits_val (acc * 10 + (ord c - 48)) cs else None)"

definition parse_int :: "string \<Rightarrow> int option" where
  "parse_int s =
     (case s of
        [] \<Rightarrow> None
      | c # cs \<Rightarrow>
          (if c = CHR ''-'' then if cs = [] then None else map_option (\<lambda>n. - int n) (digits_val 0 cs)
           else if c = CHR ''+'' then if cs = [] then None else map_option int (digits_val 0 cs)
           else map_option int (digits_val 0 s)))"

definition atoi :: "string \<Rightarrow> num_error + int" where
  "atoi s =
     (case parse_int s of
        None \<Rightarrow> Inl ErrSyntax
      | Some v \<Rightarrow> if min_int \<le> v \<and> v \<le> max_int then Inr v else Inl ErrRange)"

definition atoi_value :: "string \<Rightarrow> int" where
  "atoi_value s = (case parse_int s of None \<Rightarrow> 0 | Some v \<Rightarrow> max min_int (min max_int v))"

lemma is_digit_digit_char [simp]: "d < 10 \<Longrightarrow> is_digit (digit_char d)"
  by (simp add: digit_char_def is_digit_def)

lemma ord_digit_char [simp]: "d < 10 \<Longrightarrow> ord (digit_char d) = 48 + d"
  by (simp add: digit_char_def)

text \<open>\<^verbatim>\<open>hex.EncodeToString\<close>.\<close>

definition hex_digit :: "nat \<Rightarrow> char" where
  "hex_digit n = char_of (if n < 10 then 48 + n else 87 + n)"

definition hex_encode :: "string \<Rightarrow> string" where
  "hex_encode bytes = concat (map (\<lambda>c. [hex_digit (ord c div 16), hex_digit (ord c mod 16)]) bytes)"

lemma nat_str_digits: "c \<in> set (nat_str n) \<Longrightarrow> is_digit c"
proof (induction n rule: nat_str.induct)
  case (1 n)
  then show ?case by (auto simp: nat_str.simps [of n] split: if_splits)
qed

lemma nat_str_not_Nil [simp]: "nat_str n \<noteq> []"
  by (subst nat_str.simps) simp

lemma digits_val_append:
  "digits_val a (s @ t) = Option.bind (digits_val a s) (\<lambda>b. digits_val b t)"
  by (induction s arbitrary: a) auto

lemma digits_val_nat_str [simp]: "digits_val 0 (nat_str n) = Some n"
proof (induction n rule: nat_str.induct)
  case (1 n)
  then show ?case
    by (cases "n < 10") (simp_all add: nat_str.simps [of n] digits_val_append)
qed

lemma nat_str_inject [simp]: "nat_str m = nat_str n \<longleftrightarrow> m = n"
  by (metis digits_val_nat_str option.inject)

lemma digit_not_sign: "is_digit c \<Longrightarrow> c \<noteq> CHR ''-'' \<and> c \<noteq> CHR ''+''"
  by (auto simp: is_digit_def)

lemma parse_int_itoa [simp]: "parse_int (itoa i) = Some i"
proof (cases "i < 0")
  case False
  obtain c cs where nz: "nat_str (nat i) = c # cs" by (cases "nat_str (nat i)") auto
  then have "is_digit c" using nat_str_digits [of c "nat i"] by simp
  with nz False digits_val_nat_str [of "nat i"] show ?thesis
    by (simp add: parse_int_def itoa_def digit_not_sign)
qed (simp add: parse_int_def itoa_def)

lemma atoi_itoa: "min_int \<le> i \<Longrightarrow> i \<le> max_int \<Longrightarrow> atoi (itoa i) = Inr i"
  by (simp add: atoi_def)

lemma atoi_range: "atoi s = Inr v \<Longrightarrow> min_int \<le> v \<and> v \<le> max_int"
  by (auto simp: atoi_def split: option.splits if_splits)

text \<open>Arithmetic on \<^verbatim>\<open>int\<close> wraps around at 64 bits.\<close>

definition wrap64 :: "int \<Rightarrow> int" where
  "wrap64 i = (i + 9223372036854775808) mod 18446744073709551616 - 9223372036854775808"

lemma wrap64_id [simp]: "min_int \<le> i \<Longrightarrow> i \<le> max_int \<Longrightarrow> wrap64 i = i"
  by (simp add: wrap64_def)

lemma wrap64_range: "min_int \<le> wrap64 i \<and> wrap64 i \<le> max_int"
  unfolding wrap64_def
  using pos_mod_bound [of 18446744073709551616 "i + 9223372036854775808"]
    pos_mod_sign [of 18446744073709551616 "i + 9223372036854775808"]
  by linarith

end
