(* ===== verification/Support.thy ===== *)
theory Support
  imports GoPrelude
begin

text \<open>
  Package support: the naming conventions (\<^verbatim>\<open>str.go\<close>: Snake, Camel, LowerCamel, Plural) that
  tie Go identifiers to table and column names, and the typed readers of environment
  variables (\<^verbatim>\<open>env.go\<close>). The process environment is a map.
\<close>

section \<open>str.go\<close>

text \<open>The loop of \<^verbatim>\<open>Snake\<close>; the flag says whether the byte index is positive.\<close>

fun snake_go :: "bool \<Rightarrow> string \<Rightarrow> string" where
  "snake_go inner [] = []"
| "snake_go inner (r # rs) =
     (if is_upper r
      then (if inner then [CHR ''_''] else []) @ lower_char r # snake_go True rs
      else r # snake_go True rs)"

definition snake :: "string \<Rightarrow> string" where
  "snake s = snake_go False s"

text \<open>The loop of \<^verbatim>\<open>Camel\<close>; the flag is its variable \<^verbatim>\<open>upper\<close>.\<close>

fun camel_go :: "bool \<Rightarrow> string \<Rightarrow> string" where
  "camel_go up [] = []"
| "camel_go up (r # rs) =
     (if r = CHR ''_'' \<or> r = CHR ''-'' then camel_go True rs
      else if up then upper_char r # camel_go False rs
      else r # camel_go False rs)"

definition camel :: "string \<Rightarrow> string" where
  "camel s = camel_go True s"

definition lower_camel :: "string \<Rightarrow> string" where
  "lower_camel s =
     (let c = camel s in if length c = 0 then c else to_lower (take 1 c) @ drop 1 c)"

definition irregular_plurals :: "string \<rightharpoonup> string" where
  "irregular_plurals = map_of
     [(''person'', ''people''), (''child'', ''children''), (''man'', ''men''), (''woman'', ''women''),
      (''mouse'', ''mice''), (''goose'', ''geese''), (''tooth'', ''teeth''), (''foot'', ''feet''),
      (''ox'', ''oxen''), (''leaf'', ''leaves''), (''life'', ''lives''), (''knife'', ''knives''),
      (''wife'', ''wives''), (''half'', ''halves''), (''self'', ''selves''), (''shelf'', ''shelves''),
      (''series'', ''series''), (''species'', ''species''), (''deer'', ''deer''), (''sheep'', ''sheep''),
      (''fish'', ''fish''), (''datum'', ''data''), (''index'', ''indices''), (''matrix'', ''matrices'')]"

definition plural :: "string \<Rightarrow> string" where
  "plural s =
     (if s = [] then s
      else let lower = to_lower s in
      case irregular_plurals lower of
        Some p \<Rightarrow> if hd s = hd lower then p else to_upper (take 1 p) @ drop 1 p
      | None \<Rightarrow>
          if has_suffix lower ''ss'' \<or> has_suffix lower ''sh'' \<or> has_suffix lower ''ch''
             \<or> has_suffix lower ''x'' \<or> has_suffix lower ''z'' \<or> has_suffix lower ''o''
          then s @ ''es''
          else if has_suffix lower ''s'' then s @ ''es''
          else if has_suffix lower ''fe'' then take (length s - 2) s @ ''ves''
          else if has_suffix lower ''f'' then take (length s - 1) s @ ''ves''
          else if has_suffix lower ''y'' \<and> length lower > 1
                  \<and> lower ! (length lower - 2) \<notin> set ''aeiou''
          then take (length lower - 1) s @ ''ies''
          else s @ ''s'')"

section \<open>env.go\<close>

definition first_or :: "'a list \<Rightarrow> 'a \<Rightarrow> 'a" where
  "first_or fallback zero = (case fallback of [] \<Rightarrow> zero | x # _ \<Rightarrow> x)"

definition Env :: "(string \<rightharpoonup> string) \<Rightarrow> string \<Rightarrow> string list \<Rightarrow> string" where
  "Env env key fallback = (case env key of Some val \<Rightarrow> val | None \<Rightarrow> first_or fallback [])"

definition EnvInt :: "(string \<rightharpoonup> string) \<Rightarrow> string \<Rightarrow> int list \<Rightarrow> int" where
  "EnvInt env key fallback =
     (case env key of
        Some val \<Rightarrow> (case atoi val of Inr i \<Rightarrow> i | Inl _ \<Rightarrow> first_or fallback 0)
      | None \<Rightarrow> first_or fallback 0)"

definition EnvBool :: "(string \<rightharpoonup> string) \<Rightarrow> string \<Rightarrow> bool list \<Rightarrow> bool" where
  "EnvBool env key fallback =
     (case env key of
        Some val \<Rightarrow>
          (let v = to_lower val in
           if v \<in> {''true'', ''1'', ''yes'', ''on''} then True
           else if v \<in> {''false'', ''0'', ''no'', ''off''} then False
           else first_or fallback False)
      | None \<Rightarrow> first_or fallback False)"

section \<open>Lemmas\<close>

text \<open>A Go identifier in CamelCase: no separators, and the first byte is not a lower-case letter.\<close>

definition camel_ident :: "string \<Rightarrow> bool" where
  "camel_ident s \<longleftrightarrow> s \<noteq> [] \<and> \<not> is_lower (hd s) \<and> CHR ''_'' \<notin> set s \<and> CHR ''-'' \<notin> set s"

lemma separators_not_letters [simp]:
  "\<not> is_lower (CHR ''_'')" "\<not> is_lower (CHR ''-'')" "\<not> is_upper (CHR ''_'')" "\<not> is_upper (CHR ''-'')"
  by (simp_all add: is_lower_def is_upper_def)

lemma lower_char_not_separator:
  "is_upper r \<Longrightarrow> lower_char r \<noteq> CHR ''_'' \<and> lower_char r \<noteq> CHR ''-''"
  by (metis is_lower_lower_char separators_not_letters(1,2))

lemma upper_char_id [simp]: "\<not> is_lower c \<Longrightarrow> upper_char c = c"
  by (simp add: upper_char_def)

lemma camel_go_snake_go_inner:
  "CHR ''_'' \<notin> set s \<Longrightarrow> CHR ''-'' \<notin> set s \<Longrightarrow> camel_go False (snake_go True s) = s"
  by (induction s) (auto simp: lower_char_not_separator upper_lower_char)

lemma snake_go_no_upper: "c \<in> set (snake_go b s) \<Longrightarrow> \<not> is_upper c"
  by (induction b s rule: snake_go.induct) (auto split: if_splits)

lemma length_snake_go: "length s \<le> length (snake_go b s)"
  by (induction b s rule: snake_go.induct) auto

text \<open>
  \<^verbatim>\<open>Camel\<close> undoes \<^verbatim>\<open>Snake\<close> on CamelCase identifiers, so the column name the ORM
  derives from a Go field name determines the field (relation.go maps a foreign key column
  back to the struct field with \<^verbatim>\<open>Camel\<close>).
\<close>

lemma camel_snake:
  assumes "camel_ident s"
  shows "camel (snake s) = s"
proof (cases s)
  case (Cons r rs)
  with assms show ?thesis
    by (auto simp: camel_ident_def camel_def snake_def camel_go_snake_go_inner
        lower_char_not_separator upper_lower_char)
qed (use assms in \<open>simp add: camel_ident_def\<close>)

lemma camel_snake_example:
  "camel_ident ''BlogPost'' \<and> snake ''BlogPost'' = ''blog_post'' \<and> camel (snake ''BlogPost'') = ''BlogPost''"
proof -
  have h: "camel_ident ''BlogPost''" by (simp add: camel_ident_def is_lower_def)
  have "snake ''BlogPost'' = ''blog_post''"
    by code_simp
  with h camel_snake [OF h] show ?thesis by simp
qed

end
