(* ===== verification/Validator.thy ===== *)
theory Validator
  imports GoPrelude "HOL-Library.Multiset"
begin

text \<open>
  The validator of package http (\<^verbatim>\<open>validator.go\<close>, \<^verbatim>\<open>validator_extra.go\<close>). The parsers of the standard library it asks (mail
  addresses, floats, URLs, regular expressions, times, JSON, IP addresses) and the database are parameters. Go visits
  the map of rules in some order: the rules are a list of fields with distinct names.
\<close>

section \<open>Helpers\<close>

record vlib =
  mail_ok :: "string \<Rightarrow> bool"
  float_ok :: "string \<Rightarrow> bool"
  url_ok :: "string \<Rightarrow> bool"
  regex_match :: "string \<Rightarrow> string \<Rightarrow> bool option"
  time_ok :: "string \<Rightarrow> string \<Rightarrow> bool"
  json_ok :: "string \<Rightarrow> bool"
  ip_ok :: "string \<Rightarrow> bool"
  stringer :: "goval \<Rightarrow> string option"

type_synonym ValidationErrors = "string \<rightharpoonup> string list"

record Validator =
  v_data :: "string \<rightharpoonup> goval"
  v_rules :: "(string \<times> string) list"
  v_errors :: ValidationErrors
  v_store :: "(string \<Rightarrow> string \<Rightarrow> goval \<Rightarrow> string + bool) option"

definition NewValidator :: "(string \<rightharpoonup> goval) \<Rightarrow> (string \<times> string) list \<Rightarrow> Validator" where
  "NewValidator data rules = \<lparr>v_data = data, v_rules = rules, v_errors = Map.empty, v_store = None\<rparr>"

definition WithDB :: "(string \<Rightarrow> string \<Rightarrow> goval \<Rightarrow> string + bool) \<Rightarrow> Validator \<Rightarrow> Validator" where
  "WithDB db v = v\<lparr>v_store := Some db\<rparr>"

definition addError :: "string \<Rightarrow> string \<Rightarrow> Validator \<Rightarrow> Validator" where
  "addError field msg v =
     v\<lparr>v_errors := (v_errors v)(field \<mapsto> (case v_errors v field of None \<Rightarrow> [] | Some ms \<Rightarrow> ms) @ [msg])\<rparr>"

definition HasErrors :: "ValidationErrors \<Rightarrow> bool" where
  "HasErrors ve \<longleftrightarrow> ve \<noteq> Map.empty"

definition First_error :: "ValidationErrors \<Rightarrow> string \<Rightarrow> string" where
  "First_error ve field = (case ve field of Some (m # _) \<Rightarrow> m | _ \<Rightarrow> [])"

text \<open>The message of the errors, for the order in which Go visits the fields.\<close>

definition Error_text :: "string list \<Rightarrow> ValidationErrors \<Rightarrow> string" where
  "Error_text order ve =
     join (concat (map (\<lambda>field. map (\<lambda>msg. field @ '': '' @ msg) (case ve field of None \<Rightarrow> [] | Some ms \<Rightarrow> ms)) order)) ''; ''"

definition parseRule :: "string \<Rightarrow> string \<times> string" where
  "parseRule rule =
     (case index_byte rule (CHR '':'') of None \<Rightarrow> (rule, []) | Some i \<Rightarrow> (take i rule, drop (Suc i) rule))"

definition toString :: "vlib \<Rightarrow> goval \<Rightarrow> string option" where
  "toString lib v = (case v of GStr s \<Rightarrow> Some s | _ \<Rightarrow> stringer lib v)"

definition toString_or :: "vlib \<Rightarrow> goval \<Rightarrow> string" where
  "toString_or lib v = (case toString lib v of None \<Rightarrow> [] | Some s \<Rightarrow> s)"

definition isEmpty :: "goval \<Rightarrow> bool" where
  "isEmpty v = (case v of GNil \<Rightarrow> True | GStr s \<Rightarrow> trim_space s = [] | _ \<Rightarrow> False)"

text \<open>A missing key of the data reads as nil.\<close>

definition data_get :: "Validator \<Rightarrow> string \<Rightarrow> goval" where
  "data_get v key = (case v_data v key of None \<Rightarrow> GNil | Some x \<Rightarrow> x)"

definition re_alpha :: "string \<Rightarrow> bool" where
  "re_alpha s \<longleftrightarrow> s \<noteq> [] \<and> list_all (\<lambda>c. is_lower c \<or> is_upper c) s"

definition re_alphanumeric :: "string \<Rightarrow> bool" where
  "re_alphanumeric s \<longleftrightarrow> s \<noteq> [] \<and> list_all (\<lambda>c. is_lower c \<or> is_upper c \<or> is_digit c) s"

definition re_phone :: "string \<Rightarrow> bool" where
  "re_phone s \<longleftrightarrow> length s = 11 \<and> s ! 0 = CHR ''1'' \<and> 51 \<le> ord (s ! 1) \<and> ord (s ! 1) \<le> 57 \<and> list_all is_digit s"

text \<open>\<^verbatim>\<open>utf8.RuneCountInString\<close>: the width of the first rune, one for a byte that starts no valid encoding.\<close>

definition cont_byte :: "nat \<Rightarrow> nat \<Rightarrow> string \<Rightarrow> bool" where
  "cont_byte lo hi s = (case s of [] \<Rightarrow> False | c # _ \<Rightarrow> lo \<le> ord c \<and> ord c \<le> hi)"

definition rune_width :: "string \<Rightarrow> nat" where
  "rune_width s =
     (case s of
        [] \<Rightarrow> 0
      | c # t \<Rightarrow>
          (let b = ord c; more = (\<lambda>k. cont_byte 128 191 (drop k t)) in
           if 194 \<le> b \<and> b \<le> 223 then (if more 0 then 2 else 1)
           else if 224 \<le> b \<and> b \<le> 239 then
             (if cont_byte (if b = 224 then 160 else 128) (if b = 237 then 159 else 191) t \<and> more 1 then 3 else 1)
           else if 240 \<le> b \<and> b \<le> 244 then
             (if cont_byte (if b = 240 then 144 else 128) (if b = 244 then 143 else 191) t \<and> more 1 \<and> more 2 then 4 else 1)
           else 1))"

lemma rune_width_pos: "s \<noteq> [] \<Longrightarrow> 0 < rune_width s"
  by (cases s) (simp_all add: rune_width_def Let_def)

function rune_count :: "string \<Rightarrow> nat" where
  "rune_count s = (if s = [] then 0 else Suc (rune_count (drop (rune_width s) s)))"
  by auto
termination
  by (relation "measure length") (auto simp: rune_width_pos)

declare rune_count.simps [simp del]

definition isDate :: "vlib \<Rightarrow> string \<Rightarrow> bool" where
  "isDate lib s = list_ex (\<lambda>l. time_ok lib l s) [''2006-01-02T15:04:05Z07:00'', ''2006-01-02'', ''2006-01-02 15:04:05'']"

definition hex_char :: "char \<Rightarrow> bool" where
  "hex_char c \<longleftrightarrow> is_digit c \<or> 97 \<le> ord c \<and> ord c \<le> 102 \<or> 65 \<le> ord c \<and> ord c \<le> 70"

text \<open>The loop of \<^verbatim>\<open>isUUID\<close> from position \<open>i\<close>.\<close>

fun uuid_from :: "nat \<Rightarrow> string \<Rightarrow> bool" where
  "uuid_from i [] = True"
| "uuid_from i (c # cs) =
     (if i \<in> {8, 13, 18, 23} then (if c \<noteq> CHR ''-'' then False else uuid_from (Suc i) cs)
      else if \<not> hex_char c then False else uuid_from (Suc i) cs)"

definition isUUID :: "string \<Rightarrow> bool" where
  "isUUID s = (if length s \<noteq> 36 then False else uuid_from 0 s)"

section \<open>Rules\<close>

definition validateMin :: "string \<Rightarrow> goval \<Rightarrow> string \<Rightarrow> Validator \<Rightarrow> Validator" where
  "validateMin field x param v =
     (let n = atoi_value param in
      case x of
        GStr s \<Rightarrow> if int (rune_count s) < n then addError field (field @ '' must be at least '' @ itoa n @ '' characters'') v else v
      | GFloat f \<Rightarrow> if f < of_int n then addError field (field @ '' must be at least '' @ itoa n) v else v
      | GInt i \<Rightarrow> if i < n then addError field (field @ '' must be at least '' @ itoa n) v else v
      | _ \<Rightarrow> v)"

definition validateMax :: "string \<Rightarrow> goval \<Rightarrow> string \<Rightarrow> Validator \<Rightarrow> Validator" where
  "validateMax field x param v =
     (let n = atoi_value param in
      case x of
        GStr s \<Rightarrow> if int (rune_count s) > n then addError field (field @ '' must be at most '' @ itoa n @ '' characters'') v else v
      | GFloat f \<Rightarrow> if f > of_int n then addError field (field @ '' must be at most '' @ itoa n) v else v
      | GInt i \<Rightarrow> if i > n then addError field (field @ '' must be at most '' @ itoa n) v else v
      | _ \<Rightarrow> v)"

definition checkExists :: "string \<Rightarrow> goval \<Rightarrow> string \<Rightarrow> bool \<Rightarrow> Validator \<Rightarrow> Validator" where
  "checkExists field x param wantUnique v =
     (case v_store v of
        None \<Rightarrow> v
      | Some db \<Rightarrow>
          (case split_by (CHR '','') param of
             t # c # _ \<Rightarrow>
               (case db (trim_space t) (trim_space c) x of
                  Inl _ \<Rightarrow> addError field (field @ '' validation query failed'') v
                | Inr ok \<Rightarrow>
                    (let v = (if wantUnique \<and> ok then addError field (field @ '' has already been taken'') v else v)
                     in if \<not> wantUnique \<and> \<not> ok then addError field (field @ '' does not exist'') v else v))
           | _ \<Rightarrow> v))"

definition complain :: "bool \<Rightarrow> string \<Rightarrow> string \<Rightarrow> Validator \<Rightarrow> Validator" where
  "complain bad field msg v = (if bad then addError field (field @ msg) v else v)"

definition applyRule :: "vlib \<Rightarrow> string \<Rightarrow> goval \<Rightarrow> bool \<Rightarrow> string \<Rightarrow> string \<Rightarrow> Validator \<Rightarrow> Validator" where
  "applyRule lib field x has name param v =
     (let str = toString_or lib x in
      if name = ''confirmed'' then complain (str \<noteq> toString_or lib (data_get v (field @ ''_confirmation''))) field '' confirmation does not match'' v
      else if name = ''same'' then complain (str \<noteq> toString_or lib (data_get v param)) field ('' must match '' @ param) v
      else if name = ''integer'' then
        (case toString lib x of None \<Rightarrow> v | Some s \<Rightarrow> complain (case atoi s of Inl _ \<Rightarrow> True | Inr _ \<Rightarrow> False) field '' must be an integer'' v)
      else if name = ''boolean'' then
        (case x of GBool _ \<Rightarrow> v | _ \<Rightarrow> complain (str \<notin> {''true'', ''false'', ''1'', ''0''}) field '' must be a boolean'' v)
      else if name = ''date'' then complain (case toString lib x of None \<Rightarrow> True | Some s \<Rightarrow> \<not> isDate lib s) field '' must be a valid date'' v
      else if name = ''json'' then complain (case toString lib x of None \<Rightarrow> True | Some s \<Rightarrow> \<not> json_ok lib s) field '' must be valid JSON'' v
      else if name = ''ip'' then complain (\<not> ip_ok lib str) field '' must be a valid IP address'' v
      else if name = ''uuid'' then complain (\<not> isUUID str) field '' must be a valid UUID'' v
      else if name = ''unique'' then checkExists field x param True v
      else if name = ''exists'' then checkExists field x param False v
      else if name = ''required_if'' then
        (case split2 (CHR '','') param of
           [k, w] \<Rightarrow> complain (toString_or lib (data_get v k) = w \<and> (\<not> has \<or> isEmpty x)) field '' is required'' v
         | _ \<Rightarrow> v)
      else v)"

text \<open>A rule on a value that is a string or has a string form.\<close>

definition on_string :: "vlib \<Rightarrow> goval \<Rightarrow> (string \<Rightarrow> bool) \<Rightarrow> string \<Rightarrow> string \<Rightarrow> Validator \<Rightarrow> Validator" where
  "on_string lib x bad field msg v = (case toString lib x of None \<Rightarrow> v | Some s \<Rightarrow> complain (bad s) field msg v)"

definition validate_rule :: "vlib \<Rightarrow> string \<Rightarrow> goval \<Rightarrow> bool \<Rightarrow> string \<Rightarrow> Validator \<Rightarrow> Validator" where
  "validate_rule lib field x has raw v =
     (let rule = trim_space raw in
      if rule = [] then v
      else let (name, param) = parseRule rule in
      if name = ''required'' then complain (\<not> has \<or> isEmpty x) field '' is required'' v
      else if name = ''required_if'' then applyRule lib field x has name param v
      else if \<not> has \<or> isEmpty x then v
      else if name = ''email'' then on_string lib x (\<lambda>s. \<not> mail_ok lib s) field '' must be a valid email'' v
      else if name = ''min'' then validateMin field x param v
      else if name = ''max'' then validateMax field x param v
      else if name = ''numeric'' then on_string lib x (\<lambda>s. \<not> float_ok lib s) field '' must be numeric'' v
      else if name = ''alpha'' then on_string lib x (\<lambda>s. \<not> re_alpha s) field '' must contain only letters'' v
      else if name = ''alphanumeric'' then on_string lib x (\<lambda>s. \<not> re_alphanumeric s) field '' must be alphanumeric'' v
      else if name = ''phone'' then on_string lib x (\<lambda>s. \<not> re_phone s) field '' must be a valid phone number'' v
      else if name = ''url'' then on_string lib x (\<lambda>s. \<not> url_ok lib s) field '' must be a valid URL'' v
      else if name = ''in'' then
        on_string lib x (\<lambda>s. s \<notin> set (map trim_space (split_by (CHR '','') param))) field ('' must be one of: '' @ param) v
      else if name = ''regex'' then on_string lib x (\<lambda>s. regex_match lib param s = Some False) field '' format is invalid'' v
      else applyRule lib field x has name param v)"

definition validate_field :: "vlib \<Rightarrow> string \<times> string \<Rightarrow> Validator \<Rightarrow> Validator" where
  "validate_field lib = (\<lambda>(field, ruleStr) v.
     fold (validate_rule lib field (data_get v field) (v_data v field \<noteq> None)) (split_by (CHR ''|'') ruleStr) v)"

definition Validate :: "vlib \<Rightarrow> Validator \<Rightarrow> ValidationErrors option \<times> Validator" where
  "Validate lib v =
     (let v' = fold (validate_field lib) (v_rules v) v in (if v_errors v' = Map.empty then None else Some (v_errors v'), v'))"

section \<open>Rules only add messages to their field\<close>

definition put_msgs :: "string \<Rightarrow> string list \<Rightarrow> ValidationErrors \<Rightarrow> ValidationErrors" where
  "put_msgs f ms e = (if ms = [] then e else e(f \<mapsto> (case e f of None \<Rightarrow> [] | Some old \<Rightarrow> old) @ ms))"

text \<open>
  An operation that appends messages to one field, which messages being independent of the errors so far and of the rules that are still to come.
\<close>

definition adds :: "string \<Rightarrow> (Validator \<Rightarrow> Validator) \<Rightarrow> bool" where
  "adds f op \<longleftrightarrow> (\<forall>v. \<exists>ms. \<forall>e q. op (v\<lparr>v_rules := q, v_errors := e\<rparr>) = v\<lparr>v_rules := q, v_errors := put_msgs f ms e\<rparr>)"

lemma put_msgs_simps [simp]:
  "put_msgs f [] e = e" "put_msgs f (ms @ ns) e = put_msgs f ns (put_msgs f ms e)" "put_msgs f ms e = Map.empty \<longleftrightarrow> e = Map.empty \<and> ms = []"
  by (auto simp: put_msgs_def)

lemma put_msgs_commute: "f \<noteq> g \<Longrightarrow> put_msgs f ms (put_msgs g ns e) = put_msgs g ns (put_msgs f ms e)"
  by (auto simp: put_msgs_def)

lemma addError_put [simp]: "addError f m (v\<lparr>v_errors := e\<rparr>) = v\<lparr>v_errors := put_msgs f [m] e\<rparr>"
  by (simp add: addError_def put_msgs_def)

lemma adds_leaf [simp]:
  "\<exists>ms. \<forall>e q. v\<lparr>v_rules := q, v_errors := e\<rparr> = v\<lparr>v_rules := q, v_errors := put_msgs f ms e\<rparr>"
  "\<exists>ms. \<forall>e q. v\<lparr>v_rules := q, v_errors := put_msgs f ms' e\<rparr> = v\<lparr>v_rules := q, v_errors := put_msgs f ms e\<rparr>"
  by (rule exI [of _ "[]"], simp) blast

lemma data_get_update [simp]:
  "data_get (v\<lparr>v_errors := e\<rparr>) k = data_get v k" "data_get (v\<lparr>v_rules := q\<rparr>) k = data_get v k"
  by (simp_all add: data_get_def)

lemma complain_errors [simp]:
  "complain b f msg (v\<lparr>v_errors := e\<rparr>) = v\<lparr>v_errors := put_msgs f (if b then [f @ msg] else []) e\<rparr>"
  by (simp add: complain_def)

named_theorems adds_intros \<open>operations that only add messages to a field\<close>

lemma adds_if [adds_intros]: "(b \<Longrightarrow> adds f op) \<Longrightarrow> (\<not> b \<Longrightarrow> adds f op') \<Longrightarrow> adds f (\<lambda>v. if b then op v else op' v)"
  by (cases b) simp_all

lemma adds_id [adds_intros]: "adds f (\<lambda>v. v)"
  by (simp add: adds_def)

lemma adds_addError [adds_intros]: "adds f (\<lambda>v. addError f m v)"
  by (simp add: adds_def)

lemma adds_complain [adds_intros]: "(\<And>v e q. b (v\<lparr>v_rules := q, v_errors := e\<rparr>) = b v) \<Longrightarrow> adds f (\<lambda>v. complain (b v) f msg v)"
  by (simp add: adds_def)

lemma adds_validateMin [adds_intros]: "adds f (\<lambda>v. validateMin f x p v)"
  unfolding validateMin_def Let_def by (cases x) (simp_all add: adds_intros)

lemma adds_validateMax [adds_intros]: "adds f (\<lambda>v. validateMax f x p v)"
  unfolding validateMax_def Let_def by (cases x) (simp_all add: adds_intros)

lemma adds_checkExists [adds_intros]: "adds f (\<lambda>v. checkExists f x p u v)"
  unfolding adds_def
proof (intro allI)
  fix v
  show "\<exists>ms. \<forall>e q. checkExists f x p u (v\<lparr>v_rules := q, v_errors := e\<rparr>) = v\<lparr>v_rules := q, v_errors := put_msgs f ms e\<rparr>"
  proof (cases "v_store v")
    case (Some db)
    show ?thesis
    proof (cases "split_by (CHR '','') p")
      case (Cons t l)
      show ?thesis
      proof (cases l)
        case l: (Cons c l')
        then show ?thesis using Some Cons
          by (cases "db (trim_space t) (trim_space c) x"; cases u; cases "db (trim_space t) (trim_space c) x = Inr True")
            (simp_all add: checkExists_def Let_def)
      qed (simp add: checkExists_def Some Cons)
    qed (simp add: checkExists_def Some)
  qed (simp add: checkExists_def)
qed

lemma adds_case_option [adds_intros]:
  "(\<And>y. adds f (op y)) \<Longrightarrow> adds f op' \<Longrightarrow> adds f (\<lambda>v. case opt of None \<Rightarrow> op' v | Some y \<Rightarrow> op y v)" for opt :: "'a option"
  by (cases opt) simp_all

lemma adds_on_string [adds_intros]: "adds f (\<lambda>v. on_string lib x bad f msg v)"
  unfolding on_string_def by (intro adds_intros) simp

lemma adds_applyRule [adds_intros]: "adds f (\<lambda>v. applyRule lib f x h name p v)"
proof -
  have "adds f (\<lambda>v. case x of GBool _ \<Rightarrow> v | _ \<Rightarrow> complain b f msg v)" for b msg
    by (cases x) (simp_all add: adds_intros)
  moreover have "adds f (\<lambda>v. case split2 (CHR '','') p of
      [k, w] \<Rightarrow> complain (toString_or lib (data_get v k) = w \<and> (\<not> h \<or> isEmpty x)) f msg v | _ \<Rightarrow> v)" for msg
    by (cases "split2 (CHR '','') p"; cases "tl (split2 (CHR '','') p)"; cases "tl (tl (split2 (CHR '','') p))")
      (auto intro: adds_intros)
  ultimately show ?thesis unfolding applyRule_def Let_def by (intro adds_intros) auto
qed

lemma adds_validate_rule [adds_intros]: "adds f (\<lambda>v. validate_rule lib f x h raw v)"
  unfolding validate_rule_def Let_def case_prod_unfold by (intro adds_intros) simp

lemma adds_comp: "adds f op \<Longrightarrow> adds f op' \<Longrightarrow> adds f (\<lambda>v. op' (op v))"
  unfolding adds_def
proof (intro allI)
  fix v
  assume "\<forall>v. \<exists>ms. \<forall>e q. op (v\<lparr>v_rules := q, v_errors := e\<rparr>) = v\<lparr>v_rules := q, v_errors := put_msgs f ms e\<rparr>"
    and "\<forall>v. \<exists>ms. \<forall>e q. op' (v\<lparr>v_rules := q, v_errors := e\<rparr>) = v\<lparr>v_rules := q, v_errors := put_msgs f ms e\<rparr>"
  then obtain ms ns where "\<And>e q. op (v\<lparr>v_rules := q, v_errors := e\<rparr>) = v\<lparr>v_rules := q, v_errors := put_msgs f ms e\<rparr>"
    "\<And>e q. op' (v\<lparr>v_rules := q, v_errors := e\<rparr>) = v\<lparr>v_rules := q, v_errors := put_msgs f ns e\<rparr>" by blast
  then show "\<exists>ms. \<forall>e q. op' (op (v\<lparr>v_rules := q, v_errors := e\<rparr>)) = v\<lparr>v_rules := q, v_errors := put_msgs f ms e\<rparr>"
    by (intro exI [of _ "ms @ ns"]) simp
qed

lemma adds_fold: "(\<And>r. adds f (op r)) \<Longrightarrow> adds f (\<lambda>v. fold op rs v)"
proof (induction rs)
  case Nil
  then show ?case using adds_id by (simp add: id_def)
next
  case (Cons r rs)
  then show ?case using adds_comp [of f "op r" "fold op rs"] by (simp add: comp_def)
qed

text \<open>The data and the store never change.\<close>

lemma adds_eq: "adds f op \<Longrightarrow> \<exists>ms. op v = v\<lparr>v_errors := put_msgs f ms (v_errors v)\<rparr>"
proof -
  assume "adds f op"
  then obtain ms where "op (v\<lparr>v_rules := v_rules v, v_errors := v_errors v\<rparr>) = v\<lparr>v_rules := v_rules v, v_errors := put_msgs f ms (v_errors v)\<rparr>"
    unfolding adds_def by blast
  then show ?thesis by (intro exI [of _ ms]) simp
qed

lemma adds_validate_field: "adds (fst fr) (\<lambda>v. validate_field lib fr v)"
proof -
  obtain f r where fr: "fr = (f, r)" by (cases fr)
  show ?thesis unfolding adds_def
  proof (intro allI)
    fix v
    have "adds f (\<lambda>w. fold (validate_rule lib f (data_get v f) (v_data v f \<noteq> None)) (split_by (CHR ''|'') r) w)"
      by (intro adds_fold adds_intros)
    then show "\<exists>ms. \<forall>e q. validate_field lib fr (v\<lparr>v_rules := q, v_errors := e\<rparr>) = v\<lparr>v_rules := q, v_errors := put_msgs (fst fr) ms e\<rparr>"
      unfolding adds_def by (simp add: validate_field_def fr)
  qed
qed

lemma adds_commute:
  assumes "adds f op" and "adds g op'" and "f \<noteq> g"
  shows "op (op' v) = op' (op v)"
proof -
  obtain ms ns where *: "\<And>e q. op (v\<lparr>v_rules := q, v_errors := e\<rparr>) = v\<lparr>v_rules := q, v_errors := put_msgs f ms e\<rparr>"
    "\<And>e q. op' (v\<lparr>v_rules := q, v_errors := e\<rparr>) = v\<lparr>v_rules := q, v_errors := put_msgs g ns e\<rparr>"
    using assms(1,2) unfolding adds_def by blast
  have "op (op' (v\<lparr>v_rules := v_rules v, v_errors := v_errors v\<rparr>)) = op' (op (v\<lparr>v_rules := v_rules v, v_errors := v_errors v\<rparr>))"
    by (simp only: * put_msgs_commute [OF assms(3)])
  then show ?thesis by simp
qed

lemma adds_fixpoint: "adds f op \<Longrightarrow> v_errors (op v) = Map.empty \<longleftrightarrow> v_errors v = Map.empty \<and> op v = v"
  using adds_eq [of f op v] by auto

lemma fold_accepts:
  assumes "\<And>r. r \<in> set rs \<Longrightarrow> \<exists>f. adds f (op r)"
  shows "v_errors (fold op rs v) = Map.empty \<longleftrightarrow> v_errors v = Map.empty \<and> (\<forall>r\<in>set rs. op r v = v)"
  using assms
proof (induction rs arbitrary: v)
  case (Cons r rs)
  obtain f where f: "adds f (op r)" using Cons.prems by force
  have "v_errors (fold op rs (op r v)) = Map.empty \<longleftrightarrow> v_errors (op r v) = Map.empty \<and> (\<forall>q\<in>set rs. op q (op r v) = op r v)"
    using Cons.prems by (intro Cons.IH) simp
  then show ?case using adds_fixpoint [OF f, of v] by auto
qed simp

lemma fold_fields_perm:
  assumes "distinct (map fst rules)" and "mset rules' = mset rules"
  shows "fold (validate_field lib) rules' v = fold (validate_field lib) rules v"
proof -
  have "validate_field lib x \<circ> validate_field lib y = validate_field lib y \<circ> validate_field lib x"
    if "x \<in> set rules'" "y \<in> set rules'" for x y
  proof (cases "fst x = fst y")
    case True
    have "x = y" using that True assms mset_eq_setD [OF assms(2)] by (metis eq_key_imp_eq_value prod.collapse)
    then show ?thesis by simp
  next
    case False
    then show ?thesis using adds_commute [OF adds_validate_field adds_validate_field False] by (intro ext) simp
  qed
  then show ?thesis by (intro fun_cong [OF fold_multiset_equiv]) (use assms in auto)
qed

lemma validate_field_accepts:
  assumes "v_errors v = Map.empty"
  shows "validate_field lib fr v = v \<longleftrightarrow>
    (\<forall>part\<in>set (split_by (CHR ''|'') (snd fr)). validate_rule lib (fst fr) (data_get v (fst fr)) (v_data v (fst fr) \<noteq> None) part v = v)"
proof -
  let ?op = "validate_rule lib (fst fr) (data_get v (fst fr)) (v_data v (fst fr) \<noteq> None)"
  have "validate_field lib fr v = v \<longleftrightarrow> v_errors (validate_field lib fr v) = Map.empty"
    using adds_fixpoint [OF adds_validate_field, of lib fr v] assms by simp
  also have "\<dots> \<longleftrightarrow> v_errors (fold ?op (split_by (CHR ''|'') (snd fr)) v) = Map.empty"
    by (simp add: validate_field_def case_prod_unfold)
  also have "\<dots> \<longleftrightarrow> (\<forall>part\<in>set (split_by (CHR ''|'') (snd fr)). ?op part v = v)"
    using assms by (subst fold_accepts) (auto intro: adds_validate_rule)
  finally show ?thesis .
qed

lemma v_errors_fold_rules: "v_errors (fold (validate_field lib) rs (v\<lparr>v_rules := q\<rparr>)) = v_errors (fold (validate_field lib) rs v)"
proof -
  have "fold (validate_field lib) rs (v\<lparr>v_rules := q\<rparr>) = (fold (validate_field lib) rs v)\<lparr>v_rules := q\<rparr>" for v
  proof (induction rs arbitrary: v)
    case (Cons r rs)
    obtain ms where "\<And>e q. validate_field lib r (v\<lparr>v_rules := q, v_errors := e\<rparr>) = v\<lparr>v_rules := q, v_errors := put_msgs (fst r) ms e\<rparr>"
      using adds_validate_field [of r lib] unfolding adds_def by blast
    from this [where q = q and e = "v_errors v"] this [where q = "v_rules v" and e = "v_errors v"]
    have "validate_field lib r (v\<lparr>v_rules := q\<rparr>) = (validate_field lib r v)\<lparr>v_rules := q\<rparr>" by simp
    then show ?case by (simp add: Cons.IH)
  qed simp
  then show ?thesis by simp
qed

section \<open>Unexpected results\<close>

text \<open>The rules same and confirmed compare the string forms: two different numbers have none and so they match.\<close>

lemma same_accepts_different_numbers:
  assumes "stringer lib (GInt 1) = None" and "stringer lib (GInt 2) = None"
  shows "let v = NewValidator [''a'' \<mapsto> GInt 1, ''b'' \<mapsto> GInt 2] [(''a'', ''same:b'')]
     in applyRule lib ''a'' (GInt 1) True ''same'' ''b'' v = v"
  using assms by (simp add: applyRule_def complain_def toString_or_def toString_def data_get_def NewValidator_def)

text \<open>The rules of a field are split at every bar, also inside a regular expression.\<close>

lemma regex_split_at_bar: "split_by (CHR ''|'') ''regex:^(a|b)$'' = [''regex:^(a'', ''b)$'']"
  by code_simp

text \<open>A minimum that is no number is the minimum 0.\<close>

lemma min_ignores_bad_parameter: "validateMin ''a'' (GStr ''x'') ''ten'' v = v"
proof -
  have "atoi_value ''ten'' = 0" by code_simp
  then show ?thesis by (simp add: validateMin_def)
qed

section \<open>Properties\<close>



end
