(* ===== verification/HttpContext.thy ===== *)
theory HttpContext
  imports GoPrelude
begin

text \<open>
  Package http: the request context (\<^verbatim>\<open>context.go\<close>, \<^verbatim>\<open>proxy.go\<close>, the cookie helpers of
  \<^verbatim>\<open>extra.go\<close>). The first part is the data: the request, the response the writer has sent so far
  and the context around them. The second part is the handler chain, a small machine: a handler
  is a program of steps on the context which may call \<^verbatim>\<open>Next\<close>, \<^verbatim>\<open>Abort\<close>, panic and recover, and
  the loop of \<^verbatim>\<open>Next\<close> runs the chain from the context's index. The ghost field \<open>started\<close> lists the
  handlers in the order the loop started them.
\<close>

unbundle bit_operations_syntax

section \<open>The request\<close>

record request =
  req_method :: string
  req_path :: string
  req_uri :: string
  req_host :: string
  req_tls :: bool
  req_header :: "string \<rightharpoonup> string"
  req_query :: "string \<rightharpoonup> string list"
  req_form :: "string \<rightharpoonup> string"
  req_cookie :: "string \<rightharpoonup> string"
  req_remote :: string
  req_body :: string
  req_body_err :: "string option"

text \<open>Header names compare without regard to case: \<^verbatim>\<open>net/http\<close> canonicalises them on every access.\<close>

definition header_get :: "(string \<rightharpoonup> string) \<Rightarrow> string \<Rightarrow> string" where
  "header_get h k = (case h (to_lower k) of None \<Rightarrow> [] | Some v \<Rightarrow> v)"

definition header_set :: "string \<Rightarrow> string \<Rightarrow> (string \<rightharpoonup> string) \<Rightarrow> (string \<rightharpoonup> string)" where
  "header_set k v h = h(to_lower k \<mapsto> v)"

lemma header_get_set [simp]:
  "header_get (header_set k v h) k' = (if to_lower k' = to_lower k then v else header_get h k')"
  by (simp add: header_get_def header_set_def)

section \<open>The response writer\<close>

text \<open>
  The base writer keeps the header map, what was sent (the status and the headers at that moment)
  and the body; a second \<^verbatim>\<open>WriteHeader\<close> is ignored and a \<^verbatim>\<open>Write\<close> before any sends status 200,
  as net/http does. A JSON body is kept as the value that was encoded, a gzip stream as the chunks
  it was made of. Middleware wraps the writer: \<open>StatusW\<close> records the status it forwards, \<open>HeadW\<close>
  drops the body, \<open>GzipW k\<close> gives the body to the \<open>k\<close>-th compressor of the response. A compressor that
  was not closed keeps the chunks it was given; its first write sends the header of the gzip format to the
  writer below. A closed one drops what it is given.
\<close>

datatype chunk = Bytes string | Json goval | GzipStream "chunk list"

record cookie =
  ck_name :: string
  ck_value :: string
  ck_path :: string
  ck_max_age :: int
  ck_http_only :: bool
  ck_secure :: bool
  ck_lax :: bool

record response =
  headers :: "string \<rightharpoonup> string"
  set_cookies :: "cookie list"
  sent :: "(int \<times> (string \<rightharpoonup> string)) option"
  out :: "chunk list"
  gzs :: "chunk list option list"

datatype wrapper = StatusW int | HeadW | GzipW nat

definition base_write_header :: "int \<Rightarrow> response \<Rightarrow> response" where
  "base_write_header code r =
     (case sent r of None \<Rightarrow> r\<lparr>sent := Some (code, headers r)\<rparr> | Some _ \<Rightarrow> r)"

definition base_write :: "chunk \<Rightarrow> response \<Rightarrow> response" where
  "base_write b r = (let r' = base_write_header 200 r in r'\<lparr>out := out r' @ [b]\<rparr>)"

fun writer_write_header :: "int \<Rightarrow> wrapper list \<Rightarrow> response \<Rightarrow> wrapper list \<times> response" where
  "writer_write_header code [] r = ([], base_write_header code r)"
| "writer_write_header code (StatusW _ # ws) r =
     (let (ws', r') = writer_write_header code ws r in (StatusW code # ws', r'))"
| "writer_write_header code (HeadW # ws) r =
     (let (ws', r') = writer_write_header code ws r in (HeadW # ws', r'))"
| "writer_write_header code (GzipW k # ws) r =
     (let (ws', r') = writer_write_header code ws (r\<lparr>headers := (headers r)(to_lower ''Content-Length'' := None)\<rparr>)
      in (GzipW k # ws', r'))"

text \<open>A write of a compressor to the writer below: it sends the status if that is not sent, and its bytes are part of the stream.\<close>

fun writer_touch :: "wrapper list \<Rightarrow> response \<Rightarrow> response" where
  "writer_touch [] r = base_write_header 200 r"
| "writer_touch (StatusW _ # ws) r = writer_touch ws r"
| "writer_touch (HeadW # ws) r = r"
| "writer_touch (GzipW k # ws) r = (case gzs r ! k of None \<Rightarrow> r | Some _ \<Rightarrow> writer_touch ws r)"

fun writer_write :: "chunk \<Rightarrow> wrapper list \<Rightarrow> response \<Rightarrow> response" where
  "writer_write b [] r = base_write b r"
| "writer_write b (StatusW _ # ws) r = writer_write b ws r"
| "writer_write b (HeadW # ws) r = r"
| "writer_write b (GzipW k # ws) r =
     (case gzs r ! k of
        None \<Rightarrow> r
      | Some bs \<Rightarrow> let r' = writer_touch ws r in r'\<lparr>gzs := (gzs r')[k := Some (bs @ [b])]\<rparr>)"

section \<open>The context\<close>

text \<open>A network is its number and mask (4 or 16 bytes), as \<^verbatim>\<open>net.IPNet\<close>.\<close>

record ipnet =
  net_number :: "nat list"
  net_mask :: "nat list"

datatype body_error = ErrBodyTooLarge | ErrRead string

record ctx =
  req :: request
  params :: "string \<rightharpoonup> string"
  store :: "string \<rightharpoonup> goval"
  writer :: "wrapper list"
  resp :: response
  is_written :: bool
  status :: int
  body_once :: "(body_error + string) option"
  trust_all :: bool
  trusted :: "ipnet list"

definition empty_response :: response where
  "empty_response = \<lparr>headers = Map.empty, set_cookies = [], sent = None, out = [], gzs = []\<rparr>"

definition new_context :: "request \<Rightarrow> ctx" where
  "new_context r =
     \<lparr>req = r, params = Map.empty, store = Map.empty, writer = [], resp = empty_response,
      is_written = False, status = 200, body_once = None, trust_all = False, trusted = []\<rparr>"

subsection \<open>Input\<close>

definition first_string :: "string list \<Rightarrow> string \<Rightarrow> string" where
  "first_string fallback v = (if v = [] then (case fallback of [] \<Rightarrow> v | f # _ \<Rightarrow> f) else v)"

definition Param :: "ctx \<Rightarrow> string \<Rightarrow> string" where
  "Param c key = (case params c key of None \<Rightarrow> [] | Some v \<Rightarrow> v)"

definition ParamInt :: "ctx \<Rightarrow> string \<Rightarrow> int" where
  "ParamInt c key = atoi_value (Param c key)"

definition query_get :: "ctx \<Rightarrow> string \<Rightarrow> string" where
  "query_get c key = (case req_query (req c) key of Some (v # _) \<Rightarrow> v | _ \<Rightarrow> [])"

definition Query :: "ctx \<Rightarrow> string \<Rightarrow> string list \<Rightarrow> string" where
  "Query c key fallback = first_string fallback (query_get c key)"

definition QueryInt :: "ctx \<Rightarrow> string \<Rightarrow> int list \<Rightarrow> int" where
  "QueryInt c key fallback =
     (let v = query_get c key in
      if v = [] then (case fallback of [] \<Rightarrow> 0 | f # _ \<Rightarrow> f)
      else case atoi v of
             Inr i \<Rightarrow> i
           | Inl _ \<Rightarrow> (case fallback of [] \<Rightarrow> atoi_value v | f # _ \<Rightarrow> f))"

definition QueryValues :: "ctx \<Rightarrow> string \<Rightarrow> string list" where
  "QueryValues c key = (case req_query (req c) key of None \<Rightarrow> [] | Some vs \<Rightarrow> vs)"

definition PostForm :: "ctx \<Rightarrow> string \<Rightarrow> string list \<Rightarrow> string" where
  "PostForm c key fallback =
     first_string fallback (case req_form (req c) key of None \<Rightarrow> [] | Some v \<Rightarrow> v)"

definition max_body_size :: nat where
  "max_body_size = 10485760"

text \<open>
  \<^verbatim>\<open>io.ReadAll(io.LimitReader(body, maxBodySize+1))\<close>: a read error is seen only if the limit is
  not reached first. The once-flag keeps the first result.
\<close>

definition read_body :: "ctx \<Rightarrow> (body_error + string) \<times> ctx" where
  "read_body c =
     (case body_once c of
        Some r \<Rightarrow> (r, c)
      | None \<Rightarrow>
          (let b = req_body (req c);
               r = (if length b \<ge> max_body_size + 1 then Inl ErrBodyTooLarge
                    else case req_body_err (req c) of Some e \<Rightarrow> Inl (ErrRead e) | None \<Rightarrow> Inr b)
           in (r, c\<lparr>body_once := Some r\<rparr>)))"

definition Body :: "ctx \<Rightarrow> (body_error + string) \<times> ctx" where
  "Body c = read_body c"

definition IsWritten :: "ctx \<Rightarrow> bool" where
  "IsWritten c = is_written c"

text \<open>\<open>form_file\<close> is \<^verbatim>\<open>Request.FormFile\<close>.\<close>

definition FormFile :: "(request \<Rightarrow> string \<Rightarrow> string + 'f) \<Rightarrow> ctx \<Rightarrow> string \<Rightarrow> string + 'f" where
  "FormFile form_file c key = form_file (req c) key"

definition FullURL :: "ctx \<Rightarrow> string" where
  "FullURL c = (if req_tls (req c) then ''https'' else ''http'') @ ''://'' @ req_host (req c) @ req_uri (req c)"

definition Header :: "ctx \<Rightarrow> string \<Rightarrow> string" where
  "Header c key = header_get (req_header (req c)) key"

definition IsJSON :: "ctx \<Rightarrow> bool" where
  "IsJSON c = contains (Header c ''Content-Type'') ''application/json''"

definition IsMethod :: "ctx \<Rightarrow> string \<Rightarrow> bool" where
  "IsMethod c m \<longleftrightarrow> to_lower (req_method (req c)) = to_lower m"

definition Cookie :: "ctx \<Rightarrow> string \<Rightarrow> string option" where
  "Cookie c name = req_cookie (req c) name"

subsection \<open>Proxy trust\<close>

definition SetProxyTrust :: "bool \<Rightarrow> ipnet list \<Rightarrow> ctx \<Rightarrow> ctx" where
  "SetProxyTrust all nets c = c\<lparr>trust_all := all, trusted := nets\<rparr>"

text \<open>\<^verbatim>\<open>net.SplitHostPort\<close>; \<^const>\<open>None\<close> is its error.\<close>

definition split_host_port :: "string \<Rightarrow> (string \<times> string) option" where
  "split_host_port hp =
     (case index_byte (rev hp) (CHR '':'') of
        None \<Rightarrow> None
      | Some r \<Rightarrow>
          (let i = length hp - Suc r;
               fin = (\<lambda>host j k.
                 if CHR ''['' \<in> set (drop j hp) \<or> CHR '']'' \<in> set (drop k hp) then None
                 else Some (host, drop (Suc i) hp))
           in if hd hp = CHR ''[''
              then (case index_byte hp (CHR '']'') of
                      None \<Rightarrow> None
                    | Some e \<Rightarrow> if Suc e = i then fin (drop 1 (take e hp)) 1 (Suc e) else None)
              else let host = take i hp in
                   if CHR '':'' \<in> set host then None else fin host 0 0))"

definition remote_ip :: "ctx \<Rightarrow> string" where
  "remote_ip c =
     (case split_host_port (req_remote (req c)) of
        None \<Rightarrow> req_remote (req c)
      | Some (ip, _) \<Rightarrow> ip)"

text \<open>\<^verbatim>\<open>IP.To4\<close> (identity on an address that is not IPv4) and \<^verbatim>\<open>IPNet.Contains\<close>.\<close>

definition to4 :: "nat list \<Rightarrow> nat list" where
  "to4 ip = (if length ip = 16 \<and> take 10 ip = replicate 10 0 \<and> ip ! 10 = 255 \<and> ip ! 11 = 255
             then drop 12 ip else ip)"

definition ipnet_contains :: "ipnet \<Rightarrow> nat list \<Rightarrow> bool" where
  "ipnet_contains n ip =
     (let x = to4 ip in
      length x = length (net_number n) \<and> length x = length (net_mask n) \<and>
      list_all (\<lambda>(b, p, m). b AND m = p AND m) (zip x (zip (net_number n) (net_mask n))))"

text \<open>\<^verbatim>\<open>net.ParseIP\<close> is the argument \<open>parse_ip\<close>.\<close>

definition is_trusted_proxy :: "(string \<Rightarrow> nat list option) \<Rightarrow> ctx \<Rightarrow> string \<Rightarrow> bool" where
  "is_trusted_proxy parse_ip c ip =
     (if trust_all c then True
      else case parse_ip ip of
             None \<Rightarrow> False
           | Some parsed \<Rightarrow> list_ex (\<lambda>n. ipnet_contains n parsed) (trusted c))"

definition ClientIP :: "(string \<Rightarrow> nat list option) \<Rightarrow> ctx \<Rightarrow> string" where
  "ClientIP parse_ip c =
     (let remote = remote_ip c in
      if is_trusted_proxy parse_ip c remote then
        (let forwarded = Header c ''X-Forwarded-For'' in
         if forwarded \<noteq> [] then trim_space (hd (split2 (CHR '','') forwarded))
         else let real = Header c ''X-Real-IP'' in
              if real \<noteq> [] then trim_space real else remote)
      else remote)"

subsection \<open>Store and response\<close>

definition Set :: "string \<Rightarrow> goval \<Rightarrow> ctx \<Rightarrow> ctx" where
  "Set key v c = c\<lparr>store := (store c)(key \<mapsto> v)\<rparr>"

definition Get :: "ctx \<Rightarrow> string \<Rightarrow> goval option" where
  "Get c key = store c key"

definition Status :: "int \<Rightarrow> ctx \<Rightarrow> ctx" where
  "Status n c = c\<lparr>status := n\<rparr>"

definition StatusCode :: "ctx \<Rightarrow> int" where
  "StatusCode c = (if status c = 0 then 200 else status c)"

definition SetHeader :: "string \<Rightarrow> string \<Rightarrow> ctx \<Rightarrow> ctx" where
  "SetHeader key v c = c\<lparr>resp := (resp c)\<lparr>headers := header_set key v (headers (resp c))\<rparr>\<rparr>"

definition write_header :: "int \<Rightarrow> ctx \<Rightarrow> ctx" where
  "write_header n c =
     (let (ws, r) = writer_write_header n (writer c) (resp c) in c\<lparr>writer := ws, resp := r\<rparr>)"

definition write_body :: "chunk \<Rightarrow> ctx \<Rightarrow> ctx" where
  "write_body b c = c\<lparr>resp := writer_write b (writer c) (resp c)\<rparr>"

definition respond :: "int \<Rightarrow> string \<Rightarrow> chunk \<Rightarrow> ctx \<Rightarrow> ctx" where
  "respond n ctype b c =
     write_body b ((write_header n (SetHeader ''Content-Type'' ctype c))\<lparr>is_written := True\<rparr>)"

definition JSON :: "int \<Rightarrow> goval \<Rightarrow> ctx \<Rightarrow> ctx" where
  "JSON n obj c = respond n ''application/json; charset=utf-8'' (Json obj) c"

definition OK :: "goval \<Rightarrow> ctx \<Rightarrow> ctx" where
  "OK obj c = JSON 200 obj c"

definition Success :: "goval \<Rightarrow> ctx \<Rightarrow> ctx" where
  "Success d c = JSON 200 (GMap [(''code'', GInt 0), (''message'', GStr ''ok''), (''data'', d)]) c"

definition error_json :: "int \<Rightarrow> string \<Rightarrow> goval" where
  "error_json n message = GMap [(''code'', GInt n), (''message'', GStr message)]"

definition Error :: "int \<Rightarrow> string \<Rightarrow> ctx \<Rightarrow> ctx" where
  "Error n message c = JSON n (error_json n message) c"

text \<open>\<open>text\<close> is the formatted string.\<close>

definition String :: "int \<Rightarrow> string \<Rightarrow> ctx \<Rightarrow> ctx" where
  "String n txt c = respond n ''text/plain; charset=utf-8'' (Bytes txt) c"

definition HTML :: "int \<Rightarrow> string \<Rightarrow> ctx \<Rightarrow> ctx" where
  "HTML n html c = respond n ''text/html; charset=utf-8'' (Bytes html) c"

definition Data :: "int \<Rightarrow> string \<Rightarrow> string \<Rightarrow> ctx \<Rightarrow> ctx" where
  "Data n ctype bs c = respond n ctype (Bytes bs) c"

definition NoContent :: "ctx \<Rightarrow> ctx" where
  "NoContent c = (write_header 204 c)\<lparr>is_written := True\<rparr>"

definition SetCookie :: "cookie \<Rightarrow> ctx \<Rightarrow> ctx" where
  "SetCookie ck c = c\<lparr>resp := (resp c)\<lparr>set_cookies := set_cookies (resp c) @ [ck]\<rparr>\<rparr>"

text \<open>\<^verbatim>\<open>ExpireCookie\<close> also sends an Expires date in the past, which the maximal age -1 makes redundant.\<close>

definition ExpireCookie :: "string \<Rightarrow> ctx \<Rightarrow> ctx" where
  "ExpireCookie name c =
     SetCookie \<lparr>ck_name = name, ck_value = [], ck_path = ''/'', ck_max_age = -1, ck_http_only = True,
                ck_secure = False, ck_lax = False\<rparr> c"

section \<open>The handler chain\<close>

text \<open>
  A handler is a program: straight-line code (\<open>Do\<close>), code that depends on the context
  (\<open>Dyn\<close>, which also binds local variables), the calls of the context's flow methods, a panic,
  and a call of \<^verbatim>\<open>Next\<close> under a deferred recover (\<open>NextRecover\<close>: on a panic the first
  continuation runs, else the second).
\<close>

datatype handler =
    Done
  | Do "ctx \<Rightarrow> ctx" handler
  | Dyn "ctx \<Rightarrow> handler"
  | Next handler
  | Abort handler
  | Panic goval
  | NextRecover "goval \<Rightarrow> handler" handler

record chain =
  index :: int
  cx :: ctx
  started :: "nat list"

datatype outcome = Ret chain | Panicked goval chain | OutOfFuel

text \<open>One handler, given what a call of \<^verbatim>\<open>Next\<close> does and the number of handlers of the chain.\<close>

primrec run_handler :: "(chain \<Rightarrow> outcome) \<Rightarrow> nat \<Rightarrow> handler \<Rightarrow> chain \<Rightarrow> outcome" where
  "run_handler nx n Done = (\<lambda>s. Ret s)"
| "run_handler nx n (Do f h) = (\<lambda>s. run_handler nx n h (s\<lparr>cx := f (cx s)\<rparr>))"
| "run_handler nx n (Dyn g) = (\<lambda>s. run_handler nx n (g (cx s)) s)"
| "run_handler nx n (Next h) =
     (\<lambda>s. case nx s of
            Ret s' \<Rightarrow> run_handler nx n h s'
          | Panicked v s' \<Rightarrow> Panicked v s'
          | OutOfFuel \<Rightarrow> OutOfFuel)"
| "run_handler nx n (Abort h) = (\<lambda>s. run_handler nx n h (s\<lparr>index := int n\<rparr>))"
| "run_handler nx n (Panic v) = (\<lambda>s. Panicked v s)"
| "run_handler nx n (NextRecover r h) =
     (\<lambda>s. case nx s of
            Ret s' \<Rightarrow> run_handler nx n h s'
          | Panicked v s' \<Rightarrow> run_handler nx n (r v) s'
          | OutOfFuel \<Rightarrow> OutOfFuel)"

text \<open>
  The loop of \<^verbatim>\<open>Next\<close>: while the index is inside the chain, run that handler and step the index.
  A handler's own call of \<^verbatim>\<open>Next\<close> steps the index first. Every started handler spends one unit of
  fuel; \<open>next_loop_fuel\<close> below shows that the number of handlers left is enough.
\<close>

fun next_loop :: "nat \<Rightarrow> handler list \<Rightarrow> chain \<Rightarrow> outcome" where
  "next_loop fuel hs s =
     (if 0 \<le> index s \<and> index s < int (length hs) then
        (case fuel of
           0 \<Rightarrow> OutOfFuel
         | Suc k \<Rightarrow>
             (let i = nat (index s);
                  nx = (\<lambda>s. next_loop k hs (s\<lparr>index := index s + 1\<rparr>))
              in case run_handler nx (length hs) (hs ! i) (s\<lparr>started := started s @ [i]\<rparr>) of
                   Ret s' \<Rightarrow> next_loop k hs (s'\<lparr>index := index s' + 1\<rparr>)
                 | Panicked v s' \<Rightarrow> Panicked v s'
                 | OutOfFuel \<Rightarrow> OutOfFuel))
      else Ret s)"

declare next_loop.simps [simp del]

definition call_next :: "handler list \<Rightarrow> chain \<Rightarrow> outcome" where
  "call_next hs s = next_loop (Suc (length hs)) hs (s\<lparr>index := index s + 1\<rparr>)"

text \<open>\<^verbatim>\<open>SetHandlers\<close> on a fresh context followed by \<^verbatim>\<open>Next\<close>, as the router does.\<close>

definition run_chain :: "handler list \<Rightarrow> ctx \<Rightarrow> outcome" where
  "run_chain hs c = call_next hs \<lparr>index = -1, cx = c, started = []\<rparr>"

definition AbortWithStatus :: "int \<Rightarrow> handler \<Rightarrow> handler" where
  "AbortWithStatus n h = Do (Status n) (Abort h)"

definition AbortWithJSON :: "int \<Rightarrow> goval \<Rightarrow> handler \<Rightarrow> handler" where
  "AbortWithJSON n obj h = Do (JSON n obj) (Abort h)"

text \<open>\<^verbatim>\<open>MustGet\<close> panics on a missing key.\<close>

definition MustGet :: "string \<Rightarrow> (goval \<Rightarrow> handler) \<Rightarrow> handler" where
  "MustGet key k =
     Dyn (\<lambda>c. case Get c key of
                Some v \<Rightarrow> k v
              | None \<Rightarrow> Panic (GStr (''gai: key \"'' @ key @ ''\" not found in context'')))"

section \<open>Properties of the chain\<close>

text \<open>
  One relation describes every run of a part of the chain: the index does not fall below where it
  was (capped by the length of the chain, where \<^verbatim>\<open>Abort\<close> puts it), and the handlers started in
  between are new, in increasing order, and at most the index reached.
\<close>

definition advances :: "nat \<Rightarrow> chain \<Rightarrow> chain \<Rightarrow> bool" where
  "advances n s s' \<longleftrightarrow>
     min (index s) (int n) \<le> index s' \<and>
     (\<exists>new. started s' = started s @ new \<and> sorted_wrt (<) new \<and>
            (\<forall>e\<in>set new. index s < int e \<and> int e \<le> index s' \<and> e < n))"

definition ok_outcome :: "nat \<Rightarrow> chain \<Rightarrow> outcome \<Rightarrow> bool" where
  "ok_outcome n s r =
     (case r of Ret s' \<Rightarrow> advances n s s' | Panicked v s' \<Rightarrow> advances n s s' | OutOfFuel \<Rightarrow> False)"

lemma ok_outcome_simps [simp]:
  "ok_outcome n s (Ret s') = advances n s s'"
  "ok_outcome n s (Panicked v s') = advances n s s'"
  "ok_outcome n s OutOfFuel = False"
  by (simp_all add: ok_outcome_def)

lemma advances_refl [simp]: "advances n s s"
  by (auto simp: advances_def)

lemma advances_abort [simp]: "advances n s (s\<lparr>index := int n\<rparr>)"
  by (auto simp: advances_def)

lemma advances_cx [simp]: "advances n s (s'\<lparr>cx := c\<rparr>) = advances n s s'"
  "advances n (s\<lparr>cx := c\<rparr>) s' = advances n s s'"
  by (auto simp: advances_def)

lemma advances_index:
  "advances n s s' \<Longrightarrow> lo \<le> index s \<Longrightarrow> lo \<le> int n \<Longrightarrow> lo \<le> index s'"
  by (auto simp: advances_def)

lemma advances_trans:
  assumes "advances n s t" and "advances n t u"
  shows "advances n s u"
proof -
  from assms obtain xs ys where
    xs: "started t = started s @ xs" "sorted_wrt (<) xs"
      "\<And>e. e \<in> set xs \<Longrightarrow> index s < int e \<and> int e \<le> index t \<and> e < n" and
    ys: "started u = started t @ ys" "sorted_wrt (<) ys"
      "\<And>e. e \<in> set ys \<Longrightarrow> index t < int e \<and> int e \<le> index u \<and> e < n"
    and le: "min (index s) (int n) \<le> index t" "min (index t) (int n) \<le> index u"
    by (auto simp: advances_def)
  have "sorted_wrt (<) (xs @ ys)"
    using xs ys by (force simp: sorted_wrt_append)
  moreover have "\<forall>e\<in>set (xs @ ys). index s < int e \<and> int e \<le> index u \<and> e < n"
    using xs(3) ys(3) le by fastforce
  moreover have "min (index s) (int n) \<le> index u" using le by auto
  ultimately show ?thesis using xs(1) ys(1) unfolding advances_def by (metis append.assoc)
qed

lemma ok_outcome_trans:
  "advances n s t \<Longrightarrow> ok_outcome n t r \<Longrightarrow> ok_outcome n s r"
  by (cases r) (auto intro: advances_trans)

lemma advances_start:
  assumes "0 \<le> index s" and "index s < int n"
  shows "advances n (s\<lparr>index := index s - 1\<rparr>) (s\<lparr>started := started s @ [nat (index s)]\<rparr>)"
  using assms by (auto simp: advances_def)

lemma run_handler_ok:
  assumes nx: "\<And>t. lo \<le> index t \<Longrightarrow> ok_outcome n t (nx t)"
    and "lo \<le> index s" and "lo \<le> int n"
  shows "ok_outcome n s (run_handler nx n h s)"
  using assms(2)
proof (induction h arbitrary: s)
  case (Do f h)
  then show ?case using ok_outcome_trans [of n s "s\<lparr>cx := f (cx s)\<rparr>"] by simp
next
  case (Next h)
  have ok: "ok_outcome n s (nx s)" using nx Next.prems by blast
  then show ?case
    using Next.IH [OF advances_index [OF _ Next.prems assms(3)]]
    by (auto split: outcome.splits intro: ok_outcome_trans)
next
  case (Abort h)
  then show ?case using assms(3) ok_outcome_trans [OF advances_abort] by simp
next
  case (NextRecover r h)
  have ok: "ok_outcome n s (nx s)" using nx NextRecover.prems by blast
  then show ?case
    using NextRecover.IH(1) [OF _ advances_index [OF _ NextRecover.prems assms(3)]]
      NextRecover.IH(2) [OF advances_index [OF _ NextRecover.prems assms(3)]]
    by (auto split: outcome.splits intro: ok_outcome_trans)
qed simp_all

lemma next_loop_fuel:
  assumes "0 \<le> index s" and "int (length hs) - index s \<le> int fuel"
  shows "ok_outcome (length hs) (s\<lparr>index := index s - 1\<rparr>) (next_loop fuel hs s)"
  using assms
proof (induction fuel arbitrary: s)
  case 0
  then show ?case by (auto simp: next_loop.simps [of 0] advances_def)
next
  case (Suc k)
  let ?n = "length hs"
  show ?case
  proof (cases "index s < int ?n")
    case in_range: True
    define nx where "nx = (\<lambda>s. next_loop k hs (s\<lparr>index := index s + 1\<rparr>))"
    let ?s1 = "s\<lparr>started := started s @ [nat (index s)]\<rparr>"
    have nx: "ok_outcome ?n t (nx t)" if "index s \<le> index t" for t
      using Suc.IH [of "t\<lparr>index := index t + 1\<rparr>"] Suc.prems that by (simp add: nx_def)
    have run: "ok_outcome ?n ?s1 (run_handler nx ?n (hs ! nat (index s)) ?s1)"
      by (rule run_handler_ok [where lo = "index s"]) (use nx in_range in auto)
    have rest: "ok_outcome ?n s' (next_loop k hs (s'\<lparr>index := index s' + 1\<rparr>))"
      if "advances ?n ?s1 s'" for s'
      using nx [unfolded nx_def] advances_index [OF that, of "index s"] in_range by simp
    have "ok_outcome ?n ?s1 (next_loop (Suc k) hs s)"
      using run rest in_range Suc.prems
      by (auto simp: next_loop.simps [of "Suc k"] nx_def [symmetric] Let_def
          split: outcome.splits intro: ok_outcome_trans)
    with advances_start [of s ?n] in_range Suc.prems show ?thesis
      by (blast intro: ok_outcome_trans)
  next
    case False
    then show ?thesis by (auto simp: next_loop.simps [of "Suc k"] advances_def)
  qed
qed

lemma call_next_ok:
  "-1 \<le> index s \<Longrightarrow> ok_outcome (length hs) s (call_next hs s)"
  using next_loop_fuel [of "s\<lparr>index := index s + 1\<rparr>" hs "Suc (length hs)"]
  by (simp add: call_next_def)

text \<open>The result does not depend on the fuel, once it is enough.\<close>

lemma run_handler_cong:
  assumes eq: "\<And>t. lo \<le> index t \<Longrightarrow> nx t = nx' t"
    and nx: "\<And>t. lo \<le> index t \<Longrightarrow> ok_outcome n t (nx t)"
    and "lo \<le> index s" and "lo \<le> int n"
  shows "run_handler nx n h s = run_handler nx' n h s"
  using assms(3)
proof (induction h arbitrary: s)
  case (Next h)
  have "ok_outcome n s (nx s)" using nx Next.prems by blast
  then show ?case
    using Next.IH [OF advances_index [OF _ Next.prems assms(4)]] eq [OF Next.prems]
    by (auto split: outcome.splits)
next
  case (NextRecover r h)
  have "ok_outcome n s (nx s)" using nx NextRecover.prems by blast
  then show ?case
    using NextRecover.IH(1) [OF _ advances_index [OF _ NextRecover.prems assms(4)]]
      NextRecover.IH(2) [OF advances_index [OF _ NextRecover.prems assms(4)]]
      eq [OF NextRecover.prems]
    by (auto split: outcome.splits)
qed (use assms(4) in simp_all)

lemma next_loop_fuel_irrelevant:
  assumes "0 \<le> index s" and "int (length hs) - index s \<le> int k" and "k \<le> m"
  shows "next_loop m hs s = next_loop k hs s"
  using assms
proof (induction k arbitrary: s m)
  case 0
  then show ?case by (simp add: next_loop.simps [of _ hs s])
next
  case (Suc k)
  then obtain l where m: "m = Suc l" and kl: "k \<le> l" by (cases m) auto
  let ?n = "length hs" and ?nx = "\<lambda>j s. next_loop j hs (s\<lparr>index := index s + 1\<rparr>)"
  show ?case
  proof (cases "index s < int ?n")
    case True
    have eq: "?nx l t = ?nx k t" if "index s \<le> index t" for t
      using Suc.IH [of "t\<lparr>index := index t + 1\<rparr>" l] Suc.prems that kl by simp
    have ok: "ok_outcome ?n t (?nx l t)" if "index s \<le> index t" for t
      using next_loop_fuel [of "t\<lparr>index := index t + 1\<rparr>" hs l] Suc.prems that kl by simp
    let ?s1 = "s\<lparr>started := started s @ [nat (index s)]\<rparr>"
    have run: "run_handler (?nx l) ?n h ?s1 = run_handler (?nx k) ?n h ?s1" for h
      by (rule run_handler_cong [where lo = "index s"]) (use eq ok True in auto)
    have "ok_outcome ?n ?s1 (run_handler (?nx l) ?n (hs ! nat (index s)) ?s1)"
      by (rule run_handler_ok [where lo = "index s"]) (use ok True in auto)
    then show ?thesis
      using eq advances_index [where lo = "index s" and s = ?s1] True Suc.prems(1)
      by (auto simp: next_loop.simps [of "Suc k"] next_loop.simps [of "Suc l"] m Let_def run
          split: outcome.splits)
  next
    case False
    then show ?thesis by (simp add: next_loop.simps [of _ hs s])
  qed
qed

text \<open>The equation of the source: the loop, with \<^verbatim>\<open>Next\<close> itself as what the handlers call.\<close>

lemma next_loop_unfold:
  assumes "0 \<le> index t"
  shows "next_loop (Suc (length hs)) hs t =
     (if index t < int (length hs)
      then case run_handler (call_next hs) (length hs) (hs ! nat (index t))
                  (t\<lparr>started := started t @ [nat (index t)]\<rparr>) of
             Ret s' \<Rightarrow> call_next hs s'
           | r \<Rightarrow> r
      else Ret t)"
proof (cases "index t < int (length hs)")
  case True
  let ?n = "length hs" and ?s1 = "t\<lparr>started := started t @ [nat (index t)]\<rparr>"
  let ?nx = "\<lambda>s. next_loop ?n hs (s\<lparr>index := index s + 1\<rparr>)"
  have eq: "call_next hs s = ?nx s" if "index t \<le> index s" for s
    unfolding call_next_def
    by (rule next_loop_fuel_irrelevant) (use assms that in auto)
  have ok: "ok_outcome ?n s (call_next hs s)" if "index t \<le> index s" for s
    using call_next_ok assms that by simp
  have run: "run_handler (call_next hs) ?n h ?s1 = run_handler ?nx ?n h ?s1" for h
    by (rule run_handler_cong [where lo = "index t"]) (use eq ok True in auto)
  have "ok_outcome ?n ?s1 (run_handler (call_next hs) ?n (hs ! nat (index t)) ?s1)"
    by (rule run_handler_ok [where lo = "index t"]) (use ok True in auto)
  then show ?thesis
    using eq advances_index [where lo = "index t" and s = ?s1] True assms
    by (auto simp: next_loop.simps [of "Suc ?n"] Let_def run split: outcome.splits)
qed (simp add: next_loop.simps [of _ hs t])

text \<open>A first handler that aborts is the only one that starts.\<close>

lemma first_handler_aborts:
  assumes "run_handler (call_next (h # hs)) (length (h # hs)) h \<lparr>index = 0, cx = c, started = [0]\<rparr> =
      Ret \<lparr>index = int (length (h # hs)), cx = c', started = [0]\<rparr>"
  shows "run_chain (h # hs) c = Ret \<lparr>index = int (length (h # hs)) + 1, cx = c', started = [0]\<rparr>"
  using next_loop_unfold [of "\<lparr>index = 0, cx = c, started = []\<rparr>" "h # hs"] assms
  by (simp add: run_chain_def call_next_def [of "h # hs" "\<lparr>index = - 1, cx = c, started = []\<rparr>"])
    (simp add: call_next_def next_loop.simps)

lemma sent_write_header: "sent r = None \<Longrightarrow> \<exists>h. sent (snd (writer_write_header n ws r)) = Some (n, h)"
  by (induction n ws r rule: writer_write_header.induct)
    (auto simp: base_write_header_def split: prod.splits)

lemma sent_touch: "sent r = Some x \<Longrightarrow> sent (writer_touch ws r) = Some x"
  by (induction ws r rule: writer_touch.induct) (auto simp: base_write_header_def split: option.split)

lemma sent_write: "sent r = Some x \<Longrightarrow> sent (writer_write b ws r) = Some x"
  by (induction b ws r rule: writer_write.induct)
    (auto simp: base_write_def base_write_header_def Let_def sent_touch split: option.split)

lemma sent_JSON:
  assumes "sent (resp c) = None"
  shows "\<exists>h. sent (resp (JSON n obj c)) = Some (n, h)"
proof -
  let ?c = "write_header n (SetHeader ''Content-Type'' ''application/json; charset=utf-8'' c)"
  have "\<exists>h. sent (resp ?c) = Some (n, h)"
    using assms sent_write_header by (simp add: write_header_def SetHeader_def case_prod_unfold Let_def)
  then show ?thesis using sent_write by (fastforce simp: JSON_def respond_def write_body_def)
qed

text \<open>
  Property C2: running a chain always ends, normally or by a panic, and it starts each
  handler at most once, in the order of the chain, whatever the handlers do with \<^verbatim>\<open>Next\<close>, \<^verbatim>\<open>Abort\<close>,
  panics and recovers.
\<close>

theorem run_chain_ordered:
  "\<exists>s. (run_chain hs c = Ret s \<or> (\<exists>v. run_chain hs c = Panicked v s)) \<and>
       sorted_wrt (<) (started s) \<and> set (started s) \<subseteq> {0..<length hs}"
proof -
  have "ok_outcome (length hs) \<lparr>index = -1, cx = c, started = []\<rparr> (run_chain hs c)"
    unfolding run_chain_def by (rule call_next_ok) simp
  then show ?thesis by (cases "run_chain hs c") (auto simp: advances_def)
qed

text \<open>
  Property C3: after \<^verbatim>\<open>Abort\<close> no further handler starts. Whatever code follows the call in the
  aborting handler, calls of \<^verbatim>\<open>Next\<close> included, the list of started handlers stays as it is, and the
  index stays outside the chain, so the loops of the callers stop too.
\<close>

theorem abort_stops_chain:
  assumes "-1 \<le> index s"
    and "run_handler (call_next hs) (length hs) (Abort h) s = r"
  shows "\<exists>s'. (r = Ret s' \<or> (\<exists>v. r = Panicked v s')) \<and>
           started s' = started s \<and> int (length hs) \<le> index s'"
proof -
  let ?t = "s\<lparr>index := int (length hs)\<rparr>"
  have "ok_outcome (length hs) ?t (run_handler (call_next hs) (length hs) h ?t)"
    by (rule run_handler_ok [where lo = 0]) (auto intro: call_next_ok)
  with assms(2) have ok: "ok_outcome (length hs) ?t r" by simp
  have "started s' = started s \<and> int (length hs) \<le> index s'" if "advances (length hs) ?t s'" for s'
  proof -
    from that obtain new where new: "started s' = started s @ new"
      "\<forall>e\<in>set new. length hs < e \<and> e < length hs" "int (length hs) \<le> index s'"
      by (auto simp: advances_def)
    then have "new = []" by (cases new) auto
    with new show ?thesis by simp
  qed
  with ok show ?thesis by (cases r) auto
qed

theorem abort_stops_chain_witness:
  "-1 \<le> index \<lparr>index = 0, cx = new_context undefined, started = [0]\<rparr> \<and>
   (\<exists>s'. run_handler (call_next [Abort (Next Done), Done]) (length [Abort (Next Done), Done])
             (Abort (Next Done))
           \<lparr>index = 0, cx = new_context undefined, started = [0]\<rparr> = Ret s' \<and> started s' = [0])"
proof -
  let ?hs = "[Abort (Next Done), Done]" and ?s = "\<lparr>index = 0, cx = new_context undefined, started = [0]\<rparr>"
  have h: "-1 \<le> index ?s" by simp
  have "\<exists>s'. run_handler (call_next ?hs) (length ?hs) (Abort (Next Done)) ?s = Ret s'"
    by (simp add: call_next_def next_loop.simps)
  with h abort_stops_chain [OF h refl, of ?hs "Next Done"] show ?thesis by auto
qed

text \<open>A handler whose code neither aborts nor panics nor recovers.\<close>

primrec plain :: "handler \<Rightarrow> bool" where
  "plain Done = True"
| "plain (Do f h) = plain h"
| "plain (Dyn g) = (\<forall>c. plain (g c))"
| "plain (Next h) = plain h"
| "plain (Abort h) = False"
| "plain (Panic v) = False"
| "plain (NextRecover r h) = False"

definition runs_rest :: "nat \<Rightarrow> chain \<Rightarrow> chain \<Rightarrow> bool" where
  "runs_rest n s s' \<longleftrightarrow> int n \<le> index s' \<and> started s' = started s @ [nat (index s + 1)..<n]"

lemma run_handler_plain:
  assumes nx: "\<And>t. lo \<le> index t \<Longrightarrow> \<exists>t'. nx t = Ret t' \<and> runs_rest n t t'"
    and "plain h" and "0 \<le> lo" and "lo \<le> index s" and "lo \<le> int n"
  shows "\<exists>s'. run_handler nx n h s = Ret s' \<and>
           ((index s' = index s \<and> started s' = started s) \<or> runs_rest n s s')"
  using assms(2,4)
proof (induction h arbitrary: s)
  case (Do f h)
  then show ?case using Do.IH [of "s\<lparr>cx := f (cx s)\<rparr>"] by (simp add: runs_rest_def)
next
  case (Dyn g)
  then show ?case using Dyn.IH [of "g (cx s)" s] by simp
next
  case (Next h)
  then obtain t where t: "nx s = Ret t" "runs_rest n s t" using nx by blast
  then have "lo \<le> index t" using assms(5) by (simp add: runs_rest_def)
  with Next t show ?case by (force simp: runs_rest_def)
qed auto

lemma next_loop_plain:
  assumes "\<forall>h\<in>set hs. plain h" and "0 \<le> index s" and "int (length hs) - index s \<le> int k"
  shows "\<exists>s'. next_loop k hs s = Ret s' \<and> runs_rest (length hs) (s\<lparr>index := index s - 1\<rparr>) s'"
  using assms(2,3)
proof (induction k arbitrary: s)
  case 0
  then show ?case by (auto simp: next_loop.simps [of 0] runs_rest_def)
next
  case (Suc k)
  let ?n = "length hs" and ?nx = "\<lambda>s. next_loop k hs (s\<lparr>index := index s + 1\<rparr>)"
  show ?case
  proof (cases "index s < int ?n")
    case True
    let ?s1 = "s\<lparr>started := started s @ [nat (index s)]\<rparr>"
    have nx: "\<exists>t'. ?nx t = Ret t' \<and> runs_rest ?n t t'" if "index s \<le> index t" for t
      using Suc.IH [of "t\<lparr>index := index t + 1\<rparr>"] Suc.prems that by simp
    have "plain (hs ! nat (index s))" using assms(1) True Suc.prems by simp
    from run_handler_plain [where lo = "index s" and nx = ?nx and n = ?n and s = ?s1, OF nx this]
    obtain s' where s': "run_handler ?nx ?n (hs ! nat (index s)) ?s1 = Ret s'"
      "index s' = index s \<and> started s' = started ?s1 \<or> runs_rest ?n ?s1 s'"
      using True Suc.prems by auto
    have "index s \<le> index s'" using s'(2) True by (auto simp: runs_rest_def)
    then obtain t where t: "?nx s' = Ret t" "runs_rest ?n s' t" using nx by blast
    have "started t = started s @ [nat (index s)..<?n]"
      using s'(2) t(2) True Suc.prems
      by (auto simp: runs_rest_def upt_conv_Cons [of "nat (index s)"] nat_add_distrib)
    with t s'(1) True Suc.prems show ?thesis
      by (simp add: next_loop.simps [of "Suc k"] Let_def runs_rest_def)
  next
    case False
    then show ?thesis by (simp add: next_loop.simps [of "Suc k"] runs_rest_def)
  qed
qed

text \<open>
  A chain in which no handler aborts or panics runs to its end and starts
  every handler, in order; a handler that never calls \<^verbatim>\<open>Next\<close> does not stop the chain.
\<close>

lemma run_chain_all:
  assumes "\<forall>h\<in>set hs. plain h"
  shows "\<exists>s. run_chain hs c = Ret s \<and> started s = [0..<length hs]"
proof -
  have "\<exists>s'. next_loop (Suc (length hs)) hs \<lparr>index = 0, cx = c, started = []\<rparr> = Ret s' \<and>
      runs_rest (length hs) \<lparr>index = -1, cx = c, started = []\<rparr> s'"
    using next_loop_plain [OF assms, of "\<lparr>index = 0, cx = c, started = []\<rparr>" "Suc (length hs)"]
    by simp
  then show ?thesis by (auto simp: run_chain_def call_next_def runs_rest_def)
qed

lemma run_chain_all_example:
  "list_all plain [Next Done, Done, Do (Set ''k'' GNil) Done] \<and>
   (\<exists>s. run_chain [Next Done, Done, Do (Set ''k'' GNil) Done] (new_context undefined) = Ret s \<and>
        started s = [0..<3])"
proof -
  have h: "\<forall>h\<in>set [Next Done, Done, Do (Set ''k'' GNil) Done]. plain h" by simp
  from run_chain_all [OF h, of "new_context undefined"] show ?thesis
    by (simp add: numeral_3_eq_3)
qed

section \<open>What the status field records\<close>

text \<open>
  \<^verbatim>\<open>StatusCode\<close> is documented as the status the response was written with, but the response methods
  pass their status to the writer only: the field stays at its initial value. \<^verbatim>\<open>AbortWithStatus\<close> is
  documented as writing a status; it sets the field and writes nothing.
\<close>

lemma StatusCode_after_JSON: "StatusCode (JSON n obj c) = StatusCode c"
  by (simp add: StatusCode_def JSON_def respond_def write_body_def write_header_def SetHeader_def Let_def
      split: prod.split)

lemma AbortWithStatus_writes_nothing:
  "\<exists>s. run_chain [AbortWithStatus n Done] c = Ret s \<and> resp (cx s) = resp c \<and> StatusCode (cx s) = (if n = 0 then 200 else n)"
  by (simp add: run_chain_def call_next_def next_loop.simps AbortWithStatus_def Status_def StatusCode_def)

section \<open>A handler that stops the chain\<close>

text \<open>
  The chain runs up to the handler at position \<open>p\<close>, which puts the index behind the end: every handler up to that one was
  started, in order, and no handler after it. What the stopping handler sees of the context is \<open>P\<close>, which the code of the
  handlers before it keeps.
\<close>

primrec keeps :: "(ctx \<Rightarrow> bool) \<Rightarrow> handler \<Rightarrow> bool" where
  "keeps P Done = True"
| "keeps P (Do f h) = ((\<forall>c. P c \<longrightarrow> P (f c)) \<and> keeps P h)"
| "keeps P (Dyn g) = (\<forall>c. P c \<longrightarrow> keeps P (g c))"
| "keeps P (Next h) = keeps P h"
| "keeps P (Abort h) = keeps P h"
| "keeps P (Panic v) = True"
| "keeps P (NextRecover r h) = ((\<forall>v. keeps P (r v)) \<and> keeps P h)"

definition gate_reached :: "nat \<Rightarrow> nat \<Rightarrow> chain \<Rightarrow> chain \<Rightarrow> bool" where
  "gate_reached p n s s' \<longleftrightarrow> int n \<le> index s' \<and> started s' = started s @ [nat (index s + 1)..<Suc p]"

lemma run_handler_past:
  assumes nx: "\<And>t. int n \<le> index t \<Longrightarrow> \<exists>t'. nx t = Ret t' \<and> int n \<le> index t' \<and> started t' = started t"
    and "plain h" and "int n \<le> index s"
  shows "\<exists>s'. run_handler nx n h s = Ret s' \<and> int n \<le> index s' \<and> started s' = started s"
  using assms(2,3)
proof (induction h arbitrary: s)
  case (Do f h)
  then show ?case using Do.IH [of "s\<lparr>cx := f (cx s)\<rparr>"] by simp
next
  case (Dyn g)
  then show ?case using Dyn.IH [of "g (cx s)" s] by simp
next
  case (Next h)
  then obtain t where t: "nx s = Ret t" "int n \<le> index t" "started t = started s" using nx by blast
  then show ?case using Next by force
qed auto

lemma run_handler_gate:
  assumes past: "\<And>t. int n \<le> index t \<Longrightarrow> \<exists>t'. nx t = Ret t' \<and> int n \<le> index t' \<and> started t' = started t"
    and nx: "\<And>t. index t = i \<Longrightarrow> P (cx t) \<Longrightarrow> \<exists>t'. nx t = Ret t' \<and> gate_reached p n t t'"
    and "plain h" and "keeps P h" and "index s = i" and "P (cx s)"
  shows "\<exists>s'. run_handler nx n h s = Ret s' \<and> ((index s' = i \<and> started s' = started s \<and> P (cx s')) \<or> gate_reached p n s s')"
  using assms(3-6)
proof (induction h arbitrary: s)
  case (Do f h)
  then show ?case using Do.IH [of "s\<lparr>cx := f (cx s)\<rparr>"] by (simp add: gate_reached_def)
next
  case (Dyn g)
  then show ?case using Dyn.IH [of "g (cx s)" s] by simp
next
  case (Next h)
  then obtain t where t: "nx s = Ret t" "gate_reached p n s t" using nx by blast
  have "\<exists>s'. run_handler nx n h t = Ret s' \<and> int n \<le> index s' \<and> started s' = started t"
    using run_handler_past [OF past, where h = h and s = t] Next.prems(1) t(2) by (simp add: gate_reached_def)
  then show ?case using t by (auto simp: gate_reached_def)
qed auto

lemma next_loop_past: "int (length hs) \<le> index s \<Longrightarrow> next_loop k hs s = Ret s"
  by (simp add: next_loop.simps [of k])

lemma next_loop_gate:
  assumes "\<And>i. i < p \<Longrightarrow> plain (hs ! i) \<and> keeps P (hs ! i)" and "p < length hs"
    and gate: "\<And>nx s. P (cx s) \<Longrightarrow> \<exists>s'. run_handler nx (length hs) (hs ! p) s = Ret s' \<and> index s' = int (length hs) \<and> started s' = started s"
    and "P (cx s)" and "0 \<le> index s" and "index s \<le> int p" and "int (length hs) - index s \<le> int k"
  shows "\<exists>s'. next_loop k hs s = Ret s' \<and> gate_reached p (length hs) (s\<lparr>index := index s - 1\<rparr>) s'"
  using assms(4-7)
proof (induction k arbitrary: s)
  case 0
  then show ?case using assms(2) by simp
next
  case (Suc k)
  let ?n = "length hs" and ?nx = "\<lambda>s. next_loop k hs (s\<lparr>index := index s + 1\<rparr>)"
  let ?s1 = "s\<lparr>started := started s @ [nat (index s)]\<rparr>"
  have unfold: "next_loop (Suc k) hs s = (case run_handler ?nx ?n (hs ! nat (index s)) ?s1 of
      Ret s' \<Rightarrow> ?nx s' | Panicked v s' \<Rightarrow> Panicked v s' | OutOfFuel \<Rightarrow> OutOfFuel)"
    using Suc.prems assms(2) by (simp add: next_loop.simps [of "Suc k"] Let_def)
  have past: "\<exists>t'. ?nx t = Ret t' \<and> int ?n \<le> index t' \<and> started t' = started t" if "int ?n \<le> index t" for t
    using that by (simp add: next_loop_past)
  show ?case
  proof (cases "index s = int p")
    case True
    obtain s' where s': "run_handler ?nx ?n (hs ! p) ?s1 = Ret s'" "index s' = int ?n" "started s' = started ?s1"
      using gate [of ?s1] Suc.prems(1) by force
    obtain t where "?nx s' = Ret t" "int ?n \<le> index t" "started t = started s'" using past [of s'] s'(2) by auto
    then show ?thesis using unfold True s' by (auto simp: gate_reached_def)
  next
    case False
    then have lt: "index s < int p" using Suc.prems by simp
    have nx: "\<exists>t'. ?nx t = Ret t' \<and> gate_reached p ?n t t'" if "index t = index s" "P (cx t)" for t
      using Suc.IH [of "t\<lparr>index := index t + 1\<rparr>"] Suc.prems lt that by (simp add: gate_reached_def)
    have "plain (hs ! nat (index s))" "keeps P (hs ! nat (index s))" using assms(1) lt Suc.prems by simp_all
    from run_handler_gate [where p = p and nx = ?nx and n = ?n and i = "index s" and s = ?s1 and P = P, OF past nx this] Suc.prems(1)
    obtain s' where s': "run_handler ?nx ?n (hs ! nat (index s)) ?s1 = Ret s'"
      "(index s' = index s \<and> started s' = started ?s1 \<and> P (cx s')) \<or> gate_reached p ?n ?s1 s'" by auto
    have l: "[nat (index s)..<Suc p] = nat (index s) # [nat (index s + 1)..<Suc p]"
      using lt Suc.prems by (simp add: upt_conv_Cons nat_add_distrib)
    from s'(2) show ?thesis
    proof
      assume same: "index s' = index s \<and> started s' = started ?s1 \<and> P (cx s')"
      then obtain t where "?nx s' = Ret t" "gate_reached p ?n s' t" using nx by blast
      then show ?thesis using unfold s'(1) same l by (auto simp: gate_reached_def)
    next
      assume g: "gate_reached p ?n ?s1 s'"
      then obtain t where "?nx s' = Ret t" "int ?n \<le> index t" "started t = started s'" using past [of s'] by (auto simp: gate_reached_def)
      then show ?thesis using unfold s'(1) g l by (auto simp: gate_reached_def)
    qed
  qed
qed

lemma run_chain_gate:
  assumes "\<And>h. h \<in> set pre \<Longrightarrow> plain h \<and> keeps P h"
    and "\<And>nx n s. P (cx s) \<Longrightarrow> \<exists>s'. run_handler nx n g s = Ret s' \<and> index s' = int n \<and> started s' = started s"
    and "P c"
  shows "\<exists>s. run_chain (pre @ g # post) c = Ret s \<and> started s = [0..<Suc (length pre)]"
proof -
  let ?hs = "pre @ g # post" and ?s = "\<lparr>index = 0, cx = c, started = []\<rparr>"
  have gate: "\<exists>s'. run_handler nx (length ?hs) (?hs ! length pre) s = Ret s' \<and> index s' = int (length ?hs) \<and> started s' = started s"
    if "P (cx s)" for nx s using that unfolding nth_append_length by (rule assms(2))
  have "\<exists>s'. next_loop (Suc (length ?hs)) ?hs ?s = Ret s' \<and> gate_reached (length pre) (length ?hs) (?s\<lparr>index := index ?s - 1\<rparr>) s'"
    by (rule next_loop_gate [where P = P, OF _ _ gate]) (use assms(1,3) in \<open>simp_all add: nth_append\<close>)
  then show ?thesis by (auto simp: run_chain_def call_next_def gate_reached_def)
qed

end
