(* ===== verification/Paths.thy ===== *)
theory Paths
  imports GoPrelude
begin

text \<open>
  The lexical operations of package \<^verbatim>\<open>path/filepath\<close> on Unix, which the static file handler and the local disk rely on, and
  the lemma that a path joined below a directory stays there.
\<close>

section \<open>Cleaning and joining\<close>

text \<open>
  \<^verbatim>\<open>filepath.Clean\<close> on Unix: the elements are processed from the left, the list \<open>kept\<close> of those
  that stay is reversed; \<^verbatim>\<open>..\<close> removes the element before it, at the root it is dropped, and it is
  kept at the start of a relative path.
\<close>

fun clean_go :: "bool \<Rightarrow> string list \<Rightarrow> string list \<Rightarrow> string list" where
  "clean_go rooted kept [] = rev kept"
| "clean_go rooted kept (e # es) =
     (if e = [] \<or> e = ''.'' then clean_go rooted kept es
      else if e = ''..'' then
        (case kept of
           [] \<Rightarrow> clean_go rooted (if rooted then [] else [e]) es
         | x # xs \<Rightarrow> if x = ''..'' then clean_go rooted (e # kept) es else clean_go rooted xs es)
      else clean_go rooted (e # kept) es)"

definition clean_parts :: "string \<Rightarrow> string list" where
  "clean_parts p = clean_go (has_prefix p ''/'') [] (split_by (CHR ''/'') p)"

definition path_clean :: "string \<Rightarrow> string" where
  "path_clean p =
     (if has_prefix p ''/'' then ''/'' @ join (clean_parts p) ''/''
      else if clean_parts p = [] then ''.'' else join (clean_parts p) ''/'')"

text \<open>\<^verbatim>\<open>filepath.Join\<close> ignores empty elements and cleans the joined path.\<close>

definition path_join :: "string list \<Rightarrow> string" where
  "path_join es =
     (case filter (\<lambda>e. e \<noteq> []) es of [] \<Rightarrow> [] | fs \<Rightarrow> path_clean (join fs ''/''))"

section \<open>Cleaned paths\<close>

definition safe_part :: "string \<Rightarrow> bool" where
  "safe_part e \<longleftrightarrow> e \<noteq> [] \<and> e \<noteq> ''.'' \<and> e \<noteq> ''..'' \<and> CHR ''/'' \<notin> set e"

lemma clean_go_append:
  "clean_go rooted kept (es @ fs) = clean_go rooted (rev (clean_go rooted kept es)) fs"
  by (induction rooted kept es rule: clean_go.induct) (auto split: list.splits)

lemma clean_go_safe: "list_all safe_part es \<Longrightarrow> clean_go rooted kept es = rev kept @ es"
  by (induction rooted kept es rule: clean_go.induct) (auto simp: safe_part_def)

lemma split_by_append_gen: "split_by b (x @ b # y) = split_by b x @ split_by b y"
  by (induction x) (auto split: list.splits)

lemma split_by_join_gen:
  "list_all safe_part es \<Longrightarrow> split_by (CHR ''/'') (join es ''/'') = (if es = [] then [[]] else es)"
  by (auto simp: split_by_join list_all_iff safe_part_def)

text \<open>The cleaned parts of a cleaned path are the same: every result of the loop is a fixed point.\<close>

definition normal :: "bool \<Rightarrow> string list \<Rightarrow> bool" where
  "normal rooted es \<longleftrightarrow> (\<exists>n fs. es = replicate n ''..'' @ fs \<and> list_all safe_part fs \<and> (rooted \<longrightarrow> n = 0))"

lemma normal_rev_Cons_safe: "normal rooted (rev kept) \<Longrightarrow> safe_part e \<Longrightarrow> normal rooted (rev (e # kept))"
  by (fastforce simp: normal_def)

lemma normal_pop:
  assumes "normal rooted (rev (x # xs))" and "x \<noteq> ''..''"
  shows "normal rooted (rev xs)"
proof -
  obtain n fs where nf: "rev xs @ [x] = replicate n ''..'' @ fs" "list_all safe_part fs" "rooted \<longrightarrow> n = 0"
    using assms(1) by (auto simp: normal_def)
  have "fs \<noteq> []"
  proof
    assume "fs = []"
    then have "x \<in> set (replicate n ''..'')" using nf(1) by (metis append_Nil2 in_set_conv_decomp)
    with assms(2) show False by (simp split: if_splits)
  qed
  then obtain fs' where "fs = fs' @ [x]" using nf(1) by (metis append_butlast_last_id last_appendR last_snoc)
  with nf show ?thesis by (auto simp: normal_def)
qed

lemma normal_dots:
  assumes "normal rooted (rev (x # xs))" and "x = ''..''"
  shows "normal rooted (rev (''..'' # x # xs))"
proof -
  obtain n fs where nf: "rev xs @ [x] = replicate n ''..'' @ fs" "list_all safe_part fs" "rooted \<longrightarrow> n = 0"
    using assms(1) by (auto simp: normal_def)
  have fs: "fs = []"
  proof (rule ccontr)
    assume "fs \<noteq> []"
    then have "x \<in> set fs" using nf(1) by (metis last_appendR last_in_set last_snoc)
    with nf(2) assms(2) show False by (auto simp: list_all_iff safe_part_def)
  qed
  then have "rev xs @ [x] @ [''..''] = replicate (Suc n) ''..''"
    using nf(1) by (metis append.assoc append_Nil2 replicate_append_same replicate_Suc)
  moreover have "\<not> rooted" using nf fs by auto
  ultimately show ?thesis unfolding normal_def by (auto intro!: exI [of _ "Suc n"] exI [of _ "[]"])
qed

lemma normal_clean_go:
  "normal rooted (rev kept) \<Longrightarrow> \<forall>e\<in>set es. CHR ''/'' \<notin> set e \<Longrightarrow> normal rooted (clean_go rooted kept es)"
proof (induction rooted kept es rule: clean_go.induct)
  case (2 rooted kept e es)
  consider "e = [] \<or> e = ''.''" | (dots_nil) "e = ''..''" "kept = []"
    | (dots) x xs where "e = ''..''" "kept = x # xs" | (other) "safe_part e"
    using 2(7) by (cases kept) (auto simp: safe_part_def)
  then show ?case
  proof cases
    case dots_nil
    have "normal rooted (rev (if rooted then [] else [e]))"
      using dots_nil by (auto simp: normal_def intro: exI [of _ 1] exI [of _ 0])
    with 2 dots_nil show ?thesis by (cases rooted) simp_all
  next
    case (dots x xs)
    with 2 normal_pop normal_dots show ?thesis by (cases "x = ''..''") auto
  next
    case other
    with 2 normal_rev_Cons_safe [OF 2(6) other] show ?thesis by (auto simp: safe_part_def)
  qed (use 2 in auto)
qed simp

lemma normal_Nil [simp]: "normal rooted []"
  by (auto simp: normal_def)

lemma clean_parts_normal: "normal (has_prefix p ''/'') (clean_parts p)"
  unfolding clean_parts_def by (rule normal_clean_go) simp_all

lemma normal_rooted: "normal True es \<longleftrightarrow> list_all safe_part es"
  by (auto simp: normal_def)

lemma clean_go_dots:
  "list_all safe_part fs \<Longrightarrow>
     clean_go False (replicate m ''..'') (replicate n ''..'' @ fs) = replicate (m + n) ''..'' @ fs"
proof (induction n arbitrary: m)
  case (Suc n)
  then show ?case using Suc.IH [of "Suc m"] by (cases m) simp_all
qed (simp add: clean_go_safe)

lemma clean_go_normal: "normal rooted es \<Longrightarrow> clean_go rooted [] es = es"
  using clean_go_dots [of _ 0] by (cases rooted) (auto simp: normal_rooted clean_go_safe normal_def)

lemma normal_parts:
  assumes "normal rooted es" and "e \<in> set es"
  shows "e \<noteq> [] \<and> CHR ''/'' \<notin> set e"
proof -
  from assms have "e = ''..'' \<or> safe_part e" by (auto simp: normal_def list_all_iff split: if_splits)
  then show ?thesis by (elim disjE) (simp_all add: safe_part_def)
qed

lemma split_by_join_normal:
  "normal rooted es \<Longrightarrow> es \<noteq> [] \<Longrightarrow> split_by (CHR ''/'') (join es ''/'') = es"
  using normal_parts [of rooted es] split_by_join [of es "CHR ''/''"] by simp

lemma join_normal_rel: "normal rooted es \<Longrightarrow> \<not> has_prefix (join es ''/'') ''/''"
proof (cases es)
  case (Cons e es')
  assume "normal rooted es"
  with normal_parts [of rooted es e] Cons show ?thesis by (cases es'; cases e) auto
qed simp

lemma path_clean_rooted: "has_prefix (path_clean p) ''/'' = has_prefix p ''/''"
  using join_normal_rel [OF clean_parts_normal [of p]] by (simp add: path_clean_def)

lemma clean_parts_clean: "clean_parts (path_clean p) = clean_parts p"
proof (cases "has_prefix p ''/'' \<or> clean_parts p = []")
  case True
  then show ?thesis
    using clean_parts_normal [of p] clean_go_normal [of True "clean_parts p"]
      split_by_join_normal [of True "clean_parts p"]
    by (cases "clean_parts p = []") (auto simp: path_clean_def clean_parts_def [of "CHR ''/'' # _"] clean_parts_def [of "''.''"])
next
  case False
  let ?es = "clean_parts p"
  have n: "normal False ?es" using clean_parts_normal [of p] False by simp
  from False n show ?thesis
    using clean_go_normal [OF n] split_by_join_normal [OF n] join_normal_rel [OF n]
    by (simp add: path_clean_def clean_parts_def [of "join _ _"])
qed

lemma clean_parts_under:
  assumes "dir \<noteq> []" "list_all safe_part ps"
  shows "clean_parts (dir @ ''/'' @ join ps ''/'') = clean_parts dir @ ps"
proof -
  have "has_prefix (dir @ ''/'' @ join ps ''/'') ''/'' = has_prefix dir ''/''"
    using assms(1) by (cases dir) simp_all
  then show ?thesis
    using assms(2)
    by (simp add: clean_parts_def split_by_append_gen split_by_join_gen clean_go_append clean_go_safe)
qed

text \<open>A path that was cleaned at the root and joined to a directory stays in it.\<close>

lemma join_confined:
  "clean_parts (path_join [dir, trim_prefix (path_clean (''/'' @ rest)) ''/'']) = clean_parts dir @ clean_parts (''/'' @ rest) \<and>
   list_all safe_part (clean_parts (''/'' @ rest)) \<and>
   (has_prefix (path_join [dir, trim_prefix (path_clean (''/'' @ rest)) ''/'']) ''/'' \<longleftrightarrow> has_prefix dir ''/'')"
proof -
  let ?file = "path_join [dir, join (clean_parts (''/'' @ rest)) ''/'']"
  let ?ps = "clean_parts (''/'' @ rest)"
  have safe: "list_all safe_part ?ps" using clean_parts_normal [of "''/'' @ rest"] by (simp add: normal_rooted)
  have x: "trim_prefix (path_clean (''/'' @ rest)) ''/'' = join ?ps ''/''"
    by (simp add: path_clean_def trim_prefix_def)
  have empty: "join ?ps ''/'' = [] \<longleftrightarrow> ?ps = []"
    using safe by (cases ?ps rule: remdups_adj.cases) (auto simp: safe_part_def)
  consider "dir = []" "?ps = []" | "dir = []" "?ps \<noteq> []" | "dir \<noteq> []" "?ps = []" | "dir \<noteq> []" "?ps \<noteq> []"
    by blast
  then have "clean_parts ?file = clean_parts dir @ ?ps \<and> list_all safe_part ?ps \<and> (has_prefix ?file ''/'' \<longleftrightarrow> has_prefix dir ''/'')"
  proof cases
    case 1
    then show ?thesis by (simp add: path_join_def clean_parts_def [of "[]"])
  next
    case 2
    have "clean_parts (join ?ps ''/'') = ?ps"
      using join_normal_rel [of True ?ps] split_by_join_gen [OF safe] 2 safe
      by (simp add: clean_parts_def [of "join _ _"] normal_rooted clean_go_safe)
    with 2 empty safe join_normal_rel [of True ?ps] show ?thesis
      by (simp add: path_join_def clean_parts_clean path_clean_rooted normal_rooted clean_parts_def [of "[]"])
  next
    case 3
    then show ?thesis by (simp add: path_join_def clean_parts_clean path_clean_rooted)
  next
    case 4
    then have "?file = path_clean (dir @ ''/'' @ join ?ps ''/'')"
      using empty by (simp add: path_join_def)
    moreover have "has_prefix (dir @ ''/'' @ join ?ps ''/'') ''/'' = has_prefix dir ''/''"
      using 4 by (cases dir) simp_all
    ultimately show ?thesis
      using clean_parts_under [OF 4(1) safe] safe by (metis clean_parts_clean path_clean_rooted)
  qed
  then show ?thesis by (simp only: x)
qed

end
