(* ===== verification/Router.thy ===== *)
theory Router
  imports HttpContext Paths "HOL-Library.AList" "HOL-Library.Sublist"
begin

text \<open>
  Package router: the segment trie (\<^verbatim>\<open>node\<close>), the router with its named routes, the groups and the
  dispatch \<^verbatim>\<open>ServeHTTP\<close>. A \<^verbatim>\<open>*Route\<close> is its position in the router's list of routes, so that
  naming a route changes the one object the list, the trie and the name table share. The method
  table of a trie node is an association list; Go visits its keys in no fixed order, so statements
  on the allowed methods are on sets. The second half relates the trie to an abstract router that
  is only the list of the registered patterns.
\<close>

section \<open>Paths\<close>

text \<open>The loop of \<^verbatim>\<open>splitPath\<close>: \<open>cur\<close> is the reversed segment \<^verbatim>\<open>path[start:i]\<close>.\<close>

fun splitPath_go :: "string \<Rightarrow> string \<Rightarrow> string list" where
  "splitPath_go cur [] = (if cur \<noteq> [] then [rev cur] else [])"
| "splitPath_go cur (c # cs) =
     (if c = CHR ''/'' then (if cur \<noteq> [] then rev cur # splitPath_go [] cs else splitPath_go [] cs)
      else splitPath_go (c # cur) cs)"

definition splitPath :: "string \<Rightarrow> string list" where
  "splitPath path = splitPath_go [] path"

definition segments :: "string \<Rightarrow> string list" where
  "segments pattern = splitPath pattern"

lemma split_by_Cons_sep: "split_by b (c # cs) =
    (if c = b then [] # split_by b cs else (c # hd (split_by b cs)) # tl (split_by b cs))"
  by (cases "split_by b cs") simp_all

lemma splitPath_go_split_by:
  "splitPath_go cur s =
     filter (\<lambda>w. w \<noteq> []) ((rev cur @ hd (split_by (CHR ''/'') s)) # tl (split_by (CHR ''/'') s))"
proof (induction s arbitrary: cur)
  case (Cons c cs)
  show ?case
  proof (cases "split_by (CHR ''/'') cs")
    case (Cons w ws)
    then show ?thesis using Cons.IH by simp
  qed simp
qed simp

lemma segments_split_by: "segments s = filter (\<lambda>w. w \<noteq> []) (split_by (CHR ''/'') s)"
  by (simp add: segments_def splitPath_def splitPath_go_split_by del: filter.simps)

lemma segments_join:
  assumes "\<forall>w\<in>set ws. w \<noteq> [] \<and> CHR ''/'' \<notin> set w"
  shows "segments (''/'' @ join ws ''/'') = ws"
proof (cases "ws = []")
  case False
  with assms have "split_by (CHR ''/'') (join ws ''/'') = ws" by (simp add: split_by_join)
  with assms show ?thesis by (simp add: segments_split_by)
qed (simp add: segments_split_by)

section \<open>The trie\<close>

datatype node = Node
  (nd_static: "string \<Rightarrow> node option")
  (nd_param: "node option")
  (nd_paramKey: string)
  (nd_wild: "node option")
  (nd_routes: "(string \<times> nat) list")

definition newNode :: node where
  "newNode = Node (\<lambda>_. None) None [] None []"

definition or_new :: "node option \<Rightarrow> node" where
  "or_new n = (case n of None \<Rightarrow> newNode | Some m \<Rightarrow> m)"

definition put_route :: "string \<Rightarrow> nat \<Rightarrow> node \<Rightarrow> node" where
  "put_route meth r n =
     Node (nd_static n) (nd_param n) (nd_paramKey n) (nd_wild n) (AList.update meth r (nd_routes n))"

fun insert_node :: "string list \<Rightarrow> string \<Rightarrow> nat \<Rightarrow> node \<Rightarrow> node" where
  "insert_node [] meth r n = put_route meth r n"
| "insert_node (seg # segs) meth r n =
     (if seg = ''*'' then
        Node (nd_static n) (nd_param n) (nd_paramKey n)
          (Some (put_route meth r (or_new (nd_wild n)))) (nd_routes n)
      else if has_prefix seg '':'' then
        Node (nd_static n) (Some (insert_node segs meth r (or_new (nd_param n))))
          (if nd_param n = None then drop 1 seg else nd_paramKey n) (nd_wild n) (nd_routes n)
      else
        Node ((nd_static n)(seg \<mapsto> insert_node segs meth r (or_new (nd_static n seg))))
          (nd_param n) (nd_paramKey n) (nd_wild n) (nd_routes n))"

text \<open>The loop of \<^verbatim>\<open>lookup\<close>; \<^const>\<open>None\<close> is the return from inside it.\<close>

fun walk :: "node \<Rightarrow> string list \<Rightarrow> (string \<rightharpoonup> string) \<Rightarrow> (node \<times> (string \<rightharpoonup> string)) option" where
  "walk n [] ps = Some (n, ps)"
| "walk n (seg # segs) ps =
     (case nd_static n seg of
        Some m \<Rightarrow> walk m segs ps
      | None \<Rightarrow>
          (case nd_param n of
             Some m \<Rightarrow> walk m segs (ps(nd_paramKey n \<mapsto> seg))
           | None \<Rightarrow>
               (case nd_wild n of
                  Some m \<Rightarrow> Some (m, ps(''*'' \<mapsto> join (seg # segs) ''/''))
                | None \<Rightarrow> None)))"

text \<open>The route, the parameters and the allowed methods.\<close>

definition lookup_node ::
  "node \<Rightarrow> string list \<Rightarrow> string \<Rightarrow> nat option \<times> (string \<rightharpoonup> string) \<times> string list" where
  "lookup_node n segs meth =
     (case walk n segs Map.empty of
        None \<Rightarrow> (None, Map.empty, [])
      | Some (cur, ps) \<Rightarrow>
          if nd_routes cur = [] then (None, Map.empty, [])
          else (case map_of (nd_routes cur) meth of
                  Some rt \<Rightarrow> (Some rt, ps, [])
                | None \<Rightarrow>
                    (case (if meth = ''HEAD'' then map_of (nd_routes cur) ''GET'' else None) of
                       Some rt \<Rightarrow> (Some rt, ps, [])
                     | None \<Rightarrow> (None, ps, map fst (nd_routes cur)))))"

section \<open>Routes and the router\<close>

record route =
  rt_method :: string
  rt_pattern :: string
  rt_handler :: handler
  rt_middlewares :: "handler list"
  rt_name :: string
  rt_segs :: "string list"

record router =
  routes :: "route list"
  tree :: node
  named :: "string \<rightharpoonup> nat"
  global :: "handler list"
  notFound :: "handler option"
  methodNotAllowed :: "handler option"
  trustAllProxies :: bool
  trustedProxies :: "ipnet list"

definition new_router :: router where
  "new_router = \<lparr>routes = [], tree = newNode, named = Map.empty, global = [], notFound = None,
                 methodNotAllowed = None, trustAllProxies = False, trustedProxies = []\<rparr>"

definition router_Use :: "handler list \<Rightarrow> router \<Rightarrow> router" where
  "router_Use ms r = r\<lparr>global := global r @ ms\<rparr>"

text \<open>\<^verbatim>\<open>net.ParseCIDR\<close> is the argument \<open>parse_cidr\<close>; an error keeps the networks read before it.\<close>

fun add_proxies :: "(string \<Rightarrow> string + ipnet) \<Rightarrow> string list \<Rightarrow> router \<Rightarrow> string option \<times> router" where
  "add_proxies parse_cidr [] r = (None, r)"
| "add_proxies parse_cidr (p # ps) r =
     (if p = [] then add_proxies parse_cidr ps r
      else let q = (if contains p ''/'' then p
                    else if contains p '':'' then p @ ''/128'' else p @ ''/32'')
           in case parse_cidr q of
                Inl err \<Rightarrow> (Some err, r)
              | Inr network \<Rightarrow>
                  add_proxies parse_cidr ps (r\<lparr>trustedProxies := trustedProxies r @ [network]\<rparr>))"

definition SetTrustedProxies ::
  "(string \<Rightarrow> string + ipnet) \<Rightarrow> string list \<Rightarrow> router \<Rightarrow> string option \<times> router" where
  "SetTrustedProxies parse_cidr proxies r =
     (let r' = r\<lparr>trustAllProxies := False, trustedProxies := []\<rparr> in
      if proxies = [''*''] then (None, r'\<lparr>trustAllProxies := True\<rparr>)
      else add_proxies parse_cidr proxies r')"

text \<open>\<open>addRoute\<close> returns the new route's reference.\<close>

definition addRoute ::
  "string \<Rightarrow> string \<Rightarrow> handler \<Rightarrow> handler list \<Rightarrow> router \<Rightarrow> nat \<times> router" where
  "addRoute meth pattern h mw r =
     (let rt = \<lparr>rt_method = meth, rt_pattern = pattern, rt_handler = h, rt_middlewares = mw,
                rt_name = [], rt_segs = segments pattern\<rparr>;
          i = length (routes r)
      in (i, r\<lparr>routes := routes r @ [rt], tree := insert_node (rt_segs rt) meth i (tree r)\<rparr>))"

definition router_Get :: "string \<Rightarrow> handler \<Rightarrow> router \<Rightarrow> nat \<times> router" where
  "router_Get pattern h r = addRoute ''GET'' pattern h [] r"

definition router_Post :: "string \<Rightarrow> handler \<Rightarrow> router \<Rightarrow> nat \<times> router" where
  "router_Post pattern h r = addRoute ''POST'' pattern h [] r"

definition router_Put :: "string \<Rightarrow> handler \<Rightarrow> router \<Rightarrow> nat \<times> router" where
  "router_Put pattern h r = addRoute ''PUT'' pattern h [] r"

definition router_Patch :: "string \<Rightarrow> handler \<Rightarrow> router \<Rightarrow> nat \<times> router" where
  "router_Patch pattern h r = addRoute ''PATCH'' pattern h [] r"

definition router_Delete :: "string \<Rightarrow> handler \<Rightarrow> router \<Rightarrow> nat \<times> router" where
  "router_Delete pattern h r = addRoute ''DELETE'' pattern h [] r"

definition router_Head :: "string \<Rightarrow> handler \<Rightarrow> router \<Rightarrow> nat \<times> router" where
  "router_Head pattern h r = addRoute ''HEAD'' pattern h [] r"

definition router_Options :: "string \<Rightarrow> handler \<Rightarrow> router \<Rightarrow> nat \<times> router" where
  "router_Options pattern h r = addRoute ''OPTIONS'' pattern h [] r"

definition any_methods :: "string list" where
  "any_methods = [''GET'', ''POST'', ''PUT'', ''PATCH'', ''DELETE'', ''OPTIONS'', ''HEAD'']"

definition router_Any :: "string \<Rightarrow> handler \<Rightarrow> router \<Rightarrow> router" where
  "router_Any pattern h r = fold (\<lambda>m r. snd (addRoute m pattern h [] r)) any_methods r"

text \<open>\<^verbatim>\<open>As\<close>: names the route object and enters it into the name table.\<close>

definition As :: "nat \<Rightarrow> string \<Rightarrow> router \<Rightarrow> router" where
  "As i name r = r\<lparr>routes := (routes r)[i := (routes r ! i)\<lparr>rt_name := name\<rparr>],
                   named := (named r)(name \<mapsto> i)\<rparr>"

definition NotFound :: "handler \<Rightarrow> router \<Rightarrow> router" where
  "NotFound h r = r\<lparr>notFound := Some h\<rparr>"

definition MethodNotAllowed :: "handler \<Rightarrow> router \<Rightarrow> router" where
  "MethodNotAllowed h r = r\<lparr>methodNotAllowed := Some h\<rparr>"

definition fill :: "(string \<rightharpoonup> string) \<Rightarrow> string \<Rightarrow> string" where
  "fill ps p = (let val = (\<lambda>k. case ps k of None \<Rightarrow> [] | Some v \<Rightarrow> v) in
     if has_prefix p '':'' then val (drop 1 p) else if p = ''*'' then val ''*'' else p)"

definition URL :: "string \<Rightarrow> (string \<rightharpoonup> string) \<Rightarrow> router \<Rightarrow> string" where
  "URL name ps r =
     (case named r name of
        None \<Rightarrow> []
      | Some i \<Rightarrow> ''/'' @ join (map (fill ps) (segments (rt_pattern (routes r ! i)))) ''/'')"

subsection \<open>Static files\<close>

definition static_file :: "string \<Rightarrow> string \<Rightarrow> string" where
  "static_file dir rest =
     (let clean = path_clean (''/'' @ rest) in path_join [dir, trim_prefix clean ''/''])"

text \<open>\<^verbatim>\<open>http.ServeFile\<close>, behind \<^verbatim>\<open>Context.File\<close>, is the argument \<open>serve_file\<close>.\<close>

definition static_handler :: "(string \<Rightarrow> ctx \<Rightarrow> ctx) \<Rightarrow> string \<Rightarrow> handler" where
  "static_handler serve_file dir =
     Do (\<lambda>c. (serve_file (static_file dir (Param c ''*'')) c)\<lparr>is_written := True\<rparr>) Done"

definition Static :: "(string \<Rightarrow> ctx \<Rightarrow> ctx) \<Rightarrow> string \<Rightarrow> string \<Rightarrow> router \<Rightarrow> router" where
  "Static serve_file pfx dir r =
     snd (router_Get (trim_suffix pfx ''/'' @ ''/*'') (static_handler serve_file dir) r)"

section \<open>Groups\<close>

record group =
  g_prefix :: string
  g_middlewares :: "handler list"

record resource_controller =
  Index :: handler
  Show :: handler
  Store :: handler
  Update :: handler
  Destroy :: handler

text \<open>The callback of \<^verbatim>\<open>Group\<close> changes its group and the router; the group is dropped after it.\<close>

definition router_Group :: "string \<Rightarrow> (group \<times> router \<Rightarrow> group \<times> router) \<Rightarrow> router \<Rightarrow> router" where
  "router_Group pfx fn r = snd (fn (\<lparr>g_prefix = pfx, g_middlewares = []\<rparr>, r))"

definition group_Use :: "handler list \<Rightarrow> group \<times> router \<Rightarrow> group \<times> router" where
  "group_Use ms = (\<lambda>(g, r). (g\<lparr>g_middlewares := g_middlewares g @ ms\<rparr>, r))"

definition group_Group ::
  "string \<Rightarrow> (group \<times> router \<Rightarrow> group \<times> router) \<Rightarrow> group \<times> router \<Rightarrow> group \<times> router" where
  "group_Group pfx fn =
     (\<lambda>(g, r). (g, snd (fn (\<lparr>g_prefix = g_prefix g @ pfx, g_middlewares = g_middlewares g\<rparr>, r))))"

definition group_addRoute ::
  "string \<Rightarrow> string \<Rightarrow> handler \<Rightarrow> group \<times> router \<Rightarrow> nat \<times> group \<times> router" where
  "group_addRoute meth pattern h =
     (\<lambda>(g, r). let (i, r') = addRoute meth (g_prefix g @ pattern) h (g_middlewares g) r in (i, g, r'))"

definition group_Get :: "string \<Rightarrow> handler \<Rightarrow> group \<times> router \<Rightarrow> nat \<times> group \<times> router" where
  "group_Get pattern h = group_addRoute ''GET'' pattern h"

definition group_Post :: "string \<Rightarrow> handler \<Rightarrow> group \<times> router \<Rightarrow> nat \<times> group \<times> router" where
  "group_Post pattern h = group_addRoute ''POST'' pattern h"

definition group_Put :: "string \<Rightarrow> handler \<Rightarrow> group \<times> router \<Rightarrow> nat \<times> group \<times> router" where
  "group_Put pattern h = group_addRoute ''PUT'' pattern h"

definition group_Patch :: "string \<Rightarrow> handler \<Rightarrow> group \<times> router \<Rightarrow> nat \<times> group \<times> router" where
  "group_Patch pattern h = group_addRoute ''PATCH'' pattern h"

definition group_Delete :: "string \<Rightarrow> handler \<Rightarrow> group \<times> router \<Rightarrow> nat \<times> group \<times> router" where
  "group_Delete pattern h = group_addRoute ''DELETE'' pattern h"

definition group_Head :: "string \<Rightarrow> handler \<Rightarrow> group \<times> router \<Rightarrow> nat \<times> group \<times> router" where
  "group_Head pattern h = group_addRoute ''HEAD'' pattern h"

definition group_Options :: "string \<Rightarrow> handler \<Rightarrow> group \<times> router \<Rightarrow> nat \<times> group \<times> router" where
  "group_Options pattern h = group_addRoute ''OPTIONS'' pattern h"

definition group_Any :: "string \<Rightarrow> handler \<Rightarrow> group \<times> router \<Rightarrow> group \<times> router" where
  "group_Any pattern h s = fold (\<lambda>m s. snd (group_addRoute m pattern h s)) any_methods s"

definition group_Static ::
  "(string \<Rightarrow> ctx \<Rightarrow> ctx) \<Rightarrow> string \<Rightarrow> string \<Rightarrow> group \<times> router \<Rightarrow> group \<times> router" where
  "group_Static serve_file pfx dir =
     (\<lambda>(g, r). (g, Static serve_file (g_prefix g @ pfx) dir r))"

definition group_Resource :: "string \<Rightarrow> resource_controller \<Rightarrow> group \<times> router \<Rightarrow> group \<times> router" where
  "group_Resource pfx ctrl s =
     (let s = snd (group_Get pfx (Index ctrl) s);
          s = snd (group_Post pfx (Store ctrl) s);
          s = snd (group_Get (pfx @ ''/:id'') (Show ctrl) s);
          s = snd (group_Put (pfx @ ''/:id'') (Update ctrl) s)
      in snd (group_Delete (pfx @ ''/:id'') (Destroy ctrl) s))"

definition router_Resource :: "string \<Rightarrow> resource_controller \<Rightarrow> router \<Rightarrow> router" where
  "router_Resource pfx ctrl r =
     (let r = snd (router_Get pfx (Index ctrl) r);
          r = snd (router_Post pfx (Store ctrl) r);
          r = snd (router_Get (pfx @ ''/:id'') (Show ctrl) r);
          r = snd (router_Put (pfx @ ''/:id'') (Update ctrl) r)
      in snd (router_Delete (pfx @ ''/:id'') (Destroy ctrl) r))"

section \<open>Dispatch\<close>

definition lookup :: "router \<Rightarrow> string \<Rightarrow> string \<Rightarrow> nat option \<times> (string \<rightharpoonup> string) \<times> string list" where
  "lookup r meth path = lookup_node (tree r) (segments path) meth"

definition chain_handlers :: "handler list \<Rightarrow> handler \<Rightarrow> handler list" where
  "chain_handlers ms h = ms @ [h]"

text \<open>\<^verbatim>\<open>http.NotFound\<close> on the plain writer.\<close>

definition http_not_found :: "ctx \<Rightarrow> ctx" where
  "http_not_found c =
     (let c1 = SetHeader ''X-Content-Type-Options'' ''nosniff''
                 (SetHeader ''Content-Type'' ''text/plain; charset=utf-8'' c)
      in c1\<lparr>resp := base_write (Bytes (''404 page not found'' @ ''\<newline>''))
                     (base_write_header 404 (resp c1))\<rparr>)"

definition returned :: "ctx \<Rightarrow> outcome" where
  "returned c = Ret \<lparr>index = -1, cx = c, started = []\<rparr>"

definition ServeHTTP :: "router \<Rightarrow> request \<Rightarrow> outcome" where
  "ServeHTTP r rq =
     (let c = SetProxyTrust (trustAllProxies r) (trustedProxies r) (new_context rq) in
      case lookup r (req_method rq) (req_path rq) of
        (None, _, allowed) \<Rightarrow>
          if allowed \<noteq> [] then
            (let c = SetHeader ''Allow'' (join allowed '', '') c in
             case methodNotAllowed r of
               Some h \<Rightarrow> run_chain (chain_handlers (global r) h) c
             | None \<Rightarrow> returned (JSON 405 (error_json 405 ''Method Not Allowed'') c))
          else (case notFound r of
                  Some h \<Rightarrow> run_chain (chain_handlers (global r) h) c
                | None \<Rightarrow> returned (http_not_found c))
      | (Some i, ps, _) \<Rightarrow>
          (let rt = routes r ! i;
               c = c\<lparr>params := ps\<rparr>;
               c = (if req_method rq = ''HEAD'' \<and> rt_method rt = ''GET''
                    then c\<lparr>writer := [HeadW]\<rparr> else c)
           in run_chain (global r @ rt_middlewares rt @ [rt_handler rt]) c))"

section \<open>The abstract router\<close>

text \<open>
  A pattern as a list of steps: a literal, a parameter, or the wildcard, which ends the pattern.
  The abstract router knows only the registrations, in their order: the segments of the pattern, the
  method and the reference of the route.
\<close>

datatype step = Lit string | Par | Wild

fun steps :: "string list \<Rightarrow> step list" where
  "steps [] = []"
| "steps (seg # segs) =
     (if seg = ''*'' then [Wild]
      else if has_prefix seg '':'' then Par # steps segs else Lit seg # steps segs)"

type_synonym registration = "string list \<times> string \<times> nat"

definition registered :: "registration list \<Rightarrow> step list \<Rightarrow> bool" where
  "registered rs p \<longleftrightarrow> list_ex (\<lambda>(segs, _). prefix p (steps segs)) rs"

text \<open>The last registration of a method at a complete pattern.\<close>

fun handler_at :: "registration list \<Rightarrow> step list \<Rightarrow> string \<rightharpoonup> nat" where
  "handler_at [] p = Map.empty"
| "handler_at ((segs, meth, i) # rs) p =
     (if steps segs = p then [meth \<mapsto> i] else Map.empty) ++ handler_at rs p"

text \<open>The name of the parameter after \<open>p\<close>: the first registration through it decides.\<close>

fun key_at :: "registration list \<Rightarrow> step list \<Rightarrow> string" where
  "key_at [] p = []"
| "key_at ((segs, _) # rs) p =
     (if prefix (p @ [Par]) (steps segs) then drop 1 (segs ! length p) else key_at rs p)"

text \<open>
  The choice of a pattern for a path: a literal step if any registered pattern continues with it,
  else a parameter, else the wildcard for the whole rest; a choice is never revised.
\<close>

fun pick_path ::
  "registration list \<Rightarrow> step list \<Rightarrow> string list \<Rightarrow> (string \<rightharpoonup> string) \<Rightarrow> (step list \<times> (string \<rightharpoonup> string)) option" where
  "pick_path rs p [] ps = Some (p, ps)"
| "pick_path rs p (seg # segs) ps =
     (if registered rs (p @ [Lit seg]) then pick_path rs (p @ [Lit seg]) segs ps
      else if registered rs (p @ [Par]) then pick_path rs (p @ [Par]) segs (ps(key_at rs p \<mapsto> seg))
      else if registered rs (p @ [Wild]) then Some (p @ [Wild], ps(''*'' \<mapsto> join (seg # segs) ''/''))
      else None)"

definition lookup_spec ::
  "registration list \<Rightarrow> string list \<Rightarrow> string \<Rightarrow> (nat \<times> (string \<rightharpoonup> string)) option" where
  "lookup_spec rs segs meth =
     (case pick_path rs [] segs Map.empty of
        None \<Rightarrow> None
      | Some (p, ps) \<Rightarrow>
          (case handler_at rs p meth of
             Some i \<Rightarrow> Some (i, ps)
           | None \<Rightarrow> if meth = ''HEAD'' then map_option (\<lambda>i. (i, ps)) (handler_at rs p ''GET'') else None))"

definition allowed_spec :: "registration list \<Rightarrow> string list \<Rightarrow> string set" where
  "allowed_spec rs segs =
     (case pick_path rs [] segs Map.empty of None \<Rightarrow> {} | Some (p, _) \<Rightarrow> dom (handler_at rs p))"

definition build :: "registration list \<Rightarrow> node" where
  "build rs = fold (\<lambda>(segs, meth, i). insert_node segs meth i) rs newNode"

section \<open>The trie implements it\<close>

fun child :: "node \<Rightarrow> step \<Rightarrow> node option" where
  "child n (Lit s) = nd_static n s"
| "child n Par = nd_param n"
| "child n Wild = nd_wild n"

fun node_at :: "node \<Rightarrow> step list \<Rightarrow> node option" where
  "node_at n [] = Some n"
| "node_at n (x # p) = Option.bind (child n x) (\<lambda>m. node_at m p)"

lemma node_at_append: "node_at n (p @ q) = Option.bind (node_at n p) (\<lambda>m. node_at m q)"
  by (induction p arbitrary: n) (auto split: bind_splits)

text \<open>Tables and keys at a path, those of an empty node where there is no node.\<close>

definition table :: "node \<Rightarrow> step list \<Rightarrow> string \<rightharpoonup> nat" where
  "table n p = (case node_at n p of None \<Rightarrow> Map.empty | Some m \<Rightarrow> map_of (nd_routes m))"

lemma table_simps [simp]:
  "table n [] = map_of (nd_routes n)"
  "table n (x # p) = (case child n x of None \<Rightarrow> Map.empty | Some m \<Rightarrow> table m p)"
  by (simp_all add: table_def split: option.splits)

lemma new_simps [simp]:
  "child newNode x = None" "nd_routes newNode = []" "nd_param newNode = None"
  "nd_paramKey newNode = []"
  by (cases x) (simp_all add: newNode_def)

lemma node_at_new [simp]: "node_at newNode p = None \<longleftrightarrow> p \<noteq> []"
  by (cases p) simp_all

lemma table_new [simp]: "table newNode p = Map.empty"
  by (cases p) simp_all

lemma put_simps [simp]:
  "child (put_route meth r n) x = child n x"
  "nd_routes (put_route meth r n) = AList.update meth r (nd_routes n)"
  "nd_param (put_route meth r n) = nd_param n" "nd_paramKey (put_route meth r n) = nd_paramKey n"
  by (cases x) (simp_all add: put_route_def)

lemma node_at_put [simp]:
  "(\<exists>m. node_at (put_route meth r n) p = Some m) \<longleftrightarrow> (\<exists>m. node_at n p = Some m)"
  by (cases p) simp_all

lemma table_put [simp]:
  "table (put_route meth r n) p = (if p = [] then (table n p)(meth \<mapsto> r) else table n p)"
  by (cases p) (simp_all add: update_conv')

lemma or_new_simps [simp]: "or_new None = newNode" "or_new (Some n) = n"
  by (simp_all add: or_new_def)

lemma child_insert:
  "child (insert_node (seg # segs) meth r n) x =
     (if seg = ''*'' then (if x = Wild then Some (put_route meth r (or_new (nd_wild n))) else child n x)
      else if has_prefix seg '':'' then
        (if x = Par then Some (insert_node segs meth r (or_new (nd_param n))) else child n x)
      else (if x = Lit seg then Some (insert_node segs meth r (or_new (nd_static n seg))) else child n x))"
  by (cases x) auto

lemma routes_insert [simp]: "nd_routes (insert_node (seg # segs) meth r n) = nd_routes n"
  by simp

declare insert_node.simps(2) [simp del]

lemma table_or_new: "table (or_new c) p = (case c of None \<Rightarrow> Map.empty | Some m \<Rightarrow> table m p)"
  by (cases c) simp_all

lemma table_insert:
  "table (insert_node segs meth r n) p =
     (if p = steps segs then (table n p)(meth \<mapsto> r) else table n p)"
proof (induction segs arbitrary: n p)
  case (Cons seg segs)
  show ?case
  proof (cases p)
    case (Cons x q)
    have "table (insert_node (seg # segs) meth r n) p =
        (case child (insert_node (seg # segs) meth r n) x of None \<Rightarrow> Map.empty | Some m \<Rightarrow> table m q)"
      using Cons by simp
    also have "\<dots> = (if p = steps (seg # segs) then (table n p)(meth \<mapsto> r) else table n p)"
      unfolding child_insert Cons
      by (cases x) (simp_all add: Cons.IH table_or_new fun_eq_iff del: table_simps(1) split: option.split)
    finally show ?thesis .
  qed simp
qed (simp del: table_simps)

lemma node_at_insert:
  "(\<exists>m. node_at (insert_node segs meth r n) p = Some m) \<longleftrightarrow>
     (\<exists>m. node_at n p = Some m) \<or> prefix p (steps segs)"
proof (induction segs arbitrary: n p)
  case (Cons seg segs)
  have or_new: "(\<exists>m. node_at (or_new c) q = Some m) \<longleftrightarrow> q = [] \<or> (\<exists>m. Option.bind c (\<lambda>n. node_at n q) = Some m)"
    for c q by (cases c; cases q) simp_all
  show ?case
    by (cases p) (auto simp: child_insert Cons.IH or_new)
qed (auto simp: prefix_def)

definition node_key :: "node \<Rightarrow> step list \<Rightarrow> string" where
  "node_key n p = (case node_at n p of None \<Rightarrow> [] | Some m \<Rightarrow> nd_paramKey m)"

lemma key_simps [simp]:
  "node_key n [] = nd_paramKey n"
  "node_key n (x # p) = (case child n x of None \<Rightarrow> [] | Some m \<Rightarrow> node_key m p)"
  by (simp_all add: node_key_def split: option.splits)

lemma key_new [simp]: "node_key newNode p = []"
  by (cases p) simp_all

lemma key_put [simp]: "node_key (put_route meth r n) p = node_key n p"
  by (cases p) simp_all

lemma key_or_new: "node_key (or_new c) p = (case c of None \<Rightarrow> [] | Some m \<Rightarrow> node_key m p)"
  by (cases c) simp_all

lemma node_at_or_new_Par:
  "node_at (or_new c) (p @ [x]) = Option.bind c (\<lambda>n. node_at n (p @ [x]))"
  by (cases c) (simp_all add: node_at_append node_at.simps(1) flip: not_None_eq, cases p, auto)

lemma paramKey_insert [simp]:
  "nd_paramKey (insert_node (seg # segs) meth r n) =
     (if seg \<noteq> ''*'' \<and> has_prefix seg '':'' \<and> nd_param n = None then drop 1 seg else nd_paramKey n)"
  by (simp add: insert_node.simps)

lemma key_insert:
  "node_key (insert_node segs meth r n) p =
     (if prefix (p @ [Par]) (steps segs) \<and> node_at n (p @ [Par]) = None
      then drop 1 (segs ! length p) else node_key n p)"
proof (induction segs arbitrary: n p)
  case (Cons seg segs)
  show ?case
    by (cases p) (auto simp: child_insert Cons.IH key_or_new node_at_or_new_Par split: option.splits)
qed simp

text \<open>What a trie built from a list of registrations holds at each path.\<close>

lemma build_simps [simp]:
  "build [] = newNode"
  "build (rs @ [(segs, meth, i)]) = insert_node segs meth i (build rs)"
  by (simp_all add: build_def)

lemma registered_simps [simp]:
  "\<not> registered [] p"
  "registered ((segs, meth, i) # rs) p \<longleftrightarrow> prefix p (steps segs) \<or> registered rs p"
  "registered (rs @ rs') p \<longleftrightarrow> registered rs p \<or> registered rs' p"
  by (auto simp: registered_def list_ex_iff)

lemma handler_at_snoc:
  "handler_at (rs @ [(segs, meth, i)]) p =
     (if steps segs = p then (handler_at rs p)(meth \<mapsto> i) else handler_at rs p)"
  by (induction rs p rule: handler_at.induct) (auto simp: fun_eq_iff map_add_def)

lemma key_at_unregistered: "\<not> registered rs (p @ [Par]) \<Longrightarrow> key_at rs p = []"
  by (induction rs p rule: key_at.induct) auto

lemma key_at_append:
  "key_at (rs @ rs') p = (if registered rs (p @ [Par]) then key_at rs p else key_at rs' p)"
  by (induction rs p rule: key_at.induct) auto

lemma build_node: "(\<exists>m. node_at (build rs) p = Some m) \<longleftrightarrow> p = [] \<or> registered rs p"
proof (induction rs rule: rev_induct)
  case (snoc x rs)
  obtain segs meth i where "x = (segs, meth, i)" by (cases x)
  with snoc show ?case by (auto simp: node_at_insert)
qed (use node_at_new [of p] in \<open>cases p; auto\<close>)

lemma build_node_None: "p \<noteq> [] \<Longrightarrow> node_at (build rs) p = None \<longleftrightarrow> \<not> registered rs p"
  using build_node [of rs p] by (cases "node_at (build rs) p") auto

lemma build_table: "table (build rs) p = handler_at rs p"
proof (induction rs rule: rev_induct)
  case (snoc x rs)
  obtain segs meth i where "x = (segs, meth, i)" by (cases x)
  with snoc show ?case by (auto simp: table_insert handler_at_snoc)
qed simp

lemma build_key: "node_key (build rs) p = key_at rs p"
proof (induction rs rule: rev_induct)
  case (snoc x rs)
  obtain segs meth i where x: "x = (segs, meth, i)" by (cases x)
  have "\<not> registered rs (p @ [Par]) \<Longrightarrow> node_key (build rs) p = []"
    using snoc key_at_unregistered by simp
  with x snoc show ?case by (auto simp: key_insert key_at_append build_node_None)
qed simp

lemma walk_pick_path:
  assumes "node_at (build rs) p = Some n"
  shows "walk n segs ps =
    (case pick_path rs p segs ps of
       None \<Rightarrow> None
     | Some (q, ps') \<Rightarrow> map_option (\<lambda>m. (m, ps')) (node_at (build rs) q))"
  using assms
proof (induction segs arbitrary: p n ps)
  case (Cons seg segs)
  have child: "child n x = node_at (build rs) (p @ [x])" for x
    using Cons.prems by (simp add: node_at_append)
  have reg: "registered rs (p @ [x]) \<longleftrightarrow> child n x \<noteq> None" for x
    using build_node_None [of "p @ [x]" rs] child by auto
  have node_key: "nd_paramKey n = key_at rs p"
    using Cons.prems build_key [of rs p] by (simp add: node_key_def)
  note facts = reg [of "Lit seg"] reg [of Par] reg [of Wild] child [of Wild] node_key
  consider (lit) m where "child n (Lit seg) = Some m" | (par) m where "child n (Lit seg) = None" "child n Par = Some m"
    | (rest) "child n (Lit seg) = None" "child n Par = None" by fastforce
  then show ?case
  proof cases
    case (lit m)
    then have "node_at (build rs) (p @ [Lit seg]) = Some m" using child [of "Lit seg"] by simp
    from Cons.IH [OF this, of ps] lit facts show ?thesis by simp
  next
    case (par m)
    then have "node_at (build rs) (p @ [Par]) = Some m" using child [of Par] by simp
    from Cons.IH [OF this, of "ps(key_at rs p \<mapsto> seg)"] par facts show ?thesis
      by (simp del: fun_upd_apply)
  next
    case rest
    with facts show ?thesis by (cases "node_at (build rs) (p @ [Wild])") auto
  qed
qed simp

lemma pick_path_node:
  "pick_path rs p segs ps = Some (q, ps') \<Longrightarrow> p = [] \<or> registered rs p \<Longrightarrow> q = [] \<or> registered rs q"
  by (induction rs p segs ps rule: pick_path.induct) (auto split: if_splits)

lemma lookup_node_build:
  "lookup_node (build rs) segs meth = (rt, ps, allowed) \<Longrightarrow>
     (case lookup_spec rs segs meth of
        Some (i, qs) \<Rightarrow> rt = Some i \<and> ps = qs \<and> allowed = []
      | None \<Rightarrow> rt = None \<and> set allowed = allowed_spec rs segs)"
proof (cases "pick_path rs [] segs Map.empty")
  case None
  moreover assume "lookup_node (build rs) segs meth = (rt, ps, allowed)"
  ultimately show ?thesis
    by (simp add: lookup_node_def walk_pick_path [of rs "[]"] lookup_spec_def allowed_spec_def)
next
  case (Some qp)
  obtain q qs where qp: "qp = (q, qs)" by (cases qp)
  obtain m where m: "node_at (build rs) q = Some m"
    using pick_path_node [of rs "[]" segs Map.empty q qs] Some qp build_node [of rs q] by auto
  have tab: "map_of (nd_routes m) = handler_at rs q"
    using build_table [of rs q] m by (simp add: table_def)
  have "set (map fst (nd_routes m)) = dom (handler_at rs q)"
    using tab dom_map_of_conv_image_fst [of "nd_routes m"] by simp
  moreover assume "lookup_node (build rs) segs meth = (rt, ps, allowed)"
  moreover have "nd_routes m = [] \<Longrightarrow> handler_at rs q = Map.empty" using tab by auto
  ultimately show ?thesis
    using m tab Some qp
    by (auto simp: lookup_node_def walk_pick_path [of rs "[]"] lookup_spec_def allowed_spec_def
        split: if_splits option.splits)
qed

section \<open>The router's invariant\<close>

definition registrations :: "router \<Rightarrow> registration list" where
  "registrations r = map (\<lambda>(i, rt). (segments (rt_pattern rt), rt_method rt, i)) (enumerate 0 (routes r))"

definition wf_router :: "router \<Rightarrow> bool" where
  "wf_router r \<longleftrightarrow>
     tree r = build (registrations r) \<and> ran (named r) \<subseteq> {..<length (routes r)}"

text \<open>
  The routers the operations make: \<open>addRoute\<close> is the one way to register, the methods of router and
  group reach it (\<open>reach_methods\<close>, \<open>reach_groups\<close>); a group adds its prefix and middleware before.
\<close>

inductive router_reach :: "router \<Rightarrow> bool" where
  reach_new: "router_reach new_router"
| reach_add: "router_reach r \<Longrightarrow> router_reach (snd (addRoute meth pattern h mw r))"
| reach_as: "router_reach r \<Longrightarrow> i < length (routes r) \<Longrightarrow> router_reach (As i name r)"
| reach_use: "router_reach r \<Longrightarrow> router_reach (router_Use ms r)"
| reach_not_found: "router_reach r \<Longrightarrow> router_reach (NotFound h r)"
| reach_not_allowed: "router_reach r \<Longrightarrow> router_reach (MethodNotAllowed h r)"
| reach_proxies: "router_reach r \<Longrightarrow> router_reach (snd (SetTrustedProxies pc proxies r))"

lemma registrations_add:
  "registrations (snd (addRoute meth pattern h mw r)) =
     registrations r @ [(segments pattern, meth, length (routes r))]"
  by (simp add: registrations_def addRoute_def Let_def enumerate_append_eq)

lemma registrations_As [simp]: "registrations (As i name r) = registrations r"
proof (rule nth_equalityI)
  fix j assume "j < length (registrations (As i name r))"
  then have "j < length (routes r)" by (simp add: registrations_def As_def)
  then show "registrations (As i name r) ! j = registrations r ! j"
    by (cases "i = j") (simp_all add: registrations_def As_def nth_enumerate_eq)
qed (simp add: registrations_def As_def)

lemma add_proxies_same [simp]:
  "routes (snd (add_proxies pc ps r)) = routes r" "tree (snd (add_proxies pc ps r)) = tree r"
  "named (snd (add_proxies pc ps r)) = named r"
  by (induction pc ps r rule: add_proxies.induct) (auto simp: Let_def split: sum.splits)

lemmas router_op_defs = router_Use_def NotFound_def MethodNotAllowed_def SetTrustedProxies_def Let_def

lemma router_reach_wf: "router_reach r \<Longrightarrow> wf_router r"
proof (induction rule: router_reach.induct)
  case reach_new
  then show ?case by (simp add: wf_router_def registrations_def new_router_def)
next
  case (reach_add r meth pattern h mw)
  then show ?case
    by (simp add: wf_router_def registrations_add)
      (fastforce simp: addRoute_def Let_def ran_def)
next
  case (reach_as r i name)
  then show ?case by (fastforce simp: wf_router_def As_def ran_def simp flip: registrations_As [of i name r] split: if_splits)
qed (simp_all add: wf_router_def registrations_def router_op_defs)

lemma reach_methods:
  assumes "router_reach r"
  shows "router_reach (snd (router_Get p h r))" "router_reach (snd (router_Post p h r))"
    "router_reach (snd (router_Put p h r))" "router_reach (snd (router_Patch p h r))"
    "router_reach (snd (router_Delete p h r))" "router_reach (snd (router_Head p h r))"
    "router_reach (snd (router_Options p h r))" "router_reach (router_Any p h r)"
    "router_reach (Static sf pre dir r)"
  using assms
  by (simp_all add: router_Get_def router_Post_def router_Put_def router_Patch_def router_Delete_def
      router_Head_def router_Options_def router_Any_def any_methods_def Static_def reach_add)

lemma reach_resource: "router_reach r \<Longrightarrow> router_reach (router_Resource p ctrl r)"
  by (simp add: router_Resource_def Let_def reach_methods)

lemma reach_group_add: "router_reach (snd s) \<Longrightarrow> router_reach (snd (snd (group_addRoute m p h s)))"
  by (cases s) (simp add: group_addRoute_def reach_add split: prod.split, metis reach_add snd_conv)

lemma reach_groups:
  assumes "router_reach (snd s)"
  shows "router_reach (snd (group_Use ms s))" "router_reach (snd (group_Any p h s))"
    "router_reach (snd (group_Resource p ctrl s))" "router_reach (snd (group_Static sf p dir s))"
    "(\<And>s. router_reach (snd s) \<Longrightarrow> router_reach (snd (fn s))) \<Longrightarrow> router_reach (snd (group_Group p fn s))"
    "(\<And>s. router_reach (snd s) \<Longrightarrow> router_reach (snd (fn s))) \<Longrightarrow> router_reach (router_Group p fn (snd s))"
  using assms
  by (cases s; simp add: group_Use_def group_Any_def any_methods_def group_Resource_def group_Get_def
      group_Post_def group_Put_def group_Delete_def reach_group_add Let_def group_Static_def
      group_Group_def router_Group_def reach_methods)+

section \<open>Properties\<close>

lemma lookup_refines_raw:
  assumes "router_reach r"
  shows "case lookup r meth path of (rt, ps, allowed) \<Rightarrow>
     (case lookup_spec (registrations r) (segments path) meth of
        Some (i, qs) \<Rightarrow> rt = Some i \<and> ps = qs \<and> allowed = []
      | None \<Rightarrow> rt = None \<and> set allowed = allowed_spec (registrations r) (segments path))"
proof -
  obtain rt ps allowed where l: "lookup r meth path = (rt, ps, allowed)" by (metis prod_cases3)
  with router_reach_wf [OF assms] have
    "lookup_node (build (registrations r)) (segments path) meth = (rt, ps, allowed)"
    by (simp add: lookup_def wf_router_def)
  from lookup_node_build [OF this] l show ?thesis by simp
qed

text \<open>
  Property C1: the trie implements the abstract router. On every router the operations
  can build, a lookup gives exactly the route, with the parameters, that the list of registrations
  determines: at each segment a literal continuation if some pattern has one, else a parameter, else
  the wildcard for the rest; there, the last registration of the method, or of GET for a HEAD request.
  If there is none, the allowed methods are exactly the methods registered for that pattern.
\<close>

theorem lookup_refines:
  assumes "router_reach r"
  shows "case lookup r meth path of (rt, ps, allowed) \<Rightarrow>
     (case lookup_spec (registrations r) (segments path) meth of
        Some (i, qs) \<Rightarrow> rt = Some i \<and> ps = qs \<and> allowed = []
      | None \<Rightarrow> rt = None \<and> set allowed = allowed_spec (registrations r) (segments path))"
  using assms by (rule lookup_refines_raw)

theorem lookup_refines_witness:
  "lookup (snd (addRoute ''GET'' ''/users/:id'' Done [] new_router)) ''HEAD'' ''/users/7'' =
     (Some 0, [''id'' \<mapsto> ''7''], [])"
proof -
  let ?r = "snd (addRoute ''GET'' ''/users/:id'' Done [] new_router)"
  have "router_reach ?r" by (intro reach_add reach_new)
  moreover have segs: "segments ''/users/:id'' = [''users'', '':id'']" "segments ''/users/7'' = [''users'', ''7'']"
    by (simp_all add: segments_def splitPath_def)
  have "registrations ?r = [([''users'', '':id''], ''GET'', 0)]"
    unfolding registrations_add segs by (simp add: registrations_def new_router_def)
  then have "lookup_spec (registrations ?r) (segments ''/users/7'') ''HEAD'' = Some (0, [''id'' \<mapsto> ''7''])"
    unfolding segs by (simp add: lookup_spec_def)
  ultimately show ?thesis
    using lookup_refines [of ?r, where meth = "''HEAD''" and path = "''/users/7''"] by (auto split: prod.splits)
qed

text \<open>A path matches a pattern: literals are equal, the wildcard takes a non-empty rest.\<close>

fun path_matches :: "step list \<Rightarrow> string list \<Rightarrow> bool" where
  "path_matches [] segs \<longleftrightarrow> segs = []"
| "path_matches (Wild # p) segs \<longleftrightarrow> p = [] \<and> segs \<noteq> []"
| "path_matches (Par # p) segs \<longleftrightarrow> (case segs of [] \<Rightarrow> False | _ # ss \<Rightarrow> path_matches p ss)"
| "path_matches (Lit l # p) segs \<longleftrightarrow> (case segs of [] \<Rightarrow> False | s # ss \<Rightarrow> s = l \<and> path_matches p ss)"

lemma pick_path_matches:
  "pick_path rs p segs ps = Some (q, ps') \<Longrightarrow> \<exists>q'. q = p @ q' \<and> path_matches q' segs"
proof (induction rs p segs ps rule: pick_path.induct)
  case (2 rs p seg segs ps)
  then show ?case by (fastforce split: if_splits)
qed simp

lemma handler_at_Some:
  "handler_at rs p meth = Some i \<Longrightarrow> \<exists>segs. (segs, meth, i) \<in> set rs \<and> steps segs = p"
  by (induction rs p rule: handler_at.induct) (auto split: if_splits simp: map_add_Some_iff)

lemma registrations_mem:
  "(segs, meth, i) \<in> set (registrations r) \<longleftrightarrow>
     i < length (routes r) \<and> segs = segments (rt_pattern (routes r ! i)) \<and> meth = rt_method (routes r ! i)"
  by (auto simp: registrations_def in_set_enumerate_eq)

lemma lookup_spec_Some:
  assumes "lookup_spec rs segs meth = Some (i, ps)"
  obtains p m where "pick_path rs [] segs Map.empty = Some (p, ps)" "handler_at rs p m = Some i"
    "m = meth \<or> meth = ''HEAD'' \<and> m = ''GET''"
  using assms by (auto simp: lookup_spec_def split: option.splits if_splits)

text \<open>
  A lookup is sound. The route it returns is one of the router's routes, its pattern
  matches the path, and it is registered for the request's method, or for GET if that is HEAD.
\<close>

lemma lookup_sound:
  assumes "router_reach r" and "lookup r meth path = (Some i, ps, allowed)"
  shows "i < length (routes r)
     \<and> path_matches (steps (segments (rt_pattern (routes r ! i)))) (segments path)
     \<and> (rt_method (routes r ! i) = meth \<or> meth = ''HEAD'' \<and> rt_method (routes r ! i) = ''GET'')"
proof -
  have "lookup_spec (registrations r) (segments path) meth = Some (i, ps)"
    using lookup_refines_raw [OF assms(1), where meth = meth and path = path] assms(2) by (auto split: option.splits prod.splits)
  then obtain p m where p: "pick_path (registrations r) [] (segments path) Map.empty = Some (p, ps)"
    and m: "handler_at (registrations r) p m = Some i" "m = meth \<or> meth = ''HEAD'' \<and> m = ''GET''"
    by (rule lookup_spec_Some)
  from pick_path_matches [OF p] have "path_matches p (segments path)" by simp
  with handler_at_Some [OF m(1)] m(2) show ?thesis by (auto simp: registrations_mem)
qed

lemma lookup_sound_example:
  "0 < length (routes (snd (addRoute ''GET'' ''/users/:id'' Done [] new_router)))
   \<and> path_matches (steps (segments (rt_pattern (routes (snd (addRoute ''GET'' ''/users/:id'' Done [] new_router)) ! 0))))
       (segments ''/users/7'')"
proof -
  let ?r = "snd (addRoute ''GET'' ''/users/:id'' Done [] new_router)"
  have "router_reach ?r" by (intro reach_add reach_new)
  moreover have "lookup ?r ''HEAD'' ''/users/7'' = (Some 0, [''id'' \<mapsto> ''7''], [])"
    by (simp add: lookup_def segments_def splitPath_def addRoute_def Let_def new_router_def
        insert_node.simps put_route_def newNode_def lookup_node_def)
  ultimately show ?thesis using lookup_sound [of ?r "''HEAD''" "''/users/7''" 0] by blast
qed

text \<open>A literal path is never shadowed: the trie prefers literals at every segment.\<close>

lemma steps_literal: "\<forall>s\<in>set segs. s \<noteq> ''*'' \<and> \<not> has_prefix s '':'' \<Longrightarrow> steps segs = map Lit segs"
  by (induction segs) auto

lemma registered_prefix: "registered rs (p @ q) \<Longrightarrow> registered rs p"
  by (auto simp: registered_def list_ex_iff intro: append_prefixD)

lemma pick_path_literal:
  "registered rs (p @ map Lit segs) \<Longrightarrow> pick_path rs p segs ps = Some (p @ map Lit segs, ps)"
proof (induction rs p segs ps rule: pick_path.induct)
  case (2 rs p seg segs ps)
  then show ?case using registered_prefix [of rs "p @ [Lit seg]" "map Lit segs"] by simp
qed simp

lemma registered_self: "(segs, meth, i) \<in> set rs \<Longrightarrow> registered rs (steps segs)"
  by (auto simp: registered_def list_ex_iff)

lemma handler_at_last:
  assumes "(segs, meth, i) \<in> set rs"
    and "\<And>segs' j. (segs', meth, j) \<in> set rs \<Longrightarrow> steps segs' = steps segs \<Longrightarrow> j \<le> i"
    and "distinct (map (snd \<circ> snd) rs)" "sorted (map (snd \<circ> snd) rs)"
  shows "handler_at rs (steps segs) meth = Some i"
  using assms
proof (induction rs rule: rev_induct)
  case (snoc x rs)
  obtain segs' meth' j where x: "x = (segs', meth', j)" by (cases x)
  show ?case
  proof (cases "(segs, meth, i) \<in> set rs")
    case True
    then have "i < j" using snoc.prems(3,4) x by (force simp: sorted_append)
    then have "\<not> (steps segs' = steps segs \<and> meth' = meth)" using snoc.prems(2) [of segs' j] x by auto
    with True snoc x show ?thesis by (auto simp: handler_at_snoc sorted_append)
  next
    case False
    with snoc.prems(1) x show ?thesis by (simp add: handler_at_snoc)
  qed
qed simp

text \<open>
  A route whose pattern has neither parameters nor a wildcard is always found: whatever
  else is registered, a request for its path and method is served by the last route registered
  for that method and the same segments, with no parameters.
\<close>

lemma lookup_literal:
  assumes "router_reach r" and "i < length (routes r)"
    and "\<forall>s\<in>set (segments (rt_pattern (routes r ! i))). s \<noteq> ''*'' \<and> \<not> has_prefix s '':''"
    and "\<forall>j<length (routes r). rt_method (routes r ! j) = rt_method (routes r ! i) \<longrightarrow>
           steps (segments (rt_pattern (routes r ! j))) = steps (segments (rt_pattern (routes r ! i))) \<longrightarrow> j \<le> i"
    and "segments path = segments (rt_pattern (routes r ! i))"
  shows "lookup r (rt_method (routes r ! i)) path = (Some i, Map.empty, [])"
proof -
  let ?rs = "registrations r" and ?segs = "segments (rt_pattern (routes r ! i))" and ?m = "rt_method (routes r ! i)"
  have mem: "(?segs, ?m, i) \<in> set ?rs" using assms(2) by (simp add: registrations_mem)
  have ids: "map (snd \<circ> snd) ?rs = [0..<length (routes r)]"
    by (simp add: registrations_def comp_def case_prod_unfold)
  have "handler_at ?rs (steps ?segs) ?m = Some i"
    by (rule handler_at_last [OF mem]) (use assms(4) ids in \<open>auto simp: registrations_mem\<close>)
  moreover have "pick_path ?rs [] ?segs Map.empty = Some (steps ?segs, Map.empty)"
    using pick_path_literal [of ?rs "[]" ?segs] registered_self [OF mem] steps_literal [OF assms(3)] by simp
  ultimately have "lookup_spec ?rs (segments path) ?m = Some (i, Map.empty)"
    using assms(5) by (simp add: lookup_spec_def)
  then show ?thesis
    using lookup_refines_raw [OF assms(1), where meth = ?m and path = path] by (auto split: prod.splits)
qed

lemma lookup_literal_example:
  "lookup (snd (addRoute ''GET'' ''/a/b'' Done [] (snd (addRoute ''GET'' ''/a/:x'' Done [] new_router))))
     ''GET'' ''/a//b/'' = (Some 1, Map.empty, [])"
proof -
  let ?r = "snd (addRoute ''GET'' ''/a/b'' Done [] (snd (addRoute ''GET'' ''/a/:x'' Done [] new_router)))"
  have segs: "segments ''/a/b'' = [''a'', ''b'']" "segments ''/a/:x'' = [''a'', '':x'']"
    "segments ''/a//b/'' = [''a'', ''b'']" by (simp_all add: segments_def splitPath_def)
  have rts: "map (\<lambda>rt. (rt_method rt, rt_pattern rt)) (routes ?r) = [(''GET'', ''/a/:x''), (''GET'', ''/a/b'')]"
    by (simp add: addRoute_def Let_def new_router_def)
  then have len: "length (routes ?r) = 2" and at: "rt_method (routes ?r ! 1) = ''GET''"
    "rt_pattern (routes ?r ! 1) = ''/a/b''" by (auto simp: list_eq_iff_nth_eq addRoute_def Let_def new_router_def)
  have "router_reach ?r" by (intro reach_add reach_new)
  then show ?thesis
    using lookup_literal [of ?r 1 "''/a//b/''"] len unfolding at segs by simp
qed

lemma matches_fill: "\<forall>s\<in>set segs. fill ps s \<noteq> [] \<Longrightarrow> path_matches (steps segs) (map (fill ps) segs)"
  by (induction segs) (auto simp: fill_def Let_def)

lemma segments_segs: "s \<in> set (segments p) \<Longrightarrow> s \<noteq> [] \<and> CHR ''/'' \<notin> set s"
  by (auto simp: segments_split_by)

text \<open>
  The URL built from a route's name and non-empty values without slashes is a path
  whose segments are the pattern's, each parameter replaced by its value, and the pattern matches it.
\<close>

lemma URL_matches:
  assumes "named r name = Some i"
    and "\<forall>s\<in>set (segments (rt_pattern (routes r ! i))). has_prefix s '':'' \<or> s = ''*'' \<longrightarrow>
           fill ps s \<noteq> [] \<and> CHR ''/'' \<notin> set (fill ps s)"
  shows "segments (URL name ps r) = map (fill ps) (segments (rt_pattern (routes r ! i)))
    \<and> path_matches (steps (segments (rt_pattern (routes r ! i)))) (segments (URL name ps r))"
proof -
  let ?segs = "segments (rt_pattern (routes r ! i))"
  have fill: "fill ps s \<noteq> [] \<and> CHR ''/'' \<notin> set (fill ps s)" if "s \<in> set ?segs" for s
    using assms(2) segments_segs [OF that] that by (cases "has_prefix s '':'' \<or> s = ''*''") (auto simp: fill_def)
  then have "segments (URL name ps r) = map (fill ps) ?segs"
    using assms(1) segments_join [of "map (fill ps) ?segs"] by (simp add: URL_def)
  with matches_fill [of ?segs ps] fill show ?thesis by simp
qed

lemma URL_matches_example:
  "segments (URL ''user'' [''id'' \<mapsto> ''7''] (As 0 ''user'' (snd (addRoute ''GET'' ''/users/:id'' Done [] new_router))))
     = [''users'', ''7'']"
proof -
  let ?r = "As 0 ''user'' (snd (addRoute ''GET'' ''/users/:id'' Done [] new_router))"
  have named: "named ?r ''user'' = Some 0" by (simp add: As_def)
  have segs: "segments (rt_pattern (routes ?r ! 0)) = [''users'', '':id'']"
    by (simp add: As_def addRoute_def new_router_def Let_def segments_def splitPath_def)
  have "\<forall>s\<in>set (segments (rt_pattern (routes ?r ! 0))). has_prefix s '':'' \<or> s = ''*'' \<longrightarrow>
      fill [''id'' \<mapsto> ''7''] s \<noteq> [] \<and> CHR ''/'' \<notin> set (fill [''id'' \<mapsto> ''7''] s)"
    unfolding segs by (simp add: fill_def)
  from URL_matches [OF named this] show ?thesis unfolding segs by (simp add: fill_def)
qed

subsection \<open>Unmatched requests\<close>

lemma serve_unmatched_raw:
  assumes "router_reach r" and "lookup_spec (registrations r) (segments (req_path rq)) (req_method rq) = None"
    and "methodNotAllowed r = None" and "notFound r = None"
  shows "\<exists>s. ServeHTTP r rq = Ret s \<and> started s = [] \<and>
     (if allowed_spec (registrations r) (segments (req_path rq)) \<noteq> {}
      then \<exists>h ms. sent (resp (cx s)) = Some (405, h) \<and> header_get h ''Allow'' = join ms '', '' \<and>
             set ms = allowed_spec (registrations r) (segments (req_path rq)) \<and>
             out (resp (cx s)) = [Json (error_json 405 ''Method Not Allowed'')]
      else \<exists>h. sent (resp (cx s)) = Some (404, h))"
proof -
  obtain rt ps allowed where l: "lookup r (req_method rq) (req_path rq) = (rt, ps, allowed)"
    by (metis prod_cases3)
  with lookup_refines_raw [OF assms(1), where meth = "req_method rq" and path = "req_path rq"] assms(2)
  have rt: "rt = None" "set allowed = allowed_spec (registrations r) (segments (req_path rq))"
    by auto
  show ?thesis
  proof (cases "allowed = []")
    case True
    then show ?thesis using rt l assms(3,4)
      by (auto simp: ServeHTTP_def returned_def http_not_found_def Let_def base_write_def
          base_write_header_def new_context_def SetProxyTrust_def SetHeader_def empty_response_def)
  next
    case False
    then have "allowed_spec (registrations r) (segments (req_path rq)) \<noteq> {}" using rt(2) by auto
    moreover have "to_lower ''Allow'' \<noteq> to_lower ''Content-Type''" by code_simp
    ultimately show ?thesis using rt l assms(3) False
      by (auto simp: ServeHTTP_def returned_def Let_def base_write_def base_write_header_def JSON_def
          respond_def write_header_def write_body_def new_context_def SetProxyTrust_def SetHeader_def
          empty_response_def intro!: exI [of _ allowed])
  qed
qed

text \<open>
  Property C39: a path whose pattern is registered for other methods only is answered with status 405,
  a JSON body, and an Allow header that lists exactly the methods registered for it; a path no pattern
  is chosen for is answered with status 404. Both without running any handler, when the router has
  no handlers of its own for these cases.
\<close>

theorem serve_unmatched:
  assumes "router_reach r" and "lookup_spec (registrations r) (segments (req_path rq)) (req_method rq) = None"
    and "methodNotAllowed r = None" and "notFound r = None"
  shows "\<exists>s. ServeHTTP r rq = Ret s \<and> started s = [] \<and>
     (if allowed_spec (registrations r) (segments (req_path rq)) \<noteq> {}
      then \<exists>h ms. sent (resp (cx s)) = Some (405, h) \<and> header_get h ''Allow'' = join ms '', '' \<and>
             set ms = allowed_spec (registrations r) (segments (req_path rq)) \<and>
             out (resp (cx s)) = [Json (error_json 405 ''Method Not Allowed'')]
      else \<exists>h. sent (resp (cx s)) = Some (404, h))"
  using assms by (rule serve_unmatched_raw)

theorem serve_unmatched_witness:
  "\<exists>s h ms. ServeHTTP (snd (addRoute ''GET'' ''/'' Done [] new_router))
       \<lparr>req_method = ''PUT'', req_path = ''/'', req_uri = ''/'', req_host = [], req_tls = False,
        req_header = Map.empty, req_query = Map.empty, req_form = Map.empty, req_cookie = Map.empty,
        req_remote = [], req_body = [], req_body_err = None\<rparr> = Ret s \<and>
     sent (resp (cx s)) = Some (405, h) \<and> header_get h ''Allow'' = join ms '', '' \<and> set ms = {''GET''}"
proof -
  let ?r = "snd (addRoute ''GET'' ''/'' Done [] new_router)"
  let ?rq = "\<lparr>req_method = ''PUT'', req_path = ''/'', req_uri = ''/'', req_host = [], req_tls = False,
        req_header = Map.empty, req_query = Map.empty, req_form = Map.empty, req_cookie = Map.empty,
        req_remote = [], req_body = [], req_body_err = None\<rparr>"
  have segs: "segments ''/'' = []" by (simp add: segments_def splitPath_def)
  have rs: "registrations ?r = [([], ''GET'', 0)]"
    unfolding registrations_add segs by (simp add: registrations_def new_router_def)
  have 1: "router_reach ?r" by (intro reach_add reach_new)
  have 2: "lookup_spec (registrations ?r) (segments (req_path ?rq)) (req_method ?rq) = None"
    unfolding rs by (simp add: segs lookup_spec_def)
  have 3: "methodNotAllowed ?r = None" "notFound ?r = None"
    by (simp_all add: addRoute_def Let_def new_router_def)
  have "allowed_spec (registrations ?r) (segments (req_path ?rq)) = {''GET''}"
    unfolding rs by (simp add: segs allowed_spec_def)
  with serve_unmatched [OF 1 2 3] show ?thesis by auto
qed

subsection \<open>Static files stay in their directory\<close>

text \<open>
  Property C5: the static file handler never leaves its directory. Whatever the rest of the URL is,
  with dots, double dots or double slashes, the file served is the directory's own cleaned path
  followed by parts none of which is empty, \<^verbatim>\<open>.\<close> or \<^verbatim>\<open>..\<close> or has a slash.
\<close>

theorem static_file_confined:
  "\<exists>ps. clean_parts (static_file dir rest) = clean_parts dir @ ps \<and> list_all safe_part ps \<and>
        (has_prefix (static_file dir rest) ''/'' \<longleftrightarrow> has_prefix dir ''/'')"
  using join_confined [of dir rest] by (auto simp: static_file_def)

section \<open>Groups and shadowing\<close>

text \<open>
  A route registered in a nested group has the prefixes of both groups in front of its pattern and
  the middleware of the outer group before that of the inner one.
\<close>

lemma nested_group_route:
  "routes (snd (group_Group p (\<lambda>s. snd (group_addRoute m pattern h (group_Use ms s))) (g, r))) =
     routes r @ [\<lparr>rt_method = m, rt_pattern = (g_prefix g @ p) @ pattern, rt_handler = h,
                  rt_middlewares = g_middlewares g @ ms, rt_name = [],
                  rt_segs = segments ((g_prefix g @ p) @ pattern)\<rparr>]"
  by (simp add: group_Group_def group_addRoute_def group_Use_def addRoute_def Let_def)

text \<open>A static route of a group does not get the group's middleware.\<close>

lemma group_static_no_middleware:
  "routes (snd (group_Static sf p dir (g, r))) =
     routes r @ [\<lparr>rt_method = ''GET'', rt_pattern = trim_suffix (g_prefix g @ p) ''/'' @ ''/*'',
                  rt_handler = static_handler sf dir, rt_middlewares = [], rt_name = [],
                  rt_segs = segments (trim_suffix (g_prefix g @ p) ''/'' @ ''/*'')\<rparr>]"
  by (simp add: group_Static_def Static_def router_Get_def addRoute_def Let_def)

text \<open>
  The choice at a segment is never revised: with the two patterns below, a path that only the second
  one matches is not found, because the literal of the first leads away from it.
\<close>

lemma no_backtracking:
  "lookup (snd (addRoute ''GET'' ''/u/:id/posts'' Done [] (snd (addRoute ''GET'' ''/u/me'' Done [] new_router))))
     ''GET'' ''/u/me/posts'' = (None, Map.empty, [])
   \<and> path_matches (steps (segments ''/u/:id/posts'')) (segments ''/u/me/posts'')"
  by (simp add: lookup_def segments_def splitPath_def addRoute_def Let_def new_router_def
      insert_node.simps put_route_def newNode_def lookup_node_def or_new_def)

end
