(* ===== verification/Middleware.thy ===== *)
theory Middleware
  imports Router
begin

text \<open>
  Package middleware: CORS, security headers, request identifiers, panic recovery, CSRF, the two
  rate limiters, timeout and request logging, as handlers of the chain of \<^verbatim>\<open>HttpContext\<close>. The random
  tokens, the clock and the Redis client are arguments. The in-memory rate limiter's
  table of visitors is explicit state; its token counts are rational numbers where Go has float64,
  so the rounding of the machine is not modelled. The response compressor \<^verbatim>\<open>gzip.go\<close> is in \<open>Compression\<close>.
\<close>

section \<open>CORS\<close>

record CORSConfig =
  AllowOrigins :: "string list"
  AllowMethods :: "string list"
  AllowHeaders :: "string list"
  ExposeHeaders :: "string list"
  AllowCredentials :: bool
  MaxAge :: int

definition DefaultCORSConfig :: CORSConfig where
  "DefaultCORSConfig =
     \<lparr>AllowOrigins = [''*''],
      AllowMethods = [''GET'', ''POST'', ''PUT'', ''PATCH'', ''DELETE'', ''OPTIONS''],
      AllowHeaders = [''Origin'', ''Content-Type'', ''Accept'', ''Authorization'', ''X-Requested-With''],
      ExposeHeaders = [], AllowCredentials = False, MaxAge = 86400\<rparr>"

definition when_set :: "bool \<Rightarrow> (ctx \<Rightarrow> ctx) \<Rightarrow> ctx \<Rightarrow> ctx" where
  "when_set b f c = (if b then f c else c)"

definition origin_allowed :: "CORSConfig \<Rightarrow> string \<Rightarrow> bool" where
  "origin_allowed cfg origin \<longleftrightarrow> list_ex (\<lambda>a. a = ''*'' \<or> a = origin) (AllowOrigins cfg)"

definition cors_headers :: "CORSConfig \<Rightarrow> string \<Rightarrow> ctx \<Rightarrow> ctx" where
  "cors_headers cfg origin c =
     (let expose = join (ExposeHeaders cfg) '', '' in
      when_set (expose \<noteq> []) (SetHeader ''Access-Control-Expose-Headers'' expose)
        (when_set (AllowCredentials cfg) (SetHeader ''Access-Control-Allow-Credentials'' ''true'')
          (SetHeader ''Access-Control-Allow-Origin'' origin c)))"

definition cors_preflight :: "CORSConfig \<Rightarrow> ctx \<Rightarrow> ctx" where
  "cors_preflight cfg c =
     write_header 204
       (SetHeader ''Access-Control-Max-Age'' (itoa (MaxAge cfg))
         (SetHeader ''Access-Control-Allow-Headers'' (join (AllowHeaders cfg) '', '')
           (SetHeader ''Access-Control-Allow-Methods'' (join (AllowMethods cfg) '', '') c)))"

definition CORS :: "CORSConfig option \<Rightarrow> handler" where
  "CORS cfgs =
     (let cfg = (case cfgs of None \<Rightarrow> DefaultCORSConfig | Some cfg \<Rightarrow> cfg) in
      Dyn (\<lambda>c. let origin = Header c ''Origin'' in
        if origin = [] then Next Done
        else if \<not> origin_allowed cfg origin then Next Done
        else Do (cors_headers cfg origin)
               (if req_method (req c) = ''OPTIONS'' then Do (cors_preflight cfg) (Abort Done)
                else Next Done)))"

section \<open>Security headers\<close>

record SecurityConfig =
  ContentTypeNosniff :: bool
  FrameOptions :: string
  XSSProtection :: string
  ReferrerPolicy :: string
  HSTS :: string
  CSP :: string

definition DefaultSecurityConfig :: SecurityConfig where
  "DefaultSecurityConfig =
     \<lparr>ContentTypeNosniff = True, FrameOptions = ''DENY'', XSSProtection = ''0'',
      ReferrerPolicy = ''no-referrer'', HSTS = [], CSP = []\<rparr>"

definition set_security :: "SecurityConfig \<Rightarrow> ctx \<Rightarrow> ctx" where
  "set_security cfg c =
     when_set (CSP cfg \<noteq> []) (SetHeader ''Content-Security-Policy'' (CSP cfg))
      (when_set (HSTS cfg \<noteq> []) (SetHeader ''Strict-Transport-Security'' (HSTS cfg))
       (when_set (ReferrerPolicy cfg \<noteq> []) (SetHeader ''Referrer-Policy'' (ReferrerPolicy cfg))
        (when_set (XSSProtection cfg \<noteq> []) (SetHeader ''X-XSS-Protection'' (XSSProtection cfg))
         (when_set (FrameOptions cfg \<noteq> []) (SetHeader ''X-Frame-Options'' (FrameOptions cfg))
          (when_set (ContentTypeNosniff cfg) (SetHeader ''X-Content-Type-Options'' ''nosniff'') c)))))"

definition SecurityHeaders :: "SecurityConfig option \<Rightarrow> handler" where
  "SecurityHeaders cfgs =
     (let cfg = (case cfgs of None \<Rightarrow> DefaultSecurityConfig | Some cfg \<Rightarrow> cfg) in
      Do (set_security cfg) (Next Done))"

section \<open>Request identifiers\<close>

text \<open>\<open>rnd\<close> is the outcome of \<^verbatim>\<open>newRequestID\<close>'s random source: the hexadecimal string, or its failure.\<close>

definition newRequestID :: "string option \<Rightarrow> string" where
  "newRequestID rnd = (case rnd of None \<Rightarrow> ''gai-req'' | Some s \<Rightarrow> s)"

definition RequestID :: "string option \<Rightarrow> handler" where
  "RequestID rnd =
     Dyn (\<lambda>c. let h = Header c ''X-Request-ID'';
                  rid = (if h = [] then newRequestID rnd else h)
              in Do (Set ''request_id'' (GStr rid)) (Do (SetHeader ''X-Request-ID'' rid) (Next Done)))"

definition RequestIDFrom :: "ctx \<Rightarrow> string" where
  "RequestIDFrom c = (case Get c ''request_id'' of Some (GStr s) \<Rightarrow> s | _ \<Rightarrow> [])"

section \<open>Recovery\<close>

definition Recovery :: handler where
  "Recovery =
     NextRecover
       (\<lambda>err. Dyn (\<lambda>c. if is_written c then Done
                       else Do (JSON 500 (error_json 500 ''Internal Server Error'')) Done))
       Done"

section \<open>CSRF\<close>

text \<open>\<open>tok\<close> is the token \<^verbatim>\<open>newCSRFToken\<close> makes; \<^verbatim>\<open>hmac.Equal\<close> is equality.\<close>

definition csrf_cookie :: "string \<Rightarrow> cookie" where
  "csrf_cookie tok = \<lparr>ck_name = ''gai_csrf'', ck_value = tok, ck_path = ''/'', ck_max_age = 43200,
                      ck_http_only = False, ck_secure = False, ck_lax = True\<rparr>"

definition csrf_token :: "ctx \<Rightarrow> string" where
  "csrf_token c = (case Cookie c ''gai_csrf'' of None \<Rightarrow> [] | Some t \<Rightarrow> t)"

definition safe_method :: "string \<Rightarrow> bool" where
  "safe_method m \<longleftrightarrow> m = ''GET'' \<or> m = ''HEAD'' \<or> m = ''OPTIONS'' \<or> m = ''TRACE''"

definition csrf_presented :: "ctx \<Rightarrow> string" where
  "csrf_presented c =
     (let got = Header c ''X-CSRF-Token'' in if got = [] then PostForm c ''_token'' [] else got)"

definition CSRF :: "string \<Rightarrow> handler" where
  "CSRF tok =
     Dyn (\<lambda>c. let token = (if csrf_token c = [] then tok else csrf_token c);
                  got = csrf_presented c
        in Do (when_set (csrf_token c = []) (SetCookie (csrf_cookie token)))
             (Do (Set ''csrf_token'' (GStr token))
               (if safe_method (req_method (req c)) then Next Done
                else if got = [] \<or> got \<noteq> token
                then AbortWithJSON 403 (error_json 403 ''CSRF token mismatch'') Done
                else Next Done)))"

definition CSRFToken :: "ctx \<Rightarrow> string" where
  "CSRFToken c = (case Get c ''csrf_token'' of Some (GStr s) \<Rightarrow> s | _ \<Rightarrow> [])"

section \<open>Rate limits\<close>

text \<open>Times in seconds. The three readings of the clock are those of the handler, in order.\<close>

record visitor =
  tokens :: rat
  lastVisit :: rat

type_synonym visitors = "string \<rightharpoonup> visitor"

definition refill :: "rat \<Rightarrow> rat \<Rightarrow> rat \<Rightarrow> visitor \<Rightarrow> rat" where
  "refill limit rate t v = min limit (tokens v + (t - lastVisit v) * rate)"

definition take_token :: "rat \<Rightarrow> rat \<Rightarrow> rat \<times> rat \<times> rat \<Rightarrow> string \<Rightarrow> visitors \<Rightarrow> bool \<times> visitors" where
  "take_token limit rate = (\<lambda>(t0, t1, t2) ip vs.
     (let v = (case vs ip of None \<Rightarrow> \<lparr>tokens = limit, lastVisit = t0\<rparr> | Some v \<Rightarrow> v);
          n = refill limit rate t1 v
      in if n < 1 then (False, vs(ip \<mapsto> \<lparr>tokens = n, lastVisit = t2\<rparr>))
         else (True, vs(ip \<mapsto> \<lparr>tokens = n - 1, lastVisit = t2\<rparr>))))"

definition too_many :: "handler" where
  "too_many = Do (JSON 429 (error_json 429 ''Too Many Requests'')) (Abort Done)"

definition RateLimit ::
  "int \<Rightarrow> rat \<Rightarrow> (string \<Rightarrow> nat list option) \<Rightarrow> rat \<times> rat \<times> rat \<Rightarrow> ctx \<Rightarrow> visitors \<Rightarrow> handler \<times> visitors" where
  "RateLimit limit window parse_ip clock c vs =
     (let (ok, vs') = take_token (of_int limit) (of_int limit / window) clock (ClientIP parse_ip c) vs
      in (if ok then Next Done else too_many, vs'))"

text \<open>One pass of the clean-up goroutine.\<close>

definition sweep_visitors :: "rat \<Rightarrow> rat \<Rightarrow> visitors \<Rightarrow> visitors" where
  "sweep_visitors window now vs =
     (\<lambda>ip. case vs ip of
             None \<Rightarrow> None
           | Some v \<Rightarrow> if now - lastVisit v > window * 2 then None else Some v)"

text \<open>The Redis client is the pair of operations \<open>incr\<close> and \<open>expire\<close> on its own state.\<close>

definition RedisRateLimit ::
  "('s \<Rightarrow> string \<Rightarrow> (string + int) \<times> 's) \<Rightarrow> ('s \<Rightarrow> string \<Rightarrow> int \<Rightarrow> 's) \<Rightarrow> int \<Rightarrow> int \<Rightarrow>
     (string \<Rightarrow> nat list option) \<Rightarrow> ctx \<Rightarrow> 's \<Rightarrow> handler \<times> 's" where
  "RedisRateLimit incr expire limit window_seconds parse_ip c s =
     (let key = ''gai:ratelimit:'' @ ClientIP parse_ip c in
      case incr s key of
        (Inl _, s') \<Rightarrow> (Next Done, s')
      | (Inr n, s') \<Rightarrow>
          (let s'' = (if n = 1 then expire s' key window_seconds else s') in
           if n > limit then (Do (SetHeader ''Retry-After'' (itoa window_seconds)) too_many, s'')
           else (Next Done, s'')))"

section \<open>Timeout and logging\<close>

text \<open>\<open>expired\<close>: the deadline has passed when the rest of the chain returns.\<close>

definition Timeout :: "bool \<Rightarrow> handler" where
  "Timeout expired =
     Next (Dyn (\<lambda>c. if expired \<and> \<not> is_written c
                    then Do (JSON 504 (error_json 504 ''Request Timeout'')) Done else Done))"

definition push_status_writer :: "ctx \<Rightarrow> ctx" where
  "push_status_writer c = c\<lparr>writer := StatusW 200 # writer c\<rparr>"

text \<open>\<^verbatim>\<open>slog.Info\<close> after \<^verbatim>\<open>Next\<close> is output; what it reports of the status is \<open>logged_status\<close>.\<close>

definition Logger :: handler where
  "Logger = Do push_status_writer (Next Done)"

text \<open>The status of the writer that was pushed when \<open>n\<close> wrappers were below it.\<close>

definition logged_status :: "nat \<Rightarrow> ctx \<Rightarrow> int" where
  "logged_status n c =
     (case drop (length (writer c) - Suc n) (writer c) of StatusW s # _ \<Rightarrow> s | _ \<Rightarrow> 0)"

section \<open>Recovery: what it catches\<close>

text \<open>
  Handlers that neither abort nor panic, followed by one that panics: the loop reaches the last one,
  every handler has started, and the index is the panicking handler's.
\<close>

definition panics_end :: "nat \<Rightarrow> chain \<Rightarrow> chain \<Rightarrow> bool" where
  "panics_end n s s' \<longleftrightarrow> index s' = int n - 1 \<and> started s' = started s @ [nat (index s + 1)..<n]"

lemma run_handler_panics:
  assumes nx: "\<And>t. index t = i \<Longrightarrow> \<exists>t'. nx t = Panicked v t' \<and> panics_end n t t'"
    and "plain h" and "index s = i"
  shows "(\<exists>s'. run_handler nx n h s = Ret s' \<and> index s' = index s \<and> started s' = started s) \<or>
         (\<exists>s'. run_handler nx n h s = Panicked v s' \<and> panics_end n s s')"
  using assms(2,3)
proof (induction h arbitrary: s)
  case (Do f h)
  then show ?case using Do.IH [of "s\<lparr>cx := f (cx s)\<rparr>"] by (simp add: panics_end_def)
next
  case (Dyn g)
  then show ?case using Dyn.IH [of "g (cx s)" s] by simp
next
  case (Next h)
  then show ?case using nx [of s] by auto
qed auto

lemma next_loop_panics:
  assumes "\<forall>i<length hs. index s \<le> int i \<longrightarrow> plain (hs ! i)"
    and "0 \<le> index s" and "index s \<le> int (length hs)"
    and "int (Suc (length hs)) - index s \<le> int k"
  shows "\<exists>s'. next_loop k (hs @ [Panic v]) s = Panicked v s' \<and>
              panics_end (Suc (length hs)) (s\<lparr>index := index s - 1\<rparr>) s'"
  using assms
proof (induction k arbitrary: s)
  case (Suc k)
  let ?n = "Suc (length hs)" and ?hs = "hs @ [Panic v]"
  let ?nx = "\<lambda>s. next_loop k ?hs (s\<lparr>index := index s + 1\<rparr>)"
  let ?s1 = "s\<lparr>started := started s @ [nat (index s)]\<rparr>"
  show ?case
  proof (cases "index s = int (length hs)")
    case True
    then show ?thesis by (simp add: next_loop.simps [of "Suc k"] nth_append panics_end_def)
  next
    case False
    have nx: "\<exists>t'. ?nx t = Panicked v t' \<and> panics_end ?n t t'" if "index t = index s" for t
      using Suc.IH [of "t\<lparr>index := index t + 1\<rparr>"] Suc.prems False that by (simp add: panics_end_def)
    have i: "nat (index s) < length hs" using False Suc.prems by auto
    then have "plain (?hs ! nat (index s))" using Suc.prems(1,2) by (simp add: nth_append)
    note run = run_handler_panics [where i = "index s" and nx = ?nx and s = ?s1 and n = ?n and v = v,
        OF nx this]
    have upt: "[nat (index s)..<?n] = nat (index s) # [nat (index s + 1)..<?n]"
      using i Suc.prems by (simp add: upt_conv_Cons nat_add_distrib del: upt_Suc)
    from run have "(\<exists>s'. run_handler ?nx ?n (?hs ! nat (index s)) ?s1 = Ret s' \<and>
          index s' = index ?s1 \<and> started s' = started ?s1) \<or>
        (\<exists>s'. run_handler ?nx ?n (?hs ! nat (index s)) ?s1 = Panicked v s' \<and> panics_end ?n ?s1 s')"
      by simp
    then show ?thesis
    proof (elim disjE exE conjE)
      fix s' assume s': "run_handler ?nx ?n (?hs ! nat (index s)) ?s1 = Ret s'"
        "index s' = index ?s1" "started s' = started ?s1"
      with nx [of s'] obtain t where "?nx s' = Panicked v t" "panics_end ?n s' t" by auto
      with s' upt Suc.prems i show ?thesis
        by (simp add: next_loop.simps [of "Suc k"] Let_def panics_end_def del: upt_Suc)
    next
      fix s' assume "run_handler ?nx ?n (?hs ! nat (index s)) ?s1 = Panicked v s'" "panics_end ?n ?s1 s'"
      with upt Suc.prems i show ?thesis
        by (simp add: next_loop.simps [of "Suc k"] Let_def panics_end_def del: upt_Suc)
    qed
  qed
qed simp

text \<open>
  A panic of the last handler never leaves a chain that starts with the recovery
  middleware: the chain returns, every handler has been started, and if the context was not yet
  marked as written the response is status 500 with the JSON error body.
\<close>

lemma recovery_catches:
  assumes "\<forall>h\<in>set hs. plain h"
  shows "\<exists>s c'. run_chain (Recovery # hs @ [Panic v]) c = Ret s \<and> started s = [0..<length hs + 2] \<and>
      cx s = (if is_written c' then c' else JSON 500 (error_json 500 ''Internal Server Error'') c')"
proof -
  let ?hs = "Recovery # hs" and ?all = "Recovery # hs @ [Panic v]"
  let ?s1 = "\<lparr>index = 0, cx = c, started = [0]\<rparr>"
  have "\<forall>i<length ?hs. 1 \<le> int i \<longrightarrow> plain (?hs ! i)" using assms by (auto simp: nth_Cons split: nat.splits)
  then obtain t where t: "call_next ?all ?s1 = Panicked v t" "panics_end (Suc (length ?hs)) ?s1 t"
    using next_loop_panics [of ?hs "?s1\<lparr>index := 1\<rparr>" "Suc (length ?all)" v]
    by (auto simp: call_next_def)
  let ?c' = "cx t"
  let ?c = "if is_written ?c' then ?c' else JSON 500 (error_json 500 ''Internal Server Error'') ?c'"
  have "run_handler (call_next ?all) (length ?all) Recovery ?s1 = Ret (t\<lparr>cx := ?c\<rparr>)"
    using t by (simp add: Recovery_def)
  moreover have "call_next ?all (t\<lparr>cx := ?c\<rparr>) = Ret (t\<lparr>cx := ?c, index := int (length ?all)\<rparr>)"
    using t(2) by (simp add: call_next_def next_loop.simps panics_end_def)
  ultimately have "run_chain ?all c = Ret (t\<lparr>cx := ?c, index := int (length ?all)\<rparr>)"
    using next_loop_unfold [of "\<lparr>index = 0, cx = c, started = []\<rparr>" ?all]
    by (simp add: run_chain_def call_next_def [of ?all "\<lparr>index = - 1, cx = c, started = []\<rparr>"])
  moreover have "started t = [0..<length hs + 2]"
    using t(2) by (simp add: panics_end_def upt_conv_Cons [of 0] del: upt_Suc)
  ultimately show ?thesis by (intro exI [of _ "t\<lparr>cx := ?c, index := int (length ?all)\<rparr>"] exI [of _ ?c']) simp
qed

lemma recovery_catches_example:
  "\<exists>s c'. run_chain (Recovery # [Next Done] @ [Panic GNil]) (new_context undefined) = Ret s \<and>
      started s = [0..<3] \<and>
      cx s = (if is_written c' then c' else JSON 500 (error_json 500 ''Internal Server Error'') c')"
  using recovery_catches [of "[Next Done]" GNil "new_context undefined"] by (simp add: numeral_3_eq_3)

text \<open>
  A panic before the last handler: the deferred recover returns to the loop of the outer \<^verbatim>\<open>Next\<close>, which
  goes on with the handler after the one that panicked. That handler runs although the middleware in
  front of it failed, and a panic of its own is not caught any more.
\<close>

lemma recovery_resumes_chain:
  "\<exists>s. run_chain [Recovery, Panic v, Do f Done] c = Ret s \<and> started s = [0, 1, 2] \<and>
       cx s = f (if is_written c then c else JSON 500 (error_json 500 ''Internal Server Error'') c)"
  by (simp add: run_chain_def call_next_def next_loop.simps Recovery_def)

lemma recovery_second_panic_escapes:
  "\<exists>s. run_chain [Recovery, Panic v, Panic w] c = Panicked w s"
  by (simp add: run_chain_def call_next_def next_loop.simps Recovery_def)

section \<open>CSRF: rejected requests\<close>

lemma csrf_reject_run:
  assumes "\<not> safe_method (req_method (req c))"
    and "csrf_presented c = [] \<or> csrf_presented c \<noteq> (if csrf_token c = [] then tok else csrf_token c)"
    and "sent (resp c) = None"
  shows "\<exists>c' h. run_handler nx n (CSRF tok) \<lparr>index = i, cx = c, started = ss\<rparr> =
           Ret \<lparr>index = int n, cx = c', started = ss\<rparr> \<and> sent (resp c') = Some (403, h)"
proof -
  define t where "t = (if csrf_token c = [] then tok else csrf_token c)"
  define c1 where "c1 = Set ''csrf_token'' (GStr t) (when_set (csrf_token c = []) (SetCookie (csrf_cookie t)) c)"
  have "sent (resp c1) = None" using assms(3) by (simp add: c1_def Set_def when_set_def SetCookie_def)
  moreover have "run_handler nx n (CSRF tok) \<lparr>index = i, cx = c, started = ss\<rparr> =
      Ret \<lparr>index = int n, cx = JSON 403 (error_json 403 ''CSRF token mismatch'') c1, started = ss\<rparr>"
    using assms(1,2)
    by (simp add: CSRF_def AbortWithJSON_def t_def [symmetric] c1_def [symmetric] cong: if_cong)
  ultimately show ?thesis using sent_JSON by blast
qed

text \<open>
  A request with a method other than GET, HEAD, OPTIONS and TRACE, whose header or form
  field does not carry the value of the CSRF cookie, reaches no handler after the CSRF middleware and
  is answered with status 403; a request without the cookie can only carry the fresh random token.
\<close>

lemma csrf_rejects:
  assumes "\<not> safe_method (req_method (req c))"
    and "csrf_presented c = [] \<or> csrf_presented c \<noteq> (if csrf_token c = [] then tok else csrf_token c)"
    and "sent (resp c) = None"
  shows "\<exists>s h. run_chain (CSRF tok # hs) c = Ret s \<and> started s = [0] \<and> sent (resp (cx s)) = Some (403, h)"
proof -
  let ?all = "CSRF tok # hs"
  obtain c' h where run: "run_handler (call_next ?all) (length ?all) (CSRF tok) \<lparr>index = 0, cx = c, started = [0]\<rparr> =
      Ret \<lparr>index = int (length ?all), cx = c', started = [0]\<rparr>" and "sent (resp c') = Some (403, h)"
    using csrf_reject_run [OF assms] by blast
  then show ?thesis using first_handler_aborts [OF run] by auto
qed

lemma csrf_rejects_example:
  "\<exists>s h. run_chain (CSRF ''fresh'' # [Done])
     (new_context \<lparr>req_method = ''POST'', req_path = [], req_uri = [], req_host = [], req_tls = False,
        req_header = [''x-csrf-token'' \<mapsto> ''forged''], req_query = Map.empty, req_form = Map.empty,
        req_cookie = [''gai_csrf'' \<mapsto> ''real''], req_remote = [], req_body = [], req_body_err = None\<rparr>) = Ret s \<and>
     started s = [0] \<and> sent (resp (cx s)) = Some (403, h)"
proof -
  let ?c = "new_context \<lparr>req_method = ''POST'', req_path = [], req_uri = [], req_host = [], req_tls = False,
        req_header = [''x-csrf-token'' \<mapsto> ''forged''], req_query = Map.empty, req_form = Map.empty,
        req_cookie = [''gai_csrf'' \<mapsto> ''real''], req_remote = [], req_body = [], req_body_err = None\<rparr>"
  have "to_lower ''X-CSRF-Token'' = ''x-csrf-token''" by code_simp
  then have "csrf_presented ?c = [] \<or> csrf_presented ?c \<noteq> (if csrf_token ?c = [] then ''fresh'' else csrf_token ?c)"
    by (simp add: csrf_presented_def csrf_token_def Header_def header_get_def Cookie_def new_context_def)
  then show ?thesis
    by (intro csrf_rejects) (simp_all add: safe_method_def new_context_def empty_response_def)
qed

section \<open>The token bucket\<close>

text \<open>
  A history of the limiter: requests with their three clock readings and passes of the clean-up.
  \<open>rl_run\<close> counts the accepted requests of one client.
\<close>

datatype rl_event = Visit string rat rat rat | Sweep rat

fun rl_run :: "rat \<Rightarrow> rat \<Rightarrow> string \<Rightarrow> rl_event list \<Rightarrow> nat \<times> visitors \<Rightarrow> nat \<times> visitors" where
  "rl_run limit window ip [] s = s"
| "rl_run limit window ip (Visit a t0 t1 t2 # es) (n, vs) =
     (let (ok, vs') = take_token limit (limit / window) (t0, t1, t2) a vs
      in rl_run limit window ip es (if ok \<and> a = ip then Suc n else n, vs'))"
| "rl_run limit window ip (Sweep t # es) (n, vs) =
     rl_run limit window ip es (n, sweep_visitors window t vs)"

fun rl_times :: "rat \<Rightarrow> rl_event list \<Rightarrow> bool" where
  "rl_times t [] = True"
| "rl_times t (Visit a t0 t1 t2 # es) = (t \<le> t0 \<and> t0 \<le> t1 \<and> t1 \<le> t2 \<and> rl_times t2 es)"
| "rl_times t (Sweep u # es) = (t \<le> u \<and> rl_times u es)"

fun rl_end :: "rat \<Rightarrow> rl_event list \<Rightarrow> rat" where
  "rl_end t [] = t"
| "rl_end t (Visit a t0 t1 t2 # es) = rl_end t2 es"
| "rl_end t (Sweep u # es) = rl_end u es"

text \<open>The tokens spent and left never exceed the bucket plus what the elapsed time refilled.\<close>

definition bucket_inv :: "rat \<Rightarrow> rat \<Rightarrow> rat \<Rightarrow> rat \<Rightarrow> nat \<Rightarrow> visitor option \<Rightarrow> bool" where
  "bucket_inv limit rate start t n v = (case v of
       None \<Rightarrow> of_nat n \<le> rate * (t - start)
     | Some v \<Rightarrow> of_nat n + tokens v \<le> limit + rate * (lastVisit v - start) \<and> 0 \<le> tokens v \<and> lastVisit v \<le> t)"

lemma bucket_visit:
  assumes "bucket_inv limit rate start t n (vs ip)" "0 \<le> limit" "0 \<le> rate" "t \<le> t0" "t0 \<le> t1" "t1 \<le> t2"
    and "take_token limit rate (t0, t1, t2) ip vs = (ok, vs')"
  shows "bucket_inv limit rate start t2 (if ok then Suc n else n) (vs' ip)"
proof -
  define v where "v = (case vs ip of None \<Rightarrow> \<lparr>tokens = limit, lastVisit = t0\<rparr> | Some v \<Rightarrow> v)"
  have v: "of_nat n + tokens v \<le> limit + rate * (lastVisit v - start)" "0 \<le> tokens v" "lastVisit v \<le> t1"
    using assms(1-6) mult_left_mono [of t t0 rate]
    by (auto simp: v_def bucket_inv_def algebra_simps split: option.splits)
  define m where "m = refill limit rate t1 v"
  have "0 \<le> (t1 - lastVisit v) * rate" using v(3) assms(3) by simp
  then have "0 \<le> m" using assms(2) v(2) by (simp add: m_def refill_def)
  have "m \<le> tokens v + (t1 - lastVisit v) * rate" by (simp add: m_def refill_def)
  then have "of_nat n + m \<le> limit + rate * (t1 - start)" using v(1) by (simp add: algebra_simps)
  also have "\<dots> \<le> limit + rate * (t2 - start)" using assms(3,6) by (simp add: mult_left_mono)
  finally have "of_nat n + m \<le> limit + rate * (t2 - start)" .
  with \<open>0 \<le> m\<close> assms(7) show ?thesis
    unfolding take_token_def by (auto simp: bucket_inv_def v_def [symmetric] m_def [symmetric] Let_def split: if_splits)
qed

lemma bucket_sweep:
  assumes "bucket_inv limit (limit / window) start t n (vs ip)" "0 \<le> limit" "0 < window" "t \<le> u"
  shows "bucket_inv limit (limit / window) start u n (sweep_visitors window u vs ip)"
proof (cases "vs ip")
  case None
  have "limit / window * (t - start) \<le> limit / window * (u - start)"
    using assms by (intro mult_left_mono) auto
  with None assms(1) show ?thesis by (simp add: bucket_inv_def sweep_visitors_def)
next
  case (Some v)
  have "limit * 2 \<le> limit / window * (u - lastVisit v)" if "window * 2 < u - lastVisit v"
  proof -
    have "limit / window * (window * 2) \<le> limit / window * (u - lastVisit v)"
      using assms(2,3) that by (intro mult_left_mono) auto
    then show ?thesis using assms(3) by simp
  qed
  moreover have "of_nat n \<le> limit / window * (u - start)"
    if "of_nat n + tokens v \<le> limit + limit / window * (lastVisit v - start)" "0 \<le> tokens v"
      "limit * 2 \<le> limit / window * (u - lastVisit v)"
  proof -
    have "limit / window * (u - start) = limit / window * (u - lastVisit v) + limit / window * (lastVisit v - start)"
      by (simp only: distrib_left [symmetric]) simp
    with that assms(2) show ?thesis by linarith
  qed
  ultimately show ?thesis using Some assms
    by (simp add: bucket_inv_def sweep_visitors_def)
qed

lemma bucket_run:
  assumes "bucket_inv limit (limit / window) start t n (vs ip)" "0 \<le> limit" "0 < window" "rl_times t es"
  shows "case rl_run limit window ip es (n, vs) of (n', vs') \<Rightarrow>
           bucket_inv limit (limit / window) start (rl_end t es) n' (vs' ip)"
  using assms
proof (induction es arbitrary: t n vs)
  case (Cons e es)
  show ?case
  proof (cases e)
    case (Visit a t0 t1 t2)
    obtain ok vs' where tk: "take_token limit (limit / window) (t0, t1, t2) a vs = (ok, vs')" by fastforce
    have "bucket_inv limit (limit / window) start t2 (if ok \<and> a = ip then Suc n else n) (vs' ip)"
    proof (cases "a = ip")
      case True
      then show ?thesis using bucket_visit [OF Cons.prems(1) _ _ _ _ _ tk [unfolded True]] Cons.prems Visit by simp
    next
      case False
      then have "vs' ip = vs ip" using tk unfolding take_token_def by (auto simp: Let_def split: if_splits)
      moreover have "limit / window * (t - start) \<le> limit / window * (t2 - start)"
        using Cons.prems Visit by (intro mult_left_mono) auto
      ultimately show ?thesis using Cons.prems Visit False
        by (auto simp: bucket_inv_def split: option.splits)
    qed
    from Cons.IH [where vs = vs', OF this] Cons.prems Visit tk show ?thesis by simp
  next
    case (Sweep u)
    with Cons bucket_sweep [where vs = vs and ip = ip, OF Cons.prems(1-3)] show ?thesis by simp
  qed
qed simp



section \<open>Logging and CORS at the edges\<close>

text \<open>
  The logging writer records every status it is given, net/http sends the first: after two
  responses the logged status is not the one the client got.
\<close>

lemma logged_status_differs:
  assumes "sent (resp c) = None" and "writer c = []"
  shows "let c' = JSON 500 b (JSON 200 a (push_status_writer c)) in
     logged_status 0 c' = 500 \<and> (\<exists>h. sent (resp c') = Some (200, h))"
  using assms
  by (simp add: logged_status_def push_status_writer_def JSON_def respond_def write_body_def
      write_header_def SetHeader_def base_write_header_def base_write_def Let_def)

text \<open>
  A preflight request for a path that is registered for other methods only never reaches the CORS
  middleware: the router answers 405 itself and the response has no CORS headers.
\<close>

lemma cors_preflight_not_answered:
  assumes "router_reach r" and "lookup_spec (registrations r) (segments (req_path rq)) (req_method rq) = None"
    and "allowed_spec (registrations r) (segments (req_path rq)) \<noteq> {}"
    and "methodNotAllowed r = None" and "notFound r = None"
  shows "\<exists>s h. ServeHTTP (router_Use [CORS None] r) rq = Ret s \<and> started s = [] \<and> sent (resp (cx s)) = Some (405, h)"
proof -
  let ?r = "router_Use [CORS None] r"
  have "registrations ?r = registrations r" "methodNotAllowed ?r = None" "notFound ?r = None"
    using assms(4,5) by (simp_all add: router_Use_def registrations_def)
  then show ?thesis
    using serve_unmatched_raw [OF reach_use [OF assms(1)], where rq = rq and ms1 = "[CORS None]"] assms(2,3) by auto
qed

end
