(* ===== verification/Rbac.thy ===== *)
theory Rbac
  imports Middleware
begin

text \<open>
  Package rbac: the role store, its Redis counterpart, the manager and its middleware. The locale is
  the \<^verbatim>\<open>Store\<close> interface: what its operations do to the sets of roles and permissions.
\<close>

section \<open>The stores\<close>

record MemoryStore =
  userRoles :: "string \<rightharpoonup> string set"
  rolePerms :: "string \<rightharpoonup> string set"

definition NewMemoryStore :: MemoryStore where
  "NewMemoryStore = \<lparr>userRoles = Map.empty, rolePerms = Map.empty\<rparr>"

text \<open>Reading a missing inner map gives the nil map, which is empty; deleting from it is allowed.\<close>

definition at_key :: "(string \<rightharpoonup> string set) \<Rightarrow> string \<Rightarrow> string set" where
  "at_key m k = (case m k of None \<Rightarrow> {} | Some s \<Rightarrow> s)"

definition AssignRole :: "string \<Rightarrow> string \<Rightarrow> MemoryStore \<Rightarrow> MemoryStore" where
  "AssignRole u r s = s\<lparr>userRoles := (userRoles s)(u \<mapsto> insert r (at_key (userRoles s) u))\<rparr>"

definition RevokeRole :: "string \<Rightarrow> string \<Rightarrow> MemoryStore \<Rightarrow> MemoryStore" where
  "RevokeRole u r s =
     s\<lparr>userRoles := (case userRoles s u of None \<Rightarrow> userRoles s | Some rs \<Rightarrow> (userRoles s)(u \<mapsto> rs - {r}))\<rparr>"

definition Grant :: "string \<Rightarrow> string \<Rightarrow> MemoryStore \<Rightarrow> MemoryStore" where
  "Grant r p s = s\<lparr>rolePerms := (rolePerms s)(r \<mapsto> insert p (at_key (rolePerms s) r))\<rparr>"

definition Deny :: "string \<Rightarrow> string \<Rightarrow> MemoryStore \<Rightarrow> MemoryStore" where
  "Deny r p s =
     s\<lparr>rolePerms := (case rolePerms s r of None \<Rightarrow> rolePerms s | Some ps \<Rightarrow> (rolePerms s)(r \<mapsto> ps - {p}))\<rparr>"

definition HasRole :: "string \<Rightarrow> string \<Rightarrow> MemoryStore \<Rightarrow> bool" where
  "HasRole u r s \<longleftrightarrow> r \<in> at_key (userRoles s) u"

definition Can :: "string \<Rightarrow> string \<Rightarrow> MemoryStore \<Rightarrow> bool" where
  "Can u p s \<longleftrightarrow>
     (\<exists>r\<in>at_key (userRoles s) u. p \<in> at_key (rolePerms s) r \<or> ''*'' \<in> at_key (rolePerms s) r)"

text \<open>The Redis client's set commands are arguments; an error of a test counts as a no.\<close>

definition userKey :: "string \<Rightarrow> string" where
  "userKey u = ''gai:rbac:user:'' @ u"

definition roleKey :: "string \<Rightarrow> string" where
  "roleKey r = ''gai:rbac:role:'' @ r"

definition Redis_AssignRole :: "(string \<Rightarrow> string \<Rightarrow> 's \<Rightarrow> string option \<times> 's) \<Rightarrow> string \<Rightarrow> string \<Rightarrow> 's \<Rightarrow> string option \<times> 's" where
  "Redis_AssignRole sadd u r s = sadd (userKey u) r s"

definition Redis_RevokeRole :: "(string \<Rightarrow> string \<Rightarrow> 's \<Rightarrow> string option \<times> 's) \<Rightarrow> string \<Rightarrow> string \<Rightarrow> 's \<Rightarrow> string option \<times> 's" where
  "Redis_RevokeRole srem u r s = srem (userKey u) r s"

definition Redis_Grant :: "(string \<Rightarrow> string \<Rightarrow> 's \<Rightarrow> string option \<times> 's) \<Rightarrow> string \<Rightarrow> string \<Rightarrow> 's \<Rightarrow> string option \<times> 's" where
  "Redis_Grant sadd r p s = sadd (roleKey r) p s"

definition Redis_Deny :: "(string \<Rightarrow> string \<Rightarrow> 's \<Rightarrow> string option \<times> 's) \<Rightarrow> string \<Rightarrow> string \<Rightarrow> 's \<Rightarrow> string option \<times> 's" where
  "Redis_Deny srem r p s = srem (roleKey r) p s"

definition Redis_HasRole :: "(string \<Rightarrow> string \<Rightarrow> 's \<Rightarrow> string + bool) \<Rightarrow> string \<Rightarrow> string \<Rightarrow> 's \<Rightarrow> bool" where
  "Redis_HasRole sismember u r s = (case sismember (userKey u) r s of Inl _ \<Rightarrow> False | Inr b \<Rightarrow> b)"

definition Redis_Can ::
  "(string \<Rightarrow> 's \<Rightarrow> string + string list) \<Rightarrow> (string \<Rightarrow> string \<Rightarrow> 's \<Rightarrow> string + bool) \<Rightarrow> string \<Rightarrow> string \<Rightarrow> 's \<Rightarrow> bool" where
  "Redis_Can smembers sismember u p s =
     (case smembers (userKey u) s of
        Inl _ \<Rightarrow> False
      | Inr roles \<Rightarrow>
          list_ex (\<lambda>r. sismember (roleKey r) p s = Inr True \<or> sismember (roleKey r) ''*'' s = Inr True) roles)"

section \<open>The manager\<close>

text \<open>
  A manager without a store gets a new process-local one. \<open>sprint\<close> is \<^verbatim>\<open>fmt.Sprint\<close> for the types \<^verbatim>\<open>uid\<close>
  does not list. The manager throws the error of a store away: \<open>silent\<close> is what is left of the call.
\<close>

definition rbac_NewWithStore :: "'s option \<Rightarrow> MemoryStore + 's" where
  "rbac_NewWithStore given = (case given of None \<Rightarrow> Inl NewMemoryStore | Some s \<Rightarrow> Inr s)"

definition rbac_New :: "MemoryStore + 's" where
  "rbac_New = rbac_NewWithStore None"

definition silent :: "(string \<Rightarrow> string \<Rightarrow> 's \<Rightarrow> string option \<times> 's) \<Rightarrow> string \<Rightarrow> string \<Rightarrow> 's \<Rightarrow> 's" where
  "silent op x y s = snd (op x y s)"

definition uid :: "(goval \<Rightarrow> string) \<Rightarrow> goval \<Rightarrow> string" where
  "uid sprint v =
     (case v of GStr s \<Rightarrow> s | GUint64 n \<Rightarrow> itoa n | GInt n \<Rightarrow> itoa n | GInt64 n \<Rightarrow> itoa n | _ \<Rightarrow> sprint v)"

definition Manager_AssignRole where
  "Manager_AssignRole assign sprint u r s = assign (uid sprint u) r s"

definition Manager_RevokeRole where
  "Manager_RevokeRole revoke sprint u r s = revoke (uid sprint u) r s"

definition Manager_Grant where
  "Manager_Grant grant r p s = grant r p s"

definition Manager_Deny where
  "Manager_Deny deny r p s = deny r p s"

definition Manager_HasRole where
  "Manager_HasRole has sprint u r s = has (uid sprint u) r s"

definition Manager_Can where
  "Manager_Can can sprint u p s = can (uid sprint u) p s"

definition Rbac_Middleware :: "(string \<Rightarrow> string \<Rightarrow> 's \<Rightarrow> bool) \<Rightarrow> (goval \<Rightarrow> string) \<Rightarrow> string \<Rightarrow> 's \<Rightarrow> handler" where
  "Rbac_Middleware can sprint permission s =
     Dyn (\<lambda>c. case Get c ''auth_user_id'' of
                Some raw \<Rightarrow>
                  if Manager_Can can sprint raw permission s then Next Done
                  else AbortWithJSON 403 (error_json 403 ''Forbidden'') Done
              | None \<Rightarrow> AbortWithJSON 403 (error_json 403 ''Forbidden'') Done)"

section \<open>Histories\<close>

datatype rbac_op = OAssign string string | ORevoke string string | OGrant string string | ODeny string string

fun apply_op where
  "apply_op assign revoke grant deny (OAssign u r) s = assign u r s"
| "apply_op assign revoke grant deny (ORevoke u r) s = revoke u r s"
| "apply_op assign revoke grant deny (OGrant r p) s = grant r p s"
| "apply_op assign revoke grant deny (ODeny r p) s = deny r p s"

text \<open>The last operation on the pair decides; the history is given latest first.\<close>

fun assigned :: "rbac_op list \<Rightarrow> string \<Rightarrow> string \<Rightarrow> bool" where
  "assigned [] u r = False"
| "assigned (OAssign u' r' # ops) u r = ((u', r') = (u, r) \<or> assigned ops u r)"
| "assigned (ORevoke u' r' # ops) u r = ((u', r') \<noteq> (u, r) \<and> assigned ops u r)"
| "assigned (_ # ops) u r = assigned ops u r"

fun granted :: "rbac_op list \<Rightarrow> string \<Rightarrow> string \<Rightarrow> bool" where
  "granted [] r p = False"
| "granted (OGrant r' p' # ops) r p = ((r', p') = (r, p) \<or> granted ops r p)"
| "granted (ODeny r' p' # ops) r p = ((r', p') \<noteq> (r, p) \<and> granted ops r p)"
| "granted (_ # ops) r p = granted ops r p"

section \<open>The contract of a store\<close>

locale role_store =
  fixes assign :: "string \<Rightarrow> string \<Rightarrow> 's \<Rightarrow> 's"
    and revoke :: "string \<Rightarrow> string \<Rightarrow> 's \<Rightarrow> 's"
    and grant :: "string \<Rightarrow> string \<Rightarrow> 's \<Rightarrow> 's"
    and deny :: "string \<Rightarrow> string \<Rightarrow> 's \<Rightarrow> 's"
    and has :: "string \<Rightarrow> string \<Rightarrow> 's \<Rightarrow> bool"
    and can :: "string \<Rightarrow> string \<Rightarrow> 's \<Rightarrow> bool"
    and roles :: "'s \<Rightarrow> (string \<times> string) set"
    and perms :: "'s \<Rightarrow> (string \<times> string) set"
  assumes assign_sets: "roles (assign u r s) = insert (u, r) (roles s) \<and> perms (assign u r s) = perms s"
    and revoke_sets: "roles (revoke u r s) = roles s - {(u, r)} \<and> perms (revoke u r s) = perms s"
    and grant_sets: "perms (grant r p s) = insert (r, p) (perms s) \<and> roles (grant r p s) = roles s"
    and deny_sets: "perms (deny r p s) = perms s - {(r, p)} \<and> roles (deny r p s) = roles s"
    and has_sets: "has u r s \<longleftrightarrow> (u, r) \<in> roles s"
    and can_sets: "can u p s \<longleftrightarrow> (\<exists>r. (u, r) \<in> roles s \<and> ((r, p) \<in> perms s \<or> (r, ''*'') \<in> perms s))"
begin

lemma can_after_grant: "has u r s \<Longrightarrow> can u p (grant r p s)"
  by (auto simp: can_sets has_sets grant_sets)

lemma revoke_removes:
  "can u p (revoke u r s) \<longleftrightarrow> (\<exists>r'. r' \<noteq> r \<and> (u, r') \<in> roles s \<and> ((r', p) \<in> perms s \<or> (r', ''*'') \<in> perms s))"
  by (auto simp: can_sets revoke_sets)

lemma others_unchanged:
  "u' \<noteq> u \<Longrightarrow> can u' p (assign u r s) = can u' p s" "u' \<noteq> u \<Longrightarrow> can u' p (revoke u r s) = can u' p s"
  by (auto simp: can_sets assign_sets revoke_sets)

lemma history_sets:
  assumes "roles s = {}" and "perms s = {}"
  shows "(u, r) \<in> roles (foldr (apply_op assign revoke grant deny) ops s) \<longleftrightarrow> assigned ops u r"
    and "(r, p) \<in> perms (foldr (apply_op assign revoke grant deny) ops s) \<longleftrightarrow> granted ops r p"
proof (induction ops)
  case (Cons a ops)
  {
    case 1
    show ?case using Cons by (cases a) (auto simp: assign_sets revoke_sets grant_sets deny_sets)
  next
    case 2
    show ?case using Cons by (cases a) (auto simp: assign_sets revoke_sets grant_sets deny_sets)
  }
qed (use assms in simp_all)

lemma can_history:
  assumes "roles s = {}" and "perms s = {}"
  shows "can u p (foldr (apply_op assign revoke grant deny) ops s) \<longleftrightarrow>
     (\<exists>r. assigned ops u r \<and> (granted ops r p \<or> granted ops r ''*''))"
  by (simp add: can_sets history_sets [OF assms])

end

definition role_pairs :: "MemoryStore \<Rightarrow> (string \<times> string) set" where
  "role_pairs s = {(u, r). r \<in> at_key (userRoles s) u}"

definition perm_pairs :: "MemoryStore \<Rightarrow> (string \<times> string) set" where
  "perm_pairs s = {(r, p). p \<in> at_key (rolePerms s) r}"

lemmas store_defs = AssignRole_def RevokeRole_def Grant_def Deny_def role_pairs_def perm_pairs_def at_key_def

interpretation mem_roles: role_store AssignRole RevokeRole Grant Deny HasRole Can role_pairs perm_pairs
proof unfold_locales
  fix u r p :: string and s :: MemoryStore
  show "role_pairs (AssignRole u r s) = insert (u, r) (role_pairs s) \<and> perm_pairs (AssignRole u r s) = perm_pairs s"
    by (auto simp: store_defs split: option.splits if_splits)
  show "role_pairs (RevokeRole u r s) = role_pairs s - {(u, r)} \<and> perm_pairs (RevokeRole u r s) = perm_pairs s"
    by (auto simp: store_defs split: option.splits if_splits)
  show "perm_pairs (Grant r p s) = insert (r, p) (perm_pairs s) \<and> role_pairs (Grant r p s) = role_pairs s"
    by (auto simp: store_defs split: option.splits if_splits)
  show "perm_pairs (Deny r p s) = perm_pairs s - {(r, p)} \<and> role_pairs (Deny r p s) = role_pairs s"
    by (auto simp: store_defs split: option.splits if_splits)
  show "HasRole u r s \<longleftrightarrow> (u, r) \<in> role_pairs s" by (simp add: HasRole_def role_pairs_def)
  show "Can u p s \<longleftrightarrow> (\<exists>r. (u, r) \<in> role_pairs s \<and> ((r, p) \<in> perm_pairs s \<or> (r, ''*'') \<in> perm_pairs s))"
    by (auto simp: Can_def role_pairs_def perm_pairs_def)
qed

text \<open>
  After any history of assignments, revocations, grants and denials a user can do
  something exactly if some role whose last assignment to the user was not revoked has the permission,
  or the permission \<^verbatim>\<open>*\<close>, by a grant that was not denied after it.
\<close>

lemma can_iff_history:
  "Can u p (foldr (apply_op AssignRole RevokeRole Grant Deny) ops NewMemoryStore) \<longleftrightarrow>
     (\<exists>r. assigned ops u r \<and> (granted ops r p \<or> granted ops r ''*''))"
  by (rule mem_roles.can_history) (simp_all add: role_pairs_def perm_pairs_def NewMemoryStore_def at_key_def)

text \<open>
  The manager drops a store's error: when Redis does not answer, a revocation or a denial is lost and the
  caller cannot tell.
\<close>

lemma revocation_lost:
  assumes "srem (userKey (uid sprint u)) r s = (Some e, s)"
  shows "Manager_RevokeRole (silent (Redis_RevokeRole srem)) sprint u r s = s"
  using assms by (simp add: Manager_RevokeRole_def silent_def Redis_RevokeRole_def)

text \<open>
  The middleware lets nobody through who lacks the permission. If no user is
  authenticated, or the user cannot do what is asked, no later handler starts and the answer has status 403.
\<close>

lemma rbac_blocks:
  assumes "case Get c ''auth_user_id'' of None \<Rightarrow> True | Some v \<Rightarrow> \<not> Can (uid sprint v) p s"
    and "sent (resp c) = None"
  shows "\<exists>st h. run_chain (Rbac_Middleware Can sprint p s # hs) c = Ret st \<and> started st = [0] \<and>
     sent (resp (cx st)) = Some (403, h)"
proof -
  let ?all = "Rbac_Middleware Can sprint p s # hs"
  let ?c = "JSON 403 (error_json 403 ''Forbidden'') c"
  have run: "run_handler (call_next ?all) (length ?all) (Rbac_Middleware Can sprint p s)
        \<lparr>index = 0, cx = c, started = [0]\<rparr> = Ret \<lparr>index = int (length ?all), cx = ?c, started = [0]\<rparr>"
    using assms(1) by (auto simp: Rbac_Middleware_def Manager_Can_def AbortWithJSON_def split: option.splits)
  show ?thesis using first_handler_aborts [OF run] sent_JSON [OF assms(2)] by auto
qed

lemma rbac_blocks_example:
  "\<exists>st h. run_chain (Rbac_Middleware Can (\<lambda>_. []) ''posts.edit'' (Grant ''admin'' ''*'' NewMemoryStore) # [Done])
      (Set ''auth_user_id'' (GInt 7) (new_context undefined)) = Ret st \<and> started st = [0] \<and>
     sent (resp (cx st)) = Some (403, h)"
  by (rule rbac_blocks)
    (simp_all add: Get_def Set_def new_context_def uid_def Can_def Grant_def NewMemoryStore_def at_key_def empty_response_def)

end
