(* ===== verification/Session.thy ===== *)
theory Session
  imports Middleware "HOL-Library.AList"
begin

text \<open>
  Package session: the stores, the per-request session and the middleware. The session object is shared
  between the context and the middleware by pointer; it is a field of the run's state here, and a handler
  behind the middleware is a function on the pair of context and session. A nil map is \<^const>\<open>None\<close>, and
  writing into it panics.
\<close>

type_synonym svalues = "(string \<times> goval) list"

section \<open>The process-local store\<close>

record memItem =
  mi_values :: svalues
  mi_expire :: int

type_synonym session_store = "string \<rightharpoonup> memItem"

definition session_NewMemoryStore :: session_store where
  "session_NewMemoryStore = Map.empty"

definition Store_Get :: "int \<Rightarrow> string \<Rightarrow> session_store \<Rightarrow> svalues" where
  "Store_Get now sid s =
     (case s sid of None \<Rightarrow> [] | Some it \<Rightarrow> if now > mi_expire it then [] else mi_values it)"

definition Store_Set :: "int \<Rightarrow> string \<Rightarrow> svalues \<Rightarrow> int \<Rightarrow> session_store \<Rightarrow> session_store" where
  "Store_Set now sid vs ttl s = s(sid \<mapsto> \<lparr>mi_values = vs, mi_expire = now + ttl\<rparr>)"

definition Store_Delete :: "string \<Rightarrow> session_store \<Rightarrow> session_store" where
  "Store_Delete sid s = s(sid := None)"

section \<open>The Redis store\<close>

text \<open>The client's commands and the JSON codec are arguments; the result is the map, nil on an error.\<close>

definition Session_Decode :: "(string \<Rightarrow> string + svalues option) \<Rightarrow> string \<Rightarrow> string option \<times> svalues" where
  "Session_Decode unmarshal b =
     (case unmarshal b of Inl e \<Rightarrow> (Some e, []) | Inr None \<Rightarrow> (None, []) | Inr (Some m) \<Rightarrow> (None, m))"

definition Session_Encode :: "(svalues \<Rightarrow> string + string) \<Rightarrow> svalues \<Rightarrow> string + string" where
  "Session_Encode marshal vs = marshal vs"

definition RedisStore_Get ::
  "(string \<Rightarrow> 's \<Rightarrow> string + string option) \<Rightarrow> (string \<Rightarrow> string + svalues option) \<Rightarrow> string \<Rightarrow> 's
     \<Rightarrow> string option \<times> svalues option" where
  "RedisStore_Get get unmarshal sid s =
     (case get (''gai:session:'' @ sid) s of
        Inl e \<Rightarrow> (Some e, None)
      | Inr None \<Rightarrow> (None, Some [])
      | Inr (Some b) \<Rightarrow> (case Session_Decode unmarshal b of (e, m) \<Rightarrow> (e, Some m)))"

definition RedisStore_Set ::
  "(string \<Rightarrow> string \<Rightarrow> int \<Rightarrow> 's \<Rightarrow> string option \<times> 's) \<Rightarrow> (svalues \<Rightarrow> string + string) \<Rightarrow> string \<Rightarrow> svalues \<Rightarrow> int \<Rightarrow> 's
     \<Rightarrow> string option \<times> 's" where
  "RedisStore_Set put marshal sid vs ttl s =
     (case Session_Encode marshal vs of Inl e \<Rightarrow> (Some e, s) | Inr b \<Rightarrow> put (''gai:session:'' @ sid) b ttl s)"

definition RedisStore_Delete :: "(string \<Rightarrow> 's \<Rightarrow> string option \<times> 's) \<Rightarrow> string \<Rightarrow> 's \<Rightarrow> string option \<times> 's" where
  "RedisStore_Delete del sid s = del (''gai:session:'' @ sid) s"

section \<open>The session of a request\<close>

record Session =
  SID :: string
  Values :: "svalues option"
  changed :: bool

definition values_of :: "Session \<Rightarrow> svalues" where
  "values_of s = (case Values s of None \<Rightarrow> [] | Some vs \<Rightarrow> vs)"

definition Session_Get :: "string \<Rightarrow> Session \<Rightarrow> goval" where
  "Session_Get key s = (case map_of (values_of s) key of None \<Rightarrow> GNil | Some v \<Rightarrow> v)"

definition Session_Set :: "string \<Rightarrow> goval \<Rightarrow> Session \<Rightarrow> Session option" where
  "Session_Set key v s =
     (case Values s of
        None \<Rightarrow> None
      | Some vs \<Rightarrow> Some (s\<lparr>Values := Some (AList.update key v vs), changed := True\<rparr>))"

definition Session_Forget :: "string \<Rightarrow> Session \<Rightarrow> Session" where
  "Session_Forget key s = s\<lparr>Values := map_option (AList.delete key) (Values s), changed := True\<rparr>"

definition Session_String :: "string \<Rightarrow> Session \<Rightarrow> string" where
  "Session_String key s = (case map_of (values_of s) key of Some (GStr x) \<Rightarrow> x | _ \<Rightarrow> [])"

record SessionManager =
  CookieName :: string
  TTL :: int
  Secure :: bool

definition Session_New :: SessionManager where
  "Session_New = \<lparr>CookieName = ''gai_session'', TTL = 86400000000000, Secure = False\<rparr>"

text \<open>\<open>bytes\<close> are sixteen random bytes; \<open>sess\<close> is what the pointer in the context refers to.\<close>

definition newSessionID :: "string \<Rightarrow> string" where
  "newSessionID bytes = hex_encode bytes"

definition Session_FromContext :: "Session \<Rightarrow> ctx \<Rightarrow> Session option" where
  "Session_FromContext sess c = (case Get c ''session'' of Some (GPtr _) \<Rightarrow> Some sess | _ \<Rightarrow> None)"

text \<open>
  The middleware around the rest of the chain, \<open>rest\<close>, which may change the session and returns
  \<^const>\<open>None\<close> if it panics; \<open>fresh\<close> is the random identifier, \<open>load\<close> and \<open>save\<close> are the store's operations.
\<close>

definition session_open ::
  "SessionManager \<Rightarrow> string \<Rightarrow> (string \<Rightarrow> 's \<Rightarrow> svalues option) \<Rightarrow> ctx \<Rightarrow> 's \<Rightarrow> ctx \<times> Session" where
  "session_open m fresh load c s =
     (let ck = (case Cookie c (CookieName m) of None \<Rightarrow> [] | Some v \<Rightarrow> v);
          sid = (if ck = [] then fresh else ck);
          c' = (if ck = [] then
                  SetCookie \<lparr>ck_name = CookieName m, ck_value = sid, ck_path = ''/'',
                     ck_max_age = TTL m div 1000000000, ck_http_only = True, ck_secure = Secure m, ck_lax = True\<rparr> c
                else c)
      in (Set ''session'' (GPtr 0) c', \<lparr>SID = sid, Values = load sid s, changed = False\<rparr>))"

definition session_Middleware ::
  "SessionManager \<Rightarrow> string \<Rightarrow> (string \<Rightarrow> 's \<Rightarrow> svalues option) \<Rightarrow> (string \<Rightarrow> svalues \<Rightarrow> 's \<Rightarrow> 's) \<Rightarrow>
     (ctx \<times> Session \<Rightarrow> (ctx \<times> Session) option) \<Rightarrow> ctx \<Rightarrow> 's \<Rightarrow> (ctx \<times> 's) option" where
  "session_Middleware m fresh load save rest c s =
     (case rest (session_open m fresh load c s) of
        None \<Rightarrow> None
      | Some (c', sess) \<Rightarrow> Some (c', if changed sess then save (SID sess) (values_of sess) s else s))"

section \<open>Properties\<close>

definition mem_load :: "int \<Rightarrow> string \<Rightarrow> session_store \<Rightarrow> svalues option" where
  "mem_load now sid s = Some (Store_Get now sid s)"

text \<open>A handler that stores one value, and one that only reads.\<close>

definition put_rest :: "string \<Rightarrow> goval \<Rightarrow> ctx \<times> Session \<Rightarrow> (ctx \<times> Session) option" where
  "put_rest key v = (\<lambda>(c, sess). map_option (Pair c) (Session_Set key v sess))"

text \<open>
  A value a handler puts into the session is there in the next request that presents the
  cookie, until the session expires; other values of the session are kept.
\<close>

lemma session_round_trip:
  assumes "Cookie c (CookieName m) = Some sid" and "sid \<noteq> []"
    and "session_Middleware m fresh (mem_load t) (\<lambda>sid vs. Store_Set t' sid vs (TTL m)) (put_rest key v) c s = Some (c1, s1)"
    and "u \<le> t' + TTL m"
  shows "Session_Get key (snd (session_open m fresh' (mem_load u) c s1)) = v
    \<and> (\<forall>key'. key' \<noteq> key \<longrightarrow> Session_Get key' (snd (session_open m fresh' (mem_load u) c s1)) =
         Session_Get key' (snd (session_open m fresh (mem_load t) c s)))"
proof -
  have "s1 = Store_Set t' sid (AList.update key v (Store_Get t sid s)) (TTL m) s"
    using assms(1-3)
    by (auto simp: session_Middleware_def session_open_def put_rest_def Session_Set_def mem_load_def values_of_def Let_def)
  then have "Store_Get u sid s1 = AList.update key v (Store_Get t sid s)"
    using assms(4) by (simp add: Store_Get_def Store_Set_def)
  then show ?thesis
    using assms(1,2) by (simp add: session_open_def mem_load_def Session_Get_def values_of_def update_conv' Let_def)
qed

lemma session_round_trip_example:
  "\<exists>c1 s1. session_Middleware Session_New [] (mem_load 1) (\<lambda>sid vs. Store_Set 2 sid vs (TTL Session_New)) (put_rest ''k'' (GInt 5))
       (new_context \<lparr>req_method = [], req_path = [], req_uri = [], req_host = [], req_tls = False,
          req_header = Map.empty, req_query = Map.empty, req_form = Map.empty,
          req_cookie = [''gai_session'' \<mapsto> ''abc''], req_remote = [], req_body = [], req_body_err = None\<rparr>) Map.empty = Some (c1, s1) \<and>
     Session_Get ''k'' (snd (session_open Session_New [] (mem_load 9)
       (new_context \<lparr>req_method = [], req_path = [], req_uri = [], req_host = [], req_tls = False,
          req_header = Map.empty, req_query = Map.empty, req_form = Map.empty,
          req_cookie = [''gai_session'' \<mapsto> ''abc''], req_remote = [], req_body = [], req_body_err = None\<rparr>) s1)) = GInt 5"
proof -
  let ?c = "new_context \<lparr>req_method = [], req_path = [], req_uri = [], req_host = [], req_tls = False,
          req_header = Map.empty, req_query = Map.empty, req_form = Map.empty,
          req_cookie = [''gai_session'' \<mapsto> ''abc''], req_remote = [], req_body = [], req_body_err = None\<rparr>"
  have ck: "Cookie ?c (CookieName Session_New) = Some ''abc''"
    by (simp add: Cookie_def new_context_def Session_New_def)
  obtain c1 s1 where run: "session_Middleware Session_New [] (mem_load 1) (\<lambda>sid vs. Store_Set 2 sid vs (TTL Session_New))
      (put_rest ''k'' (GInt 5)) ?c Map.empty = Some (c1, s1)"
    by (auto simp: session_Middleware_def session_open_def put_rest_def Session_Set_def mem_load_def Let_def)
  have "(9 :: int) \<le> 2 + TTL Session_New" by (simp add: Session_New_def)
  from session_round_trip [OF ck _ run this, of "[]"] run show ?thesis by auto
qed

text \<open>A handler behind the middleware finds the session in its context.\<close>

lemma session_in_context: "session_open m fresh load c s = (c', sess) \<Longrightarrow> Session_FromContext sess c' = Some sess"
  by (auto simp: session_open_def Session_FromContext_def Get_def Set_def Let_def)

text \<open>A session nobody changed is not written back.\<close>

lemma unchanged_not_saved:
  "session_Middleware m fresh load save (\<lambda>x. Some x) c s = Some (c', s') \<Longrightarrow> s' = s"
  by (auto simp: session_Middleware_def session_open_def Let_def)

text \<open>
  When Redis cannot be reached, the store returns no map, the middleware ignores the error, and the
  first handler that stores a value panics.
\<close>

lemma redis_error_panics:
  assumes "get (''gai:session:'' @ sid) s = Inl e" and "Cookie c (CookieName m) = Some sid" "sid \<noteq> []"
  shows "session_Middleware m fresh (\<lambda>sid s. snd (RedisStore_Get get un sid s)) save (put_rest key v) c s = None"
  using assms by (simp add: session_Middleware_def session_open_def put_rest_def Session_Set_def RedisStore_Get_def Let_def)

text \<open>The identifier is taken from the cookie as it is: a value the client made up becomes the session's.\<close>

lemma client_chooses_id:
  "Cookie c (CookieName m) = Some sid \<Longrightarrow> sid \<noteq> [] \<Longrightarrow> SID (snd (session_open m fresh load c s)) = sid"
  by (simp add: session_open_def Let_def)

end
