(* ===== verification/Lock.thy ===== *)
theory Lock
  imports GoPrelude
begin

text \<open>
  Package lock: the process-local locker and the Redis one. Time is an integer number of
  nanoseconds, read from the clock by the caller of the model; a release function is the operation
  \<open>release\<close> on the key it closes over. The locale is the contract the cache's \<^verbatim>\<open>Once\<close> relies on.
\<close>

type_synonym time = int

datatype cerr = ErrMiss | ErrNotAcquired | Err string

definition default_ttl :: "int \<Rightarrow> int" where
  "default_ttl ttl = (if ttl \<le> 0 then 10000000000 else ttl)"

section \<open>The process-local locker\<close>

record lock_memory =
  held :: "string \<rightharpoonup> time"

definition lock_NewMemory :: lock_memory where
  "lock_NewMemory = \<lparr>held = Map.empty\<rparr>"

definition Acquire :: "time \<Rightarrow> string \<Rightarrow> int \<Rightarrow> lock_memory \<Rightarrow> cerr option \<times> lock_memory" where
  "Acquire now key ttl m =
     (case held m key of
        Some ex \<Rightarrow> if now < ex then (Some ErrNotAcquired, m)
                    else (None, m\<lparr>held := (held m)(key \<mapsto> now + default_ttl ttl)\<rparr>)
      | None \<Rightarrow> (None, m\<lparr>held := (held m)(key \<mapsto> now + default_ttl ttl)\<rparr>))"

definition release :: "string \<Rightarrow> lock_memory \<Rightarrow> lock_memory" where
  "release key m = m\<lparr>held := (held m)(key := None)\<rparr>"

definition locked :: "time \<Rightarrow> lock_memory \<Rightarrow> string \<Rightarrow> bool" where
  "locked now m key \<longleftrightarrow> (case held m key of None \<Rightarrow> False | Some ex \<Rightarrow> now < ex)"

section \<open>The Redis locker\<close>

text \<open>The client's \<^verbatim>\<open>SetNX\<close> and \<^verbatim>\<open>Del\<close> are the arguments.\<close>

definition redis_lock_key :: "string \<Rightarrow> string" where
  "redis_lock_key key = ''gai:lock:'' @ key"

definition redis_Acquire ::
  "(string \<Rightarrow> string \<Rightarrow> int \<Rightarrow> 's \<Rightarrow> (string + bool) \<times> 's) \<Rightarrow> string \<Rightarrow> int \<Rightarrow> 's \<Rightarrow> cerr option \<times> 's" where
  "redis_Acquire setnx key ttl s =
     (case setnx (redis_lock_key key) ''1'' (default_ttl ttl) s of
        (Inl e, s') \<Rightarrow> (Some (Err e), s')
      | (Inr ok, s') \<Rightarrow> (if ok then None else Some ErrNotAcquired, s'))"

definition redis_release :: "(string \<Rightarrow> 's \<Rightarrow> 's) \<Rightarrow> string \<Rightarrow> 's \<Rightarrow> 's" where
  "redis_release del key s = del (redis_lock_key key) s"

section \<open>The contract\<close>

text \<open>A history of operations on keys other than \<open>k\<close>: acquisitions (with their time to live) and releases.\<close>

fun other_keys ::
  "(time \<Rightarrow> string \<Rightarrow> int \<Rightarrow> 'l \<Rightarrow> cerr option \<times> 'l) \<Rightarrow> (string \<Rightarrow> 'l \<Rightarrow> 'l) \<Rightarrow> string \<Rightarrow>
     (time \<times> string \<times> int option) list \<Rightarrow> 'l \<Rightarrow> 'l" where
  "other_keys acquire rel k [] l = l"
| "other_keys acquire rel k ((t, k', op) # ops) l =
     other_keys acquire rel k ops
       (if k' = k then l
        else case op of None \<Rightarrow> rel k' l | Some ttl \<Rightarrow> snd (acquire t k' ttl l))"

text \<open>
  A key that is locked was locked since it was taken: \<open>is_locked\<close> speaks of one state at different times.
  \<open>tick\<close> is the precision of the backend's clock in nanoseconds, 1 for a process-local backend: a time to
  live of whole ticks is honoured to the nanosecond, and has passed everywhere one tick after its deadline.
\<close>

locale locker =
  fixes tick :: int
    and acquire :: "time \<Rightarrow> string \<Rightarrow> int \<Rightarrow> 'l \<Rightarrow> cerr option \<times> 'l"
    and rel :: "string \<Rightarrow> 'l \<Rightarrow> 'l"
    and is_locked :: "time \<Rightarrow> 'l \<Rightarrow> string \<Rightarrow> bool"
  assumes acquire_fails: "is_locked t l k \<Longrightarrow> acquire t k ttl l = (Some ErrNotAcquired, l)"
    and acquire_succeeds: "\<not> is_locked t l k \<Longrightarrow> fst (acquire t k ttl l) = None"
    and acquire_locks: "\<not> is_locked t l k \<Longrightarrow> 0 < ttl \<Longrightarrow> tick dvd ttl \<Longrightarrow> u < t + ttl \<Longrightarrow>
          is_locked u (snd (acquire t k ttl l)) k"
    and acquire_expires: "\<not> is_locked t l k \<Longrightarrow> 0 < ttl \<Longrightarrow> tick dvd ttl \<Longrightarrow> t + ttl + tick \<le> u \<Longrightarrow>
          \<not> is_locked u (snd (acquire t k ttl l)) k"
    and locked_earlier: "is_locked u l k \<Longrightarrow> t \<le> u \<Longrightarrow> is_locked t l k"
    and acquire_other: "k' \<noteq> k \<Longrightarrow> is_locked u (snd (acquire t k ttl l)) k' = is_locked u l k'"
    and rel_unlocks: "is_locked u (rel k l) k' = (k' \<noteq> k \<and> is_locked u l k')"
begin

text \<open>A released key is free, and so is one whose time to live has passed though nobody released it.\<close>

lemma reacquire: "fst (acquire u k ttl (rel k l)) = None"
  by (rule acquire_succeeds) (simp add: rel_unlocks)

lemma reacquire_late:
  assumes "fst (acquire t k ttl l) = None" and "0 < ttl" and "tick dvd ttl" and "t + ttl + tick \<le> u"
  shows "fst (acquire u k ttl' (snd (acquire t k ttl l))) = None"
proof (rule acquire_succeeds)
  have "\<not> is_locked t l k" using assms(1) acquire_fails by fastforce
  then show "\<not> is_locked u (snd (acquire t k ttl l)) k" using acquire_expires assms(2-4) by simp
qed

text \<open>
  Locks of different keys do not interact, and between an acquisition and its expiry nobody else gets the lock.
\<close>

lemma other_keys_locked: "is_locked u (other_keys acquire rel k ops l) k = is_locked u l k"
proof (induction ops arbitrary: l)
  case (Cons x ops)
  then show ?case by (cases x) (auto simp: acquire_other rel_unlocks split: option.splits)
qed simp

lemma exclusive_history:
  assumes "fst (acquire t k ttl l) = None" and "0 < ttl" and "tick dvd ttl" and "u < t + ttl"
  shows "fst (acquire u k ttl' (other_keys acquire rel k ops (snd (acquire t k ttl l)))) = Some ErrNotAcquired"
proof -
  have "\<not> is_locked t l k" using assms(1) acquire_fails by fastforce
  then have "is_locked u (snd (acquire t k ttl l)) k" using acquire_locks assms(2-4) by simp
  then show ?thesis by (simp add: acquire_fails other_keys_locked)
qed

end

lemma Acquire_unlocked:
  "\<not> locked t m k \<Longrightarrow> Acquire t k ttl m = (None, m\<lparr>held := (held m)(k \<mapsto> t + default_ttl ttl)\<rparr>)"
  by (auto simp: Acquire_def locked_def split: option.splits)

lemma Acquire_locked: "locked t m k \<Longrightarrow> Acquire t k ttl m = (Some ErrNotAcquired, m)"
  by (auto simp: Acquire_def locked_def split: option.splits)

interpretation mem_lock: locker 1 Acquire release locked
proof unfold_locales
  fix t u :: time and k k' :: string and ttl :: int and l :: lock_memory
  show "k' \<noteq> k \<Longrightarrow> locked u (snd (Acquire t k ttl l)) k' = locked u l k'"
    by (cases "locked t l k") (auto simp: Acquire_locked Acquire_unlocked, auto simp: locked_def)
qed (auto simp: Acquire_locked Acquire_unlocked, auto simp: locked_def release_def default_ttl_def split: option.splits if_splits)

text \<open>
  Mutual exclusion. Once a lock is acquired with a positive time to live, every other
  attempt for the key fails until that time has passed, whatever happens to other keys in between.
\<close>

lemma lock_exclusive:
  assumes "fst (Acquire t k ttl m) = None" and "0 < ttl" and "u < t + ttl"
  shows "fst (Acquire u k ttl' (other_keys Acquire release k ops (snd (Acquire t k ttl m)))) = Some ErrNotAcquired"
  using assms by (intro mem_lock.exclusive_history) simp_all

lemma lock_exclusive_example:
  "fst (Acquire 5 ''k'' 3 (other_keys Acquire release ''k'' [(1, ''a'', Some 7), (2, ''a'', None)] (snd (Acquire 0 ''k'' 10 lock_NewMemory))))
     = Some ErrNotAcquired"
  by (rule lock_exclusive) (simp_all add: Acquire_def lock_NewMemory_def)

text \<open>
  The release function deletes the key's entry whoever holds it: when the first holder's time to live
  has passed and a second one has acquired the lock, the first one's release frees the second's lock and
  a third caller gets in while the second is still inside.
\<close>

lemma late_release_breaks_exclusion:
  assumes "0 < ttl" and "t + ttl \<le> u" and "u \<le> v" and "v < u + ttl"
  shows "let m1 = snd (Acquire t k ttl lock_NewMemory);
             (second, m2) = Acquire u k ttl m1;
             (third, m3) = Acquire v k ttl (release k m2)
         in second = None \<and> locked v m2 k \<and> third = None"
  using assms by (simp add: Acquire_def release_def lock_NewMemory_def default_ttl_def locked_def)

end
