(* ===== verification/Cache.thy ===== *)
theory Cache
  imports Lock
begin

text \<open>
  Package cache: the process-local store with expiry, the Redis adapter and the manager with its
  \<^verbatim>\<open>RememberJSON\<close> and \<^verbatim>\<open>Once\<close>. The locale \<open>cache_store\<close> is the contract of \<^verbatim>\<open>Store\<close>: a store is, at
  each time, a map of the visible entries. The manager's lemmas are proved from it, and from the contract
  of the locker; the last part runs concurrent calls of \<^verbatim>\<open>Once\<close> as interleaved steps.
\<close>

section \<open>The process-local store\<close>

record memoryItem =
  item_value :: string
  expire :: "time option"

record cache_memory =
  items :: "string \<rightharpoonup> memoryItem"

definition cache_NewMemory :: cache_memory where
  "cache_NewMemory = \<lparr>items = Map.empty\<rparr>"

definition expired :: "time \<Rightarrow> memoryItem \<Rightarrow> bool" where
  "expired now it = (case expire it of None \<Rightarrow> False | Some e \<Rightarrow> now > e)"

text \<open>One pass of the janitor.\<close>

definition janitor :: "time \<Rightarrow> cache_memory \<Rightarrow> cache_memory" where
  "janitor now m =
     m\<lparr>items := (\<lambda>k. case items m k of None \<Rightarrow> None | Some it \<Rightarrow> if expired now it then None else Some it)\<rparr>"

definition Memory_Delete :: "string \<Rightarrow> cache_memory \<Rightarrow> cache_memory" where
  "Memory_Delete key m = m\<lparr>items := (items m)(key := None)\<rparr>"

definition Memory_Get :: "time \<Rightarrow> string \<Rightarrow> cache_memory \<Rightarrow> (cerr + string) \<times> cache_memory" where
  "Memory_Get now key m =
     (case items m key of
        None \<Rightarrow> (Inl ErrMiss, m)
      | Some it \<Rightarrow> if expired now it then (Inl ErrMiss, Memory_Delete key m) else (Inr (item_value it), m))"

definition Memory_Set :: "time \<Rightarrow> string \<Rightarrow> string \<Rightarrow> int \<Rightarrow> cache_memory \<Rightarrow> cerr option \<times> cache_memory" where
  "Memory_Set now key v ttl m =
     (None, m\<lparr>items := (items m)(key \<mapsto>
        \<lparr>item_value = v, expire = (if ttl > 0 then Some (now + ttl) else None)\<rparr>)\<rparr>)"

definition Memory_Has :: "time \<Rightarrow> string \<Rightarrow> cache_memory \<Rightarrow> (cerr + bool) \<times> cache_memory" where
  "Memory_Has now key m =
     (case Memory_Get now key m of
        (Inl e, m') \<Rightarrow> (if e = ErrMiss then Inr False else Inl e, m')
      | (Inr _, m') \<Rightarrow> (Inr True, m'))"

definition visible :: "time \<Rightarrow> cache_memory \<Rightarrow> string \<rightharpoonup> string" where
  "visible now m k =
     (case items m k of None \<Rightarrow> None | Some it \<Rightarrow> if expired now it then None else Some (item_value it))"

section \<open>The Redis adapter\<close>

text \<open>The client's operations are arguments; \<^verbatim>\<open>redis.Nil\<close> is the success without a value.\<close>

definition Redis_Get :: "(string \<Rightarrow> 's \<Rightarrow> string + string option) \<Rightarrow> string \<Rightarrow> 's \<Rightarrow> cerr + string" where
  "Redis_Get get key s =
     (case get key s of Inl e \<Rightarrow> Inl (Err e) | Inr None \<Rightarrow> Inl ErrMiss | Inr (Some v) \<Rightarrow> Inr v)"

definition Redis_Set ::
  "(string \<Rightarrow> string \<Rightarrow> int \<Rightarrow> 's \<Rightarrow> string option \<times> 's) \<Rightarrow> string \<Rightarrow> string \<Rightarrow> int \<Rightarrow> 's \<Rightarrow> cerr option \<times> 's" where
  "Redis_Set put key v ttl s = (case put key v ttl s of (e, s') \<Rightarrow> (map_option Err e, s'))"

definition Redis_Delete :: "(string \<Rightarrow> 's \<Rightarrow> string option \<times> 's) \<Rightarrow> string \<Rightarrow> 's \<Rightarrow> cerr option \<times> 's" where
  "Redis_Delete del key s = (case del key s of (e, s') \<Rightarrow> (map_option Err e, s'))"

definition Redis_Has :: "(string \<Rightarrow> 's \<Rightarrow> string + int) \<Rightarrow> string \<Rightarrow> 's \<Rightarrow> cerr + bool" where
  "Redis_Has exis key s = (case exis key s of Inl e \<Rightarrow> Inl (Err e) | Inr n \<Rightarrow> Inr (n > 0))"

section \<open>The manager\<close>

text \<open>
  The manager's operations take those of its store and locker as arguments, and the readings of
  the clock at each call they make.
\<close>

definition manager_key :: "string \<Rightarrow> string \<Rightarrow> string" where
  "manager_key pre k = (if pre = [] then k else pre @ k)"

definition Manager_Get ::
  "(time \<Rightarrow> string \<Rightarrow> 's \<Rightarrow> (cerr + string) \<times> 's) \<Rightarrow> string \<Rightarrow> time \<Rightarrow> string \<Rightarrow> 's \<Rightarrow> (cerr + string) \<times> 's" where
  "Manager_Get get pre now key s = get now (manager_key pre key) s"

definition Manager_GetString ::
  "(time \<Rightarrow> string \<Rightarrow> 's \<Rightarrow> (cerr + string) \<times> 's) \<Rightarrow> string \<Rightarrow> time \<Rightarrow> string \<Rightarrow> 's \<Rightarrow> (string \<times> cerr option) \<times> 's" where
  "Manager_GetString get pre now key s =
     (case Manager_Get get pre now key s of
        (Inl e, s') \<Rightarrow> (([], Some e), s')
      | (Inr b, s') \<Rightarrow> ((b, None), s'))"

definition Manager_Set ::
  "(time \<Rightarrow> string \<Rightarrow> string \<Rightarrow> int \<Rightarrow> 's \<Rightarrow> cerr option \<times> 's) \<Rightarrow>
     string \<Rightarrow> time \<Rightarrow> string \<Rightarrow> string \<Rightarrow> int \<Rightarrow> 's \<Rightarrow> cerr option \<times> 's" where
  "Manager_Set put pre now key v ttl s = put now (manager_key pre key) v ttl s"

definition Manager_SetString ::
  "(time \<Rightarrow> string \<Rightarrow> string \<Rightarrow> int \<Rightarrow> 's \<Rightarrow> cerr option \<times> 's) \<Rightarrow>
     string \<Rightarrow> time \<Rightarrow> string \<Rightarrow> string \<Rightarrow> int \<Rightarrow> 's \<Rightarrow> cerr option \<times> 's" where
  "Manager_SetString put pre now key v ttl s = Manager_Set put pre now key v ttl s"

definition Manager_Delete :: "(string \<Rightarrow> 's \<Rightarrow> 's) \<Rightarrow> string \<Rightarrow> string \<Rightarrow> 's \<Rightarrow> 's" where
  "Manager_Delete del pre key s = del (manager_key pre key) s"

definition Manager_Has ::
  "(time \<Rightarrow> string \<Rightarrow> 's \<Rightarrow> (cerr + bool) \<times> 's) \<Rightarrow> string \<Rightarrow> time \<Rightarrow> string \<Rightarrow> 's \<Rightarrow> (cerr + bool) \<times> 's" where
  "Manager_Has has pre now key s = has now (manager_key pre key) s"

text \<open>Without a configured locker the manager makes a process-local one on first use, and keeps it: the new field is the second result.\<close>

definition manager_locker :: "(lock_memory + 'l) option \<Rightarrow> (lock_memory + 'l) \<times> (lock_memory + 'l) option" where
  "manager_locker field = (case field of Some l \<Rightarrow> (l, field) | None \<Rightarrow> (Inl lock_NewMemory, Some (Inl lock_NewMemory)))"

definition Manager_Lock ::
  "(time \<Rightarrow> string \<Rightarrow> int \<Rightarrow> 'l \<Rightarrow> cerr option \<times> 'l) \<Rightarrow> string \<Rightarrow> time \<Rightarrow> string \<Rightarrow> int \<Rightarrow> 'l \<Rightarrow> cerr option \<times> 'l" where
  "Manager_Lock acquire pre now key ttl l = acquire now (manager_key pre key) ttl l"

text \<open>
  \<^verbatim>\<open>RememberJSON\<close>: the result is the value (or the zero value, \<^const>\<open>None\<close>), the error, whether \<open>fn\<close> was
  called, and the store; the JSON codec and the outcome of \<open>fn\<close> are arguments.
\<close>

definition RememberJSON where
  "RememberJSON get put (unmarshal :: string \<Rightarrow> 'a option) (marshal :: 'a \<Rightarrow> cerr + string)
       pre now now' key ttl (fn :: cerr + 'a) s =
     (case Manager_Get get pre now key s of
        (r, s1) \<Rightarrow>
          let cached = (case r of Inr b \<Rightarrow> unmarshal b | Inl _ \<Rightarrow> None) in
          (case cached of
             Some v \<Rightarrow> (Some v, None, False, s1)
           | None \<Rightarrow>
               (case r of
                  Inl (Err e) \<Rightarrow> (None, Some (Err e), False, s1)
                | Inl ErrNotAcquired \<Rightarrow> (None, Some ErrNotAcquired, False, s1)
                | _ \<Rightarrow>
                    (case fn of
                       Inl e \<Rightarrow> (None, Some e, True, s1)
                     | Inr v \<Rightarrow>
                         (case marshal v of
                            Inl e \<Rightarrow> (None, Some e, True, s1)
                          | Inr raw \<Rightarrow>
                              (case Manager_Set put pre now' key raw ttl s1 of
                                 (e, s2) \<Rightarrow> (Some v, e, True, s2)))))))"

text \<open>
  \<^verbatim>\<open>Once\<close> with the clock readings of its four timed calls; the result is the error, whether \<open>fn\<close>
  was called, the store and the locker.
\<close>

definition Once where
  "Once has put acquire rel pre clk key ttl (fn :: cerr option) s l =
     (case Manager_Has has pre (clk 0) key s of
        (Inl e, s1) \<Rightarrow> (Some e, False, s1, l)
      | (Inr True, s1) \<Rightarrow> (None, False, s1, l)
      | (Inr False, s1) \<Rightarrow>
          (let lk = ''once:'' @ key in
           case Manager_Lock acquire pre (clk (1 :: nat)) lk ttl l of
             (Some e, l1) \<Rightarrow> (if e = ErrNotAcquired then None else Some e, False, s1, l1)
           | (None, l1) \<Rightarrow>
               (case Manager_Has has pre (clk 2) key s1 of
                  (Inl e, s2) \<Rightarrow> (Some e, False, s2, rel (manager_key pre lk) l1)
                | (Inr True, s2) \<Rightarrow> (None, False, s2, rel (manager_key pre lk) l1)
                | (Inr False, s2) \<Rightarrow>
                    (case fn of
                       Some e \<Rightarrow> (Some e, True, s2, rel (manager_key pre lk) l1)
                     | None \<Rightarrow>
                         (case Manager_Set put pre (clk 3) key ''1'' ttl s2 of
                            (e, s3) \<Rightarrow> (e, True, s3, rel (manager_key pre lk) l1))))))"

section \<open>Sequences of calls\<close>

text \<open>
  Calls of the manager, each at its time, on any store; and the answers the calls before them determine:
  an entry is what the last \<^verbatim>\<open>Set\<close> of its key wrote, if no \<^verbatim>\<open>Delete\<close> followed and its deadline has not
  passed. The history is given latest first.
\<close>

datatype store_call = CGet string | CHas string | CSet string string int | CDelete string

datatype cache_answer = AGet "cerr + string" | AHas "cerr + bool" | ASet "cerr option" | ADelete

fun cache_call where
  "cache_call get put has del pre t (CGet k) s = apfst AGet (Manager_Get get pre t k s)"
| "cache_call get put has del pre t (CHas k) s = apfst AHas (Manager_Has has pre t k s)"
| "cache_call get put has del pre t (CSet k v ttl) s = apfst ASet (Manager_Set put pre t k v ttl s)"
| "cache_call get put has del pre t (CDelete k) s = (ADelete, Manager_Delete del pre k s)"

fun cache_calls where
  "cache_calls get put has del pre [] s = ([], s)"
| "cache_calls get put has del pre ((t, c) # cs) s =
     (case cache_call get put has del pre t c s of (a, s1) \<Rightarrow>
        apfst (Cons a) (cache_calls get put has del pre cs s1))"

fun last_written :: "(time \<times> store_call) list \<Rightarrow> time \<Rightarrow> string \<rightharpoonup> string" where
  "last_written [] u k = None"
| "last_written ((t, CSet k' v ttl) # h) u k =
     (if k' = k then if 0 < ttl \<and> t + ttl < u then None else Some v else last_written h u k)"
| "last_written ((t, CDelete k') # h) u k = (if k' = k then None else last_written h u k)"
| "last_written ((t, CGet k') # h) u k = last_written h u k"
| "last_written ((t, CHas k') # h) u k = last_written h u k"

fun cache_reply :: "(time \<times> store_call) list \<Rightarrow> time \<Rightarrow> store_call \<Rightarrow> cache_answer" where
  "cache_reply h t (CGet k) = AGet (case last_written h t k of None \<Rightarrow> Inl ErrMiss | Some v \<Rightarrow> Inr v)"
| "cache_reply h t (CHas k) = AHas (Inr (last_written h t k \<noteq> None))"
| "cache_reply h t (CSet k v ttl) = ASet None"
| "cache_reply h t (CDelete k) = ADelete"

fun cache_replies :: "(time \<times> store_call) list \<Rightarrow> (time \<times> store_call) list \<Rightarrow> cache_answer list" where
  "cache_replies h [] = []"
| "cache_replies h ((t, c) # cs) = cache_reply h t c # cache_replies ((t, c) # h) cs"

text \<open>Times that do not go back and, like every time to live, fall on the ticks of the store's clock.\<close>

fun on_clock :: "int \<Rightarrow> time \<Rightarrow> (time \<times> store_call) list \<Rightarrow> bool" where
  "on_clock tick t [] = True"
| "on_clock tick t ((u, c) # cs) =
     (t \<le> u \<and> tick dvd u \<and> (case c of CSet _ _ ttl \<Rightarrow> tick dvd ttl | _ \<Rightarrow> True) \<and> on_clock tick u cs)"

section \<open>The contract of a store\<close>

text \<open>
  \<open>tick\<close> is the precision of the store's clock: a time to live of whole ticks is honoured up to its deadline,
  and the entry is gone one tick after it. \<open>view\<close> is what a store shows at a time.
\<close>

locale cache_store =
  fixes tick :: int
    and get :: "time \<Rightarrow> string \<Rightarrow> 's \<Rightarrow> (cerr + string) \<times> 's"
    and put :: "time \<Rightarrow> string \<Rightarrow> string \<Rightarrow> int \<Rightarrow> 's \<Rightarrow> cerr option \<times> 's"
    and has :: "time \<Rightarrow> string \<Rightarrow> 's \<Rightarrow> (cerr + bool) \<times> 's"
    and del :: "string \<Rightarrow> 's \<Rightarrow> 's"
    and view :: "time \<Rightarrow> 's \<Rightarrow> string \<rightharpoonup> string"
  assumes get_result: "fst (get t k s) = (case view t s k of None \<Rightarrow> Inl ErrMiss | Some v \<Rightarrow> Inr v)"
    and get_view: "t \<le> u \<Longrightarrow> view u (snd (get t k s)) = view u s"
    and has_result: "fst (has t k s) = Inr (view t s k \<noteq> None)"
    and has_view: "t \<le> u \<Longrightarrow> view u (snd (has t k s)) = view u s"
    and set_ok: "fst (put t k v ttl s) = None"
    and tick_pos: "0 < tick"
    and view_earlier: "view u s k = Some v \<Longrightarrow> t \<le> u \<Longrightarrow> view t s k = Some v"
    and set_keeps: "tick dvd ttl \<Longrightarrow> ttl \<le> 0 \<or> u \<le> t + ttl \<Longrightarrow>
          view u (snd (put t k v ttl s)) = (view u s)(k \<mapsto> v)"
    and set_expires: "0 < ttl \<Longrightarrow> tick dvd ttl \<Longrightarrow> t + ttl + tick \<le> u \<Longrightarrow>
          view u (snd (put t k v ttl s)) = (view u s)(k := None)"
    and set_other: "t \<le> u \<Longrightarrow> tick dvd ttl \<Longrightarrow> k' \<noteq> k \<Longrightarrow> view u (snd (put t k v ttl s)) k' = view u s k'"
    and del_view: "view u (del k s) = (view u s)(k := None)"
begin

lemma get_after_set:
  assumes "t \<le> u" and "tick dvd ttl" and "ttl \<le> 0 \<or> u \<le> t + ttl"
  shows "fst (Manager_Get get pre u k (snd (Manager_Set put pre t k v ttl s))) = Inr v"
  using set_keeps [OF assms(2,3)] by (simp add: Manager_Get_def Manager_Set_def get_result)

lemma get_after_expiry:
  assumes "0 < ttl" and "tick dvd ttl" and "t + ttl + tick \<le> u"
  shows "fst (Manager_Get get pre u k (snd (Manager_Set put pre t k v ttl s))) = Inl ErrMiss"
  using set_expires [OF assms] by (simp add: Manager_Get_def Manager_Set_def get_result)

lemma manager_key_inj [simp]: "manager_key pre k = manager_key pre k' \<longleftrightarrow> k = k'"
  by (simp add: manager_key_def)

lemma get_other_key:
  assumes "t \<le> u" and "tick dvd ttl" and "k \<noteq> k'"
  shows "fst (Manager_Get get pre u k (snd (Manager_Set put pre t k' v ttl s))) = fst (Manager_Get get pre u k s)"
  using assms set_other by (simp add: Manager_Get_def Manager_Set_def get_result)

text \<open>At the ticks of the store's clock the deadline is exact.\<close>

lemma set_view:
  assumes "t \<le> u" and "tick dvd t" and "tick dvd u" and "tick dvd ttl"
  shows "view u (snd (put t k v ttl s)) = (view u s)(k := if 0 < ttl \<and> t + ttl < u then None else Some v)"
proof (cases "0 < ttl \<and> t + ttl < u")
  case True
  have "tick dvd u - (t + ttl)" using assms by simp
  then have "tick \<le> u - (t + ttl)" using True zdvd_imp_le by fastforce
  then show ?thesis using True assms(4) set_expires by simp
qed (use assms set_keeps in auto)

lemma get_after_delete: "fst (Manager_Get get pre u k (Manager_Delete del pre k s)) = Inl ErrMiss"
  by (simp add: Manager_Get_def Manager_Delete_def get_result del_view)

lemma remember_second:
  assumes "RememberJSON get put unmarshal marshal pre t t' k ttl (Inr v) s = (Some v, None, True, s')"
    and "\<And>v b. marshal v = Inr b \<Longrightarrow> unmarshal b = Some v"
    and "tick dvd ttl" and "t' \<le> u" and "ttl \<le> 0 \<or> u \<le> t' + ttl"
  shows "RememberJSON get put unmarshal marshal pre u u' k ttl fn s' = (Some v, None, False, snd (get u (manager_key pre k) s'))"
proof -
  obtain r s1 where g: "get t (manager_key pre k) s = (r, s1)" by fastforce
  obtain raw where "marshal v = Inr raw" and s': "s' = snd (put t' (manager_key pre k) raw ttl s1)"
    using assms(1) g
    by (auto simp: RememberJSON_def Manager_Get_def Manager_Set_def Let_def split: sum.splits option.splits prod.splits cerr.splits)
  then have un: "unmarshal raw = Some v" using assms(2) by blast
  have "fst (get u (manager_key pre k) s') = Inr raw"
    using set_keeps [OF assms(3,5)] s' by (simp add: get_result)
  with un show ?thesis
    by (cases "get u (manager_key pre k) s'") (simp add: RememberJSON_def Manager_Get_def)
qed

text \<open>Every store that keeps the contract gives the answers that the calls before determine.\<close>

definition tracks :: "string \<Rightarrow> (time \<times> store_call) list \<Rightarrow> time \<Rightarrow> 's \<Rightarrow> bool" where
  "tracks pre h t s \<longleftrightarrow> (\<forall>u k. t \<le> u \<longrightarrow> tick dvd u \<longrightarrow> view u s (manager_key pre k) = last_written h u k)"

lemma call_answer:
  assumes "tracks pre h t s" and "on_clock tick t [(u, c)]"
  shows "fst (cache_call get put has del pre u c s) = cache_reply h u c"
    and "tracks pre ((u, c) # h) u (snd (cache_call get put has del pre u c s))"
  using assms
  by (cases c; auto simp: tracks_def Manager_Get_def Manager_Has_def Manager_Set_def Manager_Delete_def
        get_result has_result set_ok get_view has_view set_view del_view)+

lemma calls_answers:
  "tracks pre h t s \<Longrightarrow> on_clock tick t cs \<Longrightarrow> fst (cache_calls get put has del pre cs s) = cache_replies h cs"
proof (induction cs arbitrary: h t s)
  case (Cons x cs)
  obtain u c where x: "x = (u, c)" by fastforce
  from Cons.prems x have "on_clock tick t [(u, c)]" "on_clock tick u cs" by simp_all
  with Cons.IH [of "(u, c) # h" u] call_answer [OF Cons.prems(1)] show ?case by (simp add: x split_beta)
qed simp

end

locale once_store = cache_store tick get put has del view + locker tick acquire rel is_locked
  for tick and get :: "time \<Rightarrow> string \<Rightarrow> 's \<Rightarrow> (cerr + string) \<times> 's" and put has del view
    and acquire :: "time \<Rightarrow> string \<Rightarrow> int \<Rightarrow> 'l \<Rightarrow> cerr option \<times> 'l" and rel is_locked
begin

text \<open>A successful call leaves the marker, so a call before its expiry does nothing.\<close>

lemma once_again:
  assumes "Once has put acquire rel pre clk key ttl None s l = (None, True, s', l')"
    and "tick dvd ttl" and "clk 3 \<le> clk' 0" and "ttl \<le> 0 \<or> clk' 0 \<le> clk 3 + ttl"
  shows "fst (Once has put acquire rel pre clk' key ttl fn s' l'') = None
    \<and> fst (snd (Once has put acquire rel pre clk' key ttl fn s' l'')) = False"
proof -
  obtain s2 where "put (clk 3) (manager_key pre key) ''1'' ttl s2 = (None, s')"
    using assms(1)
    by (auto simp: Once_def Manager_Has_def Manager_Lock_def Manager_Set_def Let_def
        split: prod.splits sum.splits bool.splits option.splits if_splits)
  then have "s' = snd (put (clk 3) (manager_key pre key) ''1'' ttl s2)" by simp
  then have "view (clk' 0) s' (manager_key pre key) \<noteq> None" using set_keeps [OF assms(2,4)] by simp
  then have "fst (has (clk' 0) (manager_key pre key) s') = Inr True" by (simp add: has_result)
  then show ?thesis by (auto simp: Once_def Manager_Has_def split: prod.splits)
qed

end

section \<open>The process-local store keeps the contract\<close>

lemma expired_mono: "expired t it \<Longrightarrow> t \<le> u \<Longrightarrow> expired u it"
  by (auto simp: expired_def split: option.splits)

lemma visible_earlier: "visible u m k = Some v \<Longrightarrow> t \<le> u \<Longrightarrow> visible t m k = Some v"
  using expired_mono by (auto simp: visible_def split: option.splits if_splits)

lemma Get_result: "fst (Memory_Get t k m) = (case visible t m k of None \<Rightarrow> Inl ErrMiss | Some v \<Rightarrow> Inr v)"
  by (simp add: Memory_Get_def visible_def split: option.splits)

lemma Get_view: "t \<le> u \<Longrightarrow> visible u (snd (Memory_Get t k m)) = visible u m"
  by (auto simp: Memory_Get_def Memory_Delete_def visible_def fun_eq_iff expired_mono split: option.splits)

lemma Has_Get: "Memory_Has t k m = (Inr (visible t m k \<noteq> None), snd (Memory_Get t k m))"
  by (simp add: Memory_Has_def Memory_Get_def visible_def split: option.splits)

interpretation mem: cache_store 1 Memory_Get Memory_Set Memory_Has Memory_Delete visible
  by unfold_locales
    (auto simp: Get_result Get_view Has_Get dest: visible_earlier, auto simp: Memory_Set_def Memory_Delete_def visible_def expired_def fun_eq_iff)

interpretation mem_once: once_store 1 Memory_Get Memory_Set Memory_Has Memory_Delete visible Acquire release locked
  by unfold_locales

text \<open>The janitor is invisible: no reader after it can tell that it ran.\<close>

lemma janitor_invisible: "t \<le> u \<Longrightarrow> visible u (janitor t m) = visible u m"
  by (auto simp: janitor_def visible_def fun_eq_iff expired_mono split: option.splits)

text \<open>
  What was set is read back until it expires, and is a miss after that. Under any
  prefix, a value set with time to live \<open>ttl\<close> (none if it is not positive) is returned by a later read
  exactly while the deadline has not passed, also when the janitor has swept in between.
\<close>

lemma cache_set_get:
  assumes "t \<le> j" and "j \<le> u"
  shows "fst (Manager_Get Memory_Get pre u k (janitor j (snd (Manager_Set Memory_Set pre t k v ttl m)))) =
           (if 0 < ttl \<and> t + ttl < u then Inl ErrMiss else Inr v)"
proof -
  have "fst (Manager_Get Memory_Get pre u k (janitor j s)) = fst (Manager_Get Memory_Get pre u k s)" for s
    using janitor_invisible [OF assms(2)] by (simp add: Manager_Get_def Get_result)
  then show ?thesis
    using mem.get_after_set [of t u ttl pre k v m] mem.get_after_expiry [of ttl t u pre k v m] assms by auto
qed

lemma cache_set_get_example:
  "fst (Manager_Get Memory_Get ''p:'' 9 ''k'' (janitor 3 (snd (Manager_Set Memory_Set ''p:'' 0 ''k'' ''v'' 5 cache_NewMemory))))
     = Inl ErrMiss"
  using cache_set_get [of 0 3 9 "''p:''" "''k''" "''v''" 5 cache_NewMemory] by simp

text \<open>
  A remembered value is computed once. After a call that computed and stored the
  value, a call before its expiry returns the same value from the store and does not call its
  function, for every JSON codec that decodes what it encodes.
\<close>

lemma remember_computes_once:
  assumes "RememberJSON Memory_Get Memory_Set unmarshal marshal pre t t' k ttl (Inr v) m = (Some v, None, True, m')"
    and "\<And>x b. marshal x = Inr b \<Longrightarrow> unmarshal b = Some x"
    and "t \<le> t'" and "t' \<le> u" and "ttl \<le> 0 \<or> u \<le> t' + ttl"
  shows "\<exists>m''. RememberJSON Memory_Get Memory_Set unmarshal marshal pre u u' k ttl fn m' = (Some v, None, False, m'')"
  using mem.remember_second [OF assms(1,2) one_dvd assms(4,5)] by blast

lemma remember_computes_once_example:
  "\<exists>m''. RememberJSON Memory_Get Memory_Set Some Inr [] 2 2 ''k'' 5 (Inl ErrMiss)
     (snd (snd (snd (RememberJSON Memory_Get Memory_Set Some Inr [] 0 1 ''k'' 5 (Inr ''v'') cache_NewMemory))))
     = (Some ''v'', None, False, m'')"
proof (rule remember_computes_once)
  show "RememberJSON Memory_Get Memory_Set Some Inr [] 0 1 ''k'' 5 (Inr ''v'') cache_NewMemory =
    (Some ''v'', None, True, snd (snd (snd (RememberJSON Memory_Get Memory_Set Some Inr [] 0 1 ''k'' 5 (Inr ''v'') cache_NewMemory))))"
    by (simp add: RememberJSON_def Manager_Get_def Manager_Set_def Memory_Get_def Memory_Set_def cache_NewMemory_def)
qed auto

section \<open>Concurrent calls of Once\<close>

text \<open>
  Any number of goroutines, in any number of processes that share the backends, call \<^verbatim>\<open>Once\<close> on the same key. The store and the locker have one
  state, \<open>o_backend\<close>. Each call of the store or the locker is one step at a time of its own, which need not be that of the steps
  around it: the locks inside the store make these calls atomic. \<open>PRun\<close> is the call of \<open>fn\<close>, whose outcome is free; \<open>o_runs\<close>
  counts its successes.
\<close>

datatype once_pc = PHas | PLock | PHas2 | PRun | PSet | PRelease | PDone

record 's once_state =
  o_backend :: 's
  o_pc :: "nat \<Rightarrow> once_pc"
  o_runs :: nat

definition goto :: "nat \<Rightarrow> once_pc \<Rightarrow> 's once_state \<Rightarrow> 's once_state" where
  "goto i p st = st\<lparr>o_pc := (o_pc st)(i := p)\<rparr>"

definition once_thread_step where
  "once_thread_step has put acquire rel pre key ttl now fn_ok i st =
     (let lk = ''once:'' @ key in
      case o_pc st i of
        PHas \<Rightarrow> (case Manager_Has has pre now key (o_backend st) of
                   (r, s) \<Rightarrow> goto i (if r = Inr False then PLock else PDone) (st\<lparr>o_backend := s\<rparr>))
      | PLock \<Rightarrow> (case Manager_Lock acquire pre now lk ttl (o_backend st) of
                   (r, s) \<Rightarrow> goto i (if r = None then PHas2 else PDone) (st\<lparr>o_backend := s\<rparr>))
      | PHas2 \<Rightarrow> (case Manager_Has has pre now key (o_backend st) of
                   (r, s) \<Rightarrow> goto i (if r = Inr False then PRun else PRelease) (st\<lparr>o_backend := s\<rparr>))
      | PRun \<Rightarrow> (if fn_ok then goto i PSet (st\<lparr>o_runs := Suc (o_runs st)\<rparr>) else goto i PRelease st)
      | PSet \<Rightarrow> (case Manager_Set put pre now key ''1'' ttl (o_backend st) of
                   (_, s) \<Rightarrow> goto i PRelease (st\<lparr>o_backend := s\<rparr>))
      | PRelease \<Rightarrow> goto i PDone (st\<lparr>o_backend := rel (manager_key pre lk) (o_backend st)\<rparr>)
      | PDone \<Rightarrow> st)"

inductive once_reach for has put acquire rel pre key ttl lo hi where
  once_start: "once_reach has put acquire rel pre key ttl lo hi \<lparr>o_backend = s, o_pc = (\<lambda>_. PHas), o_runs = 0\<rparr>"
| once_next: "once_reach has put acquire rel pre key ttl lo hi st \<Longrightarrow> lo \<le> now \<Longrightarrow> now \<le> hi \<Longrightarrow>
     once_reach has put acquire rel pre key ttl lo hi (once_thread_step has put acquire rel pre key ttl now fn_ok i st)"

definition critical :: "once_pc \<Rightarrow> bool" where
  "critical p \<longleftrightarrow> p = PHas2 \<or> p = PRun \<or> p = PSet \<or> p = PRelease"

lemma critical_simps [simp]:
  "critical PHas2" "critical PRun" "critical PSet" "critical PRelease"
  "\<not> critical PHas" "\<not> critical PLock" "\<not> critical PDone"
  by (simp_all add: critical_def)

text \<open>
  A store and a locker on one state: what the one does to its keys the other does not see. The laws are for one key of the cache, \<open>ck\<close>, and
  one of the locker, \<open>lk\<close>.
\<close>

locale once_backend = cache_store tick get put has del view + locker tick acquire rel is_locked
  for tick and get :: "time \<Rightarrow> string \<Rightarrow> 's \<Rightarrow> (cerr + string) \<times> 's" and put has del view
    and acquire :: "time \<Rightarrow> string \<Rightarrow> int \<Rightarrow> 's \<Rightarrow> cerr option \<times> 's" and rel is_locked +
  fixes ck lk :: string
  assumes acquire_view: "view u (snd (acquire t lk ttl s)) ck = view u s ck"
    and rel_view: "view u (rel lk s) ck = view u s ck"
    and has_locked: "is_locked u (snd (has t ck s)) lk = is_locked u s lk"
    and put_locked: "tick dvd ttl \<Longrightarrow> is_locked u (snd (put t ck v ttl s)) lk = is_locked u s lk"
begin

definition marked :: "time \<Rightarrow> 's \<Rightarrow> bool" where
  "marked hi s \<longleftrightarrow> view hi s ck \<noteq> None"

text \<open>The invariant: one owner, whose lock outlives the run; the marker or its writer after a success.\<close>

definition once_inv :: "time \<Rightarrow> 's once_state \<Rightarrow> bool" where
  "once_inv hi st \<longleftrightarrow>
     (\<forall>i j. critical (o_pc st i) \<longrightarrow> critical (o_pc st j) \<longrightarrow> i = j) \<and>
     (\<forall>i. critical (o_pc st i) \<longrightarrow> is_locked hi (o_backend st) lk) \<and>
     o_runs st \<le> 1 \<and>
     (o_runs st = 1 \<longrightarrow> marked hi (o_backend st) \<or> (\<exists>i. o_pc st i = PSet)) \<and>
     (\<forall>i. o_pc st i = PRun \<longrightarrow> o_runs st = 0) \<and>
     (\<forall>i. o_pc st i = PSet \<longrightarrow> o_runs st = 1)"

lemma marked_has: "now \<le> hi \<Longrightarrow> marked hi s \<Longrightarrow> fst (has now ck s) = Inr True \<and> marked hi (snd (has now ck s))"
proof -
  assume t: "now \<le> hi" and "marked hi s"
  then obtain v where "view hi s ck = Some v" by (auto simp: marked_def)
  then show ?thesis using view_earlier [OF _ t] t by (simp add: marked_def has_result has_view)
qed

lemma acquire_result:
  "acquire now k ttl s = (r, s') \<Longrightarrow> (r = None \<longleftrightarrow> \<not> is_locked now s k) \<and> (r \<noteq> None \<longrightarrow> s' = s)"
  using acquire_fails [of now s k ttl] acquire_succeeds [of now s k ttl] by (cases "is_locked now s k") auto

lemma once_inv_crit:
  assumes inv: "once_inv hi st" and crit: "critical (o_pc st i)"
  shows "j \<noteq> i \<Longrightarrow> \<not> critical (o_pc st j)" "is_locked hi (o_backend st) lk" "o_runs st \<le> 1"
    "o_pc st i = PRun \<Longrightarrow> o_runs st = 0" "o_pc st i = PSet \<Longrightarrow> o_runs st = 1"
    "o_pc st i \<noteq> PSet \<Longrightarrow> o_runs st = 1 \<Longrightarrow> marked hi (o_backend st)"
proof -
  show *: "j \<noteq> i \<Longrightarrow> \<not> critical (o_pc st j)" for j
    using inv crit unfolding once_inv_def by blast
  show "o_pc st i \<noteq> PSet \<Longrightarrow> o_runs st = 1 \<Longrightarrow> marked hi (o_backend st)"
    using inv * critical_simps(3) unfolding once_inv_def by metis
qed (use inv crit in \<open>unfold once_inv_def, blast+\<close>)

text \<open>A step outside the critical section that keeps the marker and the lock.\<close>

lemma once_inv_outside:
  assumes inv: "once_inv hi st" and "\<not> critical (o_pc st i)" and "\<not> critical p"
    and "marked hi (o_backend st) \<Longrightarrow> marked hi s" and "is_locked hi s lk = is_locked hi (o_backend st) lk"
  shows "once_inv hi (goto i p (st\<lparr>o_backend := s\<rparr>))"
proof -
  have "critical (o_pc (goto i p (st\<lparr>o_backend := s\<rparr>)) j) \<longleftrightarrow> critical (o_pc st j)" for j
    using assms(2,3) by (simp add: goto_def)
  moreover have "o_pc (goto i p (st\<lparr>o_backend := s\<rparr>)) j = q \<longleftrightarrow> o_pc st j = q" if "critical q" for j q
    using assms(2,3) that by (auto simp: goto_def)
  ultimately show ?thesis
    using inv assms(4,5) unfolding once_inv_def by (simp add: goto_def) blast
qed

lemma once_inv_single:
  assumes "\<And>j. j \<noteq> i \<Longrightarrow> \<not> critical (o_pc st j)" "critical (o_pc st i) \<Longrightarrow> is_locked hi (o_backend st) lk"
    "o_runs st \<le> 1" "o_runs st = 1 \<Longrightarrow> marked hi (o_backend st) \<or> o_pc st i = PSet"
    "o_pc st i = PRun \<Longrightarrow> o_runs st = 0" "o_pc st i = PSet \<Longrightarrow> o_runs st = 1"
  shows "once_inv hi st"
proof -
  have only: "critical (o_pc st j) \<Longrightarrow> j = i" for j using assms(1) by blast
  then have "o_pc st j = PRun \<or> o_pc st j = PSet \<Longrightarrow> j = i" for j by (auto simp: critical_def)
  with only assms(2-) show ?thesis unfolding once_inv_def by blast
qed

lemma once_step_lock:
  assumes inv: "once_inv hi st" and t: "lo \<le> now" "now \<le> hi" "hi < lo + ttl" "0 < ttl" "tick dvd ttl"
    and keys: "ck = manager_key pre key" "lk = manager_key pre (''once:'' @ key)" and PLock: "o_pc st i = PLock"
  shows "once_inv hi (once_thread_step has put acquire rel pre key ttl now fn_ok i st)"
proof -
  obtain r s where a: "acquire now lk ttl (o_backend st) = (r, s)" by fastforce
  show ?thesis
  proof (cases "r = None")
    case True
    have unlocked: "\<not> is_locked now (o_backend st) lk" using acquire_result [OF a] True by blast
    have free: "\<not> critical (o_pc st j)" for j
      using inv unlocked locked_earlier [OF _ t(2)] unfolding once_inv_def by blast
    have "is_locked hi s lk" using acquire_locks [OF unlocked t(4,5), of hi] a t(1,3) by simp
    moreover have "o_runs st \<le> 1" using inv unfolding once_inv_def by blast
    moreover have "marked hi s = marked hi (o_backend st)"
      using acquire_view [of hi now ttl "o_backend st"] a by (simp add: marked_def)
    moreover have "o_runs st = 1 \<Longrightarrow> marked hi (o_backend st)"
      using inv free critical_simps(3) unfolding once_inv_def by metis
    ultimately show ?thesis using free PLock a True
      by (intro once_inv_single [of i]) (simp_all add: once_thread_step_def goto_def Manager_Lock_def keys)
  next
    case False
    then have "s = o_backend st" using acquire_result [OF a] by blast
    with once_inv_outside [OF inv, of i PDone "o_backend st"] PLock a False show ?thesis
      by (auto simp: once_thread_step_def Manager_Lock_def keys)
  qed
qed

lemma once_step_inv:
  assumes inv: "once_inv hi st" and t: "lo \<le> now" "now \<le> hi" "hi < lo + ttl" "0 < ttl" "tick dvd ttl"
    and keys: "ck = manager_key pre key" "lk = manager_key pre (''once:'' @ key)"
  shows "once_inv hi (once_thread_step has put acquire rel pre key ttl now fn_ok i st)"
proof (cases "o_pc st i")
  case PHas
  obtain r s where h: "has now ck (o_backend st) = (r, s)" by fastforce
  then have "marked hi (o_backend st) \<Longrightarrow> marked hi s"
    using marked_has [OF t(2), of "o_backend st"] by simp
  moreover have "is_locked hi s lk = is_locked hi (o_backend st) lk" using has_locked [of hi now "o_backend st"] h by simp
  ultimately show ?thesis
    using once_inv_outside [OF inv, of i "if r = Inr False then PLock else PDone" s] PHas h
    by (simp add: once_thread_step_def Manager_Has_def keys)
next
  case PLock
  then show ?thesis using once_step_lock [OF inv t keys] by blast
next
  case PHas2
  note crit = once_inv_crit [OF inv, of i]
  obtain r s where h: "has now ck (o_backend st) = (r, s)" by fastforce
  have "o_runs st = 1 \<Longrightarrow> r = Inr True \<and> marked hi s"
    using crit(6) PHas2 h marked_has [OF t(2), of "o_backend st"] by (auto simp: critical_def)
  moreover have "is_locked hi s lk = is_locked hi (o_backend st) lk" using has_locked [of hi now "o_backend st"] h by simp
  ultimately show ?thesis
    using crit PHas2 h
    by (intro once_inv_single [of i])
      (auto simp: once_thread_step_def goto_def Manager_Has_def keys critical_def le_Suc_eq split: if_splits)
next
  case PRun
  note crit = once_inv_crit [OF inv, of i]
  show ?thesis
    using crit PRun by (cases fn_ok; intro once_inv_single [of i])
      (auto simp: once_thread_step_def goto_def critical_def)
next
  case PSet
  note crit = once_inv_crit [OF inv, of i]
  have "marked hi (snd (put now ck ''1'' ttl (o_backend st)))"
    using t set_keeps [of ttl hi now ck "''1''" "o_backend st"] by (simp add: marked_def)
  then show ?thesis
    using crit PSet put_locked [OF t(5)] by (intro once_inv_single [of i])
      (auto simp: once_thread_step_def goto_def Manager_Set_def keys critical_def split_beta)
next
  case PRelease
  note crit = once_inv_crit [OF inv, of i]
  have "marked hi (rel lk (o_backend st)) = marked hi (o_backend st)" by (simp add: marked_def rel_view)
  then show ?thesis
    using crit PRelease by (intro once_inv_single [of i])
      (auto simp: once_thread_step_def goto_def critical_def keys)
next
  case PDone
  then show ?thesis using inv by (simp add: once_thread_step_def)
qed

lemma once_exclusive:
  assumes "once_reach has put acquire rel pre key ttl lo hi st" and "hi < lo + ttl" and "0 < ttl" and "tick dvd ttl"
    and keys: "ck = manager_key pre key" "lk = manager_key pre (''once:'' @ key)"
  shows "o_runs st \<le> 1 \<and> (\<forall>i j. o_pc st i = PRun \<and> o_pc st j = PRun \<longrightarrow> i = j)"
proof -
  have "once_inv hi st"
    using assms(1)
  proof (induction rule: once_reach.induct)
    case (once_start s)
    then show ?case by (simp add: once_inv_def critical_def)
  next
    case (once_next st now fn_ok i)
    then show ?case using once_step_inv [OF _ _ _ assms(2-4) keys] by blast
  qed
  then show ?thesis unfolding once_inv_def by (metis critical_simps(2))
qed

end

text \<open>A store and a locker with states of their own, side by side.\<close>

definition on_fst :: "(time \<Rightarrow> string \<Rightarrow> 'a \<Rightarrow> 'r \<times> 'a) \<Rightarrow> time \<Rightarrow> string \<Rightarrow> 'a \<times> 'b \<Rightarrow> 'r \<times> 'a \<times> 'b" where
  "on_fst f t k s = (case f t k (fst s) of (r, a) \<Rightarrow> (r, a, snd s))"

definition put_fst ::
  "(time \<Rightarrow> string \<Rightarrow> string \<Rightarrow> int \<Rightarrow> 'a \<Rightarrow> 'r \<times> 'a) \<Rightarrow> time \<Rightarrow> string \<Rightarrow> string \<Rightarrow> int \<Rightarrow> 'a \<times> 'b \<Rightarrow> 'r \<times> 'a \<times> 'b" where
  "put_fst f t k v ttl s = (case f t k v ttl (fst s) of (r, a) \<Rightarrow> (r, a, snd s))"

definition acquire_snd :: "(time \<Rightarrow> string \<Rightarrow> int \<Rightarrow> 'b \<Rightarrow> 'r \<times> 'b) \<Rightarrow> time \<Rightarrow> string \<Rightarrow> int \<Rightarrow> 'a \<times> 'b \<Rightarrow> 'r \<times> 'a \<times> 'b" where
  "acquire_snd f t k ttl s = (case f t k ttl (snd s) of (r, b) \<Rightarrow> (r, fst s, b))"

lemmas side_defs = on_fst_def put_fst_def acquire_snd_def split_beta apfst_def apsnd_def map_prod_def

sublocale once_store \<subseteq> side: once_backend tick "on_fst get" "put_fst put" "on_fst has" "\<lambda>k. apfst (del k)" "\<lambda>t s. view t (fst s)"
    "acquire_snd acquire" "\<lambda>k. apsnd (rel k)" "\<lambda>t s. is_locked t (snd s)" ck lk
proof unfold_locales
  fix t u :: time and k :: string and ttl :: int and s :: "'a \<times> 'l"
  show "is_locked t (snd s) k \<Longrightarrow> acquire_snd acquire t k ttl s = (Some ErrNotAcquired, s)"
    by (simp add: side_defs acquire_fails)
qed (auto simp: side_defs get_result get_view has_result has_view set_ok set_keeps set_expires set_other del_view tick_pos
    acquire_succeeds acquire_locks acquire_expires acquire_other rel_unlocks dest: view_earlier locked_earlier)



section \<open>A race in Get\<close>

text \<open>
  \<^verbatim>\<open>Get\<close> reads under the read lock and evicts an expired entry under the write lock, without looking
  again. A value that another goroutine sets between the two is deleted with the old one.
\<close>

definition Get_read :: "string \<Rightarrow> cache_memory \<Rightarrow> memoryItem option" where
  "Get_read key m = items m key"

lemma get_evicts_fresh_value:
  assumes "Get_read k m = Some it" and "expired t it" and "t \<le> u"
  shows "fst (Memory_Get u k (Memory_Delete k (snd (Memory_Set t k v ttl m)))) = Inl ErrMiss"
  by (simp add: Memory_Get_def Memory_Delete_def Memory_Set_def)

end
