(* ===== verification/Queue.thy ===== *)
theory Queue
  imports Lock "HOL-Library.Word"
begin

text \<open>
  Package queue: jobs, the in-process backend, the Redis backend and the manager's worker. The
  outcome of a handler, the clock and the branch a \<^verbatim>\<open>select\<close> takes are arguments. The locale
  \<open>job_queue\<close> is the contract of the \<^verbatim>\<open>Queue\<close> interface as the manager uses it: a bounded first-in
  first-out list of pending jobs and a list of failed ones.
\<close>

record Job =
  ID :: string
  Name :: string
  Payload :: string
  Delay :: int
  Attempts :: int
  MaxTries :: int
  JobTimeout :: int
  JobError :: string

section \<open>The manager's settings\<close>

record Manager =
  handlers :: "string set"
  maxTries :: int
  timeout :: int
  concurrency :: int

definition New :: Manager where
  "New = \<lparr>handlers = {}, maxTries = 3, timeout = 60000000000, concurrency = 1\<rparr>"

text \<open>
  The default backoff, in 64-bit arithmetic: \<^verbatim>\<open>time.Second * time.Duration(1<<uint(attempts-1))\<close>, at most
  30 seconds.
\<close>

definition backoff :: "int \<Rightarrow> int" where
  "backoff attempts =
     (let n = nat ((attempts - 1) mod 2 ^ 64);
          s = (if n < 64 then push_bit n 1 else 0) :: 64 word;
          d = sint (1000000000 * s)
      in if d > 30000000000 then 30000000000 else d)"

definition SetMaxTries :: "int \<Rightarrow> Manager \<Rightarrow> Manager" where
  "SetMaxTries n m = (if n > 0 then m\<lparr>maxTries := n\<rparr> else m)"

definition SetTimeout :: "int \<Rightarrow> Manager \<Rightarrow> Manager" where
  "SetTimeout d m = m\<lparr>timeout := d\<rparr>"

definition SetConcurrency :: "int \<Rightarrow> Manager \<Rightarrow> Manager" where
  "SetConcurrency n m = (if n > 0 then m\<lparr>concurrency := n\<rparr> else m)"

definition Register :: "string \<Rightarrow> Manager \<Rightarrow> Manager" where
  "Register name m = m\<lparr>handlers := insert name (handlers m)\<rparr>"

text \<open>\<open>jid\<close> is the random identifier of \<^verbatim>\<open>newJobID\<close>.\<close>

definition new_job :: "Manager \<Rightarrow> string \<Rightarrow> string \<Rightarrow> string \<Rightarrow> int \<Rightarrow> Job" where
  "new_job m jid name payload delay =
     \<lparr>ID = jid, Name = name, Payload = payload, Delay = delay, Attempts = 0, MaxTries = maxTries m,
      JobTimeout = timeout m, JobError = []\<rparr>"

definition Dispatch where
  "Dispatch push m now jid name payload q = push now (new_job m jid name payload 0) q"

definition Later where
  "Later push m now d jid name payload q = push now (new_job m jid name payload d) q"

text \<open>
  \<^verbatim>\<open>process\<close>: \<open>res\<close> is the handler's error, if any. The second component is the job \<^verbatim>\<open>OnFailed\<close> is called
  with. Errors of \<^verbatim>\<open>Retry\<close> and \<^verbatim>\<open>Fail\<close> are only logged.
\<close>

definition process where
  "process retry fail m now (res :: string option) job q =
     (if Name job \<notin> handlers m then (q, None)
      else let job = job\<lparr>Attempts := Attempts job + 1\<rparr> in
        (case res of
           None \<Rightarrow> (q, None)
         | Some err \<Rightarrow>
             (let mx = (if MaxTries job \<le> 0 then maxTries m else MaxTries job) in
              if Attempts job < mx then (snd (retry now job (backoff (Attempts job)) q), None)
              else let job = job\<lparr>JobError := err\<rparr> in (snd (fail job err q), Some job))))"

definition job_timeout :: "Manager \<Rightarrow> Job \<Rightarrow> int" where
  "job_timeout m job = (if JobTimeout job \<le> 0 then timeout m else JobTimeout job)"

section \<open>The in-process backend\<close>

record memory_queue =
  ch :: "(Job \<times> time) list"
  capacity :: nat
  failed :: "Job list"

definition queue_NewMemory :: "int \<Rightarrow> memory_queue" where
  "queue_NewMemory n = \<lparr>ch = [], capacity = nat (if n \<le> 0 then 64 else n), failed = []\<rparr>"

definition Push :: "time \<Rightarrow> Job \<Rightarrow> memory_queue \<Rightarrow> string option \<times> memory_queue" where
  "Push now job q =
     (if length (ch q) < capacity q then (None, q\<lparr>ch := ch q @ [(job, now + Delay job)]\<rparr>)
      else (Some ''gai/queue: full'', q))"

datatype pop_result = Popped Job | Cancelled | Blocked

text \<open>
  \<^verbatim>\<open>Pop\<close>: \<open>done\<close> says that the first \<^verbatim>\<open>select\<close> takes the branch of the cancelled context, \<open>done_wait\<close> that
  the context is cancelled while a delayed job is waited for.
\<close>

definition Pop :: "bool \<Rightarrow> bool \<Rightarrow> time \<Rightarrow> memory_queue \<Rightarrow> pop_result \<times> memory_queue" where
  "Pop ctx_done done_wait now q =
     (if ctx_done then (Cancelled, q)
      else case ch q of
             [] \<Rightarrow> (Blocked, q)
           | (job, due) # rest \<Rightarrow>
               if due - now > 0 \<and> done_wait then (Cancelled, q\<lparr>ch := rest\<rparr>)
               else (Popped job, q\<lparr>ch := rest\<rparr>))"

definition Fail :: "Job \<Rightarrow> string \<Rightarrow> memory_queue \<Rightarrow> string option \<times> memory_queue" where
  "Fail job cause q =
     (None, q\<lparr>failed := failed q @ [if JobError job = [] then job\<lparr>JobError := cause\<rparr> else job]\<rparr>)"

definition Retry :: "time \<Rightarrow> Job \<Rightarrow> int \<Rightarrow> memory_queue \<Rightarrow> string option \<times> memory_queue" where
  "Retry now job delay q = Push now (job\<lparr>Delay := delay\<rparr>) q"

definition Failed :: "memory_queue \<Rightarrow> Job list" where
  "Failed q = failed q"

text \<open>\<^verbatim>\<open>Manager.Failed\<close>: \<open>sink\<close> is the backend's \<^verbatim>\<open>Failed\<close>, if it has one.\<close>

definition Manager_Failed :: "('q \<Rightarrow> Job list) option \<Rightarrow> 'q \<Rightarrow> Job list" where
  "Manager_Failed sink q = (case sink of None \<Rightarrow> [] | Some f \<Rightarrow> f q)"

text \<open>\<open>bytes\<close> are eight random bytes; the JSON codec of a job is an argument.\<close>

definition newJobID :: "string \<Rightarrow> string" where
  "newJobID bytes = hex_encode bytes"

definition encodeJob :: "(Job \<Rightarrow> string + string) \<Rightarrow> Job \<Rightarrow> string + string" where
  "encodeJob marshal j = marshal j"

definition decodeJob :: "(string \<Rightarrow> string + Job) \<Rightarrow> string \<Rightarrow> string + Job" where
  "decodeJob unmarshal b = (case unmarshal b of Inl e \<Rightarrow> Inl (''gai/queue: decode: '' @ e) | Inr j \<Rightarrow> Inr j)"

section \<open>The Redis backend\<close>

text \<open>
  The client's commands are the fields of \<open>redis_ops\<close>, each with its error; \<open>move\<close> is the transaction
  of \<^verbatim>\<open>ZREM\<close> and \<^verbatim>\<open>RPUSH\<close>. The JSON codec is an argument. The scores are seconds (\<^verbatim>\<open>Unix\<close>).
\<close>

record 's redis_ops =
  zadd :: "string \<Rightarrow> int \<Rightarrow> string \<Rightarrow> 's \<Rightarrow> string option \<times> 's"
  rpush :: "string \<Rightarrow> string \<Rightarrow> 's \<Rightarrow> string option \<times> 's"
  blpop :: "string \<Rightarrow> 's \<Rightarrow> (string + string list) \<times> 's"
  zrange :: "string \<Rightarrow> int \<Rightarrow> 's \<Rightarrow> (string + string list)"
  move :: "string \<Rightarrow> string \<Rightarrow> string \<Rightarrow> 's \<Rightarrow> string option \<times> 's"
  lrange :: "string \<Rightarrow> int \<Rightarrow> int \<Rightarrow> 's \<Rightarrow> (string + string list)"

definition redis_queue_key :: "string \<Rightarrow> string" where
  "redis_queue_key key = (if key = [] then ''gai:queue'' else key)"

definition delayedKey :: "string \<Rightarrow> string" where
  "delayedKey key = key @ '':delayed''"

definition failedKey :: "string \<Rightarrow> string" where
  "failedKey key = key @ '':failed''"

definition Redis_Push ::
  "'s redis_ops \<Rightarrow> (Job \<times> int \<Rightarrow> string + string) \<Rightarrow> string \<Rightarrow> int \<Rightarrow> Job \<Rightarrow> 's \<Rightarrow> string option \<times> 's" where
  "Redis_Push ops enc key now job s =
     (let due = (now + Delay job) div 1000000000 in
      case enc (job, due) of
        Inl e \<Rightarrow> (Some e, s)
      | Inr raw \<Rightarrow>
          if Delay job > 0 then zadd ops (delayedKey key) due raw s else rpush ops key raw s)"

fun promote_items :: "'s redis_ops \<Rightarrow> string \<Rightarrow> string list \<Rightarrow> 's \<Rightarrow> string option \<times> 's" where
  "promote_items ops key [] s = (None, s)"
| "promote_items ops key (x # xs) s =
     (case move ops (delayedKey key) key x s of
        (Some e, s') \<Rightarrow> (Some e, s')
      | (None, s') \<Rightarrow> promote_items ops key xs s')"

definition promoteDelayed :: "'s redis_ops \<Rightarrow> string \<Rightarrow> int \<Rightarrow> 's \<Rightarrow> string option \<times> 's" where
  "promoteDelayed ops key now s =
     (case zrange ops (delayedKey key) (now div 1000000000) s of
        Inl e \<Rightarrow> if e = ''redis: nil'' then (None, s) else (Some e, s)
      | Inr xs \<Rightarrow> promote_items ops key xs s)"

definition Redis_Pop ::
  "'s redis_ops \<Rightarrow> (string \<Rightarrow> string + (Job \<times> int)) \<Rightarrow> string \<Rightarrow> int \<Rightarrow> 's \<Rightarrow> (string + Job) \<times> 's" where
  "Redis_Pop ops dec key now s =
     (case promoteDelayed ops key now s of
        (Some e, s1) \<Rightarrow> (Inl e, s1)
      | (None, s1) \<Rightarrow>
          (case blpop ops key s1 of
             (Inl e, s2) \<Rightarrow> (Inl e, s2)
           | (Inr res, s2) \<Rightarrow>
               if length res < 2 then (Inl ''redis: nil'', s2)
               else (case dec (res ! 1) of Inl e \<Rightarrow> (Inl e, s2) | Inr (job, _) \<Rightarrow> (Inr job, s2))))"

definition Redis_Fail ::
  "'s redis_ops \<Rightarrow> (Job \<Rightarrow> string + string) \<Rightarrow> string \<Rightarrow> Job \<Rightarrow> string \<Rightarrow> 's \<Rightarrow> string option \<times> 's" where
  "Redis_Fail ops enc key job cause s =
     (case enc (if JobError job = [] then job\<lparr>JobError := cause\<rparr> else job) of
        Inl e \<Rightarrow> (Some e, s)
      | Inr raw \<Rightarrow> rpush ops (failedKey key) raw s)"

definition Redis_Retry ::
  "'s redis_ops \<Rightarrow> (Job \<times> int \<Rightarrow> string + string) \<Rightarrow> string \<Rightarrow> int \<Rightarrow> Job \<Rightarrow> int \<Rightarrow> 's \<Rightarrow> string option \<times> 's" where
  "Redis_Retry ops enc key now job delay s = Redis_Push ops enc key now (job\<lparr>Delay := delay\<rparr>) s"

definition Redis_Failed :: "'s redis_ops \<Rightarrow> (string \<Rightarrow> string + Job) \<Rightarrow> string \<Rightarrow> 's \<Rightarrow> Job list" where
  "Redis_Failed ops dec key s =
     (case lrange ops (failedKey key) 0 99 s of
        Inl _ \<Rightarrow> []
      | Inr raws \<Rightarrow> List.map_filter (\<lambda>raw. case dec raw of Inl _ \<Rightarrow> None | Inr j \<Rightarrow> Some j) raws)"

section \<open>The contract of a backend\<close>

locale job_queue =
  fixes push :: "time \<Rightarrow> Job \<Rightarrow> 'q \<Rightarrow> string option \<times> 'q"
    and pop :: "time \<Rightarrow> 'q \<Rightarrow> pop_result \<times> 'q"
    and fail :: "Job \<Rightarrow> string \<Rightarrow> 'q \<Rightarrow> string option \<times> 'q"
    and retry :: "time \<Rightarrow> Job \<Rightarrow> int \<Rightarrow> 'q \<Rightarrow> string option \<times> 'q"
    and pending :: "'q \<Rightarrow> Job list"
    and failures :: "'q \<Rightarrow> Job list"
    and room :: "'q \<Rightarrow> nat"
    and wf :: "'q \<Rightarrow> bool"
  assumes push_room: "wf q \<Longrightarrow> 0 < room q \<Longrightarrow> wf (snd (push t j q)) \<and> fst (push t j q) = None \<and> pending (snd (push t j q)) = pending q @ [j]
      \<and> failures (snd (push t j q)) = failures q \<and> Suc (room (snd (push t j q))) = room q"
    and push_full: "room q = 0 \<Longrightarrow> fst (push t j q) \<noteq> None \<and> snd (push t j q) = q"
    and pop_pending: "wf q \<Longrightarrow> pending q = j # js \<Longrightarrow> \<exists>q'. pop t q = (Popped j, q') \<and> wf q' \<and> pending q' = js
      \<and> failures q' = failures q \<and> room q' = Suc (room q)"
    and pop_empty: "pending q = [] \<Longrightarrow> pop t q = (Blocked, q)"
    and fail_keeps: "wf (snd (fail j e q)) = wf q \<and> pending (snd (fail j e q)) = pending q \<and> room (snd (fail j e q)) = room q
      \<and> (\<exists>j'. failures (snd (fail j e q)) = failures q @ [j'] \<and> ID j' = ID j \<and> Attempts j' = Attempts j
           \<and> MaxTries j' = MaxTries j)"
    and retry_push: "retry t j d q = push t (j\<lparr>Delay := d\<rparr>) q"
begin

text \<open>Jobs come out in the order they went in.\<close>

lemma fifo:
  assumes "wf q" and "0 < room q" and "pending q = j # js"
  shows "fst (pop u (snd (push t j' q))) = Popped j"
proof -
  have "pending (snd (push t j' q)) = j # js @ [j']" and "wf (snd (push t j' q))"
    using push_room [OF assms(1,2)] assms(3) by simp_all
  from pop_pending [OF this(2,1), of u] show ?thesis by auto
qed

text \<open>One turn of a worker whose handler fails: pop a job and process it.\<close>

definition turn :: "Manager \<Rightarrow> time \<Rightarrow> string \<Rightarrow> 'q \<Rightarrow> 'q" where
  "turn m t e q = (case pop t q of (Popped j, q') \<Rightarrow> fst (process retry fail m t (Some e) j q') | (_, q') \<Rightarrow> q')"

lemma turn_retries:
  assumes "wf q" and "pending q = [j]" and "Name j \<in> handlers m" and "0 < MaxTries j" and "Attempts j + 1 < MaxTries j"
  shows "wf (turn m t e q) \<and> (\<exists>j'. pending (turn m t e q) = [j'] \<and> failures (turn m t e q) = failures q \<and> ID j' = ID j \<and>
     Name j' = Name j \<and> Attempts j' = Attempts j + 1 \<and> MaxTries j' = MaxTries j)"
proof -
  obtain q' where q': "wf q'" "pop t q = (Popped j, q')" "pending q' = []" "failures q' = failures q" "room q' = Suc (room q)"
    using pop_pending [OF assms(1,2)] by blast
  with push_room [of q'] assms show ?thesis
    by (simp add: turn_def process_def Let_def retry_push)
qed

lemma turn_fails:
  assumes "wf q" and "pending q = [j]" and "Name j \<in> handlers m" and "0 < MaxTries j" and "MaxTries j \<le> Attempts j + 1"
  shows "\<exists>j'. pending (turn m t e q) = [] \<and> failures (turn m t e q) = failures q @ [j'] \<and> ID j' = ID j \<and>
     Attempts j' = Attempts j + 1"
proof -
  obtain q' where q': "wf q'" "pop t q = (Popped j, q')" "pending q' = []" "failures q' = failures q"
    using pop_pending [OF assms(1,2)] by blast
  with fail_keeps [where q = q'] assms show ?thesis
    by (fastforce simp: turn_def process_def Let_def)
qed

text \<open>A job whose handler always fails is tried exactly \<open>MaxTries\<close> times and then recorded as failed.\<close>

lemma exhausts:
  assumes "wf q" and "pending q = [j]" and "Name j \<in> handlers m" and "MaxTries j = Attempts j + 1 + int n" and "0 \<le> Attempts j"
  shows "\<exists>j'. pending ((turn m t e ^^ Suc n) q) = [] \<and> failures ((turn m t e ^^ Suc n) q) = failures q @ [j'] \<and>
     ID j' = ID j \<and> Attempts j' = MaxTries j"
  using assms
proof (induction n arbitrary: q j)
  case 0
  then show ?case using turn_fails [OF 0(1-3), of t e] by auto
next
  case (Suc n)
  obtain j' where j': "wf (turn m t e q)" "pending (turn m t e q) = [j']" "failures (turn m t e q) = failures q" "ID j' = ID j"
    "Name j' = Name j" "Attempts j' = Attempts j + 1" "MaxTries j' = MaxTries j"
    using turn_retries [OF Suc.prems(1-3), of t e] Suc.prems(4,5) by auto
  have "\<exists>j''. pending ((turn m t e ^^ Suc n) (turn m t e q)) = [] \<and>
      failures ((turn m t e ^^ Suc n) (turn m t e q)) = failures (turn m t e q) @ [j''] \<and>
      ID j'' = ID j' \<and> Attempts j'' = MaxTries j'"
    by (rule Suc.IH [OF j'(1,2)]) (use Suc.prems j' in auto)
  with j' show ?case by (simp add: funpow_swap1)
qed

end

definition mem_pop :: "time \<Rightarrow> memory_queue \<Rightarrow> pop_result \<times> memory_queue" where
  "mem_pop = Pop False False"

interpretation mem_queue: job_queue Push mem_pop Fail Retry "\<lambda>q. map fst (ch q)" failed "\<lambda>q. capacity q - length (ch q)"
  "\<lambda>q. length (ch q) \<le> capacity q"
  by unfold_locales (auto simp: Push_def mem_pop_def Pop_def Fail_def Retry_def)

section \<open>Properties\<close>

definition failing_turn :: "Manager \<Rightarrow> time \<Rightarrow> string \<Rightarrow> memory_queue \<Rightarrow> memory_queue" where
  "failing_turn m t e q =
     (case Pop False False t q of
        (Popped j, q') \<Rightarrow> fst (process Retry Fail m t (Some e) j q')
      | (_, q') \<Rightarrow> q')"

lemma failing_turn_is_turn: "failing_turn m t e = mem_queue.turn m t e"
  unfolding fun_eq_iff failing_turn_def mem_queue.turn_def unfolding mem_pop_def by simp



text \<open>
  The default backoff doubles from one second and is capped at thirty, for every number
  of attempts up to 34; in that range it is positive and never decreases.
\<close>

lemma backoff_exponential:
  assumes "1 \<le> a" and "a \<le> 34"
  shows "backoff a = min 30000000000 (1000000000 * 2 ^ nat (a - 1))"
proof -
  have "list_all (\<lambda>a. backoff a = min 30000000000 (1000000000 * 2 ^ nat (a - 1))) [1..34]" by code_simp
  then show ?thesis using assms by (simp add: list_all_iff)
qed

lemma backoff_exponential_example: "backoff 4 = 8000000000"
  using backoff_exponential [of 4] by simp

text \<open>From 35 attempts on the product no longer fits into 64 bits and the delay is negative, or zero.\<close>

lemma backoff_overflows: "backoff 35 < 0 \<and> backoff 56 = 0"
  by code_simp

section \<open>Jobs that are lost\<close>

text \<open>
  A worker that is cancelled while it waits for a delayed job has already taken it from the channel.
  A job whose name has no handler is dropped after a warning, and so is a job whose
  retry meets a full queue: neither is recorded as failed.
\<close>

lemma cancelled_pop_loses_job:
  "now < due \<Longrightarrow> ch q = (j, due) # rest \<Longrightarrow> Pop False True now q = (Cancelled, q\<lparr>ch := rest\<rparr>)"
  by (simp add: Pop_def)

lemma unhandled_job_dropped: "Name j \<notin> handlers m \<Longrightarrow> process Retry Fail m t res j q = (q, None)"
  by (simp add: process_def)

lemma retry_on_full_queue_loses_job:
  assumes "Name j \<in> handlers m" "0 < MaxTries j" "Attempts j + 1 < MaxTries j" "capacity q \<le> length (ch q)"
  shows "process Retry Fail m t (Some e) j q = (q, None)"
  using assms by (simp add: process_def Retry_def Push_def)

text \<open>
  \<^verbatim>\<open>promoteDelayed\<close> does not look at the result of \<^verbatim>\<open>ZREM\<close>. With a client whose transaction appends to the
  ready list whatever it removed, two workers that have read the same due job both append it.
\<close>

lemma promoted_twice:
  assumes "\<And>s. fst (move ops (delayedKey key) key x s) = None"
    and "\<And>s. ready (snd (move ops (delayedKey key) key x s)) = ready s @ [x]"
  shows "ready (snd (promote_items ops key [x] (snd (promote_items ops key [x] s)))) = ready s @ [x, x]"
proof -
  have "snd (promote_items ops key [x] s) = snd (move ops (delayedKey key) key x s)" for s
    using assms(1) [of s] by (auto split: prod.splits option.splits)
  then show ?thesis using assms(2) by simp
qed

end
