(* ===== verification/Schedule.thy ===== *)
theory Schedule
  imports Lock
begin

text \<open>
  Package schedule: the cron expressions, the daily times and the table of tasks. The loops over
  a range of a cron field step a 64-bit integer, so they are \<open>partial_function\<close>s: \<^const>\<open>None\<close> means that the
  loop does not end. The timers of the run loops and the calendar (\<^verbatim>\<open>time.Date\<close>, \<^verbatim>\<open>time.Parse\<close>) are
  arguments.
\<close>

section \<open>Cron fields\<close>

record cronField =
  all :: bool
  items :: "int set"

record cronExpr =
  cr_min :: cronField
  cr_hour :: cronField
  cr_day :: cronField
  cr_month :: cronField
  cr_week :: cronField

text \<open>\<^verbatim>\<open>for v := v; v <= b; v += step\<close>, keeping the values from \<open>mn\<close> to \<open>mx\<close>.\<close>

partial_function (option) range_loop :: "int \<Rightarrow> int \<Rightarrow> int \<Rightarrow> int \<Rightarrow> int \<Rightarrow> int set \<Rightarrow> int set option" where
  "range_loop v b step mn mx acc =
     (if v \<le> b then
        range_loop (wrap64 (v + step)) b step mn mx (if mn \<le> v \<and> v \<le> mx then insert v acc else acc)
      else Some acc)"

text \<open>The loop of a stepped star has no range test.\<close>

partial_function (option) star_loop :: "int \<Rightarrow> int \<Rightarrow> int \<Rightarrow> int set \<Rightarrow> int set option" where
  "star_loop v mx step acc =
     (if v \<le> mx then star_loop (wrap64 (v + step)) mx step (insert v acc) else Some acc)"

text \<open>One comma-separated part: an error, or the items added to \<open>acc\<close>.\<close>

definition parse_range :: "string \<Rightarrow> string \<Rightarrow> int \<Rightarrow> int \<Rightarrow> int \<Rightarrow> int set \<Rightarrow> (string + int set) option" where
  "parse_range part rangePart step mn mx acc =
     (if contains rangePart ''-'' then
        (case split2 (CHR ''-'') rangePart of
           [lo, hi] \<Rightarrow>
             (case (atoi lo, atoi hi) of
                (Inr a, Inr b) \<Rightarrow> map_option Inr (range_loop a b step mn mx acc)
              | _ \<Rightarrow> Some (Inl (''gai/schedule: bad range '' @ part)))
         | _ \<Rightarrow> Some (Inl (''gai/schedule: bad range '' @ part)))
      else (case atoi rangePart of
              Inl _ \<Rightarrow> Some (Inl (''gai/schedule: bad value '' @ part))
            | Inr n \<Rightarrow> Some (Inr (if mn \<le> n \<and> n \<le> mx then insert n acc else acc))))"

definition parse_part :: "string \<Rightarrow> int \<Rightarrow> int \<Rightarrow> int set \<Rightarrow> (string + int set) option" where
  "parse_part raw mn mx acc =
     (let part = trim_space raw in
      case index_byte part (CHR ''/'') of
        None \<Rightarrow> parse_range part part 1 mn mx acc
      | Some i \<Rightarrow>
          (let rangePart = take i part in
           case atoi (drop (Suc i) part) of
             Inl _ \<Rightarrow> Some (Inl (''gai/schedule: bad step '' @ part))
           | Inr n \<Rightarrow>
               if n \<le> 0 then Some (Inl (''gai/schedule: bad step '' @ part))
               else if rangePart = ''*'' then map_option Inr (star_loop mn mx n acc)
               else parse_range part rangePart n mn mx acc))"

fun parse_parts :: "string list \<Rightarrow> int \<Rightarrow> int \<Rightarrow> int set \<Rightarrow> (string + int set) option" where
  "parse_parts [] mn mx acc = Some (Inr acc)"
| "parse_parts (p # ps) mn mx acc =
     (case parse_part p mn mx acc of
        Some (Inr acc') \<Rightarrow> parse_parts ps mn mx acc'
      | r \<Rightarrow> r)"

definition parseField :: "string \<Rightarrow> int \<Rightarrow> int \<Rightarrow> (string + cronField) option" where
  "parseField s mn mx =
     (if s = ''*'' then Some (Inr \<lparr>all = True, items = {}\<rparr>)
      else case parse_parts (split_by (CHR '','') s) mn mx {} of
             None \<Rightarrow> None
           | Some (Inl e) \<Rightarrow> Some (Inl e)
           | Some (Inr xs) \<Rightarrow> Some (Inr \<lparr>all = False, items = xs\<rparr>))"

definition bind_field where
  "bind_field (r :: (string + 'a) option) f =
     (case r of None \<Rightarrow> None | Some (Inl e) \<Rightarrow> Some (Inl e) | Some (Inr x) \<Rightarrow> f x)"

definition parseCron :: "string \<Rightarrow> (string + cronExpr) option" where
  "parseCron expr =
     (case GoPrelude.fields expr of
        [a, b, c, d, e] \<Rightarrow>
          bind_field (parseField a 0 59) (\<lambda>mi.
          bind_field (parseField b 0 23) (\<lambda>ho.
          bind_field (parseField c 1 31) (\<lambda>da.
          bind_field (parseField d 1 12) (\<lambda>mo.
          bind_field (parseField e 0 6) (\<lambda>we.
            Some (Inr \<lparr>cr_min = mi, cr_hour = ho, cr_day = da, cr_month = mo, cr_week = we\<rparr>))))))
      | _ \<Rightarrow> Some (Inl ''gai/schedule: cron must have 5 fields''))"

definition field_match :: "cronField \<Rightarrow> int \<Rightarrow> bool" where
  "field_match f v \<longleftrightarrow> all f \<or> v \<in> items f"

text \<open>The calendar fields of a time, as \<^verbatim>\<open>time.Time\<close> gives them.\<close>

record calendar =
  Minute :: int
  Hour :: int
  Day :: int
  Month :: int
  Weekday :: int

definition cron_matches :: "cronExpr \<Rightarrow> calendar \<Rightarrow> bool" where
  "cron_matches c t \<longleftrightarrow>
     field_match (cr_min c) (Minute t) \<and> field_match (cr_hour c) (Hour t) \<and>
     field_match (cr_day c) (Day t) \<and> field_match (cr_month c) (Month t) \<and>
     field_match (cr_week c) (Weekday t)"

section \<open>Daily times\<close>

text \<open>\<open>parse_hm\<close> is \<^verbatim>\<open>time.Parse("15:04", _)\<close>, \<open>date_at\<close> is \<^verbatim>\<open>time.Date\<close> on the day of \<open>now\<close>.\<close>

definition timeUntil :: "(string \<Rightarrow> (int \<times> int) option) \<Rightarrow> (int \<Rightarrow> int \<Rightarrow> time) \<Rightarrow> time \<Rightarrow> string \<Rightarrow> int" where
  "timeUntil parse_hm date_at now hhmm =
     (case parse_hm hhmm of
        None \<Rightarrow> 3600000000000
      | Some (h, m) \<Rightarrow>
          (let nxt = date_at h m;
               nxt = (if nxt > now then nxt else nxt + 86400000000000)
           in nxt - now))"

section \<open>Tasks\<close>

text \<open>A task's function is its number \<open>fn\<close>.\<close>

record task =
  t_name :: string
  interval :: int
  dailyAt :: string
  cron :: "cronExpr option"
  t_fn :: nat
  noOverlap :: bool
  running :: bool

record Scheduler =
  tasks :: "task list"
  has_lock :: bool

definition new_task :: "string \<Rightarrow> nat \<Rightarrow> task" where
  "new_task name f = \<lparr>t_name = name, interval = 0, dailyAt = [], cron = None, t_fn = f, noOverlap = False, running = False\<rparr>"

definition schedule_New :: Scheduler where
  "schedule_New = \<lparr>tasks = [], has_lock = False\<rparr>"

definition UseLock :: "Scheduler \<Rightarrow> Scheduler" where
  "UseLock s = s\<lparr>has_lock := True\<rparr>"

definition Every :: "int \<Rightarrow> nat \<Rightarrow> Scheduler \<Rightarrow> Scheduler" where
  "Every d f s = s\<lparr>tasks := tasks s @ [(new_task (''every-'' @ itoa (int (length (tasks s)))) f)\<lparr>interval := d\<rparr>]\<rparr>"

definition Hourly :: "nat \<Rightarrow> Scheduler \<Rightarrow> Scheduler" where
  "Hourly f s = Every 3600000000000 f s"

definition DailyAt :: "string \<Rightarrow> nat \<Rightarrow> Scheduler \<Rightarrow> Scheduler" where
  "DailyAt hhmm f s = s\<lparr>tasks := tasks s @ [(new_task (''daily-'' @ hhmm) f)\<lparr>dailyAt := hhmm\<rparr>]\<rparr>"

text \<open>An invalid expression is logged and the task is not registered.\<close>

definition Cron :: "string \<Rightarrow> nat \<Rightarrow> Scheduler \<Rightarrow> Scheduler option" where
  "Cron expr f s =
     (case parseCron expr of
        None \<Rightarrow> None
      | Some (Inl _) \<Rightarrow> Some s
      | Some (Inr c) \<Rightarrow> Some (s\<lparr>tasks := tasks s @ [(new_task (''cron-'' @ expr) f)\<lparr>cron := Some c\<rparr>]\<rparr>))"

definition map_last :: "('a \<Rightarrow> 'a) \<Rightarrow> 'a list \<Rightarrow> 'a list" where
  "map_last f xs = (if xs = [] then [] else butlast xs @ [f (last xs)])"

definition schedule_Name :: "string \<Rightarrow> Scheduler \<Rightarrow> Scheduler" where
  "schedule_Name name s = s\<lparr>tasks := map_last (\<lambda>t. t\<lparr>t_name := name\<rparr>) (tasks s)\<rparr>"

definition WithoutOverlapping :: "Scheduler \<Rightarrow> Scheduler" where
  "WithoutOverlapping s = s\<lparr>tasks := map_last (\<lambda>t. t\<lparr>noOverlap := True\<rparr>) (tasks s)\<rparr>"

text \<open>\<^verbatim>\<open>runTask\<close> chooses the loop; \<^verbatim>\<open>runEvery\<close> replaces an interval that is not positive.\<close>

datatype loop_kind = RunCron cronExpr | RunDaily string | RunEvery int

definition runTask :: "task \<Rightarrow> loop_kind" where
  "runTask t =
     (case cron t of
        Some c \<Rightarrow> RunCron c
      | None \<Rightarrow> if dailyAt t \<noteq> [] then RunDaily (dailyAt t)
               else RunEvery (if interval t \<le> 0 then 60000000000 else interval t))"

text \<open>
  \<^verbatim>\<open>invoke\<close> up to the call of the function, and what is deferred: the first result says whether
  the function is called, \<open>invoke_end\<close> is what happens when it returns.
\<close>

definition invoke_begin ::
  "(time \<Rightarrow> string \<Rightarrow> int \<Rightarrow> 'l \<Rightarrow> cerr option \<times> 'l) \<Rightarrow> bool \<Rightarrow> time \<Rightarrow> task \<Rightarrow> 'l \<Rightarrow> bool \<times> task \<times> 'l" where
  "invoke_begin acquire use_lock now t l =
     (if noOverlap t \<and> running t then (False, t, l)
      else let t' = (if noOverlap t then t\<lparr>running := True\<rparr> else t) in
        if use_lock \<and> t_name t \<noteq> [] then
          (case acquire now (''schedule:'' @ t_name t) 60000000000 l of
             (Some _, l') \<Rightarrow> (False, if noOverlap t then t'\<lparr>running := False\<rparr> else t', l')
           | (None, l') \<Rightarrow> (True, t', l'))
        else (True, t', l))"

definition invoke_end :: "(string \<Rightarrow> 'l \<Rightarrow> 'l) \<Rightarrow> bool \<Rightarrow> task \<Rightarrow> 'l \<Rightarrow> task \<times> 'l" where
  "invoke_end rel use_lock t l =
     (if noOverlap t then t\<lparr>running := False\<rparr> else t,
      if use_lock \<and> t_name t \<noteq> [] then rel (''schedule:'' @ t_name t) l else l)"

section \<open>What the loops compute\<close>

definition stepped :: "int \<Rightarrow> int \<Rightarrow> int \<Rightarrow> int set" where
  "stepped a b step = {v. a \<le> v \<and> v \<le> b \<and> (v - a) mod step = 0}"

lemma stepped_unfold:
  assumes "0 < step"
  shows "stepped a b step = (if a \<le> b then insert a (stepped (a + step) b step) else {})"
proof -
  have "a + step \<le> v" if "a \<le> v" "(v - a) mod step = 0" "v \<noteq> a" for v
  proof -
    obtain k where k: "v - a = step * k" using \<open>(v - a) mod step = 0\<close> by auto
    with that assms have "0 < k" by (smt (verit) mult_nonneg_nonpos)
    then have "step * 1 \<le> step * k" using assms by (intro mult_left_mono) auto
    with k show ?thesis by simp
  qed
  moreover have "(v - (a + step)) mod step = (v - a) mod step" for v
    by (metis diff_diff_eq minus_mod_self2)
  ultimately show ?thesis using assms by (auto simp: stepped_def)
qed

lemma range_loop_stepped:
  assumes "0 < step" and "min_int \<le> v" and "b + step \<le> max_int"
  shows "range_loop v b step mn mx acc = Some (acc \<union> (stepped v b step \<inter> {mn..mx}))"
  using assms
proof (induction "nat (b + 1 - v)" arbitrary: v acc rule: less_induct)
  case less
  show ?case
  proof (cases "v \<le> b")
    case True
    then have "wrap64 (v + step) = v + step" using less.prems by simp
    with True less.hyps [of "v + step" "if mn \<le> v \<and> v \<le> mx then insert v acc else acc"] less.prems
    show ?thesis by (subst range_loop.simps, subst stepped_unfold) auto
  next
    case False
    then show ?thesis using less.prems by (subst range_loop.simps, subst stepped_unfold) auto
  qed
qed

lemma star_loop_stepped:
  assumes "0 < step" and "min_int \<le> v" and "mx + step \<le> max_int"
  shows "star_loop v mx step acc = Some (acc \<union> stepped v mx step)"
  using assms
proof (induction "nat (mx + 1 - v)" arbitrary: v acc rule: less_induct)
  case less
  show ?case
  proof (cases "v \<le> mx")
    case True
    then have "wrap64 (v + step) = v + step" using less.prems by simp
    with True less.hyps [of "v + step" "insert v acc"] less.prems
    show ?thesis by (subst star_loop.simps, subst stepped_unfold) auto
  next
    case False
    then show ?thesis using less.prems by (subst star_loop.simps, subst stepped_unfold) auto
  qed
qed

section \<open>The syntax of a field and its meaning\<close>

datatype cron_item = Single int | Range int int int | EveryN int

fun print_item :: "cron_item \<Rightarrow> string" where
  "print_item (Single n) = itoa n"
| "print_item (Range a b s) = itoa a @ ''-'' @ itoa b @ (if s = 1 then [] else ''/'' @ itoa s)"
| "print_item (EveryN s) = ''*/'' @ itoa s"

definition print_field :: "cron_item list \<Rightarrow> string" where
  "print_field its = join (map print_item its) '',''"

fun denote :: "int \<Rightarrow> int \<Rightarrow> cron_item \<Rightarrow> int set" where
  "denote mn mx (Single n) = {n} \<inter> {mn..mx}"
| "denote mn mx (Range a b s) = stepped a b s \<inter> {mn..mx}"
| "denote mn mx (EveryN s) = stepped mn mx s"

text \<open>Numbers without a sign, and steps that do not carry a loop beyond 64 bits.\<close>

fun ok_item :: "int \<Rightarrow> cron_item \<Rightarrow> bool" where
  "ok_item mx (Single n) \<longleftrightarrow> 0 \<le> n \<and> n \<le> max_int"
| "ok_item mx (Range a b s) \<longleftrightarrow> 0 \<le> a \<and> a \<le> max_int \<and> 0 \<le> b \<and> 0 < s \<and> b + s \<le> max_int"
| "ok_item mx (EveryN s) \<longleftrightarrow> 0 < s \<and> s \<le> max_int \<and> mx + s \<le> max_int"

lemma itoa_digits: "0 \<le> n \<Longrightarrow> c \<in> set (itoa n) \<Longrightarrow> is_digit c"
  by (simp add: itoa_def nat_str_digits)

lemma itoa_no [simp]:
  "0 \<le> n \<Longrightarrow> CHR ''/'' \<notin> set (itoa n)" "0 \<le> n \<Longrightarrow> CHR ''-'' \<notin> set (itoa n)"
  "0 \<le> n \<Longrightarrow> CHR '','' \<notin> set (itoa n)"
  by (auto dest: itoa_digits simp: is_digit_def)

lemma contains_one: "contains s [b] \<longleftrightarrow> b \<in> set s"
  by (induction s) auto

lemma print_item_chars:
  assumes "ok_item mx it" and "c \<in> set (print_item it)"
  shows "is_digit c \<or> c = CHR ''-'' \<or> c = CHR ''/'' \<or> c = CHR ''*''"
  using assms by (cases it) (auto dest: itoa_digits itoa_digits [OF less_imp_le] split: if_splits)

lemma print_item_trim: "ok_item mx it \<Longrightarrow> trim_space (print_item it) = print_item it"
  by (rule trim_space_id) (auto dest!: print_item_chars simp: is_digit_def is_space_def)

lemma print_item_no_comma: "ok_item mx it \<Longrightarrow> CHR '','' \<notin> set (print_item it)"
  by (auto dest!: print_item_chars simp: is_digit_def)

lemma atoi_itoa_nat: "0 \<le> n \<Longrightarrow> n \<le> max_int \<Longrightarrow> atoi (itoa n) = Inr n"
  by (simp add: atoi_itoa)

lemma parse_range_Range:
  assumes "0 \<le> a" "a \<le> max_int" "0 \<le> b" "0 < s" "b + s \<le> max_int"
  shows "parse_range part (itoa a @ CHR ''-'' # itoa b) s mn mx acc =
    Some (Inr (acc \<union> (stepped a b s \<inter> {mn..mx})))"
  using assms range_loop_stepped [of s a b mn mx acc]
  by (simp add: parse_range_def contains_one atoi_itoa_nat)

lemma parse_part_print:
  assumes "ok_item mx it" and "min_int \<le> mn"
  shows "parse_part (print_item it) mn mx acc = Some (Inr (acc \<union> denote mn mx it))"
proof (cases it)
  case (Single n)
  with assms(1) have none: "index_byte (print_item it) (CHR ''/'') = None" by simp
  show ?thesis
    unfolding parse_part_def print_item_trim [OF assms(1)] Let_def none option.case
    using assms Single by (auto simp: parse_range_def contains_one atoi_itoa_nat)
next
  case (Range a b s)
  note ok = assms(1) [unfolded Range, simplified]
  show ?thesis
  proof (cases "s = 1")
    case True
    with ok Range have none: "index_byte (print_item it) (CHR ''/'') = None" by simp
    show ?thesis
      unfolding parse_part_def print_item_trim [OF assms(1)] Let_def none option.case
      using ok Range True parse_range_Range [of a b s] by simp
  next
    case False
    then have pr: "print_item it = (itoa a @ CHR ''-'' # itoa b) @ CHR ''/'' # itoa s" using Range by simp
    have no: "CHR ''/'' \<notin> set (itoa a @ CHR ''-'' # itoa b)" using ok by simp
    have i: "index_byte (print_item it) (CHR ''/'') = Some (length (itoa a @ CHR ''-'' # itoa b))"
      unfolding pr by (rule index_byte_append [OF no])
    have ne: "itoa a @ CHR ''-'' # itoa b \<noteq> ''*''" by (cases "itoa a") auto
    have tk: "take (length (itoa a @ CHR ''-'' # itoa b)) (print_item it) = itoa a @ CHR ''-'' # itoa b"
      "drop (Suc (length (itoa a @ CHR ''-'' # itoa b))) (print_item it) = itoa s"
      unfolding pr by simp_all
    show ?thesis
      unfolding parse_part_def print_item_trim [OF assms(1)] Let_def i option.case tk
      using ok ne parse_range_Range [of a b s] Range by (simp add: atoi_itoa_nat)
  qed
next
  case (EveryN s)
  then show ?thesis
    using assms print_item_trim [OF assms(1)] star_loop_stepped [of s mn mx acc]
    by (simp add: parse_part_def Let_def atoi_itoa_nat)
qed

lemma parse_parts_print:
  assumes "\<forall>it\<in>set its. ok_item mx it" and "min_int \<le> mn"
  shows "parse_parts (map print_item its) mn mx acc = Some (Inr (acc \<union> \<Union> (denote mn mx ` set its)))"
  using assms by (induction its arbitrary: acc) (auto simp: parse_part_print)

lemma print_item_not_star:
  assumes "ok_item mx it"
  shows "print_item it \<noteq> ''*''"
proof (cases it)
  case (Single n)
  have "\<not> is_digit (CHR ''*'')" by (simp add: is_digit_def)
  then show ?thesis using assms Single itoa_digits [of n "CHR ''*''"] by auto
next
  case (Range a b s)
  then show ?thesis by (cases "itoa a") auto
next
  case (EveryN s)
  then show ?thesis by simp
qed



text \<open>
  The wait for a daily task is more than zero and at most a day, and ends at the wanted
  hour and minute. The hypotheses say that the day has 24 hours and that \<^verbatim>\<open>time.Date\<close> gives
  the moment so many hours and minutes after the midnight of \<open>now\<close>.
\<close>

lemma timeUntil_next:
  assumes "parse_hm hhmm = Some (h, m)" and "0 \<le> h" "h < 24" "0 \<le> m" "m < 60"
    and "\<And>h m. date_at h m = midnight + (h * 60 + m) * 60000000000"
    and "midnight \<le> now" "now < midnight + 86400000000000"
  shows "0 < timeUntil parse_hm date_at now hhmm \<and> timeUntil parse_hm date_at now hhmm \<le> 86400000000000
    \<and> (now + timeUntil parse_hm date_at now hhmm - midnight) mod 86400000000000 = (h * 60 + m) * 60000000000"
proof -
  define k where "k = (h * 60 + m) * 60000000000"
  have k: "0 \<le> k" "k < 86400000000000" using assms(2-5) by (auto simp: k_def)
  then have "(k + 86400000000000) mod 86400000000000 = k" by simp
  moreover have "date_at h m = midnight + k" using assms(6) by (simp only: k_def)
  ultimately show ?thesis
    using k assms(1,7,8) unfolding k_def [symmetric] by (auto simp: timeUntil_def Let_def)
qed

lemma timeUntil_next_example:
  "0 < timeUntil (\<lambda>_. Some (9, 30)) (\<lambda>h m. 0 + (h * 60 + m) * 60000000000) 50000000000000 ''09:30''"
  using timeUntil_next [of "\<lambda>_. Some (9, 30)" "''09:30''" 9 30 "\<lambda>h m. 0 + (h * 60 + m) * 60000000000" 0 50000000000000]
  by simp

section \<open>At the limits\<close>

text \<open>
  A range whose upper bound is the largest 64-bit integer is never finished: the loop variable wraps
  around, and stays below the bound. A step after a single value is ignored, and a weekday 7 is dropped.
\<close>

lemma range_to_max_None:
  "range_loop v b step mn mx acc = Some y \<Longrightarrow> \<not> (b = max_int \<and> v \<le> max_int)"
proof (rule range_loop.raw_induct [where P = "\<lambda>v b step mn mx acc y. \<not> (b = max_int \<and> v \<le> max_int)"])
  fix rec v b step mn mx acc y
  assume "\<And>v b step mn mx acc y. rec v b step mn mx acc = Some y \<Longrightarrow> \<not> (b = max_int \<and> v \<le> max_int)"
    and "(if v \<le> b then rec (wrap64 (v + step)) b step mn mx (if mn \<le> v \<and> v \<le> mx then insert v acc else acc)
          else Some acc) = Some y"
  then show "\<not> (b = max_int \<and> v \<le> max_int)"
    using wrap64_range [of "v + step"] by (metis option.distinct(1))
qed

lemma range_to_max_diverges: "v \<le> max_int \<Longrightarrow> range_loop v max_int step mn mx acc = None"
  using range_to_max_None [of v max_int step mn mx acc] by (cases "range_loop v max_int step mn mx acc") auto

lemma single_step_ignored: "parseField ''5/15'' 0 59 = Some (Inr \<lparr>all = False, items = {5}\<rparr>)"
  by code_simp

lemma weekday_7_dropped: "parseField ''7'' 0 6 = Some (Inr \<lparr>all = False, items = {}\<rparr>)"
  by code_simp

end
