(* ===== verification/Config.thy ===== *)
theory Config
  imports GoPrelude "HOL-Library.AList"
begin

text \<open>
  Package config: the manager of nested values with its dotted keys, the expansion of environment
  variables and the loader of \<^verbatim>\<open>.env\<close> files. Values are \<^typ>\<open>goval\<close>s; a map is an association list. The
  directory listing, the YAML reader and \<^verbatim>\<open>fmt.Sprintf\<close> are arguments. A panic is \<^const>\<open>None\<close>.
\<close>

type_synonym tree = "(string \<times> goval) list"

section \<open>Environment variables in strings\<close>

text \<open>\<^verbatim>\<open>os.Expand\<close>, with its scanner of names: the name and the number of bytes it takes.\<close>

definition is_special_var :: "char \<Rightarrow> bool" where
  "is_special_var c \<longleftrightarrow> c \<in> set ''*#$@!?-'' \<or> is_digit c"

definition is_alnum :: "char \<Rightarrow> bool" where
  "is_alnum c \<longleftrightarrow> c = CHR ''_'' \<or> is_digit c \<or> is_lower c \<or> is_upper c"

definition shell_name :: "string \<Rightarrow> string \<times> nat" where
  "shell_name s =
     (if hd s = CHR ''{'' then
        (if length s > 2 \<and> is_special_var (s ! 1) \<and> s ! 2 = CHR ''}'' then ([s ! 1], 3)
         else case index_byte (tl s) (CHR ''}'') of
                None \<Rightarrow> ([], 1)
              | Some i \<Rightarrow> if i = 0 then ([], 2) else (take i (tl s), i + 2))
      else if is_special_var (hd s) then ([hd s], 1)
      else (takeWhile is_alnum s, length (takeWhile is_alnum s)))"

function expand :: "(string \<Rightarrow> string) \<Rightarrow> string \<Rightarrow> string" where
  "expand f [] = []"
| "expand f (c # s) =
     (if c = CHR ''$'' \<and> s \<noteq> [] then
        (case shell_name s of (name, w) \<Rightarrow>
           (if name = [] \<and> w > 0 then [] else if name = [] then [c] else f name) @ expand f (drop w s))
      else c # expand f s)"
  by pat_completeness auto
termination
  by (relation "measure (\<lambda>(f, s). length s)") auto

definition env_lookup :: "(string \<rightharpoonup> string) \<Rightarrow> string \<Rightarrow> string" where
  "env_lookup env key =
     (case index_byte key (CHR '':'') of
        Some i \<Rightarrow> (case env (take i key) of Some v \<Rightarrow> v | None \<Rightarrow> drop (Suc i) key)
      | None \<Rightarrow> (case env key of Some v \<Rightarrow> v | None \<Rightarrow> []))"

definition expandEnv :: "(string \<rightharpoonup> string) \<Rightarrow> string \<Rightarrow> string" where
  "expandEnv env s = expand (env_lookup env) s"

section \<open>Reading and writing\<close>

fun get_path :: "goval \<Rightarrow> string list \<Rightarrow> goval option" where
  "get_path v [] = Some v"
| "get_path v (p # ps) =
     (case v of
        GMap m \<Rightarrow> (case map_of m p of None \<Rightarrow> None | Some w \<Rightarrow> get_path w ps)
      | _ \<Rightarrow> None)"

definition first_or_nil :: "goval list \<Rightarrow> goval" where
  "first_or_nil fallback = (case fallback of [] \<Rightarrow> GNil | f # _ \<Rightarrow> f)"

definition config_Get :: "(string \<rightharpoonup> string) \<Rightarrow> tree \<Rightarrow> string \<Rightarrow> goval list \<Rightarrow> goval" where
  "config_Get env d key fallback =
     (case get_path (GMap d) (split_by (CHR ''.'') key) of
        None \<Rightarrow> first_or_nil fallback
      | Some (GStr s) \<Rightarrow> GStr (expandEnv env s)
      | Some v \<Rightarrow> v)"

text \<open>
  \<^verbatim>\<open>Set\<close> walks down, making maps where there is none or something else; a nil map on the way is taken
  as it is and writing into it panics.
\<close>

definition submap :: "tree \<Rightarrow> string \<Rightarrow> tree option" where
  "submap d p =
     (case map_of d p of
        Some GNilMap \<Rightarrow> None
      | Some (GMap m) \<Rightarrow> Some m
      | _ \<Rightarrow> Some [])"

fun set_path :: "string list \<Rightarrow> goval \<Rightarrow> tree \<Rightarrow> tree option" where
  "set_path [] v d = Some d"
| "set_path [p] v d = Some (AList.update p v d)"
| "set_path (p # q # ps) v d =
     (case submap d p of
        None \<Rightarrow> None
      | Some m \<Rightarrow> map_option (\<lambda>m'. AList.update p (GMap m') d) (set_path (q # ps) v m))"

definition config_Set :: "string \<Rightarrow> goval \<Rightarrow> tree \<Rightarrow> tree option" where
  "config_Set key v d = set_path (split_by (CHR ''.'') key) v d"

definition GetString :: "(goval \<Rightarrow> string) \<Rightarrow> (string \<rightharpoonup> string) \<Rightarrow> tree \<Rightarrow> string \<Rightarrow> string list \<Rightarrow> string" where
  "GetString sprintv env d key fallback =
     (case config_Get env d key (map GStr fallback) of
        GNil \<Rightarrow> (case fallback of [] \<Rightarrow> [] | f # _ \<Rightarrow> f)
      | GStr s \<Rightarrow> s
      | v \<Rightarrow> sprintv v)"

definition trunc :: "rat \<Rightarrow> int" where
  "trunc r = (if r < 0 then - \<lfloor>- r\<rfloor> else \<lfloor>r\<rfloor>)"

definition GetInt :: "(string \<rightharpoonup> string) \<Rightarrow> tree \<Rightarrow> string \<Rightarrow> int list \<Rightarrow> int" where
  "GetInt env d key fallback =
     (let dflt = (case fallback of [] \<Rightarrow> 0 | f # _ \<Rightarrow> f) in
      case config_Get env d key [] of
        GInt n \<Rightarrow> n
      | GFloat r \<Rightarrow> trunc r
      | GInt64 n \<Rightarrow> n
      | GStr s \<Rightarrow> (case atoi s of Inr n \<Rightarrow> n | Inl _ \<Rightarrow> dflt)
      | _ \<Rightarrow> dflt)"

definition GetBool :: "(string \<rightharpoonup> string) \<Rightarrow> tree \<Rightarrow> string \<Rightarrow> bool list \<Rightarrow> bool" where
  "GetBool env d key fallback =
     (let dflt = (case fallback of [] \<Rightarrow> False | f # _ \<Rightarrow> f) in
      case config_Get env d key [] of GBool b \<Rightarrow> b | _ \<Rightarrow> dflt)"

text \<open>A directory entry: its name, whether it is a directory, and what reading it as YAML gives.\<close>

fun config_Load :: "(string \<times> bool \<times> (string + goval)) list \<Rightarrow> tree \<Rightarrow> string option \<times> tree" where
  "config_Load [] d = (None, d)"
| "config_Load ((name, is_dir, r) # es) d =
     (if is_dir \<or> (\<not> has_suffix name ''.yaml'' \<and> \<not> has_suffix name ''.yml'') then config_Load es d
      else case r of
             Inl e \<Rightarrow> (Some (''gai/config: failed to load '' @ name @ '': '' @ e), d)
           | Inr v \<Rightarrow> config_Load es (AList.update (trim_suffix (trim_suffix name ''.yaml'') ''.yml'') v d))"

definition config_All :: "tree \<Rightarrow> tree" where
  "config_All d = d"

section \<open>Environment files\<close>

text \<open>\<^verbatim>\<open>strings.Trim\<close> with the two quote characters as its cut set.\<close>

definition trim_quotes :: "string \<Rightarrow> string" where
  "trim_quotes s =
     (let q = (\<lambda>c. c = CHR 34 \<or> c = CHR 39) in rev (dropWhile q (rev (dropWhile q s))))"

definition env_entry :: "string \<Rightarrow> (string \<times> string) option" where
  "env_entry raw =
     (let line = trim_space raw in
      if line = [] \<or> has_prefix line ''#'' then None
      else case index_byte line (CHR ''='') of
             None \<Rightarrow> None
           | Some i \<Rightarrow> Some (trim_space (take i line), trim_quotes (trim_space (drop (Suc i) line))))"

definition env_line :: "string \<Rightarrow> (string \<rightharpoonup> string) \<Rightarrow> (string \<rightharpoonup> string)" where
  "env_line raw env =
     (case env_entry raw of
        None \<Rightarrow> env
      | Some (key, val) \<Rightarrow> if env key = None then env(key \<mapsto> val) else env)"

text \<open>The lines of the file, as the scanner gives them.\<close>

definition LoadEnvFile :: "string list \<Rightarrow> (string \<rightharpoonup> string) \<Rightarrow> (string \<rightharpoonup> string)" where
  "LoadEnvFile file_lines env = fold env_line file_lines env"

section \<open>Properties\<close>

lemma env_line_extends: "env \<subseteq>\<^sub>m env_line l env"
  by (auto simp: env_line_def map_le_def split: option.splits)

lemma LoadEnvFile_extends: "env \<subseteq>\<^sub>m LoadEnvFile ls env"
  unfolding LoadEnvFile_def
proof (induction ls arbitrary: env)
  case (Cons l ls)
  then show ?case using env_line_extends [of env l] by (metis fold_simps(2) map_le_trans)
qed simp

lemma env_line_covered:
  assumes "env_line l env \<subseteq>\<^sub>m env'"
  shows "env_line l env' = env'"
proof (cases "env_entry l")
  case (Some kv)
  obtain k v where kv: "kv = (k, v)" by (cases kv)
  have "k \<in> dom (env_line l env)" using Some kv by (auto simp: env_line_def)
  then have "env' k \<noteq> None" using assms by (metis domD map_le_def option.distinct(1))
  then show ?thesis using Some kv by (auto simp: env_line_def)
qed (simp add: env_line_def)

lemma LoadEnvFile_covered: "LoadEnvFile ls env \<subseteq>\<^sub>m env' \<Longrightarrow> LoadEnvFile ls env' = env'"
proof (induction ls arbitrary: env)
  case (Cons l ls)
  have "env_line l env \<subseteq>\<^sub>m env'"
    using Cons.prems LoadEnvFile_extends [of "env_line l env" ls] by (auto simp: LoadEnvFile_def intro: map_le_trans)
  with Cons show ?case by (simp add: LoadEnvFile_def env_line_covered)
qed (simp add: LoadEnvFile_def)

text \<open>
  Variables that are already defined win over an environment file, and reading
  the same file again changes nothing.
\<close>

lemma LoadEnvFile_precedence:
  "env \<subseteq>\<^sub>m LoadEnvFile ls env \<and> LoadEnvFile ls (LoadEnvFile ls env) = LoadEnvFile ls env"
  using LoadEnvFile_extends LoadEnvFile_covered [OF map_le_refl] by simp

lemma get_path_Cons_update:
  "get_path (GMap (AList.update p w d)) (r # rs) = (if r = p then get_path w rs else get_path (GMap d) (r # rs))"
  by (simp add: update_conv')

lemma set_path_get:
  "ps \<noteq> [] \<Longrightarrow> set_path ps v d = Some d' \<Longrightarrow> get_path (GMap d') ps = Some v"
proof (induction ps v d arbitrary: d' rule: set_path.induct)
  case (2 p v d)
  then show ?case by (auto simp: get_path_Cons_update simp del: get_path.simps(2))
next
  case (3 p q ps v d)
  then obtain m m' where "submap d p = Some m" "set_path (q # ps) v m = Some m'" "d' = AList.update p (GMap m') d"
    by (auto split: option.splits)
  with "3.IH" [of m m'] show ?case by (simp add: get_path_Cons_update del: get_path.simps(2))
qed simp

text \<open>Two keys are independent if their paths part before either ends.\<close>

fun diverge :: "string list \<Rightarrow> string list \<Rightarrow> bool" where
  "diverge (p # ps) (q # qs) = (p \<noteq> q \<or> diverge ps qs)"
| "diverge _ _ = False"

lemma get_path_submap:
  assumes "submap d p = Some m" and "rs \<noteq> []"
  shows "get_path (GMap m) rs = get_path (GMap d) (p # rs)"
  using assms by (cases rs) (auto simp: submap_def split: option.splits goval.splits)

lemma set_path_other:
  "set_path ps v d = Some d' \<Longrightarrow> diverge ps qs \<Longrightarrow> get_path (GMap d') qs = get_path (GMap d) qs"
proof (induction ps v d arbitrary: d' qs rule: set_path.induct)
  case (2 p v d)
  then show ?case by (cases qs) (auto simp: get_path_Cons_update simp del: get_path.simps(2))
next
  case (3 p q ps v d)
  obtain r rs where qs: "qs = r # rs" using "3.prems"(2) by (cases qs) auto
  obtain m m' where m: "submap d p = Some m" "set_path (q # ps) v m = Some m'" "d' = AList.update p (GMap m') d"
    using "3.prems"(1) by (auto split: option.splits)
  show ?case
  proof (cases "r = p")
    case True
    with "3.prems"(2) qs have div: "diverge (q # ps) rs" by simp
    then have "rs \<noteq> []" by auto
    then show ?thesis
      using "3.IH" [OF m(1,2) div] get_path_submap [OF m(1)] m(3) qs True
      by (simp add: get_path_Cons_update del: get_path.simps(2))
  next
    case False
    then show ?thesis using m(3) qs by (simp add: get_path_Cons_update del: get_path.simps(2))
  qed
qed simp

text \<open>
  A value set under a dotted key is what the key gives afterwards (with the
  environment variables of a string filled in), and every key whose path parts from it is untouched,
  whatever maps the assignment has to create or replace on its way.
\<close>

lemma config_set_get:
  assumes "config_Set key v d = Some d'"
  shows "config_Get env d' key fb = (case v of GStr s \<Rightarrow> GStr (expandEnv env s) | _ \<Rightarrow> v)
    \<and> (\<forall>key'. diverge (split_by (CHR ''.'') key) (split_by (CHR ''.'') key') \<longrightarrow>
              config_Get env d' key' fb = config_Get env d key' fb)"
proof -
  have "get_path (GMap d') (split_by (CHR ''.'') key) = Some v"
    using assms by (intro set_path_get) (auto simp: config_Set_def)
  moreover have "get_path (GMap d') qs = get_path (GMap d) qs" if "diverge (split_by (CHR ''.'') key) qs" for qs
    using assms that by (intro set_path_other) (auto simp: config_Set_def)
  ultimately show ?thesis by (auto simp: config_Get_def split: goval.splits)
qed

lemma config_set_get_example:
  "config_Get Map.empty (the (config_Set ''app.name'' (GInt 3) [(''app'', GStr ''x'')])) ''app.name'' [] = GInt 3"
proof -
  have "config_Set ''app.name'' (GInt 3) [(''app'', GStr ''x'')] = Some [(''app'', GMap [(''name'', GInt 3)])]"
    by (simp add: config_Set_def submap_def)
  from config_set_get [OF this, of Map.empty "[]"] this show ?thesis by simp
qed

section \<open>At the edges\<close>

text \<open>
  An empty YAML file is loaded as a nil map, and setting a key below it panics. The expansion is
  documented for \<^verbatim>\<open>${VAR}\<close> only, but a dollar sign without braces is expanded too: a password
  with dollar signs in it is not read back as it was written.
\<close>

lemma set_below_empty_file: "config_Set ''app.name'' v (snd (config_Load [(''app.yaml'', False, Inr GNilMap)] [])) = None"
  by (simp add: config_Set_def submap_def has_suffix_def trim_suffix_def)

lemma dollar_signs_are_lost: "expandEnv Map.empty ''pa$$word$x'' = ''paword''"
  by code_simp

end
