(* ===== verification/Container.thy ===== *)
theory Container
  imports GoPrelude
begin

text \<open>
  The service container (\<^verbatim>\<open>container.go\<close>) and the event dispatcher (\<^verbatim>\<open>event.go\<close>). A binding is an
  object the table of names points to; it is its position in \<open>objects\<close>. A resolver is opaque code: its
  number, run by the argument \<open>run\<close>, which may use the container itself. Values are \<^typ>\<open>goval\<close>s.
\<close>

section \<open>The container\<close>

record binding =
  resolver :: nat
  singleton :: bool
  once_done :: bool
  b_instance :: goval

record Container =
  objects :: "binding list"
  bindings :: "string \<rightharpoonup> nat"
  instances :: "string \<rightharpoonup> goval"
  aliases :: "nat \<rightharpoonup> string"

definition newContainer :: Container where
  "newContainer = \<lparr>objects = [], bindings = Map.empty, instances = Map.empty, aliases = Map.empty\<rparr>"

definition new_binding :: "bool \<Rightarrow> string \<Rightarrow> nat \<Rightarrow> Container \<Rightarrow> Container" where
  "new_binding single name f c =
     c\<lparr>objects := objects c @ [\<lparr>resolver = f, singleton = single, once_done = False, b_instance = GNil\<rparr>],
       bindings := (bindings c)(name \<mapsto> length (objects c))\<rparr>"

definition Bind :: "string \<Rightarrow> nat \<Rightarrow> Container \<Rightarrow> Container" where
  "Bind name f c = new_binding False name f c"

definition Singleton :: "string \<Rightarrow> nat \<Rightarrow> Container \<Rightarrow> Container" where
  "Singleton name f c = new_binding True name f c"

definition Instance :: "string \<Rightarrow> goval \<Rightarrow> Container \<Rightarrow> Container" where
  "Instance name v c = c\<lparr>instances := (instances c)(name \<mapsto> v)\<rparr>"

definition Alias :: "nat \<Rightarrow> string \<Rightarrow> Container \<Rightarrow> Container" where
  "Alias typ name c = c\<lparr>aliases := (aliases c)(typ \<mapsto> name)\<rparr>"

text \<open>\<open>once.Do\<close>: the resolver runs if the once-flag is not set; then flag and instance are stored.\<close>

definition Resolve ::
  "(nat \<Rightarrow> Container \<Rightarrow> goval \<times> Container) \<Rightarrow> string \<Rightarrow> Container \<Rightarrow> (string + goval) \<times> Container" where
  "Resolve run name c =
     (case instances c name of
        Some inst \<Rightarrow> (Inr inst, c)
      | None \<Rightarrow>
          (case bindings c name of
             None \<Rightarrow> (Inl (''gai: no binding found for ['' @ name @ '']''), c)
           | Some i \<Rightarrow>
               (let b = objects c ! i in
                if singleton b then
                  (let c1 = (if once_done b then c
                             else let (v, c') = run (resolver b) c in
                                  c'\<lparr>objects := (objects c')[i := b\<lparr>once_done := True, b_instance := v\<rparr>]\<rparr>);
                       v = b_instance (objects c1 ! i)
                   in (Inr v, c1\<lparr>instances := (instances c1)(name \<mapsto> v)\<rparr>))
                else let (v, c') = run (resolver b) c in (Inr v, c'))))"

text \<open>\<^verbatim>\<open>MustResolve\<close> panics on an error.\<close>

definition MustResolve ::
  "(nat \<Rightarrow> Container \<Rightarrow> goval \<times> Container) \<Rightarrow> string \<Rightarrow> Container \<Rightarrow> goval option \<times> Container" where
  "MustResolve run name c = (case Resolve run name c of (Inl _, c') \<Rightarrow> (None, c') | (Inr v, c') \<Rightarrow> (Some v, c'))"

definition container_Has :: "string \<Rightarrow> Container \<Rightarrow> bool" where
  "container_Has name c \<longleftrightarrow> instances c name \<noteq> None \<or> bindings c name \<noteq> None"

text \<open>
  The changes a container goes through: registrations, the resolution of any name, and whatever the
  resolvers do, as long as \<open>name\<close> is not given another instance by hand.
\<close>

inductive evolves :: "(nat \<Rightarrow> Container \<Rightarrow> goval \<times> Container) \<Rightarrow> string \<Rightarrow> Container \<Rightarrow> Container \<Rightarrow> bool"
  for run name where
  ev_refl: "evolves run name c c"
| ev_bind: "evolves run name c c' \<Longrightarrow> evolves run name c (Bind n f c')"
| ev_singleton: "evolves run name c c' \<Longrightarrow> evolves run name c (Singleton n f c')"
| ev_instance: "evolves run name c c' \<Longrightarrow> n \<noteq> name \<Longrightarrow> evolves run name c (Instance n v c')"
| ev_alias: "evolves run name c c' \<Longrightarrow> evolves run name c (Alias t n c')"
| ev_resolve: "evolves run name c c' \<Longrightarrow> evolves run name c (snd (Resolve run n c'))"

definition keeps_instance :: "(nat \<Rightarrow> Container \<Rightarrow> goval \<times> Container) \<Rightarrow> string \<Rightarrow> bool" where
  "keeps_instance run name \<longleftrightarrow>
     (\<forall>f c v. instances c name = Some v \<longrightarrow> instances (snd (run f c)) name = Some v)"

lemma Resolve_keeps:
  assumes "keeps_instance run name" and "instances c name = Some v"
  shows "instances (snd (Resolve run n c)) name = Some v"
proof -
  have "instances (snd (run f c)) name = Some v" for f
    using assms by (simp add: keeps_instance_def)
  then show ?thesis
    using assms(2) by (auto simp: Resolve_def Let_def case_prod_unfold split: option.splits)
qed

lemma evolves_keeps:
  assumes "evolves run name c c'" and "keeps_instance run name" and "instances c name = Some v"
  shows "instances c' name = Some v"
  using assms
proof (induction rule: evolves.induct)
  case (ev_resolve c c' n)
  then show ?case using Resolve_keeps by blast
qed (simp_all add: Bind_def Singleton_def new_binding_def Instance_def Alias_def)

lemma singleton_resolved:
  assumes "instances c name = None" "bindings c name = Some i" "singleton (objects c ! i)"
  shows "\<exists>v. fst (Resolve run name c) = Inr v \<and> instances (snd (Resolve run name c)) name = Some v"
  using assms by (simp add: Resolve_def Let_def)

text \<open>
  A singleton is resolved once and cached forever. After the first resolution
  every later one gives the same value without running any resolver or changing the container,
  whatever was registered, aliased or resolved in between, if no resolver replaces the instance.
\<close>

lemma singleton_cached:
  assumes "instances c name = None" "bindings c name = Some i" "singleton (objects c ! i)"
    and "keeps_instance run name" and "evolves run name (snd (Resolve run name c)) c'"
  shows "\<exists>v. fst (Resolve run name c) = Inr v \<and> Resolve run name c' = (Inr v, c')"
proof -
  obtain v where v: "fst (Resolve run name c) = Inr v" "instances (snd (Resolve run name c)) name = Some v"
    using singleton_resolved [OF assms(1-3)] by blast
  have "instances c' name = Some v" using evolves_keeps [OF assms(5,4) v(2)] .
  with v(1) show ?thesis by (simp add: Resolve_def)
qed

lemma singleton_cached_example:
  "\<exists>v. fst (Resolve (\<lambda>f c. (GInt (int f), c)) ''db'' (Singleton ''db'' 4 newContainer)) = Inr v \<and>
     Resolve (\<lambda>f c. (GInt (int f), c)) ''db'' (Bind ''log'' 5 (snd (Resolve (\<lambda>f c. (GInt (int f), c)) ''db'' (Singleton ''db'' 4 newContainer))))
       = (Inr v, Bind ''log'' 5 (snd (Resolve (\<lambda>f c. (GInt (int f), c)) ''db'' (Singleton ''db'' 4 newContainer))))"
  by (rule singleton_cached [where i = 0])
    (simp_all add: Singleton_def new_binding_def newContainer_def keeps_instance_def ev_bind ev_refl)

text \<open>
  The cached instance also hides later registrations: a \<^verbatim>\<open>Bind\<close> under the name of a resolved singleton
  has no effect, although each resolution of it is documented to produce a new instance.
\<close>

lemma rebind_after_resolve_ignored:
  "instances c name = Some v \<Longrightarrow> fst (Resolve run name (Bind name f c)) = Inr v"
  by (simp add: Resolve_def Bind_def new_binding_def)

section \<open>The event dispatcher\<close>

text \<open>A listener is its number and whether it runs in a goroutine of its own.\<close>

type_synonym Dispatcher = "string \<Rightarrow> (nat \<times> bool) list"

definition event_New :: Dispatcher where
  "event_New = (\<lambda>_. [])"

definition Listen :: "string \<Rightarrow> nat \<Rightarrow> Dispatcher \<Rightarrow> Dispatcher" where
  "Listen name l d = d(name := d name @ [(l, False)])"

definition ListenAsync :: "string \<Rightarrow> nat \<Rightarrow> Dispatcher \<Rightarrow> Dispatcher" where
  "ListenAsync name l d = d(name := d name @ [(l, True)])"

definition Forget :: "string \<Rightarrow> Dispatcher \<Rightarrow> Dispatcher" where
  "Forget name d = d(name := [])"

text \<open>\<^verbatim>\<open>safeCall\<close> drops the panic of a listener, whose code is \<open>call\<close>: the panic, if any, and the new world.\<close>

definition safeCall :: "(nat \<Rightarrow> goval \<Rightarrow> 'w \<Rightarrow> goval option \<times> 'w) \<Rightarrow> nat \<Rightarrow> goval \<Rightarrow> 'w \<Rightarrow> 'w" where
  "safeCall call l payload w = snd (call l payload w)"

text \<open>The world after the synchronous listeners, and the listeners started as goroutines.\<close>

fun dispatch_loop ::
  "(nat \<Rightarrow> goval \<Rightarrow> 'w \<Rightarrow> goval option \<times> 'w) \<Rightarrow> (nat \<times> bool) list \<Rightarrow> goval \<Rightarrow> 'w \<times> nat list \<Rightarrow> 'w \<times> nat list" where
  "dispatch_loop call [] payload s = s"
| "dispatch_loop call ((l, async) # ls) payload (w, started) =
     dispatch_loop call ls payload
       (if async then (w, started @ [l]) else (safeCall call l payload w, started))"

definition event_Dispatch where
  "event_Dispatch call name payload (d :: Dispatcher) w = dispatch_loop call (d name) payload (w, [])"

text \<open>Every synchronous listener runs, in the order of registration, whether or not those before it panic.\<close>

lemma dispatch_loop_all:
  "dispatch_loop call ls payload (w, gs) =
     (fold (\<lambda>l w. snd (call l payload w)) (map fst (filter (\<lambda>x. \<not> snd x) ls)) w, gs @ map fst (filter snd ls))"
  by (induction call ls payload "(w, gs)" arbitrary: w gs rule: dispatch_loop.induct) (auto simp: safeCall_def)

lemma dispatch_registered:
  "event_Dispatch call name payload (Listen name l (ListenAsync name g event_New)) w =
     (snd (call l payload w), [g])"
  by (simp add: event_Dispatch_def Listen_def ListenAsync_def event_New_def safeCall_def)

end
