(* ===== verification/Driver.thy ===== *)
theory Driver
  imports GoPrelude
begin

text \<open>
  Package driver: the three SQL dialects behind the \<^verbatim>\<open>Driver\<close> interface and its registry. \<^verbatim>\<open>Open\<close> calls
  database/sql and is not modelled. The locale states what the layers above rely on when they put a name
  into a statement: a quoted identifier is read back as that name and nothing else.
\<close>

datatype dialect = MySQL | Postgres | SQLite

definition driver_Name :: "dialect \<Rightarrow> string" where
  "driver_Name d = (case d of MySQL \<Rightarrow> ''mysql'' | Postgres \<Rightarrow> ''postgres'' | SQLite \<Rightarrow> ''sqlite'')"

definition Placeholder :: "dialect \<Rightarrow> int \<Rightarrow> string" where
  "Placeholder d n = (case d of Postgres \<Rightarrow> ''$'' @ itoa n | _ \<Rightarrow> ''?'')"

definition quote_char :: "dialect \<Rightarrow> char" where
  "quote_char d = (case d of MySQL \<Rightarrow> CHR 96 | _ \<Rightarrow> CHR 34)"

definition QuoteIdent :: "dialect \<Rightarrow> string \<Rightarrow> string" where
  "QuoteIdent d name = [quote_char d] @ replace_char (quote_char d) [quote_char d, quote_char d] name @ [quote_char d]"

definition AutoIncrementType :: "dialect \<Rightarrow> string" where
  "AutoIncrementType d =
     (case d of
        MySQL \<Rightarrow> ''BIGINT UNSIGNED NOT NULL AUTO_INCREMENT PRIMARY KEY''
      | Postgres \<Rightarrow> ''BIGSERIAL PRIMARY KEY''
      | SQLite \<Rightarrow> ''INTEGER PRIMARY KEY AUTOINCREMENT'')"

definition varchar :: "int \<Rightarrow> string" where
  "varchar n = ''VARCHAR('' @ itoa (if n \<le> 0 then 255 else n) @ '')''"

definition MySQL_ColumnType :: "string \<Rightarrow> int \<Rightarrow> string" where
  "MySQL_ColumnType t n =
     (if t = ''string'' then varchar n
      else if t = ''text'' then ''TEXT''
      else if t = ''int'' \<or> t = ''integer'' then ''INT''
      else if t = ''bigint'' then ''BIGINT''
      else if t = ''float'' then ''FLOAT''
      else if t = ''double'' then ''DOUBLE''
      else if t = ''decimal'' then ''DECIMAL(10,2)''
      else if t = ''bool'' \<or> t = ''boolean'' then ''TINYINT(1)''
      else if t = ''date'' then ''DATE''
      else if t = ''datetime'' \<or> t = ''timestamp'' then ''DATETIME''
      else if t = ''json'' then ''JSON''
      else if t = ''enum'' then ''VARCHAR(50)''
      else ''VARCHAR(255)'')"

definition Postgres_ColumnType :: "string \<Rightarrow> int \<Rightarrow> string" where
  "Postgres_ColumnType t n =
     (if t = ''string'' then varchar n
      else if t = ''text'' then ''TEXT''
      else if t = ''int'' \<or> t = ''integer'' then ''INTEGER''
      else if t = ''bigint'' then ''BIGINT''
      else if t = ''float'' then ''REAL''
      else if t = ''double'' then ''DOUBLE PRECISION''
      else if t = ''decimal'' then ''NUMERIC(10,2)''
      else if t = ''bool'' \<or> t = ''boolean'' then ''BOOLEAN''
      else if t = ''date'' then ''DATE''
      else if t = ''datetime'' \<or> t = ''timestamp'' then ''TIMESTAMP''
      else if t = ''json'' then ''JSONB''
      else if t = ''enum'' then ''VARCHAR(50)''
      else ''VARCHAR(255)'')"

definition SQLite_ColumnType :: "string \<Rightarrow> int \<Rightarrow> string" where
  "SQLite_ColumnType t n =
     (if t = ''string'' then varchar n
      else if t = ''text'' then ''TEXT''
      else if t = ''int'' \<or> t = ''integer'' \<or> t = ''bigint'' then ''INTEGER''
      else if t = ''float'' \<or> t = ''double'' then ''REAL''
      else if t = ''decimal'' then ''REAL''
      else if t = ''bool'' \<or> t = ''boolean'' then ''INTEGER''
      else if t = ''date'' \<or> t = ''datetime'' \<or> t = ''timestamp'' then ''TEXT''
      else if t = ''json'' then ''TEXT''
      else if t = ''enum'' then ''VARCHAR(50)''
      else ''TEXT'')"

definition ColumnType :: "dialect \<Rightarrow> string \<Rightarrow> int \<Rightarrow> string" where
  "ColumnType d = (case d of MySQL \<Rightarrow> MySQL_ColumnType | Postgres \<Rightarrow> Postgres_ColumnType | SQLite \<Rightarrow> SQLite_ColumnType)"

section \<open>The registry\<close>

type_synonym registry = "string \<rightharpoonup> dialect"

definition driver_Register :: "dialect \<Rightarrow> registry \<Rightarrow> registry" where
  "driver_Register d r = r(driver_Name d \<mapsto> d)"

text \<open>The \<^verbatim>\<open>init\<close> functions of the three files.\<close>

definition init_registry :: registry where
  "init_registry = driver_Register SQLite (driver_Register Postgres (driver_Register MySQL Map.empty))"

definition driver_Get :: "string \<Rightarrow> registry \<Rightarrow> string + dialect" where
  "driver_Get name r =
     (case r name of Some d \<Rightarrow> Inr d | None \<Rightarrow> Inl (''gai/database: unknown driver '' @ name))"

lemma driver_Get_registered: "driver_Get (driver_Name d) init_registry = Inr d"
  by (cases d) (simp_all add: driver_Get_def init_registry_def driver_Register_def driver_Name_def)

section \<open>Quoted identifiers\<close>

text \<open>
  How SQL reads a delimited identifier: from the opening delimiter to the first closing one that is
  not doubled; a doubled delimiter stands for itself.
\<close>

fun scan_rest :: "char \<Rightarrow> string \<Rightarrow> (string \<times> string) option" where
  "scan_rest q [] = None"
| "scan_rest q (c # cs) =
     (if c \<noteq> q then map_option (\<lambda>(n, r). (c # n, r)) (scan_rest q cs)
      else case cs of
             [] \<Rightarrow> Some ([], [])
           | c' # cs' \<Rightarrow>
               if c' = q then map_option (\<lambda>(n, r). (q # n, r)) (scan_rest q cs') else Some ([], cs))"

definition scan_ident :: "char \<Rightarrow> string \<Rightarrow> (string \<times> string) option" where
  "scan_ident q s = (case s of [] \<Rightarrow> None | c # cs \<Rightarrow> if c = q then scan_rest q cs else None)"

locale ident_quoting =
  fixes delim :: char and quote :: "string \<Rightarrow> string"
  assumes quote_doubles: "quote name = [delim] @ replace_char delim [delim, delim] name @ [delim]"
begin

lemma scan_doubled:
  assumes "rest = [] \<or> hd rest \<noteq> delim"
  shows "scan_rest delim (replace_char delim [delim, delim] name @ delim # rest) = Some (name, rest)"
proof (induction name)
  case Nil
  then show ?case using assms by (cases rest) auto
qed simp

lemma scan_quote:
  "rest = [] \<or> hd rest \<noteq> delim \<Longrightarrow> scan_ident delim (quote name @ rest) = Some (name, rest)"
  using scan_doubled [of rest name] by (simp add: scan_ident_def quote_doubles)

lemma quote_inject: "quote a = quote b \<longleftrightarrow> a = b"
  using scan_quote [of "[]"] by (metis append_Nil2 option.inject prod.inject)

end

interpretation mysql: ident_quoting "quote_char MySQL" "QuoteIdent MySQL"
  by unfold_locales (simp add: QuoteIdent_def)

interpretation postgres: ident_quoting "quote_char Postgres" "QuoteIdent Postgres"
  by unfold_locales (simp add: QuoteIdent_def)

interpretation sqlite: ident_quoting "quote_char SQLite" "QuoteIdent SQLite"
  by unfold_locales (simp add: QuoteIdent_def)

text \<open>
  No identifier escapes its quotes. In every dialect a quoted name, whatever bytes it has,
  quote characters included, is read back as that name, up to its own closing quote, when what
  follows does not start with a quote.
\<close>

lemma quoted_ident_confined:
  assumes "rest = [] \<or> hd rest \<noteq> quote_char d"
  shows "scan_ident (quote_char d) (QuoteIdent d name @ rest) = Some (name, rest)"
  using assms mysql.scan_quote postgres.scan_quote sqlite.scan_quote by (cases d) auto

lemma quoted_ident_confined_example:
  "scan_ident (quote_char Postgres) (QuoteIdent Postgres (''a'' @ [CHR 34] @ ''; DROP'') @ '' = 1'') =
     Some (''a'' @ [CHR 34] @ ''; DROP'', '' = 1'')"
  by (rule quoted_ident_confined) (simp add: quote_char_def)

end
