(* ===== verification/OrmQuery.thy ===== *)
theory OrmQuery
  imports Driver Support
begin

text \<open>
  The query builder (\<^verbatim>\<open>query.go\<close>, the query part of \<^verbatim>\<open>extra.go\<close>, \<^verbatim>\<open>scope.go\<close>): its clauses, the chainable
  methods, and the functions that turn it into a statement with arguments. The methods change the
  builder they are called on and return it, so they are functions from builders to builders. The database
  handle is its driver name and the quoting function; executing a statement belongs to \<open>OrmModel\<close>.
\<close>

section \<open>The builder\<close>

record whereClause =
  w_column :: string
  w_operator :: string
  w_value :: goval
  w_boolean :: string
  w_raw :: string
  w_rawArgs :: "goval list"

record joinClause =
  j_kind :: string
  j_table :: string
  j_left :: string
  j_op :: string
  j_right :: string
  j_raw :: string

record orderClause =
  o_column :: string
  o_direction :: string

record DB =
  DriverName :: string
  db_QuoteIdent :: "(string \<Rightarrow> string) option"

record QueryBuilder =
  db :: DB
  table :: string
  selects :: "string list"
  wheres :: "whereClause list"
  orders :: "orderClause list"
  limitVal :: int
  offsetVal :: int
  groupBy :: "string list"
  having :: "whereClause list"
  joins :: "joinClause list"
  softDelete :: bool
  onlyTrashed :: bool
  q_lock :: string

definition db_quote :: "DB \<Rightarrow> string \<Rightarrow> string" where
  "db_quote d name = (case db_QuoteIdent d of Some f \<Rightarrow> f name | None \<Rightarrow> name)"

definition Table :: "DB \<Rightarrow> string \<Rightarrow> QueryBuilder" where
  "Table d t = \<lparr>db = d, table = t, selects = [], wheres = [], orders = [], limitVal = 0, offsetVal = 0,
     groupBy = [], having = [], joins = [], softDelete = False, onlyTrashed = False, q_lock = []\<rparr>"

text \<open>\<^verbatim>\<open>Query\<close>: the table name and whether a field is marked \<^verbatim>\<open>softDelete\<close> come from the model's type.\<close>

definition Query_of :: "DB \<Rightarrow> string \<Rightarrow> bool \<Rightarrow> QueryBuilder" where
  "Query_of d t soft = (Table d t)\<lparr>softDelete := soft\<rparr>"

section \<open>Sanitising\<close>

definition safe_char :: "char \<Rightarrow> bool" where
  "safe_char c \<longleftrightarrow> is_lower c \<or> is_upper c \<or> is_digit c \<or> c = CHR ''_'' \<or> c = CHR ''.''"

definition safeColumn :: "string \<Rightarrow> string" where
  "safeColumn col = filter safe_char col"

definition validOperators :: "string list" where
  "validOperators = [''='', ''!='', ''<>'', ''>'', ''<'', ''>='', ''<='', ''LIKE'', ''like'', ''NOT LIKE'', ''not like'',
     ''IN'', ''in'', ''IS'', ''is'', ''IS NOT'', ''is not'']"

definition sanitizeOperator :: "string \<Rightarrow> string" where
  "sanitizeOperator op = (if op \<in> set validOperators then op else ''='')"

definition placeholder :: "string \<Rightarrow> int \<Rightarrow> string" where
  "placeholder drv n = (if drv = ''postgres'' then ''$'' @ itoa n else ''?'')"

section \<open>Chainable methods\<close>

definition where_clause :: "string \<Rightarrow> string \<Rightarrow> goval \<Rightarrow> string \<Rightarrow> whereClause" where
  "where_clause col op v b =
     \<lparr>w_column = safeColumn col, w_operator = sanitizeOperator op, w_value = v, w_boolean = b, w_raw = [], w_rawArgs = []\<rparr>"

definition raw_clause :: "string \<Rightarrow> goval list \<Rightarrow> whereClause" where
  "raw_clause raw args =
     \<lparr>w_column = [], w_operator = [], w_value = GNil, w_boolean = ''AND'', w_raw = raw, w_rawArgs = args\<rparr>"

definition add_where :: "whereClause \<Rightarrow> QueryBuilder \<Rightarrow> QueryBuilder" where
  "add_where w q = q\<lparr>wheres := wheres q @ [w]\<rparr>"

definition Select :: "string list \<Rightarrow> QueryBuilder \<Rightarrow> QueryBuilder" where
  "Select cols q = q\<lparr>selects := selects q @ cols\<rparr>"

definition Where :: "string \<Rightarrow> string \<Rightarrow> goval \<Rightarrow> QueryBuilder \<Rightarrow> QueryBuilder" where
  "Where col op v q = add_where (where_clause col op v ''AND'') q"

definition OrWhere :: "string \<Rightarrow> string \<Rightarrow> goval \<Rightarrow> QueryBuilder \<Rightarrow> QueryBuilder" where
  "OrWhere col op v q = add_where (where_clause col op v ''OR'') q"

definition WhereNull :: "string \<Rightarrow> QueryBuilder \<Rightarrow> QueryBuilder" where
  "WhereNull col q = add_where (raw_clause (safeColumn col @ '' IS NULL'') []) q"

definition WhereNotNull :: "string \<Rightarrow> QueryBuilder \<Rightarrow> QueryBuilder" where
  "WhereNotNull col q = add_where (raw_clause (safeColumn col @ '' IS NOT NULL'') []) q"

definition WhereIn :: "string \<Rightarrow> goval list \<Rightarrow> QueryBuilder \<Rightarrow> QueryBuilder" where
  "WhereIn col vs q = add_where (where_clause col ''IN'' (GList vs) ''AND'') q"

definition WhereRaw :: "string \<Rightarrow> goval list \<Rightarrow> QueryBuilder \<Rightarrow> QueryBuilder" where
  "WhereRaw raw args q = add_where (raw_clause raw args) q"

definition OrderBy :: "string \<Rightarrow> string \<Rightarrow> QueryBuilder \<Rightarrow> QueryBuilder" where
  "OrderBy col dir q =
     (let d = to_upper dir; d = (if d \<noteq> ''ASC'' \<and> d \<noteq> ''DESC'' then ''ASC'' else d)
      in q\<lparr>orders := orders q @ [\<lparr>o_column = safeColumn col, o_direction = d\<rparr>]\<rparr>)"

definition Limit :: "int \<Rightarrow> QueryBuilder \<Rightarrow> QueryBuilder" where
  "Limit n q = q\<lparr>limitVal := n\<rparr>"

definition Offset :: "int \<Rightarrow> QueryBuilder \<Rightarrow> QueryBuilder" where
  "Offset n q = q\<lparr>offsetVal := n\<rparr>"

definition GroupBy :: "string list \<Rightarrow> QueryBuilder \<Rightarrow> QueryBuilder" where
  "GroupBy cols q = q\<lparr>groupBy := groupBy q @ map safeColumn cols\<rparr>"

definition Having :: "string \<Rightarrow> string \<Rightarrow> goval \<Rightarrow> QueryBuilder \<Rightarrow> QueryBuilder" where
  "Having col op v q = q\<lparr>having := having q @ [where_clause col op v ''AND'']\<rparr>"

definition join_clause :: "string \<Rightarrow> string \<Rightarrow> string \<Rightarrow> string \<Rightarrow> string \<Rightarrow> joinClause" where
  "join_clause kind t l op r =
     \<lparr>j_kind = kind, j_table = safeColumn t, j_left = safeColumn l, j_op = sanitizeOperator op,
      j_right = safeColumn r, j_raw = []\<rparr>"

definition add_join :: "joinClause \<Rightarrow> QueryBuilder \<Rightarrow> QueryBuilder" where
  "add_join j q = q\<lparr>joins := joins q @ [j]\<rparr>"

definition Join :: "string \<Rightarrow> string \<Rightarrow> string \<Rightarrow> string \<Rightarrow> QueryBuilder \<Rightarrow> QueryBuilder" where
  "Join t l op r q = add_join (join_clause ''INNER JOIN'' t l op r) q"

definition LeftJoin :: "string \<Rightarrow> string \<Rightarrow> string \<Rightarrow> string \<Rightarrow> QueryBuilder \<Rightarrow> QueryBuilder" where
  "LeftJoin t l op r q = add_join (join_clause ''LEFT JOIN'' t l op r) q"

definition RightJoin :: "string \<Rightarrow> string \<Rightarrow> string \<Rightarrow> string \<Rightarrow> QueryBuilder \<Rightarrow> QueryBuilder" where
  "RightJoin t l op r q = add_join (join_clause ''RIGHT JOIN'' t l op r) q"

definition JoinRaw :: "string \<Rightarrow> QueryBuilder \<Rightarrow> QueryBuilder" where
  "JoinRaw raw q =
     add_join \<lparr>j_kind = [], j_table = [], j_left = [], j_op = [], j_right = [], j_raw = raw\<rparr> q"

definition WhereBetween :: "string \<Rightarrow> goval \<Rightarrow> goval \<Rightarrow> QueryBuilder \<Rightarrow> QueryBuilder" where
  "WhereBetween col mn mx q = Where col ''<='' mx (Where col ''>='' mn q)"

definition WhereLike :: "string \<Rightarrow> string \<Rightarrow> QueryBuilder \<Rightarrow> QueryBuilder" where
  "WhereLike col pat q = Where col ''LIKE'' (GStr pat) q"

definition Scope :: "(QueryBuilder \<Rightarrow> QueryBuilder) list \<Rightarrow> QueryBuilder \<Rightarrow> QueryBuilder" where
  "Scope scopes q = fold (\<lambda>s q. s q) scopes q"

definition WithTrashed :: "QueryBuilder \<Rightarrow> QueryBuilder" where
  "WithTrashed q = q\<lparr>softDelete := False, onlyTrashed := False\<rparr>"

definition OnlyTrashed :: "QueryBuilder \<Rightarrow> QueryBuilder" where
  "OnlyTrashed q = q\<lparr>softDelete := False, onlyTrashed := True\<rparr>"

definition ForUpdate :: "QueryBuilder \<Rightarrow> QueryBuilder" where
  "ForUpdate q = q\<lparr>q_lock := ''FOR UPDATE''\<rparr>"

definition ActiveScope :: "QueryBuilder \<Rightarrow> QueryBuilder" where
  "ActiveScope q = (if softDelete q then q else WhereNull ''deleted_at'' q)"

section \<open>Building statements\<close>

text \<open>
  The state of a building loop: the text so far, the arguments, and the number of the next placeholder.
\<close>

type_synonym build = "string \<times> goval list \<times> int"

definition effectiveWheres :: "QueryBuilder \<Rightarrow> whereClause list" where
  "effectiveWheres q =
     (if softDelete q then raw_clause ''deleted_at IS NULL'' [] # wheres q
      else if onlyTrashed q then raw_clause ''deleted_at IS NOT NULL'' [] # wheres q
      else wheres q)"

text \<open>The placeholders of an \<^verbatim>\<open>IN\<close> list: one per value.\<close>

definition in_placeholders :: "string \<Rightarrow> int \<Rightarrow> nat \<Rightarrow> string list" where
  "in_placeholders drv idx n = map (\<lambda>j. placeholder drv (idx + int j)) [0..<n]"

text \<open>One clause without its connective; an \<^verbatim>\<open>IN\<close> whose value is not a list adds nothing.\<close>

definition emit_where :: "string \<Rightarrow> whereClause \<Rightarrow> build \<Rightarrow> build" where
  "emit_where drv w = (\<lambda>(s, args, idx).
     if w_raw w \<noteq> [] then (s @ w_raw w, args @ w_rawArgs w, idx + int (length (w_rawArgs w)))
     else if w_operator w = ''IN'' then
       (case w_value w of
          GList vals \<Rightarrow>
            (s @ w_column w @ '' IN ('' @ join (in_placeholders drv idx (length vals)) '', '' @ '')'',
             args @ vals, idx + int (length vals))
        | _ \<Rightarrow> (s, args, idx))
     else (s @ w_column w @ '' '' @ w_operator w @ '' '' @ placeholder drv idx, args @ [w_value w], idx + 1))"

fun emit_wheres :: "string \<Rightarrow> bool \<Rightarrow> whereClause list \<Rightarrow> build \<Rightarrow> build" where
  "emit_wheres drv first [] b = b"
| "emit_wheres drv first (w # ws) (s, args, idx) =
     emit_wheres drv False ws
       (emit_where drv w (if first then s else s @ '' '' @ w_boolean w @ '' '', args, idx))"

fun emit_having :: "string \<Rightarrow> bool \<Rightarrow> whereClause list \<Rightarrow> build \<Rightarrow> build" where
  "emit_having drv first [] b = b"
| "emit_having drv first (h # hs) (s, args, idx) =
     emit_having drv False hs
       ((if first then s else s @ '' '' @ w_boolean h @ '' '') @ w_column h @ '' '' @ w_operator h @ '' '' @ placeholder drv idx,
        args @ [w_value h], idx + 1)"

definition emit_join :: "DB \<Rightarrow> joinClause \<Rightarrow> string" where
  "emit_join d j =
     (if j_raw j \<noteq> [] then '' '' @ j_raw j
      else '' '' @ j_kind j @ '' '' @ db_quote d (j_table j) @ '' ON '' @ j_left j @ '' '' @ j_op j @ '' '' @ j_right j)"

definition select_head :: "QueryBuilder \<Rightarrow> string" where
  "select_head q =
     ''SELECT '' @ (if selects q \<noteq> [] then join (selects q) '', '' else ''*'') @ '' FROM '' @ db_quote (db q) (table q)
       @ concat (map (emit_join (db q)) (joins q))"

definition select_tail :: "QueryBuilder \<Rightarrow> string" where
  "select_tail q =
     (if orders q \<noteq> [] then '' ORDER BY '' @ join (map (\<lambda>ord. o_column ord @ '' '' @ o_direction ord) (orders q)) '', '' else [])
     @ (if limitVal q > 0 then '' LIMIT '' @ itoa (limitVal q) else [])
     @ (if offsetVal q > 0 then '' OFFSET '' @ itoa (offsetVal q) else [])
     @ (if q_lock q \<noteq> [] \<and> (DriverName (db q) = ''mysql'' \<or> DriverName (db q) = ''postgres'') then '' '' @ q_lock q else [])"

definition buildSelect :: "QueryBuilder \<Rightarrow> string \<times> goval list" where
  "buildSelect q =
     (let drv = DriverName (db q);
          b0 = (select_head q, [], 1);
          b1 = (if effectiveWheres q \<noteq> [] then emit_wheres drv True (effectiveWheres q) (fst b0 @ '' WHERE '', snd b0) else b0);
          b2 = (if groupBy q \<noteq> [] then (fst b1 @ '' GROUP BY '' @ join (groupBy q) '', '', snd b1) else b1);
          b3 = (if having q \<noteq> [] then emit_having drv True (having q) (fst b2 @ '' HAVING '', snd b2) else b2)
      in (fst b3 @ select_tail q, fst (snd b3)))"

definition ToSQL :: "QueryBuilder \<Rightarrow> string \<times> goval list" where
  "ToSQL q = buildSelect q"

definition appendWhere :: "QueryBuilder \<Rightarrow> build \<Rightarrow> string \<times> goval list" where
  "appendWhere q = (\<lambda>(s, args, idx).
     if effectiveWheres q = [] then (s, args)
     else (case emit_wheres (DriverName (db q)) True (effectiveWheres q) (s @ '' WHERE '', args, idx) of
             (s', args', _) \<Rightarrow> (s', args')))"

text \<open>The set list of an update: Go visits the map in some order, \<open>vals\<close>.\<close>

fun emit_sets :: "DB \<Rightarrow> (string \<times> goval) list \<Rightarrow> int \<Rightarrow> string list \<times> goval list \<times> int" where
  "emit_sets d [] idx = ([], [], idx)"
| "emit_sets d ((col, v) # vs) idx =
     (case emit_sets d vs (idx + 1) of
        (ss, args, i) \<Rightarrow> ((db_quote d (safeColumn col) @ '' = '' @ placeholder (DriverName d) idx) # ss, v # args, i))"

definition UpdateAll_sql :: "(string \<times> goval) list \<Rightarrow> QueryBuilder \<Rightarrow> string \<times> goval list" where
  "UpdateAll_sql vals q =
     (case emit_sets (db q) vals 1 of
        (ss, args, idx) \<Rightarrow>
          appendWhere q (''UPDATE '' @ db_quote (db q) (table q) @ '' SET '' @ join ss '', '', args, idx))"

definition DeleteAll_sql :: "goval \<Rightarrow> QueryBuilder \<Rightarrow> string \<times> goval list" where
  "DeleteAll_sql now q =
     (if softDelete q then
        appendWhere q (''UPDATE '' @ db_quote (db q) (table q) @ '' SET '' @ db_quote (db q) ''deleted_at'' @ '' = ''
          @ placeholder (DriverName (db q)) 1, [now], 2)
      else appendWhere q (''DELETE FROM '' @ db_quote (db q) (table q), [], 1))"

text \<open>
  \<^verbatim>\<open>adjust\<close>, behind \<^verbatim>\<open>Increment\<close> and \<^verbatim>\<open>Decrement\<close>, has a loop of its own: it has no case for \<^verbatim>\<open>IN\<close> and none for
  \<^verbatim>\<open>OnlyTrashed\<close>.
\<close>

fun emit_adjust :: "string \<Rightarrow> bool \<Rightarrow> whereClause list \<Rightarrow> build \<Rightarrow> build" where
  "emit_adjust drv first [] b = b"
| "emit_adjust drv first (w # ws) (s, args, idx) =
     (let s = (if first then s else s @ '' '' @ w_boolean w @ '' '') in
      emit_adjust drv False ws
        (if w_raw w \<noteq> [] then (s @ w_raw w, args @ w_rawArgs w, idx + int (length (w_rawArgs w)))
         else (s @ w_column w @ '' '' @ w_operator w @ '' '' @ placeholder drv idx, args @ [w_value w], idx + 1)))"

definition adjust_sql :: "string \<Rightarrow> int \<Rightarrow> QueryBuilder \<Rightarrow> string \<times> goval list" where
  "adjust_sql column amount q =
     (let col = db_quote (db q) (safeColumn column);
          drv = DriverName (db q);
          s = ''UPDATE '' @ db_quote (db q) (table q) @ '' SET '' @ col @ '' = '' @ col @ '' ''
                @ (if amount < 0 then ''-'' else ''+'') @ '' '' @ placeholder drv 1;
          args = [GInt (if amount < 0 then wrap64 (- amount) else amount)];
          eff = (if softDelete q then raw_clause ''deleted_at IS NULL'' [] # wheres q else wheres q)
      in if eff = [] then (s, args)
         else (case emit_adjust drv True eff (s @ '' WHERE '', args, 2) of (s', args', _) \<Rightarrow> (s', args')))"

definition Increment_sql :: "string \<Rightarrow> int \<Rightarrow> QueryBuilder \<Rightarrow> string \<times> goval list" where
  "Increment_sql column amount q = adjust_sql column amount q"

definition Decrement_sql :: "string \<Rightarrow> int \<Rightarrow> QueryBuilder \<Rightarrow> string \<times> goval list" where
  "Decrement_sql column amount q = adjust_sql column (wrap64 (- amount)) q"

section \<open>Statements of the terminal operations\<close>

definition First_sql :: "QueryBuilder \<Rightarrow> string \<times> goval list" where
  "First_sql q = buildSelect (q\<lparr>limitVal := 1\<rparr>)"

definition Count_sql :: "QueryBuilder \<Rightarrow> string \<times> goval list" where
  "Count_sql q = buildSelect (q\<lparr>selects := [''COUNT(*) AS cnt''], limitVal := 0, offsetVal := 0\<rparr>)"

definition Pluck_sql :: "string \<Rightarrow> QueryBuilder \<Rightarrow> string \<times> goval list" where
  "Pluck_sql column q = buildSelect (q\<lparr>selects := [safeColumn column]\<rparr>)"

definition aggregate_sql :: "string \<Rightarrow> string \<Rightarrow> QueryBuilder \<Rightarrow> string \<times> goval list" where
  "aggregate_sql fn column q =
     buildSelect (q\<lparr>selects := [fn @ ''('' @ safeColumn column @ '') AS agg''], limitVal := 0, offsetVal := 0\<rparr>)"

definition Find_query :: "DB \<Rightarrow> string \<Rightarrow> bool \<Rightarrow> goval \<Rightarrow> QueryBuilder" where
  "Find_query d t soft ident = Where ''id'' ''='' ident (Query_of d t soft)"

record Pagination =
  pg_query :: QueryBuilder
  Total :: int
  Page :: int
  PerPage :: int
  TotalPages :: int

text \<open>The page and size that are used, the query of the page's rows, and the number of pages; the offset is 64-bit.\<close>

definition Paginate_page :: "int \<Rightarrow> int" where
  "Paginate_page page = (if page < 1 then 1 else page)"

definition Paginate_size :: "int \<Rightarrow> int" where
  "Paginate_size perPage = (if perPage < 1 then 20 else perPage)"

definition Paginate :: "QueryBuilder \<Rightarrow> int \<Rightarrow> int \<Rightarrow> int \<Rightarrow> Pagination" where
  "Paginate q page perPage n =
     (let page = Paginate_page page;
          perPage = Paginate_size perPage
      in \<lparr>pg_query = q\<lparr>limitVal := perPage, offsetVal := wrap64 ((page - 1) * perPage)\<rparr>,
          Total = n, Page = page, PerPage = perPage,
          TotalPages = (if n mod perPage \<noteq> 0 then n div perPage + 1 else n div perPage)\<rparr>)"

section \<open>Placeholders\<close>

text \<open>
  \<open>marks\<close> lists the placeholders in a text: for PostgreSQL the digits after each dollar sign, for the
  others an empty mark per question mark.
\<close>

fun marks :: "string \<Rightarrow> string \<Rightarrow> string list" where
  "marks drv [] = []"
| "marks drv (c # cs) =
     (if drv = ''postgres'' then (if c = CHR ''$'' then takeWhile is_digit cs # marks drv cs else marks drv cs)
      else (if c = CHR ''?'' then [] # marks drv cs else marks drv cs))"

definition mark :: "string \<Rightarrow> int \<Rightarrow> string" where
  "mark drv n = (if drv = ''postgres'' then itoa n else [])"

definition mark_free :: "string \<Rightarrow> bool" where
  "mark_free s \<longleftrightarrow> CHR ''$'' \<notin> set s \<and> CHR ''?'' \<notin> set s"

definition starts_plain :: "string \<Rightarrow> bool" where
  "starts_plain s \<longleftrightarrow> (case s of [] \<Rightarrow> True | c # _ \<Rightarrow> \<not> is_digit c)"

lemma mark_free_simps [simp]:
  "mark_free []" "mark_free (c # s) \<longleftrightarrow> c \<noteq> CHR ''$'' \<and> c \<noteq> CHR ''?'' \<and> mark_free s"
  "mark_free (s @ t) \<longleftrightarrow> mark_free s \<and> mark_free t"
  by (auto simp: mark_free_def)

lemma starts_plain_simps [simp]:
  "starts_plain []" "starts_plain (c # s) \<longleftrightarrow> \<not> is_digit c"
  by (simp_all add: starts_plain_def)

lemma space_not_digit [simp]: "\<not> is_digit (CHR '' '')" "\<not> is_digit (CHR '','')" "\<not> is_digit (CHR '')'')"
  by (simp_all add: is_digit_def)

lemma takeWhile_append_plain: "starts_plain t \<Longrightarrow> takeWhile is_digit (s @ t) = takeWhile is_digit s"
  by (induction s) (auto simp: starts_plain_def split: list.splits)

lemma marks_append: "starts_plain t \<Longrightarrow> marks drv (s @ t) = marks drv s @ marks drv t"
  by (induction s) (auto simp: takeWhile_append_plain)

lemma marks_free [simp]: "mark_free s \<Longrightarrow> marks drv (s @ t) = marks drv t"
  by (induction s) auto

lemma marks_free_self [simp]: "mark_free s \<Longrightarrow> marks drv s = []"
  using marks_free [of s drv "[]"] by simp

lemma itoa_nonneg_digits: "0 \<le> n \<Longrightarrow> takeWhile is_digit (itoa n) = itoa n"
  by (simp add: itoa_def nat_str_digits)

lemma mark_free_itoa [simp]: "0 \<le> n \<Longrightarrow> mark_free (itoa n)"
  using nat_str_digits by (fastforce simp: itoa_def mark_free_def is_digit_def)

lemma marks_placeholder: "0 \<le> n \<Longrightarrow> starts_plain t \<Longrightarrow> marks drv (placeholder drv n @ t) = mark drv n # marks drv t"
  by (auto simp: placeholder_def mark_def takeWhile_append_plain itoa_nonneg_digits)

declare marks.simps(2) [simp del]

lemma marks_Cons_free [simp]: "c \<noteq> CHR ''$'' \<Longrightarrow> c \<noteq> CHR ''?'' \<Longrightarrow> marks drv (c # s) = marks drv s"
  by (simp add: marks.simps)

lemma marks_in_list:
  assumes "0 \<le> idx" and "starts_plain t"
  shows "marks drv (join (in_placeholders drv idx n) '', '' @ t) = map (mark drv) [idx..idx + int n - 1] @ marks drv t"
  using assms
proof (induction n arbitrary: idx)
  case (Suc n)
  have Cons: "in_placeholders drv idx (Suc n) = placeholder drv idx # in_placeholders drv (idx + 1) n"
    unfolding in_placeholders_def
    by (simp add: upt_conv_Cons map_Suc_upt [symmetric] comp_def algebra_simps del: upt_Suc)
  have upto: "[idx..idx + int (Suc n) - 1] = idx # [idx + 1..idx + 1 + int n - 1]"
    by (subst upto_rec1) (simp_all add: algebra_simps)
  show ?case
  proof (cases n)
    case 0
    then show ?thesis using Suc.prems marks_placeholder [of idx t drv] unfolding Cons upto
      by (simp add: in_placeholders_def)
  next
    case (Suc k)
    have ne: "in_placeholders drv (idx + 1) n \<noteq> []" using Suc by (simp add: in_placeholders_def)
    have "marks drv (join (in_placeholders drv idx (Suc n)) '', '' @ t) =
        marks drv (placeholder drv idx @ '', '' @ join (in_placeholders drv (idx + 1) n) '', '' @ t)"
      unfolding Cons using ne by (simp add: join_Cons)
    also have "\<dots> = mark drv idx # marks drv (join (in_placeholders drv (idx + 1) n) '', '' @ t)"
      using Suc.prems by (subst marks_placeholder) simp_all
    finally show ?thesis using Suc.IH [of "idx + 1"] Suc.prems unfolding upto by simp
  qed
qed (simp add: in_placeholders_def)

definition safe_where :: "whereClause \<Rightarrow> bool" where
  "safe_where w \<longleftrightarrow> mark_free (w_column w) \<and> mark_free (w_operator w) \<and> mark_free (w_boolean w) \<and>
     mark_free (w_raw w) \<and> w_rawArgs w = []"

text \<open>What a piece of a statement adds: its text, its arguments, and marks that number them.\<close>

definition numbered :: "string \<Rightarrow> int \<Rightarrow> string \<Rightarrow> goval list \<Rightarrow> bool" where
  "numbered drv idx str as \<longleftrightarrow> marks drv str = map (mark drv) [idx..idx + int (length as) - 1]"

lemma numbered_append:
  assumes "numbered drv idx s as" and "numbered drv (idx + int (length as)) t bs" and "starts_plain t"
  shows "numbered drv idx (s @ t) (as @ bs)"
proof -
  have "[idx..idx + int (length as) + int (length bs) - 1] =
      [idx..idx + int (length as) - 1] @ [idx + int (length as)..idx + int (length as) + int (length bs) - 1]"
    by (cases bs) (simp_all add: upto_split1 [of idx "idx + int (length as)"])
  with assms show ?thesis by (simp add: numbered_def marks_append algebra_simps)
qed

lemma numbered_free: "mark_free s \<Longrightarrow> numbered drv idx t as \<Longrightarrow> numbered drv idx (s @ t) as"
  by (simp add: numbered_def)

lemma emit_where_numbered:
  assumes "safe_where w" and "0 \<le> idx"
  shows "\<exists>p as. \<forall>s args. emit_where drv w (s, args, idx) = (s @ p, args @ as, idx + int (length as)) \<and> numbered drv idx p as"
proof -
  consider (raw) "w_raw w \<noteq> []" | (inlist) vals where "w_raw w = []" "w_operator w = ''IN''" "w_value w = GList vals"
    | (other_in) "w_raw w = []" "w_operator w = ''IN''" "\<And>vals. w_value w \<noteq> GList vals"
    | (op) "w_raw w = []" "w_operator w \<noteq> ''IN''" by fastforce
  then show ?thesis
  proof cases
    case raw
    then show ?thesis using assms by (auto simp: emit_where_def safe_where_def numbered_def intro!: exI [of _ "w_raw w"])
  next
    case (inlist vals)
    have "numbered drv idx (w_column w @ '' IN ('' @ join (in_placeholders drv idx (length vals)) '', '' @ '')'') vals"
      using assms marks_in_list [of idx "'')''" drv "length vals"] by (simp add: numbered_def safe_where_def)
    with inlist show ?thesis by (auto simp: emit_where_def)
  next
    case other_in
    then show ?thesis
      by (intro exI [of _ "[]"]) (auto simp: emit_where_def numbered_def split: goval.splits)
  next
    case op
    have "numbered drv idx (w_column w @ '' '' @ w_operator w @ '' '' @ placeholder drv idx) [w_value w]"
      using assms marks_placeholder [of idx "[]" drv] by (simp add: numbered_def safe_where_def)
    with op show ?thesis
      by (intro exI [of _ "w_column w @ '' '' @ w_operator w @ '' '' @ placeholder drv idx"] exI [of _ "[w_value w]"])
        (simp add: emit_where_def)
  qed
qed

lemma emit_wheres_numbered:
  assumes "list_all safe_where ws" and "0 \<le> idx"
  shows "\<exists>p as. (\<forall>s args. emit_wheres drv first ws (s, args, idx) = (s @ p, args @ as, idx + int (length as))) \<and>
     numbered drv idx p as \<and> (first \<or> starts_plain p)"
  using assms
proof (induction ws arbitrary: first idx)
  case Nil
  then show ?case by (intro exI [of _ "[]"]) (simp add: numbered_def)
next
  case (Cons w ws)
  then obtain p1 as1 where 1: "\<And>s args. emit_where drv w (s, args, idx) = (s @ p1, args @ as1, idx + int (length as1))"
    "numbered drv idx p1 as1" using emit_where_numbered [of w idx drv] by auto
  from Cons.IH [of "idx + int (length as1)" False] Cons.prems
  obtain p2 as2 where 2: "\<And>s args. emit_wheres drv False ws (s, args, idx + int (length as1)) =
      (s @ p2, args @ as2, idx + int (length as1) + int (length as2))"
    "numbered drv (idx + int (length as1)) p2 as2" "starts_plain p2" by auto
  let ?pre = "if first then [] else '' '' @ w_boolean w @ '' ''"
  have "mark_free ?pre" using Cons.prems by (simp add: safe_where_def)
  then have "numbered drv idx (?pre @ p1 @ p2) (as1 @ as2)"
    using numbered_append [OF 1(2) 2(2,3)] by (simp add: numbered_free)
  moreover have "emit_wheres drv first (w # ws) (s, args, idx) =
      (s @ ?pre @ p1 @ p2, args @ as1 @ as2, idx + int (length (as1 @ as2)))" for s args
    by (simp add: 1(1) 2(1))
  moreover have "first \<or> starts_plain (?pre @ p1 @ p2)" by simp
  ultimately show ?case by blast
qed

lemma emit_having_numbered:
  assumes "list_all safe_where ws" and "0 \<le> idx"
  shows "\<exists>p as. (\<forall>s args. emit_having drv first ws (s, args, idx) = (s @ p, args @ as, idx + int (length as))) \<and>
     numbered drv idx p as \<and> (first \<or> starts_plain p)"
  using assms
proof (induction ws arbitrary: first idx)
  case Nil
  then show ?case by (intro exI [of _ "[]"]) (simp add: numbered_def)
next
  case (Cons w ws)
  let ?pre = "(if first then [] else '' '' @ w_boolean w @ '' '') @ w_column w @ '' '' @ w_operator w @ '' ''"
  from Cons.IH [of "idx + 1" False] Cons.prems
  obtain p2 as2 where 2: "\<And>s args. emit_having drv False ws (s, args, idx + 1) = (s @ p2, args @ as2, idx + 1 + int (length as2))"
    "numbered drv (idx + 1) p2 as2" "starts_plain p2" by auto
  have "numbered drv idx (placeholder drv idx) [w_value w]"
    using Cons.prems marks_placeholder [of idx "[]" drv] by (simp add: numbered_def)
  then have "numbered drv idx (placeholder drv idx @ p2) ([w_value w] @ as2)"
    using 2(2,3) by (intro numbered_append) simp_all
  moreover have "mark_free ?pre" using Cons.prems by (simp add: safe_where_def)
  ultimately have "numbered drv idx (?pre @ placeholder drv idx @ p2) ([w_value w] @ as2)"
    by (rule numbered_free [where s = ?pre, rotated])
  moreover have "emit_having drv first (w # ws) (s, args, idx) =
      (s @ ?pre @ placeholder drv idx @ p2, args @ [w_value w] @ as2, idx + int (length ([w_value w] @ as2)))" for s args
    by (simp add: 2(1))
  moreover have "first \<or> starts_plain (?pre @ placeholder drv idx @ p2)" by simp
  ultimately show ?case by blast
qed

section \<open>Queries built by the sanitising methods\<close>

text \<open>
  The queries the chainable methods make from any strings and values, except for raw SQL
  (\<^verbatim>\<open>WhereRaw\<close>, \<^verbatim>\<open>JoinRaw\<close>) and selected expressions with placeholders of their own.
\<close>

inductive safe_query :: "DB \<Rightarrow> string \<Rightarrow> QueryBuilder \<Rightarrow> bool" for d t where
  sq_table: "safe_query d t (Query_of d t soft)"
| sq_select: "safe_query d t q \<Longrightarrow> list_all mark_free cols \<Longrightarrow> safe_query d t (Select cols q)"
| sq_where: "safe_query d t q \<Longrightarrow> safe_query d t (Where col op v q)"
| sq_or_where: "safe_query d t q \<Longrightarrow> safe_query d t (OrWhere col op v q)"
| sq_null: "safe_query d t q \<Longrightarrow> safe_query d t (WhereNull col q)"
| sq_not_null: "safe_query d t q \<Longrightarrow> safe_query d t (WhereNotNull col q)"
| sq_in: "safe_query d t q \<Longrightarrow> safe_query d t (WhereIn col vs q)"
| sq_between: "safe_query d t q \<Longrightarrow> safe_query d t (WhereBetween col mn mx q)"
| sq_like: "safe_query d t q \<Longrightarrow> safe_query d t (WhereLike col pat q)"
| sq_order: "safe_query d t q \<Longrightarrow> safe_query d t (OrderBy col dir q)"
| sq_limit: "safe_query d t q \<Longrightarrow> safe_query d t (Limit n q)"
| sq_offset: "safe_query d t q \<Longrightarrow> safe_query d t (Offset n q)"
| sq_group: "safe_query d t q \<Longrightarrow> safe_query d t (GroupBy cols q)"
| sq_having: "safe_query d t q \<Longrightarrow> safe_query d t (Having col op v q)"
| sq_join: "safe_query d t q \<Longrightarrow> safe_query d t (Join jt l op r q)"
| sq_left: "safe_query d t q \<Longrightarrow> safe_query d t (LeftJoin jt l op r q)"
| sq_right: "safe_query d t q \<Longrightarrow> safe_query d t (RightJoin jt l op r q)"
| sq_with: "safe_query d t q \<Longrightarrow> safe_query d t (WithTrashed q)"
| sq_only: "safe_query d t q \<Longrightarrow> safe_query d t (OnlyTrashed q)"
| sq_lock: "safe_query d t q \<Longrightarrow> safe_query d t (ForUpdate q)"
| sq_active: "safe_query d t q \<Longrightarrow> safe_query d t (ActiveScope q)"

definition clean_column :: "string \<Rightarrow> bool" where
  "clean_column s \<longleftrightarrow> list_all safe_char s"

definition clean_where :: "whereClause \<Rightarrow> bool" where
  "clean_where w \<longleftrightarrow> w_boolean w \<in> {''AND'', ''OR''} \<and> w_rawArgs w = [] \<and>
     (w_raw w = [] \<and> clean_column (w_column w) \<and> w_operator w \<in> set validOperators \<or>
      (\<exists>col. clean_column col \<and> w_raw w \<in> {col @ '' IS NULL'', col @ '' IS NOT NULL''} \<and> w_column w = [] \<and> w_operator w = []))"

definition clean_join :: "joinClause \<Rightarrow> bool" where
  "clean_join j \<longleftrightarrow> j_raw j = [] \<and> j_kind j \<in> {''INNER JOIN'', ''LEFT JOIN'', ''RIGHT JOIN''} \<and> clean_column (j_table j) \<and>
     clean_column (j_left j) \<and> clean_column (j_right j) \<and> j_op j \<in> set validOperators"

definition clean_query :: "QueryBuilder \<Rightarrow> bool" where
  "clean_query q \<longleftrightarrow> list_all clean_where (wheres q) \<and>
     list_all (\<lambda>h. clean_where h \<and> w_raw h = []) (having q) \<and> list_all clean_join (joins q) \<and>
     list_all (\<lambda>ord. clean_column (o_column ord) \<and> o_direction ord \<in> {''ASC'', ''DESC''}) (orders q) \<and>
     list_all clean_column (groupBy q) \<and> q_lock q \<in> {[], ''FOR UPDATE''}"

lemma clean_safeColumn [simp]: "clean_column (safeColumn c)"
  by (simp add: clean_column_def safeColumn_def list_all_iff)

lemma valid_sanitize [simp]: "sanitizeOperator op \<in> set validOperators"
  by (simp add: sanitizeOperator_def validOperators_def)

lemma clean_clauses [simp]:
  "clean_where (where_clause col op v ''AND'')" "clean_where (where_clause col op v ''OR'')"
  "clean_where (raw_clause (safeColumn col @ '' IS NULL'') [])"
  "clean_where (raw_clause (safeColumn col @ '' IS NOT NULL'') [])"
  "clean_join (join_clause ''INNER JOIN'' t l op r)" "clean_join (join_clause ''LEFT JOIN'' t l op r)"
  "clean_join (join_clause ''RIGHT JOIN'' t l op r)"
  using clean_safeColumn [of col]
  by (auto simp: clean_where_def where_clause_def raw_clause_def clean_join_def join_clause_def
      simp del: clean_safeColumn intro!: exI [of _ "safeColumn col"])
    (simp_all)

lemmas chain_defs = Query_of_def Table_def Select_def Where_def OrWhere_def WhereNull_def WhereNotNull_def WhereIn_def
  WhereBetween_def WhereLike_def OrderBy_def Limit_def Offset_def GroupBy_def Having_def Join_def LeftJoin_def RightJoin_def
  WithTrashed_def OnlyTrashed_def ForUpdate_def ActiveScope_def add_where_def add_join_def Let_def

lemma safe_query_clean: "safe_query d t q \<Longrightarrow> clean_query q"
  by (induction rule: safe_query.induct)
    (auto simp: clean_query_def chain_defs list_all_iff simp del: valid_sanitize, simp_all add: where_clause_def)

lemma safe_query_base:
  "safe_query d t q \<Longrightarrow> db q = d \<and> table q = t \<and> list_all mark_free (selects q)"
  by (induction rule: safe_query.induct) (auto simp: chain_defs)

lemma clean_column_free: "clean_column s \<Longrightarrow> mark_free s"
  by (auto simp: clean_column_def list_all_iff mark_free_def safe_char_def is_lower_def is_upper_def is_digit_def)

lemma valid_operator_free: "op \<in> set validOperators \<Longrightarrow> mark_free op"
  by (auto simp: validOperators_def)

lemma clean_where_safe: "clean_where w \<Longrightarrow> safe_where w"
  by (auto simp: clean_where_def safe_where_def valid_operator_free clean_column_free)

lemma mark_free_join: "list_all mark_free xs \<Longrightarrow> mark_free sep \<Longrightarrow> mark_free (join xs sep)"
  by (induction xs sep rule: join.induct) auto

lemma mark_free_concat: "list_all mark_free xs \<Longrightarrow> mark_free (concat xs)"
  by (induction xs) auto

lemma effectiveWheres_safe: "clean_query q \<Longrightarrow> list_all safe_where (effectiveWheres q)"
  using clean_where_safe
  by (auto simp: effectiveWheres_def clean_query_def raw_clause_def safe_where_def list_all_iff)

lemma select_head_free:
  assumes "clean_query q" "list_all mark_free (selects q)" "mark_free (db_quote (db q) (table q))"
    and "\<And>n. mark_free n \<Longrightarrow> mark_free (db_quote (db q) n)"
  shows "mark_free (select_head q)"
proof -
  have "mark_free (emit_join (db q) j)" if "j \<in> set (joins q)" for j
    using assms(1,4) that
    by (auto simp: clean_query_def list_all_iff clean_join_def emit_join_def clean_column_free valid_operator_free)
  then show ?thesis
    using assms(2,3) by (simp add: select_head_def mark_free_join mark_free_concat list_all_iff)
qed

lemma select_tail_free: "clean_query q \<Longrightarrow> mark_free (select_tail q)"
proof -
  assume c: "clean_query q"
  have "list_all mark_free (map (\<lambda>ord. o_column ord @ '' '' @ o_direction ord) (orders q))"
    using c by (auto simp: clean_query_def list_all_iff clean_column_free)
  moreover have "mark_free (q_lock q)" using c by (auto simp: clean_query_def)
  ultimately show ?thesis by (simp add: select_tail_def mark_free_join)
qed

lemma select_tail_plain: "starts_plain (select_tail q)"
  by (simp add: select_tail_def)

lemma buildSelect_numbered:
  assumes "clean_query q" "mark_free (select_head q)"
  shows "numbered (DriverName (db q)) 1 (fst (buildSelect q)) (snd (buildSelect q))"
proof -
  let ?drv = "DriverName (db q)"
  obtain pw aw where w: "\<And>s args. emit_wheres ?drv True (effectiveWheres q) (s, args, 1) = (s @ pw, args @ aw, 1 + int (length aw))"
    "numbered ?drv 1 pw aw"
    using emit_wheres_numbered [OF effectiveWheres_safe [OF assms(1)], of 1 ?drv True] by auto
  define W aW where "W = (if effectiveWheres q \<noteq> [] then '' WHERE '' @ pw else [])" and "aW = (if effectiveWheres q \<noteq> [] then aw else [])"
  have W: "numbered ?drv 1 W aW" "starts_plain W" using w(2) by (simp_all add: W_def aW_def numbered_def)
  define Gr where "Gr = (if groupBy q \<noteq> [] then '' GROUP BY '' @ join (groupBy q) '', '' else [])"
  have G: "mark_free Gr" "starts_plain Gr"
    using assms(1) by (auto simp: Gr_def clean_query_def list_all_iff clean_column_free intro!: mark_free_join)
  have hs: "list_all safe_where (having q)"
    using assms(1) clean_where_safe by (auto simp: clean_query_def list_all_iff)
  obtain ph ah where h: "\<And>s args. emit_having ?drv True (having q) (s, args, 1 + int (length aW)) =
      (s @ ph, args @ ah, 1 + int (length aW) + int (length ah))" "numbered ?drv (1 + int (length aW)) ph ah"
    using emit_having_numbered [OF hs, of "1 + int (length aW)" ?drv True] by auto
  define H aH where "H = (if having q \<noteq> [] then '' HAVING '' @ ph else [])" and "aH = (if having q \<noteq> [] then ah else [])"
  have H: "numbered ?drv (1 + int (length aW)) H aH" "starts_plain H" using h(2) by (simp_all add: H_def aH_def numbered_def)
  have build: "buildSelect q = (select_head q @ W @ Gr @ H @ select_tail q, aW @ aH)"
    using w(1) h(1) by (auto simp: buildSelect_def Let_def W_def aW_def Gr_def H_def aH_def)
  have GH: "numbered ?drv (1 + int (length aW)) (Gr @ H @ select_tail q) aH"
    using H G(1) select_tail_plain select_tail_free [OF assms(1)]
    by (simp add: numbered_def marks_append)
  have "starts_plain (Gr @ H @ select_tail q)"
    using G(2) H(2) select_tail_plain [of q] by (cases Gr; cases H) auto
  from numbered_free [OF assms(2) numbered_append [OF W(1) GH this]] show ?thesis by (simp add: build)
qed

text \<open>
  Property C18: placeholders and arguments agree. In the statement of any query made with the
  sanitising methods, from whatever column names, operators and values, the placeholders are, in
  their order, exactly those of the arguments 1 to n (\<^verbatim>\<open>$1\<close> to \<^verbatim>\<open>$n\<close> for PostgreSQL, n question
  marks otherwise), provided quoting adds no placeholder.
\<close>

theorem select_placeholders:
  assumes "safe_query d t q" and "mark_free t" and "\<And>n. mark_free n \<Longrightarrow> mark_free (db_quote d n)"
  shows "marks (DriverName d) (fst (buildSelect q)) =
           map (mark (DriverName d)) [1..int (length (snd (buildSelect q)))]"
proof -
  have base: "db q = d" "table q = t" "list_all mark_free (selects q)" using safe_query_base [OF assms(1)] by auto
  have "mark_free (select_head q)"
    using safe_query_clean [OF assms(1)] base assms(2,3) by (intro select_head_free) auto
  from buildSelect_numbered [OF safe_query_clean [OF assms(1)] this] base show ?thesis
    by (simp add: numbered_def)
qed

theorem select_placeholders_witness:
  "marks ''postgres'' (fst (buildSelect (WhereIn ''id'' [GInt 1, GInt 2] (Where ''na;me'' ''='' (GStr ''x'')
       (Query_of \<lparr>DriverName = ''postgres'', db_QuoteIdent = None\<rparr> ''users'' True))))) = [''1'', ''2'', ''3'']"
proof -
  let ?d = "\<lparr>DriverName = ''postgres'', db_QuoteIdent = None\<rparr>"
  let ?q = "WhereIn ''id'' [GInt 1, GInt 2] (Where ''na;me'' ''='' (GStr ''x'') (Query_of ?d ''users'' True))"
  have q: "safe_query ?d ''users'' ?q" by (intro sq_in sq_where sq_table)
  have len: "length (snd (buildSelect ?q)) = 3"
    by (simp add: buildSelect_def effectiveWheres_def chain_defs where_clause_def raw_clause_def emit_where_def
        sanitizeOperator_def validOperators_def)
  have "[1..3 :: int] = [1, 2, 3]" "map itoa [1, 2, 3] = [''1'', ''2'', ''3'']" by code_simp+
  with select_placeholders [OF q] len show ?thesis by (simp add: db_quote_def mark_def [abs_def])
qed



section \<open>Values never reach the text\<close>

text \<open>The shape of a query: every value erased, of a list only its length kept.\<close>

fun erase_value :: "goval \<Rightarrow> goval" where
  "erase_value (GList vs) = GList (replicate (length vs) GNil)"
| "erase_value v = GNil"

definition erase_clause :: "whereClause \<Rightarrow> whereClause" where
  "erase_clause w = w\<lparr>w_value := erase_value (w_value w), w_rawArgs := replicate (length (w_rawArgs w)) GNil\<rparr>"

lemma erase_clause_simps [simp]:
  "w_boolean (erase_clause w) = w_boolean w" "w_column (erase_clause w) = w_column w"
  "w_operator (erase_clause w) = w_operator w"
  by (simp_all add: erase_clause_def)

definition erase :: "QueryBuilder \<Rightarrow> QueryBuilder" where
  "erase q = q\<lparr>wheres := map erase_clause (wheres q), having := map erase_clause (having q)\<rparr>"

definition same_text :: "build \<Rightarrow> build \<Rightarrow> bool" where
  "same_text b c \<longleftrightarrow> fst b = fst c \<and> snd (snd b) = snd (snd c)"

lemma emit_where_erase:
  "same_text b c \<Longrightarrow> same_text (emit_where drv w b) (emit_where drv (erase_clause w) c)"
  by (cases b; cases c; cases "w_value w") (auto simp: same_text_def emit_where_def erase_clause_def)

lemma emit_wheres_erase:
  "same_text b c \<Longrightarrow> same_text (emit_wheres drv first ws b) (emit_wheres drv first (map erase_clause ws) c)"
proof (induction ws arbitrary: first b c)
  case (Cons w ws)
  obtain s as i cs where b: "b = (s, as, i)" "c = (s, cs, i)"
    using Cons.prems by (cases b; cases c) (auto simp: same_text_def)
  let ?s = "if first then s else s @ '' '' @ w_boolean w @ '' ''"
  have "same_text (emit_where drv w (?s, as, i)) (emit_where drv (erase_clause w) (?s, cs, i))"
    by (rule emit_where_erase) (simp add: same_text_def)
  from Cons.IH [OF this, of False] show ?case by (cases first) (simp_all add: b)
qed simp

lemma emit_having_erase:
  "same_text b c \<Longrightarrow> same_text (emit_having drv first ws b) (emit_having drv first (map erase_clause ws) c)"
proof (induction ws arbitrary: first b c)
  case (Cons w ws)
  obtain s as i cs where b: "b = (s, as, i)" "c = (s, cs, i)"
    using Cons.prems by (cases b; cases c) (auto simp: same_text_def)
  have "same_text (x, as @ [w_value w], i + 1) (x, cs @ [w_value (erase_clause w)], i + 1)" for x
    by (simp add: same_text_def)
  from Cons.IH [OF this, of False] show ?case unfolding b by (cases first) simp_all
qed simp

lemma erase_same:
  "select_head (erase q) = select_head q" "select_tail (erase q) = select_tail q" "db (erase q) = db q"
  "groupBy (erase q) = groupBy q" "having (erase q) = map erase_clause (having q)"
  "effectiveWheres (erase q) = map erase_clause (effectiveWheres q)"
  by (simp_all add: erase_def select_head_def select_tail_def effectiveWheres_def raw_clause_def erase_clause_def)

text \<open>
  Property C17: no value is ever spliced into SQL. The text of a statement depends only on the shape of
  the query: two queries that differ only in their values, list lengths kept, have the same text.
  This holds for every query, raw clauses included.
\<close>

theorem text_independent_of_values: "fst (buildSelect (erase q)) = fst (buildSelect q)"
proof -
  let ?drv = "DriverName (db q)"
  have st: "same_text (x, as, i) (x, cs, i)" for x as cs and i :: int by (simp add: same_text_def)
  define b1 where "b1 p = (if effectiveWheres p \<noteq> [] then emit_wheres ?drv True (effectiveWheres p) (select_head p @ '' WHERE '', [], 1)
      else (select_head p, [], 1))" for p
  have 1: "same_text (b1 q) (b1 (erase q))"
    unfolding b1_def erase_same by (cases "effectiveWheres q = []") (auto intro!: emit_wheres_erase simp: st simp del: emit_wheres.simps)
  define b2 where "b2 p = (if groupBy p \<noteq> [] then (fst (b1 p) @ '' GROUP BY '' @ join (groupBy p) '', '', snd (b1 p)) else b1 p)" for p
  have 2: "same_text (b2 q) (b2 (erase q))" using 1 unfolding b2_def erase_same by (auto simp: same_text_def)
  define b3 where "b3 p = (if having p \<noteq> [] then emit_having ?drv True (having p) (fst (b2 p) @ '' HAVING '', snd (b2 p)) else b2 p)" for p
  have 3: "same_text (b3 q) (b3 (erase q))"
  proof (cases "having q = []")
    case False
    have "same_text (fst (b2 q) @ '' HAVING '', snd (b2 q)) (fst (b2 (erase q)) @ '' HAVING '', snd (b2 (erase q)))"
      using 2 by (simp add: same_text_def)
    from emit_having_erase [OF this] False show ?thesis by (simp add: b3_def erase_same)
  qed (use 2 in \<open>simp add: b3_def erase_same\<close>)
  have "fst (buildSelect p) = fst (b3 p) @ select_tail p" if "DriverName (db p) = ?drv" for p
    unfolding buildSelect_def Let_def b3_def b2_def b1_def that by simp
  with 3 show ?thesis by (simp add: erase_same same_text_def)
qed

section \<open>Soft deletion\<close>

text \<open>
  The truth of a condition for a row, as SQL reads it: conjunction binds tighter than disjunction. \<open>holds\<close>
  gives the truth of the single clauses.
\<close>

fun sql_true :: "(whereClause \<Rightarrow> bool) \<Rightarrow> bool \<Rightarrow> whereClause list \<Rightarrow> bool" where
  "sql_true holds acc [] = acc"
| "sql_true holds acc (w # ws) =
     (if w_boolean w = ''OR'' then acc \<or> sql_true holds (holds w) ws else sql_true holds (acc \<and> holds w) ws)"

definition selected :: "(whereClause \<Rightarrow> bool) \<Rightarrow> QueryBuilder \<Rightarrow> bool" where
  "selected holds q \<longleftrightarrow> (case effectiveWheres q of [] \<Rightarrow> True | w # ws \<Rightarrow> sql_true holds (holds w) ws)"

lemma sql_true_conj: "list_all (\<lambda>w. w_boolean w \<noteq> ''OR'') ws \<Longrightarrow> sql_true holds acc ws \<longleftrightarrow> acc \<and> list_all holds ws"
  by (induction ws arbitrary: acc) auto

text \<open>
  A query on a model with soft deletion never returns a deleted row, as long as all its
  conditions are conjunctions, and then it returns exactly the rows that are not deleted and
  satisfy every condition.
\<close>

lemma soft_delete_filter:
  assumes "softDelete q" and "list_all (\<lambda>w. w_boolean w \<noteq> ''OR'') (wheres q)"
  shows "selected holds q \<longleftrightarrow> holds (raw_clause ''deleted_at IS NULL'' []) \<and> list_all holds (wheres q)"
  using assms by (simp add: selected_def effectiveWheres_def sql_true_conj)

lemma soft_delete_filter_example:
  "\<not> selected (\<lambda>w. w_column w = ''a'')
     (Where ''a'' ''='' (GInt 1) (Query_of \<lparr>DriverName = ''sqlite'', db_QuoteIdent = None\<rparr> ''users'' True))"
  using soft_delete_filter [of "Where ''a'' ''='' (GInt 1) (Query_of \<lparr>DriverName = ''sqlite'', db_QuoteIdent = None\<rparr> ''users'' True)"
      "\<lambda>w. w_column w = ''a''"]
  by (simp add: chain_defs where_clause_def raw_clause_def)

text \<open>A disjunction is not parenthesised: it lets deleted rows through, also into \<^verbatim>\<open>DeleteAll\<close> and \<^verbatim>\<open>UpdateAll\<close>.\<close>

lemma or_where_leaks_deleted:
  "\<exists>holds. selected holds (OrWhere ''b'' ''='' (GInt 2) (Where ''a'' ''='' (GInt 1) (Query_of d t True))) \<and>
     \<not> holds (raw_clause ''deleted_at IS NULL'' [])"
  by (rule exI [of _ "\<lambda>w. w_boolean w = ''OR''"])
    (simp add: selected_def effectiveWheres_def chain_defs raw_clause_def where_clause_def)

section \<open>Pages\<close>

text \<open>Numbers below \<open>n\<close> fall into exactly one of the \<open>P\<close> pages of size \<open>k\<close>.\<close>

definition page_count :: "int \<Rightarrow> int \<Rightarrow> int" where
  "page_count n k = (if n mod k \<noteq> 0 then n div k + 1 else n div k)"

lemma page_count_bounds:
  assumes "0 < k"
  shows "(page_count n k - 1) * k < n" and "n \<le> page_count n k * k"
proof -
  define d m where "d = n div k * k" and "m = n mod k"
  have nk: "n = d + m" "0 \<le> m" "m < k"
    using assms pos_mod_bound [of k n] pos_mod_sign [of k n] by (simp_all add: d_def m_def)
  have Pk: "page_count n k * k = (if m \<noteq> 0 then d + k else d)" "(page_count n k - 1) * k = page_count n k * k - k"
    by (simp_all add: page_count_def d_def m_def algebra_simps)
  show "(page_count n k - 1) * k < n" unfolding Pk(2) unfolding Pk(1) using nk assms by (simp split: if_split)
  show "n \<le> page_count n k * k" unfolding Pk(1) using nk assms by (simp split: if_split)
qed

lemma one_page:
  fixes k r n :: int
  assumes "0 < k" "0 \<le> r" "r < n"
  shows "\<exists>!page. 1 \<le> page \<and> page \<le> page_count n k \<and> (page - 1) * k \<le> r \<and> r < (page - 1) * k + k"
proof (rule ex1I [of _ "r div k + 1"])
  have r: "r = r div k * k + r mod k" by simp
  have bnd: "r div k * k \<le> r" "r < r div k * k + k"
    using r pos_mod_bound [of k r] pos_mod_sign [of k r] assms(1) by linarith+
  have "r div k < page_count n k"
  proof (rule ccontr)
    assume "\<not> r div k < page_count n k"
    then have "page_count n k * k \<le> r div k * k" using assms(1) by (intro mult_right_mono) auto
    with page_count_bounds [OF assms(1), of n] bnd assms show False by linarith
  qed
  then show "1 \<le> r div k + 1 \<and> r div k + 1 \<le> page_count n k \<and> (r div k + 1 - 1) * k \<le> r \<and> r < (r div k + 1 - 1) * k + k"
    using assms bnd pos_imp_zdiv_nonneg_iff [of k r] by simp
next
  fix page
  assume "1 \<le> page \<and> page \<le> page_count n k \<and> (page - 1) * k \<le> r \<and> r < (page - 1) * k + k"
  then have "r div k = page - 1"
    by (intro int_div_pos_eq [of _ _ _ "r - (page - 1) * k"]) (auto simp: algebra_simps)
  then show "page = r div k + 1" by simp
qed

text \<open>
  The pages of a result cut it into pieces without gap or overlap. For a total that fits
  into 64 bits with the page size, every row number below the total lies in exactly one page from 1 to the
  reported number of pages, the page's offset and limit select it, and no page is empty.
\<close>

lemma paginate_partitions:
  assumes "0 \<le> r" "r < n" and "n + Paginate_size perPage \<le> max_int"
  shows "\<exists>!page. 1 \<le> page \<and> page \<le> TotalPages (Paginate q page perPage n) \<and>
     offsetVal (pg_query (Paginate q page perPage n)) \<le> r \<and>
     r < offsetVal (pg_query (Paginate q page perPage n)) + limitVal (pg_query (Paginate q page perPage n))"
proof -
  define k where "k = Paginate_size perPage"
  have k: "0 < k" "n + k \<le> max_int" using assms(3) by (auto simp: k_def Paginate_size_def)
  have off: "offsetVal (pg_query (Paginate q page perPage n)) = (page - 1) * k" if "1 \<le> page" "page \<le> page_count n k" for page
  proof -
    have "(page - 1) * k \<le> (page_count n k - 1) * k" using that k by (intro mult_right_mono) auto
    moreover have "0 \<le> (page - 1) * k" using that k by simp
    ultimately have "min_int \<le> (page - 1) * k" "(page - 1) * k \<le> max_int" using page_count_bounds [OF k(1), of n] k by linarith+
    with that show ?thesis by (simp add: Paginate_def Let_def Paginate_page_def k_def [symmetric])
  qed
  have lim: "limitVal (pg_query (Paginate q page perPage n)) = k" "TotalPages (Paginate q page perPage n) = page_count n k" for page
    by (simp_all add: Paginate_def Let_def k_def [symmetric] page_count_def)
  show ?thesis unfolding lim using one_page [OF k(1) assms(1,2)] off by (metis (no_types, lifting))
qed

lemma paginate_partitions_example:
  "\<exists>!page. 1 \<le> page \<and> page \<le> TotalPages (Paginate (Table \<lparr>DriverName = ''sqlite'', db_QuoteIdent = None\<rparr> ''t'') page 10 25) \<and>
     offsetVal (pg_query (Paginate (Table \<lparr>DriverName = ''sqlite'', db_QuoteIdent = None\<rparr> ''t'') page 10 25)) \<le> 24 \<and>
     24 < offsetVal (pg_query (Paginate (Table \<lparr>DriverName = ''sqlite'', db_QuoteIdent = None\<rparr> ''t'') page 10 25)) + limitVal (pg_query (Paginate (Table \<lparr>DriverName = ''sqlite'', db_QuoteIdent = None\<rparr> ''t'') page 10 25))"
  by (rule paginate_partitions) (simp_all add: Paginate_size_def)

section \<open>Statements that are not what was meant\<close>

text \<open>
  An \<^verbatim>\<open>IN\<close> given through \<^verbatim>\<open>Where\<close> with anything but a slice of \<^verbatim>\<open>any\<close> leaves its connective behind. The
  lower-case operator passes the whitelist but not the test for lists, and \<^verbatim>\<open>Increment\<close> has no test for
  them at all. Counting keeps the order of the query. A huge page number wraps the offset around.
\<close>

lemma in_without_list_dangles:
  "fst (buildSelect (Where ''id'' ''IN'' (GInt 1) (Where ''a'' ''='' (GInt 2) (Table \<lparr>DriverName = ''sqlite'', db_QuoteIdent = None\<rparr> ''t'')))) =
     ''SELECT * FROM t WHERE a = ? AND ''"
  by (simp add: buildSelect_def chain_defs where_clause_def effectiveWheres_def emit_where_def select_head_def select_tail_def
      db_quote_def sanitizeOperator_def validOperators_def placeholder_def safeColumn_def safe_char_def is_lower_def)

lemma empty_in_list:
  "fst (buildSelect (WhereIn ''id'' [] (Table \<lparr>DriverName = ''mysql'', db_QuoteIdent = None\<rparr> ''t''))) = ''SELECT * FROM t WHERE id IN ()''"
  by (simp add: buildSelect_def chain_defs where_clause_def effectiveWheres_def emit_where_def select_head_def select_tail_def
      db_quote_def sanitizeOperator_def validOperators_def in_placeholders_def safeColumn_def safe_char_def is_lower_def)

lemma adjust_ignores_lists:
  "snd (Increment_sql ''n'' 1 (WhereIn ''id'' vs (Table d t))) = [GInt 1, GList vs]"
  by (simp add: Increment_sql_def adjust_sql_def chain_defs where_clause_def sanitizeOperator_def validOperators_def Let_def)

lemma adjust_ignores_only_trashed: "Increment_sql c n (OnlyTrashed q) = Increment_sql c n (WithTrashed q)"
  by (simp add: Increment_sql_def adjust_sql_def OnlyTrashed_def WithTrashed_def)

lemma count_keeps_order:
  "fst (Count_sql (OrderBy ''a'' ''desc'' (Table \<lparr>DriverName = ''postgres'', db_QuoteIdent = None\<rparr> ''t''))) =
     ''SELECT COUNT(*) AS cnt FROM t ORDER BY a DESC''"
  by code_simp

lemma paginate_offset_wraps: "offsetVal (pg_query (Paginate q 4611686018427387905 4 n)) = 0"
  by (simp add: Paginate_def Paginate_page_def Paginate_size_def wrap64_def)

end
