(* ===== verification/OrmModel.thy ===== *)
theory OrmModel
  imports OrmQuery
begin

text \<open>
  Models and their persistence (\<^verbatim>\<open>model.go\<close>, \<^verbatim>\<open>hooks.go\<close>, \<^verbatim>\<open>scanner.go\<close>, the CRUD helpers of \<^verbatim>\<open>query.go\<close> and
  \<^verbatim>\<open>extra.go\<close>). A Go struct, as reflection shows it, is a list of fields with name, visibility, tag, kind and
  value; an embedded struct is a field with fields of its own (embedded pointers are not modelled). The
  database is a state \<open>'w\<close> with the operations of \<^verbatim>\<open>database/sql\<close> as parameters, the hooks of a model are
  parameters too, and so are the formatting and parsing of times by package time.
\<close>

section \<open>Struct fields\<close>

datatype kind = KScalar | KTime | KSlice | KStruct

datatype gofield =
    Plain (fd_name: string) bool string kind goval
  | Embedded (fd_name: string) bool "gofield list"

record FieldInfo =
  fi_Name :: string
  fi_Column :: string
  fi_GaiType :: string
  fi_Size :: int
  fi_PrimaryKey :: bool
  fi_Unique :: bool
  fi_Nullable :: bool
  fi_Index :: bool
  fi_Default :: string
  fi_SoftDelete :: bool
  fi_Relation :: string
  fi_RelModel :: string
  fi_Pivot :: string
  fi_ForeignKey :: string
  fi_RelatedFK :: string

definition new_info :: "string \<Rightarrow> FieldInfo" where
  "new_info name =
     \<lparr>fi_Name = name, fi_Column = snake name, fi_GaiType = [], fi_Size = 0, fi_PrimaryKey = False, fi_Unique = False,
      fi_Nullable = False, fi_Index = False, fi_Default = [], fi_SoftDelete = False, fi_Relation = [], fi_RelModel = [],
      fi_Pivot = [], fi_ForeignKey = [], fi_RelatedFK = []\<rparr>"

definition parseInt :: "string \<Rightarrow> int" where
  "parseInt s = fold (\<lambda>c n. if is_digit c then wrap64 (n * 10 + int (ord c - 48)) else n) s 0"

definition relation_keys :: "string list" where
  "relation_keys = [''hasMany'', ''hasOne'', ''belongsTo'', ''belongsToMany'']"

text \<open>The key and the value of one part of a tag, and what it sets.\<close>

definition tag_key :: "string \<Rightarrow> string" where
  "tag_key part = hd (split2 (CHR '':'') (trim_space part))"

definition tag_val :: "string \<Rightarrow> string" where
  "tag_val part = (case split2 (CHR '':'') (trim_space part) of [k, v] \<Rightarrow> v | _ \<Rightarrow> [])"

definition tag_part :: "string \<Rightarrow> FieldInfo \<Rightarrow> FieldInfo" where
  "tag_part part info =
     (let key = tag_key part; val = tag_val part in
      if key = ''column'' then info\<lparr>fi_Column := val\<rparr>
      else if key = ''primaryKey'' then info\<lparr>fi_PrimaryKey := True\<rparr>
      else if key = ''unique'' then info\<lparr>fi_Unique := True\<rparr>
      else if key = ''nullable'' then info\<lparr>fi_Nullable := True\<rparr>
      else if key = ''index'' then info\<lparr>fi_Index := True\<rparr>
      else if key = ''size'' then (if 0 < parseInt val then info\<lparr>fi_Size := parseInt val\<rparr> else info)
      else if key = ''type'' then info\<lparr>fi_GaiType := val\<rparr>
      else if key = ''default'' then info\<lparr>fi_Default := val\<rparr>
      else if key = ''softDelete'' then info\<lparr>fi_SoftDelete := True, fi_Nullable := True\<rparr>
      else if key \<in> set relation_keys then info\<lparr>fi_Relation := key, fi_RelModel := val\<rparr>
      else if key = ''pivot'' then info\<lparr>fi_Pivot := val\<rparr>
      else if key = ''fk'' then info\<lparr>fi_ForeignKey := val\<rparr>
      else if key = ''relatedFk'' then info\<lparr>fi_RelatedFK := val\<rparr>
      else info)"

definition parseTag :: "string \<Rightarrow> FieldInfo \<Rightarrow> FieldInfo" where
  "parseTag tag info = fold tag_part (split_by (CHR '';'') tag) info"

definition field_info :: "string \<Rightarrow> string \<Rightarrow> FieldInfo" where
  "field_info name tag = (if tag \<noteq> [] then parseTag tag (new_info name) else new_info name)"

fun ParseFields :: "gofield list \<Rightarrow> FieldInfo list" where
  "ParseFields [] = []"
| "ParseFields (Embedded name exported sub # fs) =
     (if \<not> exported then ParseFields fs else ParseFields sub @ ParseFields fs)"
| "ParseFields (Plain name exported tag k v # fs) =
     (if \<not> exported \<or> tag = ''-'' then ParseFields fs
      else let info = field_info name tag in
        if fi_Relation info \<noteq> [] then info # ParseFields fs
        else if k = KSlice \<or> k = KStruct then ParseFields fs
        else info # ParseFields fs)"

definition Columns :: "gofield list \<Rightarrow> string list" where
  "Columns m = map fi_Column (filter (\<lambda>f. fi_Relation f = []) (ParseFields m))"

text \<open>\<open>override\<close> is the result of the model's own \<^verbatim>\<open>TableName\<close> method, if it has one.\<close>

definition TableName :: "string option \<Rightarrow> string \<Rightarrow> string" where
  "TableName override typ = (case override of Some t \<Rightarrow> t | None \<Rightarrow> to_lower (plural (snake typ)))"

definition Query_model :: "DB \<Rightarrow> string \<Rightarrow> gofield list \<Rightarrow> QueryBuilder" where
  "Query_model d tbl m = Query_of d tbl (list_ex fi_SoftDelete (ParseFields m))"

section \<open>Field access by name\<close>

text \<open>
  \<^verbatim>\<open>reflect.Value.FieldByName\<close>: the shallowest field of that name, none when two share the depth.
  The result carries the depth.
\<close>

fun sub_fields :: "gofield \<Rightarrow> gofield list" where
  "sub_fields (Plain n e t k v) = []"
| "sub_fields (Embedded n e sub) = sub"

definition next_level :: "gofield list \<Rightarrow> gofield list" where
  "next_level fs = concat (map sub_fields fs)"

lemma size_next_level: "fs \<noteq> [] \<Longrightarrow> size_list size (next_level fs) < size_list size fs"
proof (induction fs)
  case (Cons f fs)
  then show ?case by (cases f; cases "fs = []") (auto simp: next_level_def size_list_append)
qed simp

function FieldByName :: "string \<Rightarrow> nat \<Rightarrow> gofield list \<Rightarrow> (nat \<times> gofield) option" where
  "FieldByName name d fs =
     (if fs = [] then None
      else case filter (\<lambda>f. fd_name f = name) fs of
        [] \<Rightarrow> FieldByName name (Suc d) (next_level fs)
      | [f] \<Rightarrow> Some (d, f)
      | _ \<Rightarrow> None)"
  by auto
termination
  by (relation "measure (\<lambda>(name, d, fs). size_list size fs)") (auto simp: size_next_level)

declare FieldByName.simps [simp del]

fun field_val :: "gofield \<Rightarrow> goval" where
  "field_val (Plain n e t k v) = v"
| "field_val (Embedded n e sub) = GNil"

text \<open>\<^verbatim>\<open>fieldValue\<close>; a field that is itself a struct has no value in the model.\<close>

fun inner_value :: "string \<Rightarrow> gofield list \<Rightarrow> goval" where
  "inner_value name [] = GNil"
| "inner_value name (Plain n e t k v # fs) = inner_value name fs"
| "inner_value name (Embedded n e sub # fs) =
     (case FieldByName name 0 sub of Some (_, f) \<Rightarrow> field_val f | None \<Rightarrow> inner_value name fs)"

definition fieldValue :: "gofield list \<Rightarrow> string \<Rightarrow> goval" where
  "fieldValue m name = (case FieldByName name 0 m of Some (_, f) \<Rightarrow> field_val f | None \<Rightarrow> inner_value name m)"

text \<open>
  \<^verbatim>\<open>setFieldValue\<close>. \<^verbatim>\<open>reflect.Value.Set\<close> panics, \<^const>\<open>None\<close> here, when the types differ.
\<close>

fun type_tag :: "goval \<Rightarrow> string" where
  "type_tag (GBool _) = ''bool''"
| "type_tag (GInt _) = ''int''"
| "type_tag (GInt64 _) = ''int64''"
| "type_tag (GUint64 _) = ''uint64''"
| "type_tag (GFloat _) = ''float64''"
| "type_tag (GStr _) = ''string''"
| "type_tag (GTime _) = ''time.Time''"
| "type_tag (GTimePtr _) = ''*time.Time''"
| "type_tag _ = []"

definition same_type :: "goval \<Rightarrow> goval \<Rightarrow> bool" where
  "same_type v w \<longleftrightarrow> type_tag v \<noteq> [] \<and> type_tag v = type_tag w"

fun set_plain :: "string \<Rightarrow> goval \<Rightarrow> gofield \<Rightarrow> gofield" where
  "set_plain name v (Plain n e t k old) = (if n = name then Plain n e t k v else Plain n e t k old)"
| "set_plain name v (Embedded n e sub) = Embedded n e sub"

fun under :: "(gofield list \<Rightarrow> gofield list) \<Rightarrow> gofield \<Rightarrow> gofield" where
  "under g (Plain n e t k v) = Plain n e t k v"
| "under g (Embedded n e sub) = Embedded n e (g sub)"

primrec set_at :: "nat \<Rightarrow> string \<Rightarrow> goval \<Rightarrow> gofield list \<Rightarrow> gofield list" where
  "set_at 0 name v fs = map (set_plain name v) fs"
| "set_at (Suc d) name v fs = map (under (set_at d name v)) fs"

definition set_found :: "nat \<times> gofield \<Rightarrow> string \<Rightarrow> goval \<Rightarrow> gofield list \<Rightarrow> gofield list option" where
  "set_found found name v fs =
     (case found of
        (d, Plain n e t k old) \<Rightarrow> if same_type old v then Some (set_at d name v fs) else None
      | (d, Embedded n e sub) \<Rightarrow> None)"

fun set_inner :: "string \<Rightarrow> goval \<Rightarrow> gofield list \<Rightarrow> gofield list option" where
  "set_inner name v [] = Some []"
| "set_inner name v (Plain n e t k old # fs) = map_option ((#) (Plain n e t k old)) (set_inner name v fs)"
| "set_inner name v (Embedded n e sub # fs) =
     (case FieldByName name 0 sub of
        Some found \<Rightarrow> map_option (\<lambda>sub'. Embedded n e sub' # fs) (set_found found name v sub)
      | None \<Rightarrow> map_option ((#) (Embedded n e sub)) (set_inner name v fs))"

definition setFieldValue :: "gofield list \<Rightarrow> string \<Rightarrow> goval \<Rightarrow> gofield list option" where
  "setFieldValue m name v =
     (case FieldByName name 0 m of Some found \<Rightarrow> set_found found name v m | None \<Rightarrow> set_inner name v m)"

section \<open>Columns to fields\<close>

text \<open>\<^verbatim>\<open>parseColumn\<close> looks for the first part of the tag that gives a column.\<close>

definition column_part :: "string \<Rightarrow> string option" where
  "column_part part =
     (case split2 (CHR '':'') (trim_space part) of [k, v] \<Rightarrow> if k = ''column'' then Some v else None | _ \<Rightarrow> None)"

definition parseColumn :: "string \<Rightarrow> string \<Rightarrow> string" where
  "parseColumn tag name =
     (if tag = [] then snake name
      else case List.map_filter column_part (split_by (CHR '';'') tag) of [] \<Rightarrow> snake name | c # _ \<Rightarrow> c)"

text \<open>\<^verbatim>\<open>buildFieldMap\<close>: a pointer to a field is its path of indices. \<open>i\<close> is the loop counter, \<open>fm\<close> the map so far.\<close>

fun buildFieldMap :: "nat \<Rightarrow> gofield list \<Rightarrow> (string \<rightharpoonup> nat list) \<Rightarrow> (string \<rightharpoonup> nat list)" where
  "buildFieldMap i [] fm = fm"
| "buildFieldMap i (Embedded n exported sub # fs) fm =
     buildFieldMap (Suc i) fs
       (if exported then fm ++ (\<lambda>c. map_option ((#) i) (buildFieldMap 0 sub Map.empty c)) else fm)"
| "buildFieldMap i (Plain n exported tag k v # fs) fm =
     buildFieldMap (Suc i) fs (if exported then fm(parseColumn tag n \<mapsto> [i]) else fm)"

fun field_at :: "gofield list \<Rightarrow> nat list \<Rightarrow> gofield option" where
  "field_at fs [] = None"
| "field_at fs [i] = (if i < length fs then Some (fs ! i) else None)"
| "field_at fs (i # j # p) = (if i < length fs then field_at (sub_fields (fs ! i)) (j # p) else None)"

fun store_at :: "goval \<Rightarrow> nat list \<Rightarrow> gofield list \<Rightarrow> gofield list" where
  "store_at v [] fs = fs"
| "store_at v [i] fs = (if i < length fs then fs[i := set_plain (fd_name (fs ! i)) v (fs ! i)] else fs)"
| "store_at v (i # j # p) fs = (if i < length fs then fs[i := under (store_at v (j # p)) (fs ! i)] else fs)"

section \<open>Times in the database\<close>

record timelib =
  format_utc :: "int \<Rightarrow> string"
  time_Parse :: "string \<Rightarrow> string \<Rightarrow> int option"
  time_ParseInLocal :: "string \<Rightarrow> string \<Rightarrow> int option"

datatype dbval = DNil | DTime int | DString string | DBytes string | DInt64 int | DOther string

definition layouts :: "string list" where
  "layouts = [''2006-01-02T15:04:05.999999999Z07:00'', ''2006-01-02T15:04:05Z07:00'', ''Mon, 02 Jan 2006 15:04:05 -0700'',
     ''2006-01-02 15:04:05.999999999 -0700 MST'', ''2006-01-02 15:04:05.999999999-07:00'', ''2006-01-02 15:04:05.999999999'',
     ''2006-01-02 15:04:05'', ''2006-01-02T15:04:05'', ''2006-01-02'']"

fun before :: "string \<Rightarrow> string \<Rightarrow> string" where
  "before sub [] = []"
| "before sub (c # cs) = (if has_prefix (c # cs) sub then [] else c # before sub cs)"

fun try_layouts :: "timelib \<Rightarrow> string \<Rightarrow> string list \<Rightarrow> int option" where
  "try_layouts lib s [] = None"
| "try_layouts lib s (l # ls) =
     (case time_Parse lib l s of
        Some t \<Rightarrow> Some t
      | None \<Rightarrow> (case time_ParseInLocal lib l s of Some t \<Rightarrow> Some t | None \<Rightarrow> try_layouts lib s ls))"

definition parseTimeString :: "timelib \<Rightarrow> string \<Rightarrow> string + int option" where
  "parseTimeString lib s =
     (let s = before '' m='' s in
      case try_layouts lib s layouts of Some t \<Rightarrow> Inr (Some t) | None \<Rightarrow> Inl (''gai/orm: cannot parse time '' @ s))"

fun parseDBTime :: "timelib \<Rightarrow> dbval \<Rightarrow> string + int option" where
  "parseDBTime lib (DTime t) = Inr (Some t)"
| "parseDBTime lib (DString s) = parseTimeString lib s"
| "parseDBTime lib (DBytes s) = parseTimeString lib s"
| "parseDBTime lib (DInt64 v) = Inr (Some (v * 1000000000))"
| "parseDBTime lib DNil = Inr None"
| "parseDBTime lib (DOther typ) = Inl (''gai/orm: cannot scan '' @ typ @ '' into time.Time'')"

definition timeScanner_Scan :: "timelib \<Rightarrow> int \<Rightarrow> dbval \<Rightarrow> string + int" where
  "timeScanner_Scan lib old src =
     (case parseDBTime lib src of Inl e \<Rightarrow> Inl e | Inr (Some t) \<Rightarrow> Inr t | Inr None \<Rightarrow> Inr old)"

definition nullTimeScanner_Scan :: "timelib \<Rightarrow> dbval \<Rightarrow> string + int option" where
  "nullTimeScanner_Scan lib src =
     (if src = DNil \<or> src = DBytes [] \<or> src = DString [] then Inr None else parseDBTime lib src)"

definition bindArg :: "timelib \<Rightarrow> goval \<Rightarrow> goval" where
  "bindArg lib v =
     (case v of
        GTime t \<Rightarrow> GStr (format_utc lib t)
      | GTimePtr None \<Rightarrow> GNil
      | GTimePtr (Some t) \<Rightarrow> GStr (format_utc lib t)
      | _ \<Rightarrow> v)"

text \<open>
  \<^verbatim>\<open>wrapScanDest\<close> and the scan of one column into the field's old value: times go through the two scanners,
  everything else through \<^verbatim>\<open>database/sql\<close>'s own conversion, \<open>convert\<close>.
\<close>

definition wrapScanDest :: "timelib \<Rightarrow> (goval \<Rightarrow> dbval \<Rightarrow> string + goval) \<Rightarrow> goval \<Rightarrow> dbval \<Rightarrow> string + goval" where
  "wrapScanDest lib convert old src =
     (case old of
        GTime t \<Rightarrow> (case timeScanner_Scan lib t src of Inl e \<Rightarrow> Inl e | Inr t' \<Rightarrow> Inr (GTime t'))
      | GTimePtr p \<Rightarrow> (case nullTimeScanner_Scan lib src of Inl e \<Rightarrow> Inl e | Inr p' \<Rightarrow> Inr (GTimePtr p'))
      | _ \<Rightarrow> convert old src)"

text \<open>One row: the columns without a field are discarded.\<close>

fun scan_row :: "timelib \<Rightarrow> (goval \<Rightarrow> dbval \<Rightarrow> string + goval) \<Rightarrow> (string \<rightharpoonup> nat list) \<Rightarrow> (string \<times> dbval) list \<Rightarrow>
    gofield list \<Rightarrow> string + gofield list" where
  "scan_row lib convert fm [] item = Inr item"
| "scan_row lib convert fm ((col, src) # row) item =
     (case fm col of
        None \<Rightarrow> scan_row lib convert fm row item
      | Some p \<Rightarrow>
          (case field_at item p of
             None \<Rightarrow> scan_row lib convert fm row item
           | Some f \<Rightarrow>
               (case wrapScanDest lib convert (field_val f) src of
                  Inl e \<Rightarrow> Inl e
                | Inr v \<Rightarrow> scan_row lib convert fm row (store_at v p item))))"

fun scanRows :: "timelib \<Rightarrow> (goval \<Rightarrow> dbval \<Rightarrow> string + goval) \<Rightarrow> gofield list \<Rightarrow> string list \<Rightarrow> dbval list list \<Rightarrow>
    string + gofield list list" where
  "scanRows lib convert zero cols [] = Inr []"
| "scanRows lib convert zero cols (r # rs) =
     (case scan_row lib convert (buildFieldMap 0 zero Map.empty) (zip cols r) zero of
        Inl e \<Rightarrow> Inl (''gai/orm: scan failed: '' @ e)
      | Inr item \<Rightarrow>
          (case scanRows lib convert zero cols rs of Inl e \<Rightarrow> Inl e | Inr items \<Rightarrow> Inr (item # items)))"

section \<open>Hooks\<close>

text \<open>The hooks a model has, by name: a hook may change the model and the database, and may fail.\<close>

type_synonym 'w hooks = "string \<Rightarrow> (gofield list \<Rightarrow> 'w \<Rightarrow> string option \<times> gofield list \<times> 'w) option"

definition hook_names :: "string list" where
  "hook_names = [''BeforeCreate'', ''AfterCreate'', ''BeforeUpdate'', ''AfterUpdate'', ''BeforeDelete'', ''AfterDelete'']"

definition callHook :: "'w hooks \<Rightarrow> string \<Rightarrow> gofield list \<Rightarrow> 'w \<Rightarrow> string option \<times> gofield list \<times> 'w" where
  "callHook hooks name m w =
     (if name \<in> set hook_names then
        (case hooks name of
           None \<Rightarrow> (None, m, w)
         | Some h \<Rightarrow>
             (case h m w of
                (None, m', w') \<Rightarrow> (None, m', w')
              | (Some e, m', w') \<Rightarrow> (Some (''gai/orm: '' @ name @ '' hook: '' @ e), m', w')))
      else (None, m, w))"

section \<open>Statements of the CRUD helpers\<close>

text \<open>The value a field is saved with.\<close>

definition stamped :: "int \<Rightarrow> FieldInfo \<Rightarrow> goval \<Rightarrow> goval" where
  "stamped now f v = (if fi_Column f = ''created_at'' \<or> fi_Column f = ''updated_at'' then GTime now else v)"

definition skipped :: "FieldInfo \<Rightarrow> bool" where
  "skipped f \<longleftrightarrow> fi_PrimaryKey f \<or> fi_Relation f \<noteq> []"

text \<open>The loop of \<^verbatim>\<open>Create\<close>.\<close>

fun create_loop :: "timelib \<Rightarrow> DB \<Rightarrow> int \<Rightarrow> gofield list \<Rightarrow> FieldInfo list \<Rightarrow> string list \<times> string list \<times> goval list \<times> int \<Rightarrow>
    string list \<times> string list \<times> goval list \<times> int" where
  "create_loop lib d now m [] acc = acc"
| "create_loop lib d now m (f # fs) (cols, phs, args, idx) =
     (if skipped f then create_loop lib d now m fs (cols, phs, args, idx)
      else create_loop lib d now m fs
        (cols @ [db_quote d (fi_Column f)], phs @ [placeholder (DriverName d) idx],
         args @ [bindArg lib (stamped now f (fieldValue m (fi_Name f)))], idx + 1))"

definition Create_sql :: "timelib \<Rightarrow> DB \<Rightarrow> string \<Rightarrow> int \<Rightarrow> gofield list \<Rightarrow> string \<times> goval list" where
  "Create_sql lib d tbl now m =
     (case create_loop lib d now m (ParseFields m) ([], [], [], 1) of
        (cols, phs, args, idx) \<Rightarrow>
          (''INSERT INTO '' @ db_quote d tbl @ '' ('' @ join cols '', '' @ '') VALUES ('' @ join phs '', '' @ '')'', args))"

text \<open>The loop of \<^verbatim>\<open>Update\<close>; its last component is the value of the primary key.\<close>

fun update_loop :: "timelib \<Rightarrow> DB \<Rightarrow> int \<Rightarrow> gofield list \<Rightarrow> FieldInfo list \<Rightarrow> string list \<times> goval list \<times> int \<times> goval \<Rightarrow>
    string list \<times> goval list \<times> int \<times> goval" where
  "update_loop lib d now m [] acc = acc"
| "update_loop lib d now m (f # fs) (sets, args, idx, idVal) =
     (if fi_Relation f \<noteq> [] then update_loop lib d now m fs (sets, args, idx, idVal)
      else if fi_PrimaryKey f then update_loop lib d now m fs (sets, args, idx, fieldValue m (fi_Name f))
      else update_loop lib d now m fs
        (sets @ [db_quote d (fi_Column f) @ '' = '' @ placeholder (DriverName d) idx],
         args @ [bindArg lib (if fi_Column f = ''updated_at'' then GTime now else fieldValue m (fi_Name f))], idx + 1, idVal))"

definition Update_sql :: "timelib \<Rightarrow> DB \<Rightarrow> string \<Rightarrow> int \<Rightarrow> gofield list \<Rightarrow> string \<times> goval list" where
  "Update_sql lib d tbl now m =
     (case update_loop lib d now m (ParseFields m) ([], [], 1, GNil) of
        (sets, args, idx, idVal) \<Rightarrow>
          (''UPDATE '' @ db_quote d tbl @ '' SET '' @ join sets '', '' @ '' WHERE '' @ db_quote d ''id'' @ '' = ''
             @ placeholder (DriverName d) idx, args @ [idVal]))"

definition SoftDelete_sql :: "timelib \<Rightarrow> DB \<Rightarrow> string \<Rightarrow> int \<Rightarrow> goval \<Rightarrow> string \<times> goval list" where
  "SoftDelete_sql lib d tbl now idVal =
     (''UPDATE '' @ db_quote d tbl @ '' SET '' @ db_quote d ''deleted_at'' @ '' = '' @ placeholder (DriverName d) 1
        @ '' WHERE '' @ db_quote d ''id'' @ '' = '' @ placeholder (DriverName d) 2, [bindArg lib (GTime now), idVal])"

definition Delete_sql :: "DB \<Rightarrow> string \<Rightarrow> goval \<Rightarrow> string \<times> goval list" where
  "Delete_sql d tbl idVal =
     (''DELETE FROM '' @ db_quote d tbl @ '' WHERE '' @ db_quote d ''id'' @ '' = '' @ placeholder (DriverName d) 1, [idVal])"

definition Restore_sql :: "DB \<Rightarrow> string \<Rightarrow> goval \<Rightarrow> string \<times> goval list" where
  "Restore_sql d tbl idVal =
     (''UPDATE '' @ db_quote d tbl @ '' SET '' @ db_quote d ''deleted_at'' @ '' = NULL WHERE '' @ db_quote d ''id'' @ '' = ''
        @ placeholder (DriverName d) 1, [idVal])"

text \<open>The nested loops of \<^verbatim>\<open>Insert\<close>: the columns of one model, then the models.\<close>

fun insert_row :: "timelib \<Rightarrow> DB \<Rightarrow> int \<Rightarrow> gofield list \<Rightarrow> FieldInfo list \<Rightarrow> string list \<times> goval list \<times> int \<Rightarrow>
    string list \<times> goval list \<times> int" where
  "insert_row lib d now m [] acc = acc"
| "insert_row lib d now m (f # fs) (row, args, idx) =
     insert_row lib d now m fs
       (row @ [placeholder (DriverName d) idx], args @ [bindArg lib (stamped now f (fieldValue m (fi_Name f)))], idx + 1)"

fun insert_rows :: "timelib \<Rightarrow> DB \<Rightarrow> int \<Rightarrow> FieldInfo list \<Rightarrow> gofield list list \<Rightarrow> string list \<times> goval list \<times> int \<Rightarrow>
    string list \<times> goval list \<times> int" where
  "insert_rows lib d now meta [] acc = acc"
| "insert_rows lib d now meta (m # ms) (phs, args, idx) =
     (case insert_row lib d now m meta ([], args, idx) of
        (row, args', idx') \<Rightarrow> insert_rows lib d now meta ms (phs @ [''('' @ join row '', '' @ '')''], args', idx'))"

definition Insert_sql :: "timelib \<Rightarrow> DB \<Rightarrow> string \<Rightarrow> int \<Rightarrow> gofield list list \<Rightarrow> string \<times> goval list" where
  "Insert_sql lib d tbl now ms =
     (let meta = filter (\<lambda>f. \<not> skipped f) (ParseFields (hd ms)) in
      case insert_rows lib d now meta ms ([], [], 1) of
        (phs, args, idx) \<Rightarrow>
          (''INSERT INTO '' @ db_quote d tbl @ '' ('' @ join (map (\<lambda>f. db_quote d (fi_Column f)) meta) '', '' @ '') VALUES ''
             @ join phs '', '', args))"

section \<open>The CRUD helpers\<close>

text \<open>
  The connection: \<^verbatim>\<open>Exec\<close> gives an error or the result of \<^verbatim>\<open>LastInsertId\<close>, \<^verbatim>\<open>QueryRow\<close> the scanned id, \<^verbatim>\<open>Query\<close>
  the columns and rows. An operation ends well, with an error, or in a panic.
\<close>

record 'w conn =
  c_exec :: "string \<Rightarrow> goval list \<Rightarrow> 'w \<Rightarrow> (string + (string + int)) \<times> 'w"
  c_queryRow :: "string \<Rightarrow> goval list \<Rightarrow> 'w \<Rightarrow> (string + int) \<times> 'w"
  c_query :: "string \<Rightarrow> goval list \<Rightarrow> 'w \<Rightarrow> (string + (string list \<times> dbval list list)) \<times> 'w"

datatype outcome = Done | Failed string | Panicked

definition insert_id :: "'w conn \<Rightarrow> DB \<Rightarrow> string \<times> goval list \<Rightarrow> 'w \<Rightarrow> (string + int) \<times> 'w" where
  "insert_id cn d stmt w =
     (if DriverName d = ''postgres'' then
        (case c_queryRow cn (fst stmt @ '' RETURNING id'') (snd stmt) w of
           (Inl e, w') \<Rightarrow> (Inl (''gai/orm: insert failed: '' @ e), w')
         | (Inr i, w') \<Rightarrow> (Inr i, w'))
      else
        (case c_exec cn (fst stmt) (snd stmt) w of
           (Inl e, w') \<Rightarrow> (Inl (''gai/orm: insert failed: '' @ e), w')
         | (Inr (Inl e), w') \<Rightarrow> (Inl (''gai/orm: failed to get last insert id: '' @ e), w')
         | (Inr (Inr i), w') \<Rightarrow> (Inr i, w')))"

definition set_saved :: "int \<Rightarrow> int \<Rightarrow> gofield list \<Rightarrow> gofield list option" where
  "set_saved i now m =
     Option.bind (setFieldValue m ''ID'' (GUint64 (i mod 18446744073709551616)))
       (\<lambda>m. Option.bind (setFieldValue m ''CreatedAt'' (GTime now))
         (\<lambda>m. setFieldValue m ''UpdatedAt'' (GTime now)))"

definition after_hook :: "'w hooks \<Rightarrow> string \<Rightarrow> gofield list \<Rightarrow> 'w \<Rightarrow> outcome \<times> gofield list \<times> 'w" where
  "after_hook hooks name m w =
     (case callHook hooks name m w of
        (Some e, m', w') \<Rightarrow> (Failed e, m', w')
      | (None, m', w') \<Rightarrow> (Done, m', w'))"

definition Create :: "timelib \<Rightarrow> 'w conn \<Rightarrow> 'w hooks \<Rightarrow> DB \<Rightarrow> string \<Rightarrow> int \<Rightarrow> gofield list \<Rightarrow> 'w \<Rightarrow>
    outcome \<times> gofield list \<times> 'w" where
  "Create lib cn hooks d tbl now m w =
     (let stmt = Create_sql lib d tbl now m in
      case callHook hooks ''BeforeCreate'' m w of
        (Some e, m1, w1) \<Rightarrow> (Failed e, m1, w1)
      | (None, m1, w1) \<Rightarrow>
          (case insert_id cn d stmt w1 of
             (Inl e, w2) \<Rightarrow> (Failed e, m1, w2)
           | (Inr i, w2) \<Rightarrow>
               (case set_saved i now m1 of
                  None \<Rightarrow> (Panicked, m1, w2)
                | Some m2 \<Rightarrow> after_hook hooks ''AfterCreate'' m2 w2)))"

definition Update :: "timelib \<Rightarrow> 'w conn \<Rightarrow> 'w hooks \<Rightarrow> DB \<Rightarrow> string \<Rightarrow> int \<Rightarrow> gofield list \<Rightarrow> 'w \<Rightarrow>
    outcome \<times> gofield list \<times> 'w" where
  "Update lib cn hooks d tbl now m w =
     (case callHook hooks ''BeforeUpdate'' m w of
        (Some e, m1, w1) \<Rightarrow> (Failed e, m1, w1)
      | (None, m1, w1) \<Rightarrow>
          (let stmt = Update_sql lib d tbl now m1 in
           case c_exec cn (fst stmt) (snd stmt) w1 of
             (Inl e, w2) \<Rightarrow> (Failed (''gai/orm: update failed: '' @ e), m1, w2)
           | (Inr _, w2) \<Rightarrow>
               (case setFieldValue m1 ''UpdatedAt'' (GTime now) of
                  None \<Rightarrow> (Panicked, m1, w2)
                | Some m2 \<Rightarrow> after_hook hooks ''AfterUpdate'' m2 w2)))"

definition Delete :: "timelib \<Rightarrow> 'w conn \<Rightarrow> 'w hooks \<Rightarrow> DB \<Rightarrow> string \<Rightarrow> int \<Rightarrow> gofield list \<Rightarrow> 'w \<Rightarrow>
    outcome \<times> gofield list \<times> 'w" where
  "Delete lib cn hooks d tbl now m w =
     (let soft = list_ex fi_SoftDelete (ParseFields m) in
      case callHook hooks ''BeforeDelete'' m w of
        (Some e, m1, w1) \<Rightarrow> (Failed e, m1, w1)
      | (None, m1, w1) \<Rightarrow>
          (let idVal = fieldValue m1 ''ID'';
               stmt = (if soft then SoftDelete_sql lib d tbl now idVal else Delete_sql d tbl idVal) in
           case c_exec cn (fst stmt) (snd stmt) w1 of
             (Inl e, w2) \<Rightarrow> (Failed ((if soft then ''gai/orm: soft delete failed: '' else ''gai/orm: delete failed: '') @ e), m1, w2)
           | (Inr _, w2) \<Rightarrow> after_hook hooks ''AfterDelete'' m1 w2))"

definition ForceDelete :: "'w conn \<Rightarrow> 'w hooks \<Rightarrow> DB \<Rightarrow> string \<Rightarrow> gofield list \<Rightarrow> 'w \<Rightarrow> outcome \<times> gofield list \<times> 'w" where
  "ForceDelete cn hooks d tbl m w =
     (case callHook hooks ''BeforeDelete'' m w of
        (Some e, m1, w1) \<Rightarrow> (Failed e, m1, w1)
      | (None, m1, w1) \<Rightarrow>
          (let stmt = Delete_sql d tbl (fieldValue m1 ''ID'') in
           case c_exec cn (fst stmt) (snd stmt) w1 of
             (Inl e, w2) \<Rightarrow> (Failed (''gai/orm: force delete failed: '' @ e), m1, w2)
           | (Inr _, w2) \<Rightarrow> after_hook hooks ''AfterDelete'' m1 w2))"

definition Restore :: "'w conn \<Rightarrow> DB \<Rightarrow> string \<Rightarrow> gofield list \<Rightarrow> 'w \<Rightarrow> outcome \<times> gofield list \<times> 'w" where
  "Restore cn d tbl m w =
     (let stmt = Restore_sql d tbl (fieldValue m ''ID'') in
      case c_exec cn (fst stmt) (snd stmt) w of
        (Inl e, w') \<Rightarrow> (Failed (''gai/orm: restore failed: '' @ e), m, w')
      | (Inr _, w') \<Rightarrow>
          (case setFieldValue m ''DeletedAt'' (GTimePtr None) of None \<Rightarrow> (Panicked, m, w') | Some m' \<Rightarrow> (Done, m', w')))"

definition Insert :: "timelib \<Rightarrow> 'w conn \<Rightarrow> DB \<Rightarrow> string \<Rightarrow> int \<Rightarrow> gofield list list \<Rightarrow> 'w \<Rightarrow> outcome \<times> 'w" where
  "Insert lib cn d tbl now ms w =
     (if ms = [] then (Done, w)
      else let stmt = Insert_sql lib d tbl now ms in
        case c_exec cn (fst stmt) (snd stmt) w of
          (Inl e, w') \<Rightarrow> (Failed (''gai/orm: bulk insert failed: '' @ e), w')
        | (Inr _, w') \<Rightarrow> (Done, w'))"

definition Get_rows :: "timelib \<Rightarrow> (goval \<Rightarrow> dbval \<Rightarrow> string + goval) \<Rightarrow> 'w conn \<Rightarrow> gofield list \<Rightarrow> QueryBuilder \<Rightarrow> 'w \<Rightarrow>
    (string + gofield list list) \<times> 'w" where
  "Get_rows lib convert cn zero q w =
     (case c_query cn (fst (buildSelect q)) (snd (buildSelect q)) w of
        (Inl e, w') \<Rightarrow> (Inl (''gai/orm: query failed: '' @ e), w')
      | (Inr (cols, rows), w') \<Rightarrow> (scanRows lib convert zero cols rows, w'))"

definition First :: "timelib \<Rightarrow> (goval \<Rightarrow> dbval \<Rightarrow> string + goval) \<Rightarrow> 'w conn \<Rightarrow> gofield list \<Rightarrow> QueryBuilder \<Rightarrow> 'w \<Rightarrow>
    (string + gofield list option) \<times> 'w" where
  "First lib convert cn zero q w =
     (case Get_rows lib convert cn zero (q\<lparr>limitVal := 1\<rparr>) w of
        (Inl e, w') \<Rightarrow> (Inl e, w')
      | (Inr [], w') \<Rightarrow> (Inr None, w')
      | (Inr (item # _), w') \<Rightarrow> (Inr (Some item), w'))"

definition FirstOrCreate :: "timelib \<Rightarrow> (goval \<Rightarrow> dbval \<Rightarrow> string + goval) \<Rightarrow> 'w conn \<Rightarrow> 'w hooks \<Rightarrow> gofield list \<Rightarrow> QueryBuilder \<Rightarrow>
    string \<Rightarrow> int \<Rightarrow> gofield list \<Rightarrow> 'w \<Rightarrow> outcome \<times> gofield list \<times> 'w" where
  "FirstOrCreate lib convert cn hooks zero q tbl now attrs w =
     (case First lib convert cn zero q w of
        (Inl e, w') \<Rightarrow> (Failed e, attrs, w')
      | (Inr (Some found), w') \<Rightarrow> (Done, found, w')
      | (Inr None, w') \<Rightarrow> Create lib cn hooks (db q) tbl now attrs w')"

text \<open>The zero values; a slice without elements counts as the nil slice.\<close>

definition zero_time :: int where
  "zero_time = -62135596800000000000"

fun is_zero :: "goval \<Rightarrow> bool" where
  "is_zero GNil = True"
| "is_zero (GBool b) = (\<not> b)"
| "is_zero (GInt i) = (i = 0)"
| "is_zero (GInt64 i) = (i = 0)"
| "is_zero (GUint64 i) = (i = 0)"
| "is_zero (GFloat r) = (r = 0)"
| "is_zero (GStr s) = (s = [])"
| "is_zero (GErr s) = False"
| "is_zero (GPtr n) = False"
| "is_zero (GList vs) = (vs = [])"
| "is_zero (GMap kvs) = False"
| "is_zero GNilMap = True"
| "is_zero (GTime t) = (t = zero_time)"
| "is_zero (GTimePtr p) = (p = None)"

text \<open>\<^verbatim>\<open>copyNonZeroFields\<close> on two structs of the same type.\<close>

fun copyNonZeroFields :: "gofield list \<Rightarrow> gofield list \<Rightarrow> gofield list" where
  "copyNonZeroFields (Plain n e t k old # dst) (Plain n' e' t' k' v # src) =
     Plain n e t k (if e' \<and> \<not> is_zero v then v else old) # copyNonZeroFields dst src"
| "copyNonZeroFields (Embedded n e d # dst) (Embedded n' e' s # src) =
     Embedded n e (if e' then copyNonZeroFields d s else d) # copyNonZeroFields dst src"
| "copyNonZeroFields dst src = dst"

definition UpdateOrCreate :: "timelib \<Rightarrow> (goval \<Rightarrow> dbval \<Rightarrow> string + goval) \<Rightarrow> 'w conn \<Rightarrow> 'w hooks \<Rightarrow> gofield list \<Rightarrow> QueryBuilder \<Rightarrow>
    string \<Rightarrow> int \<Rightarrow> gofield list \<Rightarrow> 'w \<Rightarrow> outcome \<times> gofield list \<times> 'w" where
  "UpdateOrCreate lib convert cn hooks zero q tbl now attrs w =
     (case First lib convert cn zero q w of
        (Inl e, w') \<Rightarrow> (Failed e, attrs, w')
      | (Inr None, w') \<Rightarrow> Create lib cn hooks (db q) tbl now attrs w'
      | (Inr (Some found), w') \<Rightarrow> Update lib cn hooks (db q) tbl now (copyNonZeroFields found attrs) w')"

section \<open>Fields after an assignment\<close>

lemma fd_name_set [simp]: "fd_name (set_plain name v f) = fd_name f" "fd_name (under g f) = fd_name f"
  by (cases f; simp)+

lemma sub_fields_set [simp]: "sub_fields (set_plain name v f) = sub_fields f" "sub_fields (under map_g f) = (if sub_fields f = [] \<and> (\<exists>n e t k v. f = Plain n e t k v) then [] else map_g (sub_fields f))"
  by (cases f; simp)+

lemma set_at_Nil [simp]: "set_at d name v [] = []" "set_at d name v fs = [] \<longleftrightarrow> fs = []"
  by (cases d; simp)+

lemma set_at_append: "set_at d name v (fs @ gs) = set_at d name v fs @ set_at d name v gs"
  by (cases d) simp_all

lemma next_level_set_at:
  "next_level (set_at 0 name v fs) = next_level fs"
  "next_level (set_at (Suc d) name v fs) = set_at d name v (next_level fs)"
proof -
  show "next_level (set_at 0 name v fs) = next_level fs"
    by (simp add: next_level_def o_def)
  show "next_level (set_at (Suc d) name v fs) = set_at d name v (next_level fs)"
  proof (induction fs)
    case (Cons f fs)
    then show ?case by (cases f) (simp_all add: next_level_def set_at_append)
  qed (simp add: next_level_def)
qed

lemma filter_name_set_at:
  "filter (\<lambda>f. fd_name f = n) (set_at d name v fs) =
     (case d of 0 \<Rightarrow> map (set_plain name v) (filter (\<lambda>f. fd_name f = n) fs)
      | Suc d' \<Rightarrow> map (under (set_at d' name v)) (filter (\<lambda>f. fd_name f = n) fs))"
  by (cases d) (simp_all add: filter_map o_def)

text \<open>A field found at a depth is found there again with its new value; fields of other names keep theirs.\<close>

lemma FieldByName_depth: "FieldByName name d fs = Some (k, f) \<Longrightarrow> d \<le> k"
proof (induction name d fs rule: FieldByName.induct)
  case (1 name d fs)
  then show ?case
    by (subst (asm) (2) FieldByName.simps) (fastforce split: if_splits list.splits)
qed

lemma FieldByName_set_same:
  "FieldByName name d fs = Some (k, Plain n e t kd old) \<Longrightarrow>
     FieldByName name d (set_at (k - d) name v fs) = Some (k, Plain n e t kd v)"
proof (induction name d fs rule: FieldByName.induct)
  case (1 name d fs)
  from "1.prems" have ne: "fs \<noteq> []" by (auto simp: FieldByName.simps)
  consider (here) "filter (\<lambda>f. fd_name f = name) fs = [Plain n e t kd old]" "k = d"
    | (below) "filter (\<lambda>f. fd_name f = name) fs = []" "FieldByName name (Suc d) (next_level fs) = Some (k, Plain n e t kd old)"
    using "1.prems" by (subst (asm) FieldByName.simps) (auto split: if_splits list.splits)
  then show ?case
  proof cases
    case here
    then have "Plain n e t kd old \<in> set (filter (\<lambda>f. fd_name f = name) fs)" by simp
    then have "n = name" by simp
    with here ne show ?thesis by (subst FieldByName.simps) (simp add: filter_map o_def)
  next
    case below
    obtain j where j: "k - d = Suc j" "j = k - Suc d" using FieldByName_depth [OF below(2)] by (cases "k - d") auto
    have "FieldByName name (Suc d) (set_at j name v (next_level fs)) = Some (k, Plain n e t kd v)"
      using "1.IH" [OF ne below] unfolding j(2) .
    with ne below(1) show ?thesis unfolding j(1)
      by (subst FieldByName.simps) (simp add: next_level_set_at filter_name_set_at del: set_at.simps)
  qed
qed

lemma FieldByName_set_other:
  "n \<noteq> name \<Longrightarrow> map_option (\<lambda>(k, f). (k, field_val f)) (FieldByName n d (set_at j name v fs)) =
     map_option (\<lambda>(k, f). (k, field_val f)) (FieldByName n d fs)"
proof (induction n d fs arbitrary: j rule: FieldByName.induct)
  case (1 n d fs)
  show ?case
  proof (cases "filter (\<lambda>f. fd_name f = n) fs")
    case Nil
    with "1.IH" [OF _ Nil "1.prems"] show ?thesis
      by (subst (1 2) FieldByName.simps) (cases j; simp add: next_level_set_at filter_name_set_at del: set_at.simps)
  next
    case (Cons f gs)
    then have f: "fs \<noteq> []" "fd_name f = n" by (auto simp: filter_eq_Cons_iff)
    have "field_val (set_plain name v f) = field_val f" "field_val (under g f) = field_val f" for g
      using f "1.prems" by (cases f; simp)+
    with Cons f(1) show ?thesis
      by (subst (1 2) FieldByName.simps) (cases gs; cases j; simp add: filter_name_set_at del: set_at.simps)
  qed
qed

definition has_field :: "gofield list \<Rightarrow> string \<Rightarrow> goval \<Rightarrow> bool" where
  "has_field m name v \<longleftrightarrow> (case FieldByName name 0 m of Some (_, Plain _ _ _ _ old) \<Rightarrow> same_type old v | _ \<Rightarrow> False)"

lemma has_fieldE:
  assumes "has_field m name v"
  obtains k n e t kd old where "FieldByName name 0 m = Some (k, Plain n e t kd old)" and "same_type old v"
  using assms by (auto simp: has_field_def split: option.split_asm prod.split_asm gofield.split_asm)

lemma setFieldValue_known:
  assumes "has_field m name v"
  obtains m' where "setFieldValue m name v = Some m'" and "fieldValue m' name = v"
    and "\<And>n u. has_field m n u \<Longrightarrow> has_field m' n u"
    and "\<And>n u. n \<noteq> name \<Longrightarrow> has_field m n u \<Longrightarrow> fieldValue m' n = fieldValue m n"
proof -
  obtain k n e t kd old where f: "FieldByName name 0 m = Some (k, Plain n e t kd old)" "same_type old v"
    using assms by (rule has_fieldE)
  define m' where "m' = set_at k name v m"
  have same: "FieldByName name 0 m' = Some (k, Plain n e t kd v)"
    using FieldByName_set_same [OF f(1), of v] by (simp add: m'_def)
  have other: "has_field m' n u \<and> fieldValue m' n = fieldValue m n" if n: "n \<noteq> name" "has_field m n u" for n u
  proof -
    obtain k1 n1 e1 t1 kd1 old1 where f1: "FieldByName n 0 m = Some (k1, Plain n1 e1 t1 kd1 old1)" "same_type old1 u"
      using n(2) by (rule has_fieldE)
    obtain f2 where f2: "FieldByName n 0 m' = Some (k1, f2)" "field_val f2 = old1"
      using FieldByName_set_other [OF n(1), of 0 k v m] f1(1) by (auto simp: m'_def)
    then show ?thesis using f1 by (cases f2) (auto simp: has_field_def fieldValue_def same_type_def)
  qed
  show ?thesis
  proof
    show "setFieldValue m name v = Some m'" using f by (simp add: setFieldValue_def set_found_def m'_def)
    show "fieldValue m' name = v" using same by (simp add: fieldValue_def)
    show "has_field m' n u" if "has_field m n u" for n u
      using that same f other by (cases "n = name") (auto simp: has_field_def same_type_def)
    show "fieldValue m' n = fieldValue m n" if "n \<noteq> name" "has_field m n u" for n u
      using other that by blast
  qed
qed

section \<open>Saving a model\<close>

lemma set_saved_known:
  assumes "has_field m ''ID'' (GUint64 0)" and "has_field m ''CreatedAt'' (GTime 0)" and "has_field m ''UpdatedAt'' (GTime 0)"
  obtains m' where "set_saved i now m = Some m'" and "fieldValue m' ''ID'' = GUint64 (i mod 18446744073709551616)"
    and "fieldValue m' ''CreatedAt'' = GTime now" and "fieldValue m' ''UpdatedAt'' = GTime now"
    and "\<And>n u. n \<notin> {''ID'', ''CreatedAt'', ''UpdatedAt''} \<Longrightarrow> has_field m n u \<Longrightarrow> fieldValue m' n = fieldValue m n"
proof -
  have st: "same_type old (GUint64 x) = same_type old (GUint64 0)" "same_type old (GTime y) = same_type old (GTime 0)" for old x y
    by (simp_all add: same_type_def)
  have hf: "has_field p n (GUint64 x) = has_field p n (GUint64 0)" "has_field p n (GTime y) = has_field p n (GTime 0)" for p n x y
    unfolding has_field_def st(1) [of _ x] st(2) [of _ y] by simp_all
  obtain m1 where m1: "setFieldValue m ''ID'' (GUint64 (i mod 18446744073709551616)) = Some m1"
      "fieldValue m1 ''ID'' = GUint64 (i mod 18446744073709551616)" "\<And>n u. has_field m n u \<Longrightarrow> has_field m1 n u"
      "\<And>n u. n \<noteq> ''ID'' \<Longrightarrow> has_field m n u \<Longrightarrow> fieldValue m1 n = fieldValue m n"
    by (rule setFieldValue_known [of m "''ID''" "GUint64 (i mod 18446744073709551616)"]) (use assms(1) hf in blast)+
  obtain m2 where m2: "setFieldValue m1 ''CreatedAt'' (GTime now) = Some m2" "fieldValue m2 ''CreatedAt'' = GTime now"
      "\<And>n u. has_field m1 n u \<Longrightarrow> has_field m2 n u"
      "\<And>n u. n \<noteq> ''CreatedAt'' \<Longrightarrow> has_field m1 n u \<Longrightarrow> fieldValue m2 n = fieldValue m1 n"
    by (rule setFieldValue_known [of m1 "''CreatedAt''" "GTime now"]) (use assms(2) m1(3) hf in blast)+
  obtain m3 where m3: "setFieldValue m2 ''UpdatedAt'' (GTime now) = Some m3" "fieldValue m3 ''UpdatedAt'' = GTime now"
      "\<And>n u. n \<noteq> ''UpdatedAt'' \<Longrightarrow> has_field m2 n u \<Longrightarrow> fieldValue m3 n = fieldValue m2 n"
    by (rule setFieldValue_known [of m2 "''UpdatedAt''" "GTime now"]) (use assms(3) m1(3) m2(3) hf in blast)+
  show ?thesis
  proof
    show "set_saved i now m = Some m3" by (simp add: set_saved_def m1(1) m2(1) m3(1))
    show "fieldValue m3 ''ID'' = GUint64 (i mod 18446744073709551616)"
      using m3(3) [OF _ m2(3) [OF m1(3) [OF assms(1)]]] m2(4) [OF _ m1(3) [OF assms(1)]] m1(2) by simp
    show "fieldValue m3 ''CreatedAt'' = GTime now"
      using m3(3) [OF _ m2(3) [OF m1(3) [OF assms(2)]]] m2(2) by simp
    show "fieldValue m3 ''UpdatedAt'' = GTime now" by (rule m3(2))
    show "fieldValue m3 n = fieldValue m n" if "n \<notin> {''ID'', ''CreatedAt'', ''UpdatedAt''}" "has_field m n u" for n u
      using m3(3) [OF _ m2(3) [OF m1(3) [OF that(2)]]] m2(4) [OF _ m1(3) [OF that(2)]] m1(4) [OF _ that(2)] that(1) by simp
  qed
qed

text \<open>
  When the insertion succeeds, the model comes back complete. With the fields of the
  framework's base model and no hooks, \<^verbatim>\<open>Create\<close> never panics, ends well, and leaves in the model the identifier
  the database assigned and the two timestamps, all other fields as they were.
\<close>

lemma create_fills_model:
  assumes "has_field m ''ID'' (GUint64 0)" "has_field m ''CreatedAt'' (GTime 0)" "has_field m ''UpdatedAt'' (GTime 0)"
    and "hooks ''BeforeCreate'' = None" "hooks ''AfterCreate'' = None"
    and "insert_id cn d (Create_sql lib d tbl now m) w = (Inr i, w')"
  shows "\<exists>m'. Create lib cn hooks d tbl now m w = (Done, m', w') \<and>
     fieldValue m' ''ID'' = GUint64 (i mod 18446744073709551616) \<and>
     fieldValue m' ''CreatedAt'' = GTime now \<and> fieldValue m' ''UpdatedAt'' = GTime now \<and>
     (\<forall>n u. n \<notin> {''ID'', ''CreatedAt'', ''UpdatedAt''} \<longrightarrow> has_field m n u \<longrightarrow> fieldValue m' n = fieldValue m n)"
proof -
  obtain m' where "set_saved i now m = Some m'" "fieldValue m' ''ID'' = GUint64 (i mod 18446744073709551616)"
    "fieldValue m' ''CreatedAt'' = GTime now" "fieldValue m' ''UpdatedAt'' = GTime now"
    "\<And>n u. n \<notin> {''ID'', ''CreatedAt'', ''UpdatedAt''} \<Longrightarrow> has_field m n u \<Longrightarrow> fieldValue m' n = fieldValue m n"
    by (rule set_saved_known [OF assms(1-3), of i now]) blast
  with assms(4-6) show ?thesis
    by (auto simp: Create_def Let_def callHook_def after_hook_def intro!: exI [of _ m'])
qed

definition sample_model :: "gofield list" where
  "sample_model =
     [Embedded ''Model'' True
        [Plain ''ID'' True ''column:id;primaryKey'' KScalar (GUint64 0),
         Plain ''CreatedAt'' True ''column:created_at'' KTime (GTime zero_time),
         Plain ''UpdatedAt'' True ''column:updated_at'' KTime (GTime zero_time),
         Plain ''DeletedAt'' True ''column:deleted_at;softDelete'' KScalar (GTimePtr None)],
      Plain ''Name'' True [] KScalar (GStr ''Ada'')]"

definition sample_lib :: timelib where
  "sample_lib = \<lparr>format_utc = itoa, time_Parse = \<lambda>_. parse_int, time_ParseInLocal = \<lambda>_ _. None\<rparr>"

text \<open>A connection that records its statements and numbers the rows.\<close>

definition sample_conn :: "(string \<times> goval list) list conn" where
  "sample_conn =
     \<lparr>c_exec = \<lambda>s as w. (Inr (Inr (int (length w) + 1)), w @ [(s, as)]),
      c_queryRow = \<lambda>s as w. (Inr (int (length w) + 1), w @ [(s, as)]),
      c_query = \<lambda>s as w. (Inr ([], []), w @ [(s, as)])\<rparr>"

definition sample_db :: DB where
  "sample_db = \<lparr>DriverName = ''sqlite'', db_QuoteIdent = None\<rparr>"

lemma sample_FieldByName:
  "FieldByName ''ID'' 0 sample_model = Some (1, Plain ''ID'' True ''column:id;primaryKey'' KScalar (GUint64 0))"
  "FieldByName ''CreatedAt'' 0 sample_model = Some (1, Plain ''CreatedAt'' True ''column:created_at'' KTime (GTime zero_time))"
  "FieldByName ''UpdatedAt'' 0 sample_model = Some (1, Plain ''UpdatedAt'' True ''column:updated_at'' KTime (GTime zero_time))"
  "FieldByName ''DeletedAt'' 0 sample_model = Some (1, Plain ''DeletedAt'' True ''column:deleted_at;softDelete'' KScalar (GTimePtr None))"
  "FieldByName ''Name'' 0 sample_model = Some (0, Plain ''Name'' True [] KScalar (GStr ''Ada''))"
  by (simp_all add: FieldByName.simps sample_model_def next_level_def)

lemma sample_has_field:
  "has_field sample_model ''ID'' (GUint64 0)" "has_field sample_model ''CreatedAt'' (GTime 0)" "has_field sample_model ''UpdatedAt'' (GTime 0)"
  by (simp_all add: has_field_def sample_FieldByName same_type_def)

lemma create_fills_model_example:
  "\<exists>m' w'. Create sample_lib sample_conn (\<lambda>_. None) sample_db ''users'' 7 sample_model [] = (Done, m', w') \<and>
     fieldValue m' ''ID'' = GUint64 1 \<and> fieldValue m' ''CreatedAt'' = GTime 7"
proof -
  have "insert_id sample_conn sample_db (Create_sql sample_lib sample_db ''users'' 7 sample_model) [] =
      (Inr 1, [Create_sql sample_lib sample_db ''users'' 7 sample_model])"
    by (simp add: insert_id_def sample_conn_def sample_db_def)
  from create_fills_model [OF sample_has_field _ _ this, of "\<lambda>_. None"] show ?thesis by auto
qed

text \<open>
  \<^verbatim>\<open>Create\<close> collects its arguments before it calls \<^verbatim>\<open>BeforeCreate\<close>: what the hook changes in the model is not saved
  and the caller gets back a model that differs from the row (\<^verbatim>\<open>Update\<close> calls its hook first).
\<close>

lemma create_ignores_hook_changes:
  assumes "hooks ''BeforeCreate'' = Some (\<lambda>m w. (None, g m, w))" and "DriverName d \<noteq> ''postgres''"
    and "c_exec cn = (\<lambda>s as w. (Inr (Inr i), (s, as) # w))" and "hooks ''AfterCreate'' = None"
  shows "snd (snd (Create lib cn hooks d tbl now m w)) = Create_sql lib d tbl now m # w"
  using assms by (auto simp: Create_def Let_def callHook_def hook_names_def insert_id_def after_hook_def split: option.split)

text \<open>
  A hook that runs before the operation can veto it. When \<^verbatim>\<open>BeforeCreate\<close>, \<^verbatim>\<open>BeforeUpdate\<close> or
  \<^verbatim>\<open>BeforeDelete\<close> fails, the operation fails with the hook's error and no statement reaches the database: its
  state is the one the hook left.
\<close>

lemma before_hook_vetoes:
  assumes "h m w = (Some e, m', w')"
  shows "(hooks ''BeforeCreate'' = Some h \<longrightarrow>
      Create lib cn hooks d tbl now m w = (Failed (''gai/orm: BeforeCreate hook: '' @ e), m', w')) \<and>
    (hooks ''BeforeUpdate'' = Some h \<longrightarrow>
      Update lib cn hooks d tbl now m w = (Failed (''gai/orm: BeforeUpdate hook: '' @ e), m', w')) \<and>
    (hooks ''BeforeDelete'' = Some h \<longrightarrow>
      Delete lib cn hooks d tbl now m w = (Failed (''gai/orm: BeforeDelete hook: '' @ e), m', w') \<and>
      ForceDelete cn hooks d tbl m w = (Failed (''gai/orm: BeforeDelete hook: '' @ e), m', w'))"
  using assms by (simp add: Create_def Update_def Delete_def ForceDelete_def Let_def callHook_def hook_names_def)

lemma before_hook_vetoes_example:
  "Create sample_lib sample_conn (\<lambda>_. Some (\<lambda>m w. (Some ''no'', m, w))) sample_db ''users'' 7 sample_model [] =
     (Failed ''gai/orm: BeforeCreate hook: no'', sample_model, []) \<and>
   Delete sample_lib sample_conn (\<lambda>_. Some (\<lambda>m w. (Some ''no'', m, w))) sample_db ''users'' 7 sample_model [] =
     (Failed ''gai/orm: BeforeDelete hook: no'', sample_model, [])"
  using before_hook_vetoes [of "\<lambda>m w. (Some ''no'', m, w)" sample_model "[]" "''no''" sample_model "[]"
      "\<lambda>_. Some (\<lambda>m w. (Some ''no'', m, w))" sample_lib sample_conn sample_db "''users''" 7]
  by simp

section \<open>Bulk insertion\<close>

lemma insert_row_eq:
  "insert_row lib d now m fs (row, args, idx) =
     (row @ map (placeholder (DriverName d)) [idx..idx + int (length fs) - 1],
      args @ map (\<lambda>f. bindArg lib (stamped now f (fieldValue m (fi_Name f)))) fs, idx + int (length fs))"
proof (induction fs arbitrary: row args idx)
  case (Cons f fs)
  have "[idx..idx + int (length (f # fs)) - 1] = idx # [idx + 1..idx + 1 + int (length fs) - 1]"
    by (simp add: upto_rec1)
  then show ?case by (simp add: Cons.IH algebra_simps)
qed simp

lemma insert_rows_eq:
  "insert_rows lib d now meta ms (phs, args, idx) =
     (phs @ map (\<lambda>i. ''('' @ join (map (placeholder (DriverName d)) [idx + int i * int (length meta)..idx + int i * int (length meta) + int (length meta) - 1]) '', '' @ '')'') [0..<length ms],
      args @ concat (map (\<lambda>m. map (\<lambda>f. bindArg lib (stamped now f (fieldValue m (fi_Name f)))) meta) ms),
      idx + int (length ms) * int (length meta))"
proof (induction ms arbitrary: phs args idx)
  case (Cons m ms)
  have "[0..<length (m # ms)] = 0 # map Suc [0..<length ms]" by (simp add: upt_conv_Cons map_Suc_upt del: upt_Suc)
  then show ?case by (simp add: insert_row_eq Cons.IH o_def algebra_simps del: upt_Suc)
qed simp

lemma nth_concat_uniform:
  "(\<And>x. x \<in> set xs \<Longrightarrow> length (g x) = k) \<Longrightarrow> i < length xs \<Longrightarrow> j < k \<Longrightarrow> concat (map g xs) ! (i * k + j) = g (xs ! i) ! j"
proof (induction xs arbitrary: i)
  case (Cons x xs)
  then show ?case by (cases i) (auto simp: nth_append)
qed simp

text \<open>
  Property C21: a bulk insertion puts every value where it belongs. With \<open>k\<close> saved columns the statement has
  \<open>k\<close> arguments per model; the argument of model \<open>i\<close> and column \<open>j\<close> stands at position \<open>i * k + j\<close>, it
  is the model's field (or the time of the insertion for the two timestamps), and row \<open>i\<close> of the \<^verbatim>\<open>VALUES\<close> list has exactly the
  placeholders of these positions.
\<close>

theorem insert_aligned:
  assumes "meta = filter (\<lambda>f. \<not> skipped f) (ParseFields (hd ms))" and "k = length meta"
    and "i < length ms" and "j < k"
  shows "\<exists>rows args. Insert_sql lib d tbl now ms =
        (''INSERT INTO '' @ db_quote d tbl @ '' ('' @ join (map (\<lambda>f. db_quote d (fi_Column f)) meta) '', '' @ '') VALUES '' @ join rows '', '', args) \<and>
      length rows = length ms \<and> length args = length ms * k \<and>
      rows ! i = ''('' @ join (map (placeholder (DriverName d)) [int (i * k) + 1..int (i * k) + int k]) '', '' @ '')'' \<and>
      args ! (i * k + j) = bindArg lib (stamped now (meta ! j) (fieldValue (ms ! i) (fi_Name (meta ! j))))"
proof -
  let ?row = "\<lambda>i. ''('' @ join (map (placeholder (DriverName d)) [int (i * k) + 1..int (i * k) + int k]) '', '' @ '')''"
  let ?args = "concat (map (\<lambda>m. map (\<lambda>f. bindArg lib (stamped now f (fieldValue m (fi_Name f)))) meta) ms)"
  have len: "length (concat (map (\<lambda>m. map (h m) meta) ns)) = length ns * k" for h :: "gofield list \<Rightarrow> FieldInfo \<Rightarrow> goval" and ns
    by (induction ns) (simp_all add: assms(2))
  have "Insert_sql lib d tbl now ms =
      (''INSERT INTO '' @ db_quote d tbl @ '' ('' @ join (map (\<lambda>f. db_quote d (fi_Column f)) meta) '', '' @ '') VALUES ''
         @ join (map ?row [0..<length ms]) '', '', ?args)"
    by (simp add: Insert_sql_def Let_def assms(1) [symmetric] insert_rows_eq assms(2) algebra_simps)
  moreover have "?args ! (i * k + j) = bindArg lib (stamped now (meta ! j) (fieldValue (ms ! i) (fi_Name (meta ! j))))"
    using assms(2-4) by (simp add: nth_concat_uniform)
  ultimately show ?thesis
    using assms(3) by (intro exI [of _ "map ?row [0..<length ms]"] exI [of _ ?args]) (simp add: len)
qed

lemma sample_ParseFields:
  "map fi_Column (filter (\<lambda>f. \<not> skipped f) (ParseFields sample_model)) = [''created_at'', ''updated_at'', ''deleted_at'', ''name'']"
  by code_simp

theorem insert_aligned_witness:
  "length (snd (Insert_sql sample_lib sample_db ''users'' 7 [sample_model, sample_model])) = 8 \<and>
   snd (Insert_sql sample_lib sample_db ''users'' 7 [sample_model, sample_model]) ! 7 = GStr ''Ada''"
proof -
  define meta where "meta = filter (\<lambda>f. \<not> skipped f) (ParseFields sample_model)"
  have "map fi_Column meta = [''created_at'', ''updated_at'', ''deleted_at'', ''name'']"
    using sample_ParseFields by (simp add: meta_def)
  from arg_cong [OF this, of length] have len: "length meta = 4" by simp
  have "bindArg sample_lib (stamped 7 (meta ! 3) (fieldValue sample_model (fi_Name (meta ! 3)))) = GStr ''Ada''"
    unfolding meta_def by code_simp
  then show ?thesis
    using insert_aligned [of meta "[sample_model, sample_model]" 4 1 3 sample_lib sample_db "''users''" 7]
    by (auto simp: meta_def [symmetric] len)
qed

section \<open>Times\<close>

text \<open>
  A time survives the database. A time bound as an argument and read back as text or bytes
  is the same instant, a nil pointer comes back as nil, provided that the first layout parses what \<^verbatim>\<open>Format\<close> printed
  and that a printed time never contains the suffix the parser cuts off.
\<close>

lemma time_round_trip:
  assumes "time_Parse lib (hd layouts) (format_utc lib t) = Some t" and "before '' m='' (format_utc lib t) = format_utc lib t"
    and "format_utc lib t \<noteq> []" and "s = DString (format_utc lib t) \<or> s = DBytes (format_utc lib t)"
  shows "bindArg lib (GTime t) = GStr (format_utc lib t) \<and> bindArg lib (GTimePtr (Some t)) = GStr (format_utc lib t) \<and>
     bindArg lib (GTimePtr None) = GNil \<and>
     wrapScanDest lib convert (GTime old) s = Inr (GTime t) \<and>
     wrapScanDest lib convert (GTimePtr p) s = Inr (GTimePtr (Some t)) \<and>
     wrapScanDest lib convert (GTimePtr p) DNil = Inr (GTimePtr None)"
  using assms
  by (auto simp: bindArg_def wrapScanDest_def timeScanner_Scan_def nullTimeScanner_Scan_def parseTimeString_def layouts_def)

lemma time_round_trip_example:
  "wrapScanDest sample_lib (\<lambda>v _. Inr v) (GTime 0) (DString (itoa 5)) = Inr (GTime 5)"
proof -
  have "time_Parse sample_lib (hd layouts) (format_utc sample_lib 5) = Some 5" by (simp add: sample_lib_def)
  moreover have "before '' m='' (format_utc sample_lib 5) = format_utc sample_lib 5" "format_utc sample_lib 5 \<noteq> []"
    by code_simp+
  moreover have "format_utc sample_lib 5 = itoa 5" by (simp add: sample_lib_def)
  ultimately show ?thesis
    using time_round_trip [of sample_lib 5 "DString (format_utc sample_lib 5)" "\<lambda>v _. Inr v" 0] by simp
qed

section \<open>Columns are read into the fields they were written from\<close>

text \<open>
  Saving reads the tags with \<^verbatim>\<open>parseTag\<close>, scanning with \<^verbatim>\<open>parseColumn\<close>. They agree on tags that name at most one
  column and give it a value.
\<close>

definition plain_tag :: "string \<Rightarrow> bool" where
  "plain_tag tag \<longleftrightarrow>
     (case filter (\<lambda>p. tag_key p = ''column'') (split_by (CHR '';'') tag) of
        [] \<Rightarrow> True
      | [p] \<Rightarrow> column_part p \<noteq> None
      | _ \<Rightarrow> False)"

fun all_tags :: "gofield list \<Rightarrow> string list" where
  "all_tags [] = []"
| "all_tags (Embedded n e sub # fs) = all_tags sub @ all_tags fs"
| "all_tags (Plain n e t k v # fs) = t # all_tags fs"

text \<open>What the scanner finds: the columns of all visible fields with their paths, in order.\<close>

fun entries :: "nat \<Rightarrow> gofield list \<Rightarrow> (string \<times> nat list) list" where
  "entries i [] = []"
| "entries i (Embedded n e sub # fs) = (if e then map (\<lambda>(c, p). (c, i # p)) (entries 0 sub) else []) @ entries (Suc i) fs"
| "entries i (Plain n e t k v # fs) = (if e then [(parseColumn t n, [i])] else []) @ entries (Suc i) fs"

lemma buildFieldMap_entries: "buildFieldMap i fs fm = fm ++ map_of (rev (entries i fs))"
proof (induction i fs fm rule: buildFieldMap.induct)
  case (2 i n e sub fs fm)
  have "map_of (rev (map (\<lambda>(c, p). (c, i # p)) es)) = (\<lambda>c. map_option ((#) i) (map_of (rev es) c))" for es :: "(string \<times> nat list) list"
    by (simp add: rev_map map_of_map o_def)
  then show ?case using 2 by simp
qed simp_all

lemma column_part_val: "column_part p = Some c \<Longrightarrow> tag_val p = c"
  by (auto simp: column_part_def tag_val_def split: list.splits if_splits)

lemma column_part_None: "tag_key p \<noteq> ''column'' \<Longrightarrow> column_part p = None"
  by (auto simp: column_part_def tag_key_def split: list.splits)

lemma tag_part_frame [simp]:
  "fi_Name (tag_part p info) = fi_Name info"
  "fi_Column (tag_part p info) = (if tag_key p = ''column'' then tag_val p else fi_Column info)"
  by (simp_all add: tag_part_def Let_def)

lemma fold_tag_part:
  "fi_Name (fold tag_part ps info) = fi_Name info"
  "fi_Column (fold tag_part ps info) = last (fi_Column info # map tag_val (filter (\<lambda>p. tag_key p = ''column'') ps))"
  by (induction ps arbitrary: info) simp_all

lemma map_filter_column: "List.map_filter column_part ps = List.map_filter column_part (filter (\<lambda>p. tag_key p = ''column'') ps)"
  by (induction ps) (simp_all add: column_part_None split: option.split)

lemma field_info_Name [simp]: "fi_Name (field_info n tag) = n"
  by (simp add: field_info_def parseTag_def fold_tag_part new_info_def)

lemma field_info_Column:
  assumes "plain_tag tag"
  shows "fi_Column (field_info n tag) = parseColumn tag n"
proof -
  define ps where "ps = filter (\<lambda>p. tag_key p = ''column'') (split_by (CHR '';'') tag)"
  have col: "fi_Column (parseTag tag (new_info n)) = last (snake n # map tag_val ps)"
    by (simp add: parseTag_def fold_tag_part ps_def new_info_def)
  have mf: "List.map_filter column_part (split_by (CHR '';'') tag) = List.map_filter column_part ps"
    unfolding ps_def by (rule map_filter_column)
  consider "ps = []" | p c where "ps = [p]" "column_part p = Some c"
    using assms by (auto simp: plain_tag_def ps_def [symmetric] split: list.splits)
  then have "last (snake n # map tag_val ps) = (case List.map_filter column_part ps of [] \<Rightarrow> snake n | c # _ \<Rightarrow> c)"
    by cases (simp_all add: column_part_val)
  with col mf show ?thesis by (simp add: field_info_def parseColumn_def new_info_def)
qed

lemma ParseFields_entry:
  assumes "info \<in> set (ParseFields fs)" and "list_all plain_tag (all_tags fs)"
  shows "\<exists>p f. (fi_Column info, p) \<in> set (entries (length pre) fs) \<and> p \<noteq> [] \<and> field_at (pre @ fs) p = Some f \<and> fd_name f = fi_Name info"
  using assms
proof (induction fs arbitrary: pre rule: all_tags.induct)
  case (2 n e sub fs)
  consider "e" "info \<in> set (ParseFields sub)" | "info \<in> set (ParseFields fs)" using 2 by (auto split: if_splits)
  then show ?case
  proof cases
    case 1
    with "2.IH"(1) [OF 1(2), of "[]"] "2.prems"(2) obtain p f where p: "(fi_Column info, p) \<in> set (entries 0 sub)" "p \<noteq> []"
        "field_at sub p = Some f" "fd_name f = fi_Name info" by auto
    then have "field_at (pre @ Embedded n e sub # fs) (length pre # p) = Some f" by (cases p) simp_all
    with p 1 show ?thesis by force
  next
    case 2
    have tags: "list_all plain_tag (all_tags fs)" using "2.prems"(2) by simp
    have "\<exists>p f. (fi_Column info, p) \<in> set (entries (length (pre @ [Embedded n e sub])) fs) \<and> p \<noteq> [] \<and>
        field_at ((pre @ [Embedded n e sub]) @ fs) p = Some f \<and> fd_name f = fi_Name info"
      by (rule "2.IH"(2) [OF 2 tags])
    then show ?thesis by auto
  qed
next
  case (3 n e tag k v fs)
  let ?f = "Plain n e tag k v"
  have tags: "list_all plain_tag (all_tags fs)" "plain_tag tag" using "3.prems"(2) by simp_all
  consider "info \<in> set (ParseFields fs)" | "e" "info = field_info n tag"
    using "3.prems"(1) by (auto simp: Let_def split: if_splits)
  then show ?case
  proof cases
    case 1
    from "3.IH" [OF 1 tags(1), of "pre @ [?f]"] obtain p f where
        "(fi_Column info, p) \<in> set (entries (length (pre @ [?f])) fs)" "p \<noteq> []"
        "field_at ((pre @ [?f]) @ fs) p = Some f" "fd_name f = fi_Name info" by blast
    then show ?thesis by auto
  next
    case 2
    then show ?thesis using field_info_Column [OF tags(2), of n] by (intro exI [of _ "[length pre]"] exI [of _ ?f]) simp
  qed
qed simp



end
