(* ===== verification/OrmRelation.thy ===== *)
theory OrmRelation
  imports OrmModel
begin

text \<open>
  Eager loading of relations (\<^verbatim>\<open>relation.go\<close>). A loaded model is an entity: its struct type, its plain fields and
  the related entities by field name; a field that is not listed has its zero value. Related
  entities form a tree: no two fields point to the same struct. Slices of pointers are not modelled, nor are
  columns with the name of a relation field. The database and the scanner of columns are the
  parameters of \<open>OrmModel\<close>.
\<close>

section \<open>Struct types with relations\<close>

datatype relform = FSlice | FPtr | FStruct | FScalar

record relfield =
  rf_tag :: string
  rf_form :: relform
  rf_type :: string

record structtype =
  st_zero :: "gofield list"
  st_rels :: "(string \<times> relfield) list"

datatype entity = Entity (en_type: string) (en_fields: "gofield list") (en_rels: "(string \<times> entity list) list")

record relationMeta =
  rm_model :: string
  rm_pivot :: string
  rm_fk :: string
  rm_relatedFK :: string

definition meta_part :: "string \<Rightarrow> string \<times> relationMeta \<Rightarrow> string \<times> relationMeta" where
  "meta_part part = (\<lambda>(relType, meta).
     let key = tag_key part; val = tag_val part in
     if key \<in> set relation_keys then (key, meta\<lparr>rm_model := val\<rparr>)
     else if key = ''pivot'' then (relType, meta\<lparr>rm_pivot := val\<rparr>)
     else if key = ''fk'' then (relType, meta\<lparr>rm_fk := val\<rparr>)
     else if key = ''relatedFk'' then (relType, meta\<lparr>rm_relatedFK := val\<rparr>)
     else (relType, meta))"

definition parseRelationMeta :: "string \<Rightarrow> string \<times> relationMeta" where
  "parseRelationMeta tag =
     fold meta_part (split_by (CHR '';'') tag) ([], \<lparr>rm_model = [], rm_pivot = [], rm_fk = [], rm_relatedFK = []\<rparr>)"

text \<open>
  \<^verbatim>\<open>reflect.Type.FieldByName\<close> on the type of the models: a relation field, or a plain field with its form. Then the struct
  type behind it, as \<^verbatim>\<open>Type.Elem\<close> gives it, which panics unless the field is a slice or a pointer, and with a pointer
  removed: there the result is the name of the type and whether it is a struct.
\<close>

definition plain_relfield :: "gofield \<Rightarrow> relfield" where
  "plain_relfield f =
     (case f of
        Plain n e t k v \<Rightarrow>
          \<lparr>rf_tag = t, rf_form = (case v of GTimePtr _ \<Rightarrow> FPtr | GTime _ \<Rightarrow> FStruct | _ \<Rightarrow> FScalar),
           rf_type = (case v of GTimePtr _ \<Rightarrow> ''Time'' | GTime _ \<Rightarrow> ''Time'' | _ \<Rightarrow> type_tag v)\<rparr>
      | Embedded n e sub \<Rightarrow> \<lparr>rf_tag = [], rf_form = FStruct, rf_type = n\<rparr>)"

definition type_field :: "structtype \<Rightarrow> string \<Rightarrow> relfield option" where
  "type_field t name =
     (case map_of (st_rels t) name of
        Some rf \<Rightarrow> Some rf
      | None \<Rightarrow> map_option (\<lambda>(_, f). plain_relfield f) (FieldByName name 0 (st_zero t)))"

definition elem_type :: "relfield \<Rightarrow> string option" where
  "elem_type rf = (if rf_form rf \<in> {FSlice, FPtr} then Some (rf_type rf) else None)"

definition deref_type :: "relfield \<Rightarrow> string \<times> bool" where
  "deref_type rf = (case rf_form rf of FSlice \<Rightarrow> ([], False) | FScalar \<Rightarrow> (rf_type rf, False) | _ \<Rightarrow> (rf_type rf, True))"

definition field_of :: "entity \<Rightarrow> string \<Rightarrow> goval" where
  "field_of e name = fieldValue (en_fields e) name"

definition set_rel :: "string \<Rightarrow> entity list \<Rightarrow> entity \<Rightarrow> entity" where
  "set_rel rel es e = Entity (en_type e) (en_fields e) ((rel, es) # filter (\<lambda>p. fst p \<noteq> rel) (en_rels e))"

text \<open>The entities in a relation field.\<close>

definition related :: "(string \<Rightarrow> structtype) \<Rightarrow> string \<Rightarrow> entity \<Rightarrow> entity list" where
  "related types rel e =
     (case map_of (en_rels e) rel of
        Some es \<Rightarrow> es
      | None \<Rightarrow>
          (case map_of (st_rels (types (en_type e))) rel of
             Some rf \<Rightarrow> if rf_form rf = FStruct then [Entity (rf_type rf) (st_zero (types (rf_type rf))) []] else []
           | None \<Rightarrow> []))"

definition childPointers :: "(string \<Rightarrow> structtype) \<Rightarrow> entity list \<Rightarrow> string \<Rightarrow> entity list" where
  "childPointers types models rel = concat (map (related types rel) models)"

text \<open>What was done through the pointers to the children is seen in the models.\<close>

fun put_children :: "(string \<Rightarrow> structtype) \<Rightarrow> string \<Rightarrow> entity list \<Rightarrow> entity list \<Rightarrow> entity list" where
  "put_children types rel [] cs = []"
| "put_children types rel (m # ms) cs =
     (let n = length (related types rel m) in set_rel rel (take n cs) m # put_children types rel ms (drop n cs))"

definition parentNameOf :: "entity list \<Rightarrow> string" where
  "parentNameOf models = (case models of [] \<Rightarrow> [] | m # _ \<Rightarrow> en_type m)"

section \<open>Loading\<close>

text \<open>A key of type any must be comparable.\<close>

definition hashable :: "goval \<Rightarrow> bool" where
  "hashable v = (case v of GList _ \<Rightarrow> False | GMap _ \<Rightarrow> False | GNilMap \<Rightarrow> False | _ \<Rightarrow> True)"

definition relation_table :: "string \<Rightarrow> string" where
  "relation_table typ = to_lower (plural (snake typ))"

definition or_default :: "string \<Rightarrow> string \<Rightarrow> string" where
  "or_default s d = (if s = [] then d else s)"

definition in_marks :: "DB \<Rightarrow> nat \<Rightarrow> string" where
  "in_marks d n = join (map (\<lambda>i. placeholder (DriverName d) (int i + 1)) [0..<n]) '', ''"

definition in_query :: "DB \<Rightarrow> string \<Rightarrow> string \<Rightarrow> string \<Rightarrow> nat \<Rightarrow> string" where
  "in_query d what tbl col n =
     ''SELECT '' @ what @ '' FROM '' @ db_quote d tbl @ '' WHERE '' @ db_quote d col @ '' IN ('' @ in_marks d n @ '')''"

definition group_by_key :: "(entity \<Rightarrow> goval) \<Rightarrow> entity list \<Rightarrow> goval \<Rightarrow> entity list" where
  "group_by_key key items = fold (\<lambda>c g. g(key c := g (key c) @ [c])) items (\<lambda>_. [])"

definition index_by_key :: "(entity \<Rightarrow> goval) \<Rightarrow> entity list \<Rightarrow> goval \<rightharpoonup> entity" where
  "index_by_key key items = fold (\<lambda>c g. g(key c \<mapsto> c)) items Map.empty"

record 'w relenv =
  re_lib :: timelib
  re_convert :: "goval \<Rightarrow> dbval \<Rightarrow> string + goval"
  re_conn :: "'w conn"
  re_types :: "string \<Rightarrow> structtype"
  re_db :: DB

definition scanRowsDynamic :: "'w relenv \<Rightarrow> string \<Rightarrow> string list \<times> dbval list list \<Rightarrow> string + entity list" where
  "scanRowsDynamic env typ res =
     (case scanRows (re_lib env) (re_convert env) (st_zero (re_types env typ)) (fst res) (snd res) of
        Inl e \<Rightarrow> Inl e
      | Inr items \<Rightarrow> Inr (map (\<lambda>fs. Entity typ fs []) items))"

text \<open>
  The query and the scan all loaders share; \<open>kind\<close> is the name in the error. A type that is not a struct panics at the first row.
\<close>

definition fetch :: "'w relenv \<Rightarrow> string \<Rightarrow> string \<Rightarrow> string \<times> bool \<Rightarrow> goval list \<Rightarrow> 'w \<Rightarrow> (outcome + entity list) \<times> 'w" where
  "fetch env kind col typ ids w =
     (case c_query (re_conn env) (in_query (re_db env) ''*'' (relation_table (fst typ)) col (length ids)) ids w of
        (Inl e, w') \<Rightarrow> (Inl (Failed (''gai/orm: '' @ kind @ '' query failed: '' @ e)), w')
      | (Inr res, w') \<Rightarrow>
          (if \<not> snd typ then (if snd res = [] then Inr [] else Inl Panicked, w')
           else case scanRowsDynamic env (fst typ) res of
             Inl e \<Rightarrow> (Inl (Failed e), w')
           | Inr items \<Rightarrow> (Inr items, w')))"

definition loadHasMany :: "'w relenv \<Rightarrow> string \<Rightarrow> relfield \<Rightarrow> relationMeta \<Rightarrow> entity list \<Rightarrow> 'w \<Rightarrow> outcome \<times> entity list \<times> 'w" where
  "loadHasMany env rel rf meta models w =
     (let ids = map (\<lambda>m. field_of m ''ID'') models in
      case elem_type rf of
        None \<Rightarrow> (Panicked, models, w)
      | Some typ \<Rightarrow>
          (let fk = or_default (rm_fk meta) (snake (parentNameOf models) @ ''_id'') in
           case fetch env ''hasMany'' fk (typ, True) ids w of
             (Inl r, w') \<Rightarrow> (r, models, w')
           | (Inr items, w') \<Rightarrow>
               (let key = (\<lambda>c. field_of c (camel fk)); grouped = group_by_key key items in
                if \<not> list_all hashable (map key items @ ids) \<or> rf_form rf \<noteq> FSlice then (Panicked, models, w')
                else (Done, map (\<lambda>m. set_rel rel (grouped (field_of m ''ID'')) m) models, w'))))"

definition loadHasOne :: "'w relenv \<Rightarrow> string \<Rightarrow> relfield \<Rightarrow> relationMeta \<Rightarrow> entity list \<Rightarrow> 'w \<Rightarrow> outcome \<times> entity list \<times> 'w" where
  "loadHasOne env rel rf meta models w =
     (let ids = map (\<lambda>m. field_of m ''ID'') models;
          typ = deref_type rf;
          fk = or_default (rm_fk meta) (snake (parentNameOf models) @ ''_id'') in
      case fetch env ''hasOne'' fk typ ids w of
        (Inl r, w') \<Rightarrow> (r, models, w')
      | (Inr items, w') \<Rightarrow>
          (let key = (\<lambda>c. field_of c (camel fk)); byFK = index_by_key key items in
           if \<not> list_all hashable (map key items @ ids) then (Panicked, models, w')
           else (Done, map (\<lambda>m. case byFK (field_of m ''ID'') of None \<Rightarrow> m | Some c \<Rightarrow> set_rel rel [c] m) models, w')))"

definition loadBelongsTo :: "'w relenv \<Rightarrow> string \<Rightarrow> relfield \<Rightarrow> relationMeta \<Rightarrow> entity list \<Rightarrow> 'w \<Rightarrow> outcome \<times> entity list \<times> 'w" where
  "loadBelongsTo env rel rf meta models w =
     (let typ = deref_type rf;
          fk = or_default (rm_fk meta) (snake rel @ ''_id'');
          ids = filter (\<lambda>v. v \<noteq> GNil) (map (\<lambda>m. field_of m (camel fk)) models) in
      if ids = [] then (Done, models, w)
      else case fetch env ''belongsTo'' ''id'' typ ids w of
        (Inl r, w') \<Rightarrow> (r, models, w')
      | (Inr items, w') \<Rightarrow>
          (let key = (\<lambda>c. field_of c ''ID''); byID = index_by_key key items in
           if \<not> list_all hashable (map key items @ map (\<lambda>m. field_of m (camel fk)) models) then (Panicked, models, w')
           else (Done, map (\<lambda>m. case byID (field_of m (camel fk)) of None \<Rightarrow> m | Some c \<Rightarrow> set_rel rel [c] m) models, w')))"

text \<open>
  The rows of a pivot table, scanned into two values of type any. A value of type \<^verbatim>\<open>[]byte\<close> cannot be a key; \<^const>\<open>GList\<close> stands for it.
\<close>

fun scan_any :: "dbval \<Rightarrow> goval" where
  "scan_any DNil = GNil"
| "scan_any (DTime t) = GTime t"
| "scan_any (DString s) = GStr s"
| "scan_any (DBytes s) = GList []"
| "scan_any (DInt64 i) = GInt64 i"
| "scan_any (DOther t) = GErr t"

fun pivot_rows :: "dbval list list \<Rightarrow> string + (goval \<times> goval) list" where
  "pivot_rows [] = Inr []"
| "pivot_rows (row # rows) =
     (case row of
        [p, r] \<Rightarrow> (case pivot_rows rows of Inl e \<Rightarrow> Inl e | Inr pairs \<Rightarrow> Inr ((scan_any p, scan_any r) # pairs))
      | _ \<Rightarrow> Inl (''sql: expected '' @ itoa (int (length row)) @ '' destination arguments in Scan, not 2''))"

fun string_less :: "string \<Rightarrow> string \<Rightarrow> bool" where
  "string_less [] t = (t \<noteq> [])"
| "string_less (c # s) [] = False"
| "string_less (c # s) (e # t) = (if c = e then string_less s t else ord c < ord e)"

definition pivot_name :: "string \<Rightarrow> string \<Rightarrow> string" where
  "pivot_name parent child =
     (let a = to_lower (snake parent); b = to_lower (snake child) in
      if string_less b a then b @ ''_'' @ a else a @ ''_'' @ b)"

definition group_pairs :: "(goval \<rightharpoonup> entity) \<Rightarrow> (goval \<times> goval) list \<Rightarrow> goval \<Rightarrow> entity list" where
  "group_pairs byID pairs =
     fold (\<lambda>(p, r) g. case byID r of None \<Rightarrow> g | Some c \<Rightarrow> g(p := g p @ [c])) pairs (\<lambda>_. [])"

definition loadBelongsToMany :: "'w relenv \<Rightarrow> string \<Rightarrow> relfield \<Rightarrow> relationMeta \<Rightarrow> entity list \<Rightarrow> 'w \<Rightarrow> outcome \<times> entity list \<times> 'w" where
  "loadBelongsToMany env rel rf meta models w =
     (case elem_type rf of
        None \<Rightarrow> (Panicked, models, w)
      | Some typ \<Rightarrow>
          (let d = re_db env; parent = parentNameOf models;
               pivot = or_default (rm_pivot meta) (pivot_name parent typ);
               fk = or_default (rm_fk meta) (snake parent @ ''_id'');
               relatedFK = or_default (rm_relatedFK meta) (snake typ @ ''_id'');
               ids = map (\<lambda>m. field_of m ''ID'') models in
           case c_query (re_conn env) (in_query d (db_quote d fk @ '', '' @ db_quote d relatedFK) pivot fk (length ids)) ids w of
             (Inl e, w') \<Rightarrow> (Failed (''gai/orm: belongsToMany pivot query failed: '' @ e), models, w')
           | (Inr res, w') \<Rightarrow>
               (case pivot_rows (snd res) of
                  Inl e \<Rightarrow> (Failed e, models, w')
                | Inr pairs \<Rightarrow>
                    if \<not> list_all (\<lambda>(p, r). hashable r) pairs then (Panicked, models, w')
                    else let relatedIDs = rev (remdups (rev (map snd pairs))) in
                    if relatedIDs = [] then (Done, models, w')
                    else case fetch env ''belongsToMany'' ''id'' (typ, True) relatedIDs w' of
                      (Inl r, w'') \<Rightarrow> (r, models, w'')
                    | (Inr items, w'') \<Rightarrow>
                        (let key = (\<lambda>c. field_of c ''ID''); byID = index_by_key key items; grouped = group_pairs byID pairs in
                         if \<not> list_all hashable (map key items @ map fst (filter (\<lambda>(p, r). byID r \<noteq> None) pairs) @ ids)
                            \<or> rf_form rf \<noteq> FSlice
                         then (Panicked, models, w'')
                         else (Done, map (\<lambda>m. set_rel rel (grouped (field_of m ''ID'')) m) models, w'')))))"

text \<open>The verb \<^verbatim>\<open>%q\<close> on printable text.\<close>

definition quoted :: "string \<Rightarrow> string" where
  "quoted s = [CHR 34] @ concat (map (\<lambda>c. if c = CHR 34 \<or> c = CHR 92 then [CHR 92, c] else [c]) s) @ [CHR 34]"

definition eagerLoad :: "'w relenv \<Rightarrow> entity list \<Rightarrow> string \<Rightarrow> 'w \<Rightarrow> outcome \<times> entity list \<times> 'w" where
  "eagerLoad env models rel w =
     (if models = [] then (Done, models, w)
      else case type_field (re_types env (parentNameOf models)) rel of
        None \<Rightarrow> (Failed (''gai/orm: relation '' @ quoted rel @ '' not found on '' @ parentNameOf models), models, w)
      | Some rf \<Rightarrow>
          (let (relType, meta) = parseRelationMeta (rf_tag rf) in
           if relType = [] \<or> relType = ''hasMany'' then loadHasMany env rel rf meta models w
           else if relType = ''hasOne'' then loadHasOne env rel rf meta models w
           else if relType = ''belongsTo'' then loadBelongsTo env rel rf meta models w
           else if relType = ''belongsToMany'' then loadBelongsToMany env rel rf meta models w
           else (Failed (''gai/orm: unsupported relation type '' @ quoted relType), models, w)))"

fun withPath :: "'w relenv \<Rightarrow> entity list \<Rightarrow> string list \<Rightarrow> 'w \<Rightarrow> outcome \<times> entity list \<times> 'w" where
  "withPath env models [] w = (Done, models, w)"
| "withPath env models (part # parts) w =
     (if models = [] then (Done, models, w)
      else case eagerLoad env models part w of
        (Done, models', w') \<Rightarrow>
          (if parts = [] then (Done, models', w')
           else case withPath env (childPointers (re_types env) models' part) parts w' of
             (r, children, w'') \<Rightarrow> (r, put_children (re_types env) part models' children, w''))
      | (r, models', w') \<Rightarrow> (r, models', w'))"

definition With :: "'w relenv \<Rightarrow> entity list \<Rightarrow> string \<Rightarrow> 'w \<Rightarrow> outcome \<times> entity list \<times> 'w" where
  "With env models relation w = withPath env models (split_by (CHR ''.'') relation) w"

section \<open>Models are only extended\<close>

text \<open>What loading leaves alone: the models' number, types and plain fields.\<close>

definition skeleton :: "entity list \<Rightarrow> (string \<times> gofield list) list" where
  "skeleton models = map (\<lambda>m. (en_type m, en_fields m)) models"

lemma set_rel_simps [simp]:
  "en_type (set_rel rel es m) = en_type m" "en_fields (set_rel rel es m) = en_fields m"
  "field_of (set_rel rel es m) name = field_of m name"
  by (simp_all add: set_rel_def field_of_def)

lemma related_set_rel: "related types r (set_rel rel es m) = (if r = rel then es else related types r m)"
proof -
  have "map_of (filter (\<lambda>p. fst p \<noteq> rel) xs) r = map_of xs r" if "r \<noteq> rel" for xs :: "(string \<times> entity list) list"
    using that by (induction xs) auto
  then show ?thesis by (auto simp: related_def set_rel_def split: option.split)
qed

lemma skeleton_set_rel: "(\<And>m. f m = m \<or> (\<exists>es. f m = set_rel rel es m)) \<Longrightarrow> skeleton (map f models) = skeleton models"
  unfolding skeleton_def by (induction models) (auto, metis set_rel_simps(1), metis set_rel_simps(2))

lemma skeleton_maps [simp]:
  "skeleton (map (\<lambda>m. set_rel rel (g m) m) models) = skeleton models"
  "skeleton (map (\<lambda>m. case h m of None \<Rightarrow> m | Some c \<Rightarrow> set_rel rel [c] m) models) = skeleton models"
  by (rule skeleton_set_rel; auto split: option.split)+

lemma skeleton_put_children: "skeleton (put_children types rel models cs) = skeleton models"
  by (induction models arbitrary: cs) (simp_all add: skeleton_def Let_def)

lemma skeleton_loaders:
  "skeleton (fst (snd (loadHasMany env rel rf meta models w))) = skeleton models"
  "skeleton (fst (snd (loadHasOne env rel rf meta models w))) = skeleton models"
  "skeleton (fst (snd (loadBelongsTo env rel rf meta models w))) = skeleton models"
  "skeleton (fst (snd (loadBelongsToMany env rel rf meta models w))) = skeleton models"
  by (simp_all add: loadHasMany_def loadHasOne_def loadBelongsTo_def loadBelongsToMany_def Let_def skeleton_maps
      split: option.split prod.split sum.split)

lemma skeleton_eagerLoad: "skeleton (fst (snd (eagerLoad env models rel w))) = skeleton models"
  by (simp add: eagerLoad_def skeleton_loaders case_prod_unfold Let_def split: option.split)

lemma skeleton_withPath: "skeleton (fst (snd (withPath env models parts w))) = skeleton models"
proof (induction parts arbitrary: models w)
  case (Cons part parts)
  obtain r models' w' where e: "eagerLoad env models part w = (r, models', w')" by (cases "eagerLoad env models part w")
  have "skeleton models' = skeleton models" using skeleton_eagerLoad [of env models part w] by (simp add: e)
  then show ?case by (cases r) (simp_all add: e skeleton_put_children case_prod_unfold)
qed simp

section \<open>Grouping\<close>

lemma group_by_key_eq: "group_by_key key items k = filter (\<lambda>c. key c = k) items"
proof -
  have "fold (\<lambda>c g. g(key c := g (key c) @ [c])) items g k = g k @ filter (\<lambda>c. key c = k) items" for g
    by (induction items arbitrary: g) auto
  then show ?thesis by (simp add: group_by_key_def)
qed

lemma index_by_key_eq:
  "index_by_key key items k = (if filter (\<lambda>c. key c = k) items = [] then None else Some (last (filter (\<lambda>c. key c = k) items)))"
proof -
  have "fold (\<lambda>c g. g(key c \<mapsto> c)) items g k =
      (if filter (\<lambda>c. key c = k) items = [] then g k else Some (last (filter (\<lambda>c. key c = k) items)))" for g
    by (induction items arbitrary: g) auto
  then show ?thesis by (simp add: index_by_key_def)
qed

lemma group_pairs_eq: "group_pairs byID pairs k = List.map_filter (\<lambda>(p, r). if p = k then byID r else None) pairs"
proof -
  have "fold (\<lambda>(p, r) g. case byID r of None \<Rightarrow> g | Some c \<Rightarrow> g(p := g p @ [c])) pairs g k =
      g k @ List.map_filter (\<lambda>(p, r). if p = k then byID r else None) pairs" for g
    by (induction pairs arbitrary: g) (auto simp: map_filter_simps split: option.split if_splits)
  then show ?thesis by (simp add: group_pairs_def)
qed

lemma filter_key_single: "distinct (map key xs) \<Longrightarrow> c \<in> set xs \<Longrightarrow> filter (\<lambda>d. key d = key c) xs = [c]"
proof (induction xs)
  case (Cons x xs)
  then show ?case by (cases "c = x") (auto simp: filter_empty_conv image_iff)
qed simp

lemma map_filter_Nil: "List.map_filter f xs = [] \<longleftrightarrow> (\<forall>x\<in>set xs. f x = None)"
  by (induction xs) (auto simp: map_filter_simps split: option.split)

section \<open>Properties\<close>

lemma With_single: "CHR ''.'' \<notin> set rel \<Longrightarrow> With env models rel w = eagerLoad env models rel w"
proof -
  assume "CHR ''.'' \<notin> set rel"
  then have "split_by (CHR ''.'') rel = [rel]" by (rule split_by_absent)
  moreover have "eagerLoad env [] rel w = (Done, [], w)" by (simp add: eagerLoad_def)
  ultimately show ?thesis by (auto simp: With_def split: prod.split outcome.split)
qed

text \<open>
  Property C22: a loaded hasMany relation is exactly the join. When the database answers the query with the rows, of
  all children \<open>stored\<close>, whose foreign key is among the ids of the models, every model gets the children
  whose foreign key is its own id, all of them and in the order of the rows, and no other; the
  number of the models, their types and their columns stay as they were.
\<close>

theorem has_many_join:
  assumes "CHR ''.'' \<notin> set rel" and "models \<noteq> []"
    and "type_field (re_types env (parentNameOf models)) rel = Some rf"
    and "parseRelationMeta (rf_tag rf) = (''hasMany'', meta)" and "rf_form rf = FSlice"
    and "fk = or_default (rm_fk meta) (snake (parentNameOf models) @ ''_id'')"
    and "ids = map (\<lambda>m. field_of m ''ID'') models"
    and "c_query (re_conn env) (in_query (re_db env) ''*'' (relation_table (rf_type rf)) fk (length ids)) ids w = (Inr res, w')"
    and "scanRowsDynamic env (rf_type rf) res = Inr (filter (\<lambda>c. field_of c (camel fk) \<in> set ids) stored)"
    and "list_all hashable ids"
  shows "\<exists>models'. With env models rel w = (Done, models', w') \<and> skeleton models' = skeleton models \<and>
     map (related (re_types env) rel) models' =
       map (\<lambda>m. filter (\<lambda>c. field_of c (camel fk) = field_of m ''ID'') stored) models"
proof -
  let ?items = "filter (\<lambda>c. field_of c (camel fk) \<in> set ids) stored"
  let ?key = "\<lambda>c. field_of c (camel fk)"
  let ?models' = "map (\<lambda>m. set_rel rel (group_by_key ?key ?items (field_of m ''ID'')) m) models"
  have hash: "list_all hashable (map ?key ?items @ ids)" using assms(10) by (auto simp: list_all_iff)
  have "fetch env ''hasMany'' fk (rf_type rf, True) ids w = (Inr ?items, w')"
    using assms(8,9) by (simp add: fetch_def)
  then have "With env models rel w = (Done, ?models', w')"
    using hash assms(2-5) unfolding With_single [OF assms(1)]
    by (simp add: eagerLoad_def loadHasMany_def elem_type_def Let_def assms(6,7) [symmetric])
  moreover have "map (related (re_types env) rel) ?models' = map (\<lambda>m. filter (\<lambda>c. ?key c = field_of m ''ID'') stored) models"
    using assms(7) by (auto simp: related_set_rel group_by_key_eq intro!: filter_cong)
  ultimately show ?thesis by simp
qed

definition rel_types :: "string \<Rightarrow> structtype" where
  "rel_types typ =
     (if typ = ''User'' then
        \<lparr>st_zero = [Plain ''ID'' True ''column:id'' KScalar (GUint64 0)],
         st_rels = [(''Posts'', \<lparr>rf_tag = ''hasMany'', rf_form = FSlice, rf_type = ''Post''\<rparr>)]\<rparr>
      else
        \<lparr>st_zero = [Plain ''ID'' True ''column:id'' KScalar (GUint64 0), Plain ''UserId'' True [] KScalar (GUint64 0)], st_rels = []\<rparr>)"

definition rel_env :: "unit relenv" where
  "rel_env =
     \<lparr>re_lib = sample_lib,
      re_convert = (\<lambda>old src. case src of DInt64 i \<Rightarrow> Inr (GUint64 i) | _ \<Rightarrow> Inl ''type''),
      re_conn =
        \<lparr>c_exec = \<lambda>s as w. (Inl ''read only'', w), c_queryRow = \<lambda>s as w. (Inl ''read only'', w),
         c_query = \<lambda>s as w. (Inr ([''id'', ''user_id''], [[DInt64 10, DInt64 1], [DInt64 11, DInt64 2], [DInt64 12, DInt64 1]]), w)\<rparr>,
      re_types = rel_types, re_db = sample_db\<rparr>"

abbreviation user :: "int \<Rightarrow> entity" where
  "user n \<equiv> Entity ''User'' [Plain ''ID'' True ''column:id'' KScalar (GUint64 n)] []"

abbreviation post :: "int \<Rightarrow> int \<Rightarrow> entity" where
  "post n u \<equiv> Entity ''Post'' [Plain ''ID'' True ''column:id'' KScalar (GUint64 n), Plain ''UserId'' True [] KScalar (GUint64 u)] []"

theorem has_many_join_witness:
  "\<exists>models'. With rel_env [user 1, user 2] ''Posts'' () = (Done, models', ()) \<and>
     map (related rel_types ''Posts'') models' = [[post 10 1, post 12 1], [post 11 2]]"
proof -
  let ?stored = "[post 10 1, post 11 2, post 12 1, post 13 3]"
  let ?ids = "[GUint64 1, GUint64 2]"
  let ?res = "([''id'', ''user_id''], [[DInt64 10, DInt64 1], [DInt64 11, DInt64 2], [DInt64 12, DInt64 1]])"
  have 1: "type_field (re_types rel_env (parentNameOf [user 1, user 2])) ''Posts'' = Some \<lparr>rf_tag = ''hasMany'', rf_form = FSlice, rf_type = ''Post''\<rparr>"
    by (simp add: rel_env_def type_field_def parentNameOf_def rel_types_def)
  have 2: "parseRelationMeta ''hasMany'' = (''hasMany'', \<lparr>rm_model = [], rm_pivot = [], rm_fk = [], rm_relatedFK = []\<rparr>)" by code_simp
  have 3: "or_default [] (snake (parentNameOf [user 1, user 2]) @ ''_id'') = ''user_id''" by code_simp
  have 4: "?ids = map (\<lambda>m. field_of m ''ID'') [user 1, user 2]" by code_simp
  have 5: "filter (\<lambda>c. field_of c (camel ''user_id'') \<in> set ?ids) ?stored = [post 10 1, post 11 2, post 12 1]" by code_simp
  have 6: "scanRowsDynamic rel_env ''Post'' ?res = Inr [post 10 1, post 11 2, post 12 1]" by code_simp
  have 7: "map (\<lambda>m. filter (\<lambda>c. field_of c (camel ''user_id'') = field_of m ''ID'') ?stored) [user 1, user 2] =
      [[post 10 1, post 12 1], [post 11 2]]" by code_simp
  have q: "c_query (re_conn rel_env) s as () = (Inr ?res, ())" for s as by (simp add: rel_env_def)
  have t: "re_types rel_env = rel_types" by (simp add: rel_env_def)
  have "\<exists>models'. With rel_env [user 1, user 2] ''Posts'' () = (Done, models', ()) \<and> skeleton models' = skeleton [user 1, user 2] \<and>
      map (related (re_types rel_env) ''Posts'') models' =
        map (\<lambda>m. filter (\<lambda>c. field_of c (camel ''user_id'') = field_of m ''ID'') ?stored) [user 1, user 2]"
  proof (rule has_many_join)
    show "''user_id'' = or_default (rm_fk \<lparr>rm_model = [], rm_pivot = [], rm_fk = [], rm_relatedFK = []\<rparr>) (snake (parentNameOf [user 1, user 2]) @ ''_id'')"
      by (simp only: 3 relationMeta.simps)
    show "scanRowsDynamic rel_env (rf_type \<lparr>rf_tag = ''hasMany'', rf_form = FSlice, rf_type = ''Post''\<rparr>) ?res =
        Inr (filter (\<lambda>c. field_of c (camel ''user_id'') \<in> set ?ids) ?stored)"
      by (simp only: 5 6 relfield.simps)
    show "?ids = map (\<lambda>m. field_of m ''ID'') [user 1, user 2]" by (rule 4)
  qed (simp_all add: 1 2 q hashable_def)
  then show ?thesis unfolding 7 t by (elim exE conjE) (intro exI conjI; assumption)
qed


text \<open>
  A belongsTo relation becomes the related entity whose id is the foreign key; a model without one keeps its field.
\<close>

lemma belongs_to_lookup:
  assumes "fk = or_default (rm_fk meta) (snake rel @ ''_id'')"
    and "loadBelongsTo env rel rf meta models w = (Done, models', w')"
    and "fetch env ''belongsTo'' ''id'' (deref_type rf) (filter (\<lambda>v. v \<noteq> GNil) (map (\<lambda>m. field_of m (camel fk)) models)) w = (Inr items, w')"
    and "distinct (map (\<lambda>c. field_of c ''ID'') items)" and "i < length models"
    and "c \<in> set items" and "field_of c ''ID'' = field_of (models ! i) (camel fk)" and "field_of c ''ID'' \<noteq> GNil"
  shows "related types rel (models' ! i) = [c]"
proof -
  let ?key = "\<lambda>c. field_of c ''ID''"
  have f: "filter (\<lambda>d. ?key d = field_of (models ! i) (camel fk)) items = [c]"
    using filter_key_single [OF assms(4,6)] assms(7) by simp
  have "field_of (models ! i) (camel fk) \<in> set (filter (\<lambda>v. v \<noteq> GNil) (map (\<lambda>m. field_of m (camel fk)) models))"
    using assms(5,7,8) by auto
  then have "filter (\<lambda>v. v \<noteq> GNil) (map (\<lambda>m. field_of m (camel fk)) models) \<noteq> []" by (metis empty_iff empty_set)
  then have "models' = map (\<lambda>m. case index_by_key ?key items (field_of m (camel fk)) of None \<Rightarrow> m | Some c \<Rightarrow> set_rel rel [c] m) models"
    using assms(2,3) by (auto simp: loadBelongsTo_def Let_def assms(1) [symmetric] split: if_splits)
  then show ?thesis using f assms(5) by (simp add: index_by_key_eq related_set_rel)
qed

section \<open>Keys of different types\<close>

text \<open>
  The ids of the pivot table are scanned into values of type any and arrive as int64; the ids of the models are
  uint64. The two never compare equal, so belongsToMany leaves every model without related entities.
\<close>

lemma belongs_to_many_finds_nothing:
  assumes "\<And>c. c \<in> set items \<Longrightarrow> \<exists>n. field_of c ''ID'' = GUint64 n"
    and "\<And>p r. (p, r) \<in> set pairs \<Longrightarrow> \<exists>n. r = GInt64 n"
  shows "group_pairs (index_by_key (\<lambda>c. field_of c ''ID'') items) pairs k = []"
proof -
  have "index_by_key (\<lambda>c. field_of c ''ID'') items r = None" if "(p, r) \<in> set pairs" for p r
    using assms(1) assms(2) [OF that] by (fastforce simp: index_by_key_eq filter_empty_conv)
  then have "List.map_filter (\<lambda>(p, r). if p = k then index_by_key (\<lambda>c. field_of c ''ID'') items r else None) pairs = []"
    by (auto simp: map_filter_Nil)
  then show ?thesis by (simp only: group_pairs_eq)
qed

text \<open>A foreign key behind a pointer, as a nullable one is, never equals an id.\<close>

lemma pointer_key_finds_nothing:
  assumes "\<And>c. c \<in> set items \<Longrightarrow> \<exists>n. field_of c ''ID'' = GUint64 n"
  shows "index_by_key (\<lambda>c. field_of c ''ID'') items (GPtr a) = None"
  using assms by (fastforce simp: index_by_key_eq filter_empty_conv)

text \<open>The query has no condition on \<^verbatim>\<open>deleted_at\<close>.\<close>

lemma relation_query_includes_deleted:
  "in_query \<lparr>DriverName = ''postgres'', db_QuoteIdent = None\<rparr> ''*'' (relation_table ''Post'') ''user_id'' 2 =
     ''SELECT * FROM posts WHERE user_id IN ($1, $2)''"
  by code_simp

end
