(* ===== verification/Migration.thy ===== *)
theory Migration
  imports Driver
begin

text \<open>
  The schema builder (\<^verbatim>\<open>schema.go\<close>) and the splitting of its text into statements (\<^verbatim>\<open>splitSQL\<close> of \<^verbatim>\<open>migrator.go\<close>).
  The methods that add a column return a pointer to it, on which \<^verbatim>\<open>SetNullable\<close> and the others are called
  at once; here they return the blueprint and the setters change its last column, likewise for foreign keys.
\<close>

section \<open>Blueprint\<close>

record Column =
  c_Name :: string
  c_Type :: string
  c_Size :: int
  c_Nullable :: bool
  c_Unique :: bool
  c_Index :: bool
  c_Default :: string
  c_PrimaryKey :: bool
  c_AutoIncrement :: bool

record IndexDef =
  i_Name :: string
  i_Columns :: "string list"
  i_Unique :: bool

record ForeignKey =
  fk_Name :: string
  fk_Column :: string
  fk_RefTable :: string
  fk_RefColumn :: string
  fk_Delete :: string
  fk_Update :: string

record Blueprint =
  b_table :: string
  b_columns :: "Column list"
  b_indexes :: "IndexDef list"
  b_foreignKeys :: "ForeignKey list"
  b_dropColumns :: "string list"
  b_dropIndexes :: "string list"
  b_dropForeigns :: "string list"
  b_driver :: dialect

definition NewBlueprint :: "string \<Rightarrow> dialect \<Rightarrow> Blueprint" where
  "NewBlueprint t drv =
     \<lparr>b_table = t, b_columns = [], b_indexes = [], b_foreignKeys = [], b_dropColumns = [], b_dropIndexes = [],
      b_dropForeigns = [], b_driver = drv\<rparr>"

definition new_column :: "string \<Rightarrow> string \<Rightarrow> int \<Rightarrow> Column" where
  "new_column name typ n =
     \<lparr>c_Name = name, c_Type = typ, c_Size = n, c_Nullable = False, c_Unique = False, c_Index = False, c_Default = [],
      c_PrimaryKey = False, c_AutoIncrement = False\<rparr>"

definition add_column :: "Column \<Rightarrow> Blueprint \<Rightarrow> Blueprint" where
  "add_column c b = b\<lparr>b_columns := b_columns b @ [c]\<rparr>"

definition ID :: "Blueprint \<Rightarrow> Blueprint" where
  "ID b = add_column ((new_column ''id'' [] 0)\<lparr>c_PrimaryKey := True, c_AutoIncrement := True\<rparr>) b"

definition String_col :: "string \<Rightarrow> int \<Rightarrow> Blueprint \<Rightarrow> Blueprint" where
  "String_col name n b = add_column (new_column name ''string'' n) b"

definition Text_col :: "string \<Rightarrow> Blueprint \<Rightarrow> Blueprint" where
  "Text_col name b = add_column (new_column name ''text'' 0) b"

definition Integer_col :: "string \<Rightarrow> Blueprint \<Rightarrow> Blueprint" where
  "Integer_col name b = add_column (new_column name ''int'' 0) b"

definition BigInteger_col :: "string \<Rightarrow> Blueprint \<Rightarrow> Blueprint" where
  "BigInteger_col name b = add_column (new_column name ''bigint'' 0) b"

definition Float_col :: "string \<Rightarrow> Blueprint \<Rightarrow> Blueprint" where
  "Float_col name b = add_column (new_column name ''float'' 0) b"

definition Decimal_col :: "string \<Rightarrow> Blueprint \<Rightarrow> Blueprint" where
  "Decimal_col name b = add_column (new_column name ''decimal'' 0) b"

definition Boolean_col :: "string \<Rightarrow> Blueprint \<Rightarrow> Blueprint" where
  "Boolean_col name b = add_column (new_column name ''bool'' 0) b"

definition DateTime_col :: "string \<Rightarrow> Blueprint \<Rightarrow> Blueprint" where
  "DateTime_col name b = add_column (new_column name ''datetime'' 0) b"

definition JSON_col :: "string \<Rightarrow> Blueprint \<Rightarrow> Blueprint" where
  "JSON_col name b = add_column (new_column name ''json'' 0) b"

definition on_last :: "('a \<Rightarrow> 'a) \<Rightarrow> 'a list \<Rightarrow> 'a list" where
  "on_last f xs = (if xs = [] then [] else butlast xs @ [f (last xs)])"

definition SetNullable :: "Blueprint \<Rightarrow> Blueprint" where
  "SetNullable b = b\<lparr>b_columns := on_last (\<lambda>c. c\<lparr>c_Nullable := True\<rparr>) (b_columns b)\<rparr>"

definition SetUnique :: "Blueprint \<Rightarrow> Blueprint" where
  "SetUnique b = b\<lparr>b_columns := on_last (\<lambda>c. c\<lparr>c_Unique := True\<rparr>) (b_columns b)\<rparr>"

definition SetIndex :: "Blueprint \<Rightarrow> Blueprint" where
  "SetIndex b = b\<lparr>b_columns := on_last (\<lambda>c. c\<lparr>c_Index := True\<rparr>) (b_columns b)\<rparr>"

definition SetDefault :: "string \<Rightarrow> Blueprint \<Rightarrow> Blueprint" where
  "SetDefault val b = b\<lparr>b_columns := on_last (\<lambda>c. c\<lparr>c_Default := val\<rparr>) (b_columns b)\<rparr>"

definition Timestamps :: "Blueprint \<Rightarrow> Blueprint" where
  "Timestamps b = SetNullable (DateTime_col ''updated_at'' (DateTime_col ''created_at'' b))"

definition SoftDeletes :: "Blueprint \<Rightarrow> Blueprint" where
  "SoftDeletes b = SetNullable (DateTime_col ''deleted_at'' b)"

definition indexName :: "Blueprint \<Rightarrow> string \<Rightarrow> string list \<Rightarrow> string" where
  "indexName b pre cols = pre @ ''_'' @ b_table b @ ''_'' @ join cols ''_''"

definition Index :: "string list \<Rightarrow> Blueprint \<Rightarrow> Blueprint" where
  "Index cols b =
     (if cols = [] then b
      else b\<lparr>b_indexes := b_indexes b @ [\<lparr>i_Name = indexName b ''idx'' cols, i_Columns = cols, i_Unique = False\<rparr>]\<rparr>)"

definition UniqueIndex :: "string list \<Rightarrow> Blueprint \<Rightarrow> Blueprint" where
  "UniqueIndex cols b =
     (if cols = [] then b
      else b\<lparr>b_indexes := b_indexes b @ [\<lparr>i_Name = indexName b ''uniq'' cols, i_Columns = cols, i_Unique = True\<rparr>]\<rparr>)"

definition Foreign :: "string \<Rightarrow> Blueprint \<Rightarrow> Blueprint" where
  "Foreign col b =
     b\<lparr>b_foreignKeys := b_foreignKeys b @
        [\<lparr>fk_Name = ''fk_'' @ b_table b @ ''_'' @ col, fk_Column = col, fk_RefTable = [], fk_RefColumn = ''id'',
          fk_Delete = [], fk_Update = []\<rparr>]\<rparr>"

definition References :: "string \<Rightarrow> Blueprint \<Rightarrow> Blueprint" where
  "References col b = b\<lparr>b_foreignKeys := on_last (\<lambda>fk. fk\<lparr>fk_RefColumn := col\<rparr>) (b_foreignKeys b)\<rparr>"

definition On :: "string \<Rightarrow> Blueprint \<Rightarrow> Blueprint" where
  "On t b = b\<lparr>b_foreignKeys := on_last (\<lambda>fk. fk\<lparr>fk_RefTable := t\<rparr>) (b_foreignKeys b)\<rparr>"

definition OnDelete :: "string \<Rightarrow> Blueprint \<Rightarrow> Blueprint" where
  "OnDelete action b = b\<lparr>b_foreignKeys := on_last (\<lambda>fk. fk\<lparr>fk_Delete := action\<rparr>) (b_foreignKeys b)\<rparr>"

definition OnUpdate :: "string \<Rightarrow> Blueprint \<Rightarrow> Blueprint" where
  "OnUpdate action b = b\<lparr>b_foreignKeys := on_last (\<lambda>fk. fk\<lparr>fk_Update := action\<rparr>) (b_foreignKeys b)\<rparr>"

definition DropColumn :: "string \<Rightarrow> Blueprint \<Rightarrow> Blueprint" where
  "DropColumn name b = b\<lparr>b_dropColumns := b_dropColumns b @ [name]\<rparr>"

definition DropIndex :: "string \<Rightarrow> Blueprint \<Rightarrow> Blueprint" where
  "DropIndex name b = b\<lparr>b_dropIndexes := b_dropIndexes b @ [name]\<rparr>"

definition DropForeign :: "string \<Rightarrow> Blueprint \<Rightarrow> Blueprint" where
  "DropForeign name b = b\<lparr>b_dropForeigns := b_dropForeigns b @ [name]\<rparr>"

section \<open>SQL text\<close>

abbreviation nl :: string where
  "nl \<equiv> [CHR 10]"

definition bq :: "Blueprint \<Rightarrow> string \<Rightarrow> string" where
  "bq b name = QuoteIdent (b_driver b) name"

definition columnDefinition :: "Blueprint \<Rightarrow> Column \<Rightarrow> string" where
  "columnDefinition b col =
     (if c_AutoIncrement col then bq b (c_Name col) @ '' '' @ AutoIncrementType (b_driver b)
      else bq b (c_Name col) @ '' '' @ ColumnType (b_driver b) (c_Type col) (c_Size col)
        @ (if \<not> c_Nullable col then '' NOT NULL'' else [])
        @ (if c_Default col \<noteq> [] then '' DEFAULT '' @ c_Default col else [])
        @ (if c_Unique col then '' UNIQUE'' else []))"

definition createIndexSQL :: "Blueprint \<Rightarrow> IndexDef \<Rightarrow> string" where
  "createIndexSQL b idx =
     ''CREATE '' @ (if i_Unique idx then ''UNIQUE INDEX'' else ''INDEX'') @ '' ''
       @ (if driver_Name (b_driver b) \<noteq> ''mysql'' then ''IF NOT EXISTS '' else [])
       @ bq b (i_Name idx) @ '' ON '' @ bq b (b_table b) @ '' ('' @ join (map (bq b) (i_Columns idx)) '', '' @ '');''"

definition fkConstraintSQL :: "Blueprint \<Rightarrow> ForeignKey \<Rightarrow> string" where
  "fkConstraintSQL b fk =
     ''CONSTRAINT '' @ bq b (fk_Name fk) @ '' FOREIGN KEY ('' @ bq b (fk_Column fk) @ '') REFERENCES ''
       @ bq b (fk_RefTable fk) @ '' ('' @ bq b (fk_RefColumn fk) @ '')''
       @ (if fk_Delete fk \<noteq> [] then '' ON DELETE '' @ fk_Delete fk else [])
       @ (if fk_Update fk \<noteq> [] then '' ON UPDATE '' @ fk_Update fk else [])"

definition column_index :: "Blueprint \<Rightarrow> Column \<Rightarrow> IndexDef" where
  "column_index b col = \<lparr>i_Name = indexName b ''idx'' [c_Name col], i_Columns = [c_Name col], i_Unique = False\<rparr>"

text \<open>The loop over the columns in \<^verbatim>\<open>ToCreateSQL\<close>: definitions and the statements of their indexes.\<close>

fun create_columns :: "Blueprint \<Rightarrow> Column list \<Rightarrow> string list \<times> string list \<Rightarrow> string list \<times> string list" where
  "create_columns b [] acc = acc"
| "create_columns b (col # cols) (defs, ixs) =
     create_columns b cols
       (defs @ [''  '' @ columnDefinition b col],
        if c_Index col then ixs @ [createIndexSQL b (column_index b col)] else ixs)"

definition ToCreateSQL :: "Blueprint \<Rightarrow> string" where
  "ToCreateSQL b =
     (case create_columns b (b_columns b) ([], []) of
        (defs, ixs) \<Rightarrow>
          let defs = defs @ map (\<lambda>fk. ''  '' @ fkConstraintSQL b fk) (filter (\<lambda>fk. fk_RefTable fk \<noteq> []) (b_foreignKeys b));
              sql = ''CREATE TABLE IF NOT EXISTS '' @ bq b (b_table b) @ '' ('' @ nl @ join defs ('','' @ nl) @ nl @ '');'';
              ixs = ixs @ map (createIndexSQL b) (b_indexes b)
          in if ixs \<noteq> [] then sql @ nl @ join ixs nl else sql)"

definition ToDropSQL :: "Blueprint \<Rightarrow> string" where
  "ToDropSQL b = ''DROP TABLE IF EXISTS '' @ bq b (b_table b) @ '';''"

definition dropIndexSQL :: "Blueprint \<Rightarrow> string \<Rightarrow> string \<Rightarrow> string" where
  "dropIndexSQL b name drv =
     (if drv = ''mysql'' then ''DROP INDEX '' @ bq b name @ '' ON '' @ bq b (b_table b) @ '';''
      else ''DROP INDEX IF EXISTS '' @ bq b name @ '';'')"

definition dropForeignSQL :: "Blueprint \<Rightarrow> string \<Rightarrow> string \<Rightarrow> string" where
  "dropForeignSQL b name drv =
     (if drv = ''mysql'' then ''ALTER TABLE '' @ bq b (b_table b) @ '' DROP FOREIGN KEY '' @ bq b name @ '';''
      else ''ALTER TABLE '' @ bq b (b_table b) @ '' DROP CONSTRAINT '' @ bq b name @ '';'')"

definition alter_column :: "Blueprint \<Rightarrow> Column \<Rightarrow> string list" where
  "alter_column b col =
     (if c_AutoIncrement col then []
      else (''ALTER TABLE '' @ bq b (b_table b) @ '' ADD COLUMN '' @ columnDefinition b col @ '';'')
        # (if c_Index col then [createIndexSQL b (column_index b col)] else []))"

definition alter_foreign :: "Blueprint \<Rightarrow> ForeignKey \<Rightarrow> string list" where
  "alter_foreign b fk =
     (if fk_RefTable fk = [] then []
      else if driver_Name (b_driver b) = ''sqlite'' then [''-- sqlite does not support ALTER TABLE ADD CONSTRAINT ('' @ fk_Name fk @ '')'']
      else [''ALTER TABLE '' @ bq b (b_table b) @ '' ADD '' @ fkConstraintSQL b fk @ '';''])"

definition alter_drop_foreign :: "Blueprint \<Rightarrow> string \<Rightarrow> string" where
  "alter_drop_foreign b name =
     (if driver_Name (b_driver b) = ''sqlite'' then ''-- sqlite does not support DROP CONSTRAINT ('' @ name @ '')''
      else dropForeignSQL b name (driver_Name (b_driver b)))"

definition ToAlterSQL :: "Blueprint \<Rightarrow> string" where
  "ToAlterSQL b =
     join (concat (map (alter_column b) (b_columns b))
       @ map (\<lambda>name. ''ALTER TABLE '' @ bq b (b_table b) @ '' DROP COLUMN '' @ bq b name @ '';'') (b_dropColumns b)
       @ map (createIndexSQL b) (b_indexes b)
       @ map (\<lambda>name. dropIndexSQL b name (driver_Name (b_driver b))) (b_dropIndexes b)
       @ concat (map (alter_foreign b) (b_foreignKeys b))
       @ map (alter_drop_foreign b) (b_dropForeigns b)) nl"

section \<open>Splitting into statements\<close>

definition splitSQL :: "string \<Rightarrow> string list" where
  "splitSQL s = filter (\<lambda>p. p \<noteq> []) (map trim_space (split_by (CHR '';'') s))"

definition semi_free :: "string \<Rightarrow> bool" where
  "semi_free s \<longleftrightarrow> CHR '';'' \<notin> set s"

lemma semi_free_simps [simp]:
  "semi_free []" "semi_free (c # s) \<longleftrightarrow> c \<noteq> CHR '';'' \<and> semi_free s" "semi_free (s @ t) \<longleftrightarrow> semi_free s \<and> semi_free t"
  by (auto simp: semi_free_def)

lemma semi_free_join: "list_all semi_free xs \<Longrightarrow> semi_free sep \<Longrightarrow> semi_free (join xs sep)"
  by (induction xs sep rule: join.induct) simp_all

text \<open>A statement: no semicolon inside, no white space around.\<close>

definition statement :: "string \<Rightarrow> bool" where
  "statement t \<longleftrightarrow> semi_free t \<and> t \<noteq> [] \<and> \<not> is_space (hd t) \<and> \<not> is_space (last t)"

lemma trim_space_statement: "statement t \<Longrightarrow> trim_space t = t"
  by (simp add: statement_def trim_space_def dropWhile_eq_self hd_rev)

lemma trim_space_nl [simp]: "trim_space (CHR 10 # w) = trim_space w"
  by (simp add: trim_space_def is_space_def)

lemma splitSQL_nl [simp]: "splitSQL (CHR 10 # s) = splitSQL s"
  by (cases "split_by (CHR '';'') s") (simp_all add: splitSQL_def)

lemma splitSQL_Nil [simp]: "splitSQL [] = []"
  by (simp add: splitSQL_def trim_space_def)

lemma splitSQL_statement: "statement t \<Longrightarrow> splitSQL (t @ CHR '';'' # s) = t # splitSQL s"
  using trim_space_statement [of t] by (simp add: splitSQL_def split_by_append_sep statement_def semi_free_def)

lemma splitSQL_statements: "list_all statement ts \<Longrightarrow> splitSQL (join (map (\<lambda>t. t @ '';'') ts) nl) = ts"
proof (induction ts)
  case (Cons t ts)
  then show ?case using splitSQL_statement [of t "[]"]
    by (cases "ts = []") (simp_all add: join_Cons splitSQL_statement)
qed simp

section \<open>The statements of a schema\<close>

definition create_table_stmt :: "Blueprint \<Rightarrow> string" where
  "create_table_stmt b =
     ''CREATE TABLE IF NOT EXISTS '' @ bq b (b_table b) @ '' ('' @ nl
       @ join (map (\<lambda>c. ''  '' @ columnDefinition b c) (b_columns b)
           @ map (\<lambda>fk. ''  '' @ fkConstraintSQL b fk) (filter (\<lambda>fk. fk_RefTable fk \<noteq> []) (b_foreignKeys b))) ('','' @ nl) @ nl @ '')''"

definition index_stmt :: "Blueprint \<Rightarrow> IndexDef \<Rightarrow> string" where
  "index_stmt b idx =
     ''CREATE '' @ (if i_Unique idx then ''UNIQUE INDEX'' else ''INDEX'') @ '' ''
       @ (if driver_Name (b_driver b) \<noteq> ''mysql'' then ''IF NOT EXISTS '' else [])
       @ bq b (i_Name idx) @ '' ON '' @ bq b (b_table b) @ '' ('' @ join (map (bq b) (i_Columns idx)) '', '' @ '')''"

definition all_indexes :: "Blueprint \<Rightarrow> IndexDef list" where
  "all_indexes b = map (column_index b) (filter c_Index (b_columns b)) @ b_indexes b"

text \<open>The names, defaults and actions of a blueprint contain no semicolon.\<close>

definition semi_free_blueprint :: "Blueprint \<Rightarrow> bool" where
  "semi_free_blueprint b \<longleftrightarrow> semi_free (b_table b) \<and>
     list_all (\<lambda>c. semi_free (c_Name c) \<and> semi_free (c_Default c)) (b_columns b) \<and>
     list_all (\<lambda>i. semi_free (i_Name i) \<and> list_all semi_free (i_Columns i)) (b_indexes b) \<and>
     list_all (\<lambda>f. semi_free (fk_Name f) \<and> semi_free (fk_Column f) \<and> semi_free (fk_RefTable f) \<and> semi_free (fk_RefColumn f) \<and>
       semi_free (fk_Delete f) \<and> semi_free (fk_Update f)) (b_foreignKeys b)"

lemma semi_free_QuoteIdent [simp]: "semi_free name \<Longrightarrow> semi_free (QuoteIdent d name)"
proof -
  assume "semi_free name"
  then have "semi_free (replace_char (quote_char d) [quote_char d, quote_char d] name)"
    by (induction name) (auto simp: quote_char_def split: dialect.split)
  then show ?thesis by (cases d) (simp_all add: QuoteIdent_def quote_char_def)
qed

lemma semi_free_itoa: "semi_free (itoa i)"
  using nat_str_digits [of "CHR '';''"] by (auto simp: semi_free_def itoa_def is_digit_def)

lemma semi_free_ColumnType [simp]: "semi_free (ColumnType d t n)" "semi_free (AutoIncrementType d)"
  by (cases d; simp add: ColumnType_def MySQL_ColumnType_def Postgres_ColumnType_def SQLite_ColumnType_def varchar_def
      semi_free_itoa AutoIncrementType_def)+

lemma create_columns_eq:
  "create_columns b cols (defs, ixs) =
     (defs @ map (\<lambda>c. ''  '' @ columnDefinition b c) cols, ixs @ map (createIndexSQL b) (map (column_index b) (filter c_Index cols)))"
  by (induction cols arbitrary: defs ixs) simp_all

lemma ToCreateSQL_eq: "ToCreateSQL b = join (map (\<lambda>t. t @ '';'') (create_table_stmt b # map (index_stmt b) (all_indexes b))) nl"
proof -
  have ix: "map (createIndexSQL b) is = map (\<lambda>t. t @ '';'') (map (index_stmt b) is)" for "is"
    by (simp add: createIndexSQL_def index_stmt_def)
  show ?thesis
    unfolding ToCreateSQL_def create_columns_eq Let_def prod.case append_Nil
    unfolding append_assoc [symmetric] map_append [symmetric] all_indexes_def [symmetric] ix
    by (cases "all_indexes b = []") (simp_all add: create_table_stmt_def join_Cons)
qed

lemma statement_create: "semi_free_blueprint b \<Longrightarrow> statement (create_table_stmt b)"
proof -
  assume b: "semi_free_blueprint b"
  have "list_all semi_free (map (\<lambda>c. ''  '' @ columnDefinition b c) (b_columns b))"
    using b by (auto simp: semi_free_blueprint_def list_all_iff columnDefinition_def bq_def)
  moreover have "list_all semi_free (map (\<lambda>fk. ''  '' @ fkConstraintSQL b fk) (filter (\<lambda>fk. fk_RefTable fk \<noteq> []) (b_foreignKeys b)))"
    using b by (auto simp: semi_free_blueprint_def list_all_iff fkConstraintSQL_def bq_def)
  ultimately show ?thesis
    using b by (simp add: statement_def create_table_stmt_def is_space_def bq_def semi_free_join semi_free_blueprint_def)
qed

lemma statement_index:
  assumes "semi_free_blueprint b" "idx \<in> set (all_indexes b)"
  shows "statement (index_stmt b idx)"
proof -
  have n: "semi_free (i_Name idx)" "list_all semi_free (i_Columns idx)" "semi_free (b_table b)"
    using assms by (auto simp: all_indexes_def semi_free_blueprint_def list_all_iff column_index_def indexName_def)
  then have "semi_free (join (map (bq b) (i_Columns idx)) '', '')"
    by (intro semi_free_join) (auto simp: list_all_iff bq_def)
  with n show ?thesis by (simp add: statement_def index_stmt_def is_space_def bq_def)
qed

text \<open>
  The migrator runs exactly the statements the schema builder wrote. Cutting the text of
  \<^verbatim>\<open>ToCreateSQL\<close> at its semicolons gives the \<^verbatim>\<open>CREATE TABLE\<close> statement with all columns and foreign keys, then one
  \<^verbatim>\<open>CREATE INDEX\<close> per index, in order, in every dialect, provided no name, default or action contains a semicolon.
\<close>

lemma schema_statements:
  assumes "semi_free_blueprint b"
  shows "splitSQL (ToCreateSQL b) = create_table_stmt b # map (index_stmt b) (all_indexes b)"
  unfolding ToCreateSQL_eq
  using assms by (intro splitSQL_statements) (simp add: list_all_iff statement_create statement_index)

lemma schema_statements_example:
  "splitSQL (ToCreateSQL (Index [''a'', ''b''] (SetIndex (String_col ''a'' 20 (ID (NewBlueprint ''t'' SQLite)))))) =
     [create_table_stmt (Index [''a'', ''b''] (SetIndex (String_col ''a'' 20 (ID (NewBlueprint ''t'' SQLite))))),
      ''CREATE INDEX IF NOT EXISTS '' @ [CHR 34] @ ''idx_t_a'' @ [CHR 34] @ '' ON '' @ [CHR 34] @ ''t'' @ [CHR 34] @ '' ('' @ [CHR 34] @ ''a'' @ [CHR 34] @ '')'',
      ''CREATE INDEX IF NOT EXISTS '' @ [CHR 34] @ ''idx_t_a_b'' @ [CHR 34] @ '' ON '' @ [CHR 34] @ ''t'' @ [CHR 34] @ '' ('' @ [CHR 34] @ ''a'' @ [CHR 34] @ '', '' @ [CHR 34] @ ''b'' @ [CHR 34] @ '')'']"
proof -
  let ?b = "Index [''a'', ''b''] (SetIndex (String_col ''a'' 20 (ID (NewBlueprint ''t'' SQLite))))"
  have "semi_free_blueprint ?b" by code_simp
  from schema_statements [OF this] show ?thesis
    by (simp add: all_indexes_def Index_def SetIndex_def String_col_def ID_def NewBlueprint_def add_column_def new_column_def on_last_def
        column_index_def indexName_def index_stmt_def bq_def QuoteIdent_def quote_char_def driver_Name_def)
qed

text \<open>A semicolon inside a default is cut like any other.\<close>

lemma default_with_semicolon_is_cut:
  "length (splitSQL (ToCreateSQL (SetDefault (CHR 39 # '';'' @ [CHR 39]) (Text_col ''a'' (NewBlueprint ''t'' MySQL))))) = 2"
  by code_simp

text \<open>On SQLite an altered foreign key is only a comment, without a semicolon: it becomes the head of the next statement.\<close>

lemma sqlite_comment_joins_statement:
  "length (splitSQL (ToAlterSQL (On ''u'' (Foreign ''x'' (NewBlueprint ''t'' SQLite))))) = 1"
  by code_simp

end
