(* ===== verification/Transaction.thy ===== *)
theory Transaction
  imports GoPrelude
begin

text \<open>
  Transactions of the ORM (\<^verbatim>\<open>db.go\<close>). The connection is a state \<open>'w\<close> with the operations of \<^verbatim>\<open>database/sql\<close> as
  parameters. A call on a handle that is bound to a transaction opens a savepoint, whose name comes from the
  counter \<^verbatim>\<open>savepointSeq\<close>; the counter counts calls of one process and is a \<^typ>\<open>nat\<close> here. The function that runs
  inside may end well, with an error, or in a panic.
\<close>

section \<open>Definitions\<close>

datatype tx_result = TxOk | TxErr string | TxPanic

record 'w tx_ops =
  BeginTx :: "'w \<Rightarrow> string option \<times> 'w"
  tx_Exec :: "string \<Rightarrow> 'w \<Rightarrow> string option \<times> 'w"
  tx_Commit :: "'w \<Rightarrow> string option \<times> 'w"
  tx_Rollback :: "'w \<Rightarrow> string option \<times> 'w"

type_synonym 'w tx_body = "nat \<times> 'w \<Rightarrow> tx_result \<times> nat \<times> 'w"

definition savepoint_name :: "nat \<Rightarrow> string" where
  "savepoint_name n = ''sp_'' @ nat_str n"

definition nested_transaction :: "'w tx_ops \<Rightarrow> 'w tx_body \<Rightarrow> 'w tx_body" where
  "nested_transaction ops fn = (\<lambda>(seq, w).
     let seq = Suc seq; sp = savepoint_name seq in
     case tx_Exec ops (''SAVEPOINT '' @ sp) w of
       (Some e, w1) \<Rightarrow> (TxErr (''gai/orm: savepoint: '' @ e), seq, w1)
     | (None, w1) \<Rightarrow>
         (case fn (seq, w1) of
            (TxPanic, st) \<Rightarrow> (TxPanic, st)
          | (TxErr e, seq', w2) \<Rightarrow> (TxErr e, seq', snd (tx_Exec ops (''ROLLBACK TO '' @ sp) w2))
          | (TxOk, seq', w2) \<Rightarrow>
              (case tx_Exec ops (''RELEASE '' @ sp) w2 of
                 (Some e, w3) \<Rightarrow> (TxErr (''gai/orm: release savepoint: '' @ e), seq', w3)
               | (None, w3) \<Rightarrow> (TxOk, seq', w3))))"

text \<open>\<open>fn\<close> gets a handle; whether it is bound to a transaction is the flag.\<close>

definition Transaction :: "'w tx_ops \<Rightarrow> bool \<Rightarrow> (bool \<Rightarrow> 'w tx_body) \<Rightarrow> 'w tx_body" where
  "Transaction ops in_tx fn = (\<lambda>(seq, w).
     if in_tx then nested_transaction ops (fn True) (seq, w)
     else case BeginTx ops w of
       (Some e, w1) \<Rightarrow> (TxErr (''gai/orm: begin tx: '' @ e), seq, w1)
     | (None, w1) \<Rightarrow>
         (case fn True (seq, w1) of
            (TxPanic, st) \<Rightarrow> (TxPanic, st)
          | (TxErr e, seq', w2) \<Rightarrow>
              (case tx_Rollback ops w2 of
                 (Some rb, w3) \<Rightarrow> (TxErr (''gai/orm: rollback after '' @ e @ '': '' @ rb), seq', w3)
               | (None, w3) \<Rightarrow> (TxErr e, seq', w3))
          | (TxOk, seq', w2) \<Rightarrow>
              (case tx_Commit ops w2 of
                 (Some e, w3) \<Rightarrow> (TxErr (''gai/orm: commit: '' @ e), seq', w3)
               | (None, w3) \<Rightarrow> (TxOk, seq', w3))))"

section \<open>Savepoints\<close>

text \<open>
  What the database promises inside a transaction: a stack of named savepoints with the data at their
  time. Rolling back to a name restores the topmost savepoint of that name and keeps it, releasing it
  removes it and those above and keeps the data.
\<close>

definition savepoint_laws :: "'w tx_ops \<Rightarrow> ('w \<Rightarrow> 'd) \<Rightarrow> ('w \<Rightarrow> (string \<times> 'd) list) \<Rightarrow> bool" where
  "savepoint_laws ops data stack \<longleftrightarrow>
     (\<forall>n w. \<exists>w'. tx_Exec ops (''SAVEPOINT '' @ n) w = (None, w') \<and> data w' = data w \<and> stack w' = (n, data w) # stack w) \<and>
     (\<forall>n w pre d post. stack w = pre @ (n, d) # post \<and> n \<notin> fst ` set pre \<longrightarrow>
        (\<exists>w'. tx_Exec ops (''ROLLBACK TO '' @ n) w = (None, w') \<and> data w' = d \<and> stack w' = (n, d) # post)) \<and>
     (\<forall>n w pre d post. stack w = pre @ (n, d) # post \<and> n \<notin> fst ` set pre \<longrightarrow>
        (\<exists>w'. tx_Exec ops (''RELEASE '' @ n) w = (None, w') \<and> data w' = data w \<and> stack w' = post))"

text \<open>
  A body that uses the transaction properly: it leaves the savepoints it found in place, and those it leaves
  above them have names given out during its run.
\<close>

definition well_nested :: "('w \<Rightarrow> (string \<times> 'd) list) \<Rightarrow> 'w tx_body \<Rightarrow> bool" where
  "well_nested stack fn \<longleftrightarrow>
     (\<forall>seq w r seq' w'. fn (seq, w) = (r, seq', w') \<longrightarrow>
        seq \<le> seq' \<and> (\<exists>pre. stack w' = pre @ stack w \<and> fst ` set pre \<subseteq> savepoint_name ` {seq <.. seq'}))"

lemma savepoint_name_inject [simp]: "savepoint_name i = savepoint_name j \<longleftrightarrow> i = j"
  by (simp add: savepoint_name_def)

lemma well_nestedD:
  assumes "well_nested stack fn" and "fn (seq, w) = (r, seq', w')"
  obtains pre where "seq \<le> seq'" and "stack w' = pre @ stack w" and "fst ` set pre \<subseteq> savepoint_name ` {seq <.. seq'}"
proof -
  from assms have "seq \<le> seq' \<and> (\<exists>pre. stack w' = pre @ stack w \<and> fst ` set pre \<subseteq> savepoint_name ` {seq <.. seq'})"
    unfolding well_nested_def by blast
  then show ?thesis using that by blast
qed

text \<open>Bodies are closed under sequencing.\<close>

definition then_tx :: "'w tx_body \<Rightarrow> 'w tx_body \<Rightarrow> 'w tx_body" where
  "then_tx f g = (\<lambda>st. case f st of (TxOk, st') \<Rightarrow> g st' | r \<Rightarrow> r)"

lemma well_nested_then_tx:
  assumes "well_nested stack f" and "well_nested stack g"
  shows "well_nested stack (then_tx f g)"
  unfolding well_nested_def
proof (intro allI impI)
  fix seq w r seq' w'
  assume run: "then_tx f g (seq, w) = (r, seq', w')"
  obtain r1 s1 w1 where f: "f (seq, w) = (r1, s1, w1)" by (metis prod_cases3)
  obtain pre1 where p1: "seq \<le> s1" "stack w1 = pre1 @ stack w" "fst ` set pre1 \<subseteq> savepoint_name ` {seq <.. s1}"
    by (rule well_nestedD [OF assms(1) f])
  show "seq \<le> seq' \<and> (\<exists>pre. stack w' = pre @ stack w \<and> fst ` set pre \<subseteq> savepoint_name ` {seq <.. seq'})"
  proof (cases "r1 = TxOk")
    case True
    with run f have g: "g (s1, w1) = (r, seq', w')" by (simp add: then_tx_def)
    obtain pre2 where p2: "s1 \<le> seq'" "stack w' = pre2 @ stack w1" "fst ` set pre2 \<subseteq> savepoint_name ` {s1 <.. seq'}"
      by (rule well_nestedD [OF assms(2) g])
    have "savepoint_name ` {seq <.. s1} \<subseteq> savepoint_name ` {seq <.. seq'}" "savepoint_name ` {s1 <.. seq'} \<subseteq> savepoint_name ` {seq <.. seq'}"
      using p1(1) p2(1) by (auto intro!: image_mono)
    then have "fst ` set (pre2 @ pre1) \<subseteq> savepoint_name ` {seq <.. seq'}"
      using p1(3) p2(3) by (simp only: set_append image_Un Un_subset_iff) (meson subset_trans)
    with p1(1,2) p2(1,2) show ?thesis by (intro conjI exI [of _ "pre2 @ pre1"]) simp_all
  next
    case False
    with run f have "s1 = seq'" "w1 = w'" by (auto simp: then_tx_def split: tx_result.splits)
    with p1 show ?thesis by blast
  qed
qed

section \<open>Properties\<close>

lemma nested_run:
  assumes "savepoint_laws ops data stack" and "well_nested stack fn"
    and "nested_transaction ops fn (seq, w) = (r, seq', w')"
  shows "seq < seq' \<and> (\<exists>pre. stack w' = pre @ stack w \<and> fst ` set pre \<subseteq> savepoint_name ` {seq <.. seq'}) \<and>
     (\<exists>w1 w2. data w1 = data w \<and> fn (Suc seq, w1) = (r, seq', w2) \<and>
        (r = TxOk \<longrightarrow> data w' = data w2 \<and> stack w' = stack w) \<and> (\<forall>e. r = TxErr e \<longrightarrow> data w' = data w))"
proof -
  let ?sp = "savepoint_name (Suc seq)"
  obtain w1 where w1: "tx_Exec ops (''SAVEPOINT '' @ ?sp) w = (None, w1)" "data w1 = data w" "stack w1 = (?sp, data w) # stack w"
    using assms(1) unfolding savepoint_laws_def by blast
  obtain r2 s2 w2 where f: "fn (Suc seq, w1) = (r2, s2, w2)" by (metis prod_cases3)
  obtain pre where pre: "Suc seq \<le> s2" "stack w2 = pre @ stack w1" "fst ` set pre \<subseteq> savepoint_name ` {Suc seq <.. s2}"
    by (rule well_nestedD [OF assms(2) f])
  have st2: "stack w2 = pre @ (?sp, data w) # stack w" "?sp \<notin> fst ` set pre" using pre w1 by auto
  obtain wr where wr: "tx_Exec ops (''ROLLBACK TO '' @ ?sp) w2 = (None, wr)" "data wr = data w" "stack wr = (?sp, data w) # stack w"
    using assms(1) st2 unfolding savepoint_laws_def by blast
  obtain wl where wl: "tx_Exec ops (''RELEASE '' @ ?sp) w2 = (None, wl)" "data wl = data w2" "stack wl = stack w"
    using assms(1) st2 unfolding savepoint_laws_def by blast
  have run: "(r, seq', w') = (case r2 of TxPanic \<Rightarrow> (TxPanic, s2, w2) | TxErr e \<Rightarrow> (TxErr e, s2, wr) | TxOk \<Rightarrow> (TxOk, s2, wl))"
    using assms(3) f wr(1) wl(1) w1(1) by (cases r2) (auto simp: nested_transaction_def Let_def)
  have sp: "?sp \<in> savepoint_name ` {seq <.. s2}" using pre(1) by auto
  have pre': "fst ` set pre \<subseteq> savepoint_name ` {seq <.. s2}" using pre(3) by auto
  show ?thesis
  proof (cases r2)
    case TxOk
    then have "r = TxOk" "seq' = s2" "w' = wl" using run by auto
    moreover have "seq < s2" "fst ` set [] \<subseteq> savepoint_name ` {seq <.. s2}" using pre(1) by simp_all
    ultimately show ?thesis using f TxOk wl w1(2) by (intro conjI exI [of _ "[]"] exI [of _ w1] exI [of _ w2]) simp_all
  next
    case (TxErr e)
    then have "r = TxErr e" "seq' = s2" "w' = wr" using run by auto
    moreover have "seq < s2" using pre(1) by simp
    ultimately show ?thesis using f TxErr wr w1(2) sp
      by (intro conjI exI [of _ "[(?sp, data w)]"] exI [of _ w1] exI [of _ w2]) simp_all
  next
    case TxPanic
    then have "r = TxPanic" "seq' = s2" "w' = w2" using run by auto
    moreover have "seq < s2" using pre(1) by simp
    ultimately show ?thesis using f TxPanic w1(2) sp pre' st2(1)
      by (intro conjI exI [of _ "pre @ [(?sp, data w)]"] exI [of _ w1] exI [of _ w2]) simp_all
  qed
qed


text \<open>A small database with savepoints that satisfies the laws.\<close>

definition ref_exec :: "string \<Rightarrow> int \<times> (string \<times> int) list \<Rightarrow> string option \<times> int \<times> (string \<times> int) list" where
  "ref_exec s = (\<lambda>(d, st).
     if has_prefix s ''SAVEPOINT '' then (None, d, (drop 10 s, d) # st)
     else if has_prefix s ''ROLLBACK TO '' then
       (case dropWhile (\<lambda>p. fst p \<noteq> drop 12 s) st of (n, d0) # post \<Rightarrow> (None, d0, (n, d0) # post) | [] \<Rightarrow> (Some ''no such savepoint'', d, st))
     else if has_prefix s ''RELEASE '' then
       (case dropWhile (\<lambda>p. fst p \<noteq> drop 8 s) st of p # post \<Rightarrow> (None, d, post) | [] \<Rightarrow> (Some ''no such savepoint'', d, st))
     else (None, d, st))"

definition ref_ops :: "(int \<times> (string \<times> int) list) tx_ops" where
  "ref_ops = \<lparr>BeginTx = Pair None, tx_Exec = ref_exec, tx_Commit = Pair None, tx_Rollback = Pair None\<rparr>"

lemma dropWhile_name:
  "n \<notin> fst ` set pre \<Longrightarrow> dropWhile (\<lambda>p. fst p \<noteq> n) (pre @ (n, d) # post) = (n, d) # post"
  by (induction pre) auto

lemma ref_ops_laws: "savepoint_laws ref_ops fst snd"
  by (auto simp: savepoint_laws_def ref_ops_def ref_exec_def dropWhile_name)

definition failing_body :: "(int \<times> (string \<times> int) list) tx_body" where
  "failing_body = (\<lambda>(seq, d, st). (TxErr ''x'', seq, 5, st))"


text \<open>
  There is no deferred rollback: a panic in the body leaves the transaction, or the savepoint, open in the
  state in which the body left it.
\<close>

lemma panic_leaves_transaction_open:
  "BeginTx ops w = (None, w1) \<Longrightarrow> fn True (seq, w1) = (TxPanic, st) \<Longrightarrow> Transaction ops False fn (seq, w) = (TxPanic, st)"
  by (simp add: Transaction_def)

end
