(* ===== verification/Migrator.thy ===== *)
theory Migrator
  imports Migration Transaction "HOL-Library.List_Lexorder" "HOL-Library.Char_ord"
begin

text \<open>
  The migrator (\<^verbatim>\<open>migrator.go\<close>) and its command front end (\<^verbatim>\<open>execute.go\<close>). The database is the table
  \<^verbatim>\<open>migrations\<close>, here the rows that SQL statements on it insert, select and delete, and the rest of the
  database, a state \<open>'w\<close> on which the statements of the migrations run through the operations of
  \<^verbatim>\<open>database/sql\<close> (\<open>tx_ops\<close> of \<^verbatim>\<open>Transaction\<close>). Every statement on the table may fail: \<open>fault\<close> says with which error, and a
  statement that fails changes nothing. Names are compared as Go compares strings, byte by byte.
\<close>

section \<open>State\<close>

record migration =
  mig_Name :: string
  mig_Up :: "dialect \<Rightarrow> string"
  mig_Down :: "dialect \<Rightarrow> string"

record 'w mig_db =
  rows :: "(string \<times> int) list"
  schema :: 'w

datatype mig_op = EnsureTable | RanMigrations | LastBatch | BatchMigrations int | Record string | RemoveRecord string

record 'w env =
  e_ops :: "'w tx_ops"
  e_driver :: dialect
  e_fault :: "mig_op \<Rightarrow> 'w mig_db \<Rightarrow> string option"

section \<open>Statements on the table\<close>

definition ensureTable :: "'w env \<Rightarrow> 'w mig_db \<Rightarrow> string option" where
  "ensureTable env s = e_fault env EnsureTable s"

definition ranMigrations :: "'w env \<Rightarrow> 'w mig_db \<Rightarrow> string + string list" where
  "ranMigrations env s =
     (case e_fault env RanMigrations s of Some e \<Rightarrow> Inl e | None \<Rightarrow> Inr (sort (map fst (rows s))))"

definition lastBatch :: "'w env \<Rightarrow> 'w mig_db \<Rightarrow> string + int" where
  "lastBatch env s =
     (case e_fault env LastBatch s of
        Some e \<Rightarrow> Inl e
      | None \<Rightarrow> Inr (if rows s = [] then 0 else Max (snd ` set (rows s))))"

definition batchMigrations :: "'w env \<Rightarrow> int \<Rightarrow> 'w mig_db \<Rightarrow> string + string list" where
  "batchMigrations env batch s =
     (case e_fault env (BatchMigrations batch) s of
        Some e \<Rightarrow> Inl e
      | None \<Rightarrow> Inr (sort (map fst (filter (\<lambda>r. snd r = batch) (rows s)))))"

definition record_run :: "'w env \<Rightarrow> string \<Rightarrow> int \<Rightarrow> 'w mig_db \<Rightarrow> string option \<times> 'w mig_db" where
  "record_run env name batch s =
     (case e_fault env (Record name) s of
        Some e \<Rightarrow> (Some e, s)
      | None \<Rightarrow> (None, s\<lparr>rows := rows s @ [(name, batch)]\<rparr>))"

definition removeRecord :: "'w env \<Rightarrow> string \<Rightarrow> 'w mig_db \<Rightarrow> string option \<times> 'w mig_db" where
  "removeRecord env name s =
     (case e_fault env (RemoveRecord name) s of
        Some e \<Rightarrow> (Some e, s)
      | None \<Rightarrow> (None, s\<lparr>rows := filter (\<lambda>r. fst r \<noteq> name) (rows s)\<rparr>))"

section \<open>Running SQL\<close>

fun exec_all :: "'w tx_ops \<Rightarrow> string list \<Rightarrow> 'w \<Rightarrow> string option \<times> 'w" where
  "exec_all ops [] w = tx_Commit ops w"
| "exec_all ops (stmt # stmts) w =
     (case tx_Exec ops stmt w of
        (Some e, w') \<Rightarrow> (Some e, snd (tx_Rollback ops w'))
      | (None, w') \<Rightarrow> exec_all ops stmts w')"

definition execSQL :: "'w tx_ops \<Rightarrow> string \<Rightarrow> 'w \<Rightarrow> string option \<times> 'w" where
  "execSQL ops sqlStr w =
     (let stmts = splitSQL sqlStr in
      if stmts = [] then (None, w)
      else case BeginTx ops w of
        (Some e, w') \<Rightarrow> (Some e, w')
      | (None, w') \<Rightarrow> exec_all ops stmts w')"

definition run_sql :: "'w env \<Rightarrow> string \<Rightarrow> 'w mig_db \<Rightarrow> string option \<times> 'w mig_db" where
  "run_sql env sqlStr s =
     (case execSQL (e_ops env) sqlStr (schema s) of (r, w) \<Rightarrow> (r, s\<lparr>schema := w\<rparr>))"

section \<open>Migrate\<close>

definition sort_migrations :: "migration list \<Rightarrow> migration list" where
  "sort_migrations ms = sort_key mig_Name ms"

fun migrate_loop :: "'w env \<Rightarrow> string set \<Rightarrow> int \<Rightarrow> migration list \<Rightarrow> 'w mig_db \<Rightarrow> string option \<times> 'w mig_db" where
  "migrate_loop env applied batch [] s = (None, s)"
| "migrate_loop env applied batch (mig # ms) s =
     (if mig_Name mig \<in> applied then migrate_loop env applied batch ms s
      else case run_sql env (mig_Up mig (e_driver env)) s of
        (Some e, s') \<Rightarrow> (Some (''gai/migration: failed to run '' @ mig_Name mig @ '': '' @ e), s')
      | (None, s') \<Rightarrow>
          (case record_run env (mig_Name mig) batch s' of
             (Some e, s'') \<Rightarrow> (Some e, s'')
           | (None, s'') \<Rightarrow> migrate_loop env applied batch ms s''))"

text \<open>The error of \<^verbatim>\<open>lastBatch\<close> is ignored: the batch is then the first.\<close>

definition Migrate :: "'w env \<Rightarrow> migration list \<Rightarrow> 'w mig_db \<Rightarrow> string option \<times> 'w mig_db" where
  "Migrate env ms s =
     (case ensureTable env s of
        Some e \<Rightarrow> (Some e, s)
      | None \<Rightarrow>
          (case ranMigrations env s of
             Inl e \<Rightarrow> (Some e, s)
           | Inr applied \<Rightarrow>
               (let batch = (case lastBatch env s of Inl _ \<Rightarrow> 0 | Inr b \<Rightarrow> b) + 1
                in migrate_loop env (set applied) batch (sort_migrations ms) s)))"

section \<open>Rollback\<close>

definition mig_map :: "migration list \<Rightarrow> string \<rightharpoonup> migration" where
  "mig_map ms = map_of (rev (map (\<lambda>g. (mig_Name g, g)) ms))"

text \<open>The names come in the order in which they are rolled back.\<close>

fun rollback_loop :: "'w env \<Rightarrow> (string \<rightharpoonup> migration) \<Rightarrow> string list \<Rightarrow> 'w mig_db \<Rightarrow> string option \<times> 'w mig_db" where
  "rollback_loop env mm [] s = (None, s)"
| "rollback_loop env mm (name # names) s =
     (case mm name of
        None \<Rightarrow> rollback_loop env mm names s
      | Some mig \<Rightarrow>
          (case run_sql env (mig_Down mig (e_driver env)) s of
             (Some e, s') \<Rightarrow> (Some (''gai/migration: failed to rollback '' @ name @ '': '' @ e), s')
           | (None, s') \<Rightarrow>
               (case removeRecord env name s' of
                  (Some e, s'') \<Rightarrow> (Some e, s'')
                | (None, s'') \<Rightarrow> rollback_loop env mm names s'')))"

definition Rollback :: "'w env \<Rightarrow> migration list \<Rightarrow> 'w mig_db \<Rightarrow> string option \<times> 'w mig_db" where
  "Rollback env ms s =
     (case ensureTable env s of
        Some e \<Rightarrow> (Some e, s)
      | None \<Rightarrow>
          (case lastBatch env s of
             Inl e \<Rightarrow> (Some e, s)
           | Inr batch \<Rightarrow>
               if batch = 0 then (None, s)
               else (case batchMigrations env batch s of
                       Inl e \<Rightarrow> (Some e, s)
                     | Inr names \<Rightarrow> rollback_loop env (mig_map ms) (rev names) s)))"

section \<open>Status, Reset, Fresh and the commands\<close>

definition Status :: "'w env \<Rightarrow> migration list \<Rightarrow> 'w mig_db \<Rightarrow> string + (string \<times> bool) list" where
  "Status env ms s =
     (case ensureTable env s of
        Some e \<Rightarrow> Inl e
      | None \<Rightarrow>
          (case ranMigrations env s of
             Inl e \<Rightarrow> Inl e
           | Inr applied \<Rightarrow> Inr (map (\<lambda>g. (mig_Name g, mig_Name g \<in> set applied)) (sort_migrations ms))))"

text \<open>The loop of \<^verbatim>\<open>Reset\<close> with a bound on its turns; \<^const>\<open>None\<close> when it is still running after that many.\<close>

fun reset_loop :: "nat \<Rightarrow> 'w env \<Rightarrow> migration list \<Rightarrow> 'w mig_db \<Rightarrow> (string option \<times> 'w mig_db) option" where
  "reset_loop 0 env ms s = None"
| "reset_loop (Suc n) env ms s =
     (case lastBatch env s of
        Inl e \<Rightarrow> Some (Some e, s)
      | Inr batch \<Rightarrow>
          if batch = 0 then Some (None, s)
          else (case Rollback env ms s of
                  (Some e, s') \<Rightarrow> Some (Some e, s')
                | (None, s') \<Rightarrow> reset_loop n env ms s'))"

definition Reset :: "nat \<Rightarrow> 'w env \<Rightarrow> migration list \<Rightarrow> 'w mig_db \<Rightarrow> (string option \<times> 'w mig_db) option" where
  "Reset fuel env ms s =
     (case ensureTable env s of Some e \<Rightarrow> Some (Some e, s) | None \<Rightarrow> reset_loop fuel env ms s)"

definition Fresh :: "nat \<Rightarrow> 'w env \<Rightarrow> migration list \<Rightarrow> 'w mig_db \<Rightarrow> (string option \<times> 'w mig_db) option" where
  "Fresh fuel env ms s =
     (case Reset fuel env ms s of
        None \<Rightarrow> None
      | Some (Some e, s') \<Rightarrow> Some (Some e, s')
      | Some (None, s') \<Rightarrow> Some (Migrate env ms s'))"

text \<open>A migrator is its list of migrations.\<close>

definition NewMigrator :: "migration list" where
  "NewMigrator = []"

definition Migrator_Add :: "migration \<Rightarrow> migration list \<Rightarrow> migration list" where
  "Migrator_Add mig ms = ms @ [mig]"

text \<open>The migrator's part of \<^verbatim>\<open>ExecuteTo\<close>.\<close>

definition Execute :: "nat \<Rightarrow> 'w env \<Rightarrow> migration list \<Rightarrow> string \<Rightarrow> 'w mig_db \<Rightarrow> (string option \<times> 'w mig_db) option" where
  "Execute fuel env ms command s =
     (if command = [] \<or> command = ''migrate'' \<or> command = ''up'' then Some (Migrate env ms s)
      else if command = ''rollback'' then Some (Rollback env ms s)
      else if command = ''status'' then Some (case Status env ms s of Inl e \<Rightarrow> Some e | Inr _ \<Rightarrow> None, s)
      else if command = ''fresh'' then Fresh fuel env ms s
      else if command = ''reset'' then Reset fuel env ms s
      else Some (Some (''gai/migration: unknown command '' @ command), s))"

text \<open>
  What is printed. \<^verbatim>\<open>tabwriter\<close> pads the first column to its widest cell and two spaces more.
\<close>

definition status_line :: "nat \<Rightarrow> string \<times> string \<Rightarrow> string" where
  "status_line w l = fst l @ replicate (w + 2 - length (fst l)) (CHR '' '') @ snd l @ [CHR 10]"

definition printStatus :: "'w env \<Rightarrow> migration list \<Rightarrow> 'w mig_db \<Rightarrow> string option \<times> string" where
  "printStatus env ms s =
     (case Status env ms s of
        Inl e \<Rightarrow> (Some e, [])
      | Inr statuses \<Rightarrow>
          if statuses = [] then (None, ''No migrations registered.'' @ [CHR 10])
          else let ls = (''STATUS'', ''MIGRATION'') # map (\<lambda>(name, ran). (if ran then ''Ran'' else ''Pending'', name)) statuses;
                   w = fold (\<lambda>l. max (length (fst l))) ls 0
               in (None, concat (map (status_line w) ls)))"

definition announce :: "string \<Rightarrow> (string \<times> string) option" where
  "announce command =
     (if command = [] \<or> command = ''migrate'' \<or> command = ''up'' then Some (''Running migrations...'', ''Migrations complete.'')
      else if command = ''rollback'' then Some (''Rolling back last migration batch...'', ''Rollback complete.'')
      else if command = ''fresh'' then Some (''Fresh: rollback all and re-run...'', ''Fresh complete.'')
      else if command = ''reset'' then Some (''Resetting all migrations...'', ''Reset complete.'')
      else None)"

definition ExecuteTo ::
  "nat \<Rightarrow> 'w env \<Rightarrow> migration list \<Rightarrow> string \<Rightarrow> 'w mig_db \<Rightarrow> (string option \<times> 'w mig_db \<times> string) option" where
  "ExecuteTo fuel env migrations command s =
     (let ms = fold Migrator_Add migrations NewMigrator in
      if command = ''status'' then (case printStatus env ms s of (e, out) \<Rightarrow> Some (e, s, out))
      else map_option (\<lambda>(e, s').
             (e, s', case announce command of
                       None \<Rightarrow> []
                     | Some (start, finish) \<Rightarrow>
                         start @ [CHR 10] @ (if e = None then finish @ [CHR 10] else [])))
           (Execute fuel env ms command s))"

lemma migrator_of_list: "fold Migrator_Add migrations NewMigrator = migrations"
proof -
  have "fold Migrator_Add migrations ms = ms @ migrations" for ms
    by (induction migrations arbitrary: ms) (simp_all add: Migrator_Add_def)
  then show ?thesis by (simp add: NewMigrator_def)
qed

text \<open>
  What the output says: a completion is printed exactly if the command returned no error, and the status, which changes nothing,
  has a line for every migration, under its heading.
\<close>

lemma execute_output:
  assumes "ExecuteTo fuel env ms command s = Some (e, s', out)" and "announce command = Some (start, finish)"
  shows "Execute fuel env ms command s = Some (e, s') \<and> out = start @ [CHR 10] @ (if e = None then finish @ [CHR 10] else [])"
proof -
  have "command \<noteq> ''status''" using assms(2) by (auto simp: announce_def)
  then show ?thesis using assms by (auto simp: ExecuteTo_def migrator_of_list Let_def)
qed

lemma count_newlines_replicate: "length (filter (\<lambda>c. c = CHR 10) (replicate n (CHR '' ''))) = 0"
  by (induction n) simp_all

lemma status_lines:
  assumes "ExecuteTo fuel env ms ''status'' s = Some (None, s', out)" and "ms \<noteq> []" and "\<forall>m\<in>set ms. CHR 10 \<notin> set (mig_Name m)"
  shows "s' = s \<and> length (filter (\<lambda>c. c = CHR 10) out) = Suc (length ms)"
proof -
  have nl: "CHR 10 \<notin> set n \<Longrightarrow> length (filter (\<lambda>c. c = CHR 10) n) = 0" for n :: string
    by (induction n) auto
  have line: "length (filter (\<lambda>c. c = CHR 10) (status_line w (a, b))) = 1"
    if "CHR 10 \<notin> set a" "CHR 10 \<notin> set b" for w a b
    using nl [OF that(1)] nl [OF that(2)] by (simp add: status_line_def count_newlines_replicate)
  have lines: "length (filter (\<lambda>c. c = CHR 10) (concat (map (status_line w) ls))) = length ls"
    if "\<forall>(a, b)\<in>set ls. CHR 10 \<notin> set a \<and> CHR 10 \<notin> set b" for w ls
    using that by (induction ls) (auto simp: line)
  obtain st where st: "Status env ms s = Inr st" using assms(1) by (auto simp: ExecuteTo_def printStatus_def migrator_of_list split: sum.splits)
  then obtain applied where f: "st = map (\<lambda>g. (mig_Name g, mig_Name g \<in> set applied)) (sort_migrations ms)" by (auto simp: Status_def split: option.splits sum.splits)
  then have len: "length st = length ms" by (simp add: sort_migrations_def)
  then have "st \<noteq> []" using assms(2) by auto
  let ?ls = "(''STATUS'', ''MIGRATION'') # map (\<lambda>(name, ran). (if ran then ''Ran'' else ''Pending'', name)) st"
  have "\<forall>(a, b)\<in>set ?ls. CHR 10 \<notin> set a \<and> CHR 10 \<notin> set b" using assms(3) f by (auto simp: sort_migrations_def)
  from lines [OF this] show ?thesis
    using assms(1) st \<open>st \<noteq> []\<close> len by (auto simp: ExecuteTo_def printStatus_def migrator_of_list Let_def)
qed

section \<open>What a run of Migrate leaves\<close>

definition pending :: "migration list \<Rightarrow> 'w mig_db \<Rightarrow> migration list" where
  "pending ms s = filter (\<lambda>g. mig_Name g \<notin> fst ` set (rows s)) (sort_migrations ms)"

definition next_batch :: "'w env \<Rightarrow> 'w mig_db \<Rightarrow> int" where
  "next_batch env s = (case lastBatch env s of Inl _ \<Rightarrow> 0 | Inr b \<Rightarrow> b) + 1"

lemma run_sql_rows [simp]: "rows (snd (run_sql env q s)) = rows s"
  by (simp add: run_sql_def split: prod.split)

lemma migrate_loop_prefix:
  assumes "migrate_loop env applied b ms s = (r, s')"
  defines "todo \<equiv> filter (\<lambda>g. mig_Name g \<notin> applied) ms"
  shows "\<exists>k. rows s' = rows s @ map (\<lambda>g. (mig_Name g, b)) (take k todo) \<and>
     (if r = None then k = length todo else k < length todo)"
  using assms(1) unfolding todo_def
proof (induction ms arbitrary: s)
  case (Cons g ms)
  show ?case
  proof (cases "mig_Name g \<in> applied")
    case False
    obtain r1 s1 where up: "run_sql env (mig_Up g (e_driver env)) s = (r1, s1)" by fastforce
    then have rows1: "rows s1 = rows s" by (metis run_sql_rows snd_conv)
    obtain r2 s2 where rec: "record_run env (mig_Name g) b s1 = (r2, s2)" by fastforce
    show ?thesis
    proof (cases "r1 = None \<and> r2 = None")
      case True
      with rec have rows2: "rows s2 = rows s @ [(mig_Name g, b)]"
        by (auto simp: record_run_def rows1 split: option.splits)
      have "migrate_loop env applied b ms s2 = (r, s')" using Cons.prems False up rec True by simp
      from Cons.IH [OF this] obtain k where
        "rows s' = rows s2 @ map (\<lambda>g. (mig_Name g, b)) (take k (filter (\<lambda>g. mig_Name g \<notin> applied) ms))"
        "if r = None then k = length (filter (\<lambda>g. mig_Name g \<notin> applied) ms) else k < length (filter (\<lambda>g. mig_Name g \<notin> applied) ms)" by blast
      with rows2 False show ?thesis by (intro exI [of _ "Suc k"]) (auto split: if_splits)
    next
      case failed: False
      have "r \<noteq> None \<and> rows s' = rows s"
      proof (cases r1)
        case None
        with failed obtain e where e: "r2 = Some e" by auto
        with rec have "s2 = s1" by (auto simp: record_run_def split: option.splits)
        with Cons.prems False up rec None e rows1 show ?thesis by auto
      next
        case (Some e)
        with Cons.prems False up rows1 show ?thesis by auto
      qed
      with False show ?thesis by (intro exI [of _ 0]) simp
    qed
  next
    case True
    then have skip: "filter (\<lambda>g. mig_Name g \<notin> applied) (g # ms) = filter (\<lambda>g. mig_Name g \<notin> applied) ms" by simp
    show ?thesis unfolding skip by (rule Cons.IH) (use Cons.prems True in simp)
  qed
qed simp


section \<open>Migrate and Rollback\<close>

definition healthy :: "'w env \<Rightarrow> bool" where
  "healthy env \<longleftrightarrow> (\<forall>op s. e_fault env op s = None)"

lemma healthy_simps [simp]:
  assumes "healthy env"
  shows "ensureTable env s = None" "ranMigrations env s = Inr (sort (map fst (rows s)))"
    "lastBatch env s = Inr (if rows s = [] then 0 else Max (snd ` set (rows s)))"
    "batchMigrations env b s = Inr (sort (map fst (filter (\<lambda>r. snd r = b) (rows s))))"
    "record_run env name b s = (None, s\<lparr>rows := rows s @ [(name, b)]\<rparr>)"
    "removeRecord env name s = (None, s\<lparr>rows := filter (\<lambda>r. fst r \<noteq> name) (rows s)\<rparr>)"
  using assms
  by (simp_all add: healthy_def ensureTable_def ranMigrations_def lastBatch_def batchMigrations_def record_run_def removeRecord_def)

text \<open>\<open>Down\<close> takes back what \<open>Up\<close> did.\<close>

definition down_undoes_up :: "'w env \<Rightarrow> migration \<Rightarrow> bool" where
  "down_undoes_up env g \<longleftrightarrow>
     (\<forall>w w'. execSQL (e_ops env) (mig_Up g (e_driver env)) w = (None, w') \<longrightarrow>
        execSQL (e_ops env) (mig_Down g (e_driver env)) w' = (None, w))"

lemma rollback_loop_append:
  "rollback_loop env mm (xs @ ys) s =
     (case rollback_loop env mm xs s of (None, s') \<Rightarrow> rollback_loop env mm ys s' | (Some e, s') \<Rightarrow> (Some e, s'))"
  by (induction xs arbitrary: s) (auto split: option.splits prod.splits)

lemma rollback_undoes_loop:
  assumes "healthy env" and "list_all (down_undoes_up env) ms" and "distinct (map mig_Name ms)"
    and "\<And>g. g \<in> set ms \<Longrightarrow> mm (mig_Name g) = Some g \<and> mig_Name g \<notin> applied \<and> mig_Name g \<notin> fst ` set (rows s)"
    and "migrate_loop env applied b ms s = (None, s')"
  shows "rollback_loop env mm (rev (map mig_Name ms)) s' = (None, s)"
  using assms(2-5)
proof (induction ms arbitrary: s)
  case (Cons g ms)
  have g: "mm (mig_Name g) = Some g" "mig_Name g \<notin> applied" "mig_Name g \<notin> fst ` set (rows s)" using Cons.prems(3) by auto
  obtain w' where up: "execSQL (e_ops env) (mig_Up g (e_driver env)) (schema s) = (None, w')"
    and rest: "migrate_loop env applied b ms (s\<lparr>schema := w', rows := rows s @ [(mig_Name g, b)]\<rparr>) = (None, s')"
    using Cons.prems(4) g(2) assms(1) by (auto simp: run_sql_def split: prod.splits option.splits)
  let ?s1 = "s\<lparr>schema := w', rows := rows s @ [(mig_Name g, b)]\<rparr>"
  have fresh: "mig_Name h \<noteq> mig_Name g" if "h \<in> set ms" for h
    using Cons.prems(2) imageI [OF that, of mig_Name] by auto
  have "rollback_loop env mm (rev (map mig_Name ms)) s' = (None, ?s1)"
    by (rule Cons.IH [OF _ _ _ rest]) (use Cons.prems(1-3) fresh in auto)
  moreover have "execSQL (e_ops env) (mig_Down g (e_driver env)) w' = (None, schema s)"
    using up Cons.prems(1) by (simp add: down_undoes_up_def)
  moreover have "filter (\<lambda>r. fst r \<noteq> mig_Name g) (rows s) = rows s"
    using g(3) by (intro filter_True) force
  ultimately show ?case
    using g(1) assms(1) by (simp add: rollback_loop_append run_sql_def)
qed simp

lemma mig_map_Some: "distinct (map mig_Name ms) \<Longrightarrow> g \<in> set ms \<Longrightarrow> mig_map ms (mig_Name g) = Some g"
  unfolding mig_map_def by (rule map_of_is_SomeI) (auto simp: rev_map [symmetric] o_def)

lemma mig_map_None: "mig_map ms name = None \<longleftrightarrow> name \<notin> mig_Name ` set ms"
  unfolding mig_map_def by (simp add: map_of_eq_None_iff image_image)

lemma set_sort_migrations [simp]: "set (sort_migrations ms) = set ms"
  by (simp add: sort_migrations_def)

lemma distinct_pending: "distinct (map mig_Name ms) \<Longrightarrow> distinct (map mig_Name (pending ms s))"
proof -
  assume "distinct (map mig_Name ms)"
  then have "distinct (map mig_Name (sort_migrations ms))"
    by (simp add: distinct_map sort_migrations_def)
  then show ?thesis by (auto simp: pending_def distinct_map intro: inj_on_subset)
qed

lemma sort_pending: "sort (map mig_Name (pending ms s)) = map mig_Name (pending ms s)"
proof -
  have "sorted (map mig_Name (pending ms s))"
    unfolding pending_def sort_migrations_def by (rule sorted_filter) simp
  then show ?thesis by (simp add: sort_key_id_if_sorted)
qed

lemma Migrate_healthy:
  "healthy env \<Longrightarrow> Migrate env ms s =
     migrate_loop env (fst ` set (rows s)) (next_batch env s) (sort_migrations ms) s"
  by (simp add: Migrate_def Let_def next_batch_def)

text \<open>Migrations that already ran are passed over.\<close>

lemma migrate_loop_filter:
  "migrate_loop env applied b ms s = migrate_loop env applied b (filter (\<lambda>g. mig_Name g \<notin> applied) ms) s"
  by (induction ms arbitrary: s) (auto split: option.splits prod.splits)

lemma next_batch_above: "healthy env \<Longrightarrow> r \<in> set (rows s) \<Longrightarrow> snd r < next_batch env s"
  by (auto simp: next_batch_def less_le_trans [of _ "_ + 1"] zle_add1_eq_le intro!: Max_ge)

lemma after_migrate_batch:
  assumes "healthy env" and "rows s' = rows s @ map (\<lambda>g. (mig_Name g, next_batch env s)) gs" and "gs \<noteq> []"
  shows "lastBatch env s' = Inr (next_batch env s)"
    and "filter (\<lambda>r. snd r = next_batch env s) (rows s') = map (\<lambda>g. (mig_Name g, next_batch env s)) gs"
proof -
  have below: "snd r < next_batch env s" if "r \<in> set (rows s)" for r using next_batch_above [OF assms(1) that] .
  have "Max (snd ` set (rows s')) = next_batch env s"
    using assms(2,3) below by (intro Max_eqI) (fastforce simp: image_Un image_image neq_Nil_conv)+
  then show "lastBatch env s' = Inr (next_batch env s)" using assms by simp
  show "filter (\<lambda>r. snd r = next_batch env s) (rows s') = map (\<lambda>g. (mig_Name g, next_batch env s)) gs"
    using below by (fastforce simp: assms(2) filter_empty_conv filter_id_conv)
qed


section \<open>Reset\<close>

definition downs_run :: "'w env \<Rightarrow> migration list \<Rightarrow> bool" where
  "downs_run env ms \<longleftrightarrow> (\<forall>g\<in>set ms. \<forall>w. fst (execSQL (e_ops env) (mig_Down g (e_driver env)) w) = None)"

lemma rollback_loop_rows:
  assumes "healthy env" and "downs_run env ms"
  shows "\<exists>s'. rollback_loop env (mig_map ms) names s = (None, s') \<and>
     rows s' = filter (\<lambda>r. fst r \<notin> set names \<or> fst r \<notin> mig_Name ` set ms) (rows s)"
proof (induction names arbitrary: s)
  case (Cons name names)
  show ?case
  proof (cases "mig_map ms name")
    case None
    then have "name \<notin> mig_Name ` set ms" by (simp add: mig_map_None)
    moreover obtain s' where "rollback_loop env (mig_map ms) names s = (None, s')"
        "rows s' = filter (\<lambda>r. fst r \<notin> set names \<or> fst r \<notin> mig_Name ` set ms) (rows s)" using Cons.IH by blast
    ultimately show ?thesis using None by (auto intro!: filter_cong)
  next
    case (Some g)
    then have g: "g \<in> set ms" "mig_Name g = name" unfolding mig_map_def by (auto dest!: map_of_SomeD)
    obtain w where w: "execSQL (e_ops env) (mig_Down g (e_driver env)) (schema s) = (None, w)"
      using assms(2) g(1) unfolding downs_run_def by (metis prod.collapse)
    let ?s1 = "s\<lparr>schema := w, rows := filter (\<lambda>r. fst r \<noteq> name) (rows s)\<rparr>"
    obtain s' where "rollback_loop env (mig_map ms) names ?s1 = (None, s')"
        "rows s' = filter (\<lambda>r. fst r \<notin> set names \<or> fst r \<notin> mig_Name ` set ms) (rows ?s1)" using Cons.IH by blast
    moreover have "filter (\<lambda>r. fst r \<notin> set names \<or> fst r \<notin> mig_Name ` set ms) (rows ?s1) =
        filter (\<lambda>r. fst r \<notin> set (name # names) \<or> fst r \<notin> mig_Name ` set ms) (rows s)"
      using g by (auto intro!: filter_cong)
    ultimately show ?thesis using Some w assms(1) by (simp add: run_sql_def)
  qed
qed simp

text \<open>One turn of the loop, when the table is not empty.\<close>

lemma Rollback_rows:
  assumes "healthy env" and "downs_run env ms" and "rows s \<noteq> []" and "list_all (\<lambda>r. 0 < snd r) (rows s)"
  defines "b \<equiv> Max (snd ` set (rows s))"
  shows "0 < b" and "\<exists>s'. Rollback env ms s = (None, s') \<and>
     rows s' = filter (\<lambda>r. fst r \<notin> fst ` {r \<in> set (rows s). snd r = b} \<or> fst r \<notin> mig_Name ` set ms) (rows s)"
proof -
  have "b \<in> snd ` set (rows s)" using assms(3) by (simp add: b_def)
  then show b: "0 < b" using assms(4) by (auto simp: list_all_iff)
  define names where "names = rev (sort (map fst (filter (\<lambda>r. snd r = b) (rows s))))"
  have names: "set names = fst ` {r \<in> set (rows s). snd r = b}" by (simp add: names_def)
  have "Rollback env ms s = rollback_loop env (mig_map ms) names s"
    using assms(1,3) b by (simp add: Rollback_def b_def names_def)
  with rollback_loop_rows [OF assms(1,2), of names s] names
  show "\<exists>s'. Rollback env ms s = (None, s') \<and>
     rows s' = filter (\<lambda>r. fst r \<notin> fst ` {r \<in> set (rows s). snd r = b} \<or> fst r \<notin> mig_Name ` set ms) (rows s)" by simp
qed

lemma reset_loop_ends:
  assumes "healthy env" and "downs_run env ms"
  shows "list_all (\<lambda>r. 0 < snd r \<and> fst r \<in> mig_Name ` set ms) (rows s) \<Longrightarrow> length (rows s) < n \<Longrightarrow>
     \<exists>s'. reset_loop n env ms s = Some (None, s') \<and> rows s' = []"
proof (induction n arbitrary: s)
  case (Suc n)
  show ?case
  proof (cases "rows s = []")
    case False
    let ?b = "Max (snd ` set (rows s))"
    have pos: "list_all (\<lambda>r. 0 < snd r) (rows s)" using Suc.prems(1) by (auto simp: list_all_iff)
    obtain s' where s': "Rollback env ms s = (None, s')"
      "rows s' = filter (\<lambda>r. fst r \<notin> fst ` {r \<in> set (rows s). snd r = ?b} \<or> fst r \<notin> mig_Name ` set ms) (rows s)"
      using Rollback_rows(2) [OF assms False pos] by blast
    have "?b \<in> snd ` set (rows s)" using False by simp
    then obtain r where r: "r \<in> set (rows s)" "snd r = ?b" by auto
    have "length (rows s') < length (rows s)"
      unfolding s'(2) using r Suc.prems(1) by (intro length_filter_less [of r]) (auto simp: list_all_iff)
    moreover have "list_all (\<lambda>r. 0 < snd r \<and> fst r \<in> mig_Name ` set ms) (rows s')"
      unfolding s'(2) using Suc.prems(1) by (auto simp: list_all_iff)
    ultimately have "\<exists>s''. reset_loop n env ms s' = Some (None, s'') \<and> rows s'' = []"
      using Suc.prems(2) by (intro Suc.IH) auto
    then show ?thesis using s'(1) False Rollback_rows(1) [OF assms False pos] assms(1) by auto
  qed (use assms(1) in simp)
qed simp

text \<open>
  Property C26: \<^verbatim>\<open>Reset\<close> ends. When no statement fails and every recorded migration is registered, one
  turn of its loop per recorded migration and one more are enough: it succeeds with an empty table.
\<close>

theorem reset_terminates:
  assumes "healthy env" and "downs_run env ms" and "list_all (\<lambda>r. 0 < snd r \<and> fst r \<in> mig_Name ` set ms) (rows s)"
    and "length (rows s) < fuel"
  shows "\<exists>s'. Reset fuel env ms s = Some (None, s') \<and> rows s' = []"
  using reset_loop_ends [OF assms] assms(1) by (simp add: Reset_def)

text \<open>
  Without the registration it may not: a rollback skips a recorded migration that is not registered
  and keeps its row, so the last batch never becomes empty and no number of turns is enough.
\<close>

lemma reset_diverges:
  assumes "healthy env" and "downs_run env ms"
  shows "list_all (\<lambda>r. 0 < snd r) (rows s) \<Longrightarrow> (u, Max (snd ` set (rows s))) \<in> set (rows s) \<Longrightarrow> u \<notin> mig_Name ` set ms \<Longrightarrow>
     reset_loop n env ms s = None"
proof (induction n arbitrary: s)
  case (Suc n)
  let ?b = "Max (snd ` set (rows s))"
  have ne: "rows s \<noteq> []" using Suc.prems(2) by auto
  obtain s' where s': "Rollback env ms s = (None, s')"
    "rows s' = filter (\<lambda>r. fst r \<notin> fst ` {r \<in> set (rows s). snd r = ?b} \<or> fst r \<notin> mig_Name ` set ms) (rows s)"
    using Rollback_rows(2) [OF assms ne Suc.prems(1)] by blast
  have u: "(u, ?b) \<in> set (rows s')" using Suc.prems by (simp add: s'(2))
  have "Max (snd ` set (rows s')) = ?b"
  proof (rule Max_eqI)
    show "y \<le> ?b" if "y \<in> snd ` set (rows s')" for y using that by (auto simp: s'(2) intro!: Max_ge)
    show "?b \<in> snd ` set (rows s')" using u by force
  qed simp
  then have "reset_loop n env ms s' = None"
    using Suc.prems(1,3) u by (intro Suc.IH) (auto simp: s'(2) list_all_iff)
  then show ?case using s'(1) ne assms(1) Rollback_rows(1) [OF assms ne Suc.prems(1)] by simp
qed simp

section \<open>A sample migration\<close>

definition sample_ops :: "string list tx_ops" where
  "sample_ops = \<lparr>BeginTx = Pair None, tx_Exec = \<lambda>q w. (None, if q = ''DROP'' then tl w else q # w), tx_Commit = Pair None, tx_Rollback = Pair None\<rparr>"

definition sample_env :: "string list env" where
  "sample_env = \<lparr>e_ops = sample_ops, e_driver = SQLite, e_fault = \<lambda>_ _. None\<rparr>"

definition sample_migration :: migration where
  "sample_migration = \<lparr>mig_Name = ''001'', mig_Up = \<lambda>_. ''CREATE;'', mig_Down = \<lambda>_. ''DROP;''\<rparr>"

lemma sample_split: "splitSQL ''CREATE;'' = [''CREATE'']" "splitSQL ''DROP;'' = [''DROP'']"
  by code_simp+

lemma sample_facts:
  "healthy sample_env" "down_undoes_up sample_env sample_migration" "downs_run sample_env [sample_migration]"
  by (simp_all add: healthy_def sample_env_def down_undoes_up_def downs_run_def sample_migration_def execSQL_def Let_def sample_split sample_ops_def)

lemma sample_Migrate:
  "Migrate sample_env [sample_migration] \<lparr>rows = [], schema = []\<rparr> = (None, \<lparr>rows = [(''001'', 1)], schema = [''CREATE'']\<rparr>)"
  "pending [sample_migration] (\<lparr>rows = [], schema = []\<rparr> :: string list mig_db) = [sample_migration]"
  by (simp_all add: Migrate_healthy sample_facts sort_migrations_def next_batch_def run_sql_def execSQL_def Let_def pending_def)
    (simp add: sample_env_def sample_migration_def sample_ops_def sample_split record_run_def)



theorem reset_terminates_witness:
  "\<exists>s'. Reset 2 sample_env [sample_migration] \<lparr>rows = [(''001'', 1)], schema = [''CREATE'']\<rparr> = Some (None, s') \<and> rows s' = []"
  by (rule reset_terminates [OF sample_facts(1) sample_facts(3)]) (simp_all add: sample_migration_def)

end
