(* ===== verification/Auth.thy ===== *)
theory Auth
  imports Session "HOL-Library.Word"
begin

text \<open>
  Package auth: the guard manager and its middleware (\<^verbatim>\<open>auth.go\<close>), tokens (\<^verbatim>\<open>token.go\<close>), the JWT guard (\<^verbatim>\<open>jwt.go\<close>),
  the revocation lists (\<^verbatim>\<open>revoke.go\<close>, \<^verbatim>\<open>revoke_redis.go\<close>), the session guard (\<^verbatim>\<open>session.go\<close>) and the WeChat guard (\<^verbatim>\<open>wechat.go\<close>).
  Signing and parsing of tokens is the third-party JWT library, a parameter; random token identifiers and the time are
  arguments. The locale is the \<^verbatim>\<open>Revoker\<close> interface. Claims are stored in the context by pointer; here the
  stored value is the claims themselves, written as a map.
\<close>

section \<open>Revocation lists\<close>

record 'r revoker_ops =
  Revoke :: "int \<Rightarrow> string \<Rightarrow> int \<Rightarrow> 'r \<Rightarrow> 'r"
  Revoked :: "int \<Rightarrow> string \<Rightarrow> 'r \<Rightarrow> bool \<times> 'r"

type_synonym memory_revoker = "string \<rightharpoonup> int"

definition NewMemoryRevoker :: memory_revoker where
  "NewMemoryRevoker = Map.empty"

definition Memory_Revoke :: "int \<Rightarrow> string \<Rightarrow> int \<Rightarrow> memory_revoker \<Rightarrow> memory_revoker" where
  "Memory_Revoke now jti until r = r(jti \<mapsto> until)"

definition Memory_Revoked :: "int \<Rightarrow> string \<Rightarrow> memory_revoker \<Rightarrow> bool \<times> memory_revoker" where
  "Memory_Revoked now jti r =
     (case r jti of
        None \<Rightarrow> (False, r)
      | Some until \<Rightarrow> if now > until then (False, r(jti := None)) else (True, r))"

definition MemoryRevoker :: "memory_revoker revoker_ops" where
  "MemoryRevoker = \<lparr>Revoke = Memory_Revoke, Revoked = Memory_Revoked\<rparr>"

text \<open>The Redis commands are arguments; their errors are ignored.\<close>

definition Redis_Revoke :: "(string \<Rightarrow> string \<Rightarrow> int \<Rightarrow> 's \<Rightarrow> 's) \<Rightarrow> int \<Rightarrow> string \<Rightarrow> int \<Rightarrow> 's \<Rightarrow> 's" where
  "Redis_Revoke setex now jti until s =
     (let ttl = until - now in if ttl \<le> 0 then s else setex (''gai:jwt:revoked:'' @ jti) ''1'' ttl s)"

definition Redis_Revoked :: "(string \<Rightarrow> 's \<Rightarrow> string + int) \<Rightarrow> string \<Rightarrow> 's \<Rightarrow> bool" where
  "Redis_Revoked exists_cmd jti s = (case exists_cmd (''gai:jwt:revoked:'' @ jti) s of Inl _ \<Rightarrow> False | Inr n \<Rightarrow> n > 0)"

section \<open>Tokens\<close>

record Claims =
  cl_Issuer :: string
  cl_IssuedAt :: int
  cl_ExpiresAt :: "int option"
  cl_ID :: string
  cl_UserID :: int
  cl_TokenType :: string
  cl_Extra :: goval

text \<open>
  The JWT library: dates, \<^verbatim>\<open>SignedString\<close> with HS256, and \<^verbatim>\<open>ParseWithClaims\<close>, which asks the key function for the
  key of the algorithm in the token's header.
\<close>

record jwtlib =
  NewNumericDate :: "int \<Rightarrow> int"
  SignedString :: "string \<Rightarrow> Claims \<Rightarrow> string + string"
  ParseWithClaims :: "(string \<Rightarrow> string + string) \<Rightarrow> int \<Rightarrow> string \<Rightarrow> string + Claims \<times> bool"

record TokenConfig =
  cfg_Secret :: string
  cfg_TTL :: int
  cfg_RefreshTTL :: int
  cfg_Issuer :: string

abbreviation hour :: int where
  "hour \<equiv> 3600000000000"

definition refreshTTL :: "TokenConfig \<Rightarrow> int" where
  "refreshTTL cfg =
     (if cfg_RefreshTTL cfg > 0 then cfg_RefreshTTL cfg
      else if cfg_TTL cfg > 0 then wrap64 (cfg_TTL cfg * 24)
      else 7 * 24 * hour)"

definition new_claims :: "jwtlib \<Rightarrow> TokenConfig \<Rightarrow> int \<Rightarrow> string \<Rightarrow> int \<Rightarrow> string \<Rightarrow> int \<Rightarrow> goval \<Rightarrow> Claims" where
  "new_claims lib cfg now jti userID typ ttl extra =
     (let ttl = (if ttl \<le> 0 then 2 * hour else ttl) in
      \<lparr>cl_Issuer = cfg_Issuer cfg, cl_IssuedAt = NewNumericDate lib now, cl_ExpiresAt = Some (NewNumericDate lib (now + ttl)),
       cl_ID = jti, cl_UserID = userID, cl_TokenType = typ, cl_Extra = extra\<rparr>)"

definition generateToken :: "jwtlib \<Rightarrow> TokenConfig \<Rightarrow> int \<Rightarrow> string \<Rightarrow> int \<Rightarrow> string \<Rightarrow> int \<Rightarrow> goval \<Rightarrow> string + string" where
  "generateToken lib cfg now jti userID typ ttl extra =
     SignedString lib (cfg_Secret cfg) (new_claims lib cfg now jti userID typ ttl extra)"

definition GenerateToken :: "jwtlib \<Rightarrow> TokenConfig \<Rightarrow> int \<Rightarrow> string \<Rightarrow> int \<Rightarrow> goval \<Rightarrow> string + string" where
  "GenerateToken lib cfg now jti userID extra = generateToken lib cfg now jti userID ''access'' (cfg_TTL cfg) extra"

definition GenerateRefreshToken :: "jwtlib \<Rightarrow> TokenConfig \<Rightarrow> int \<Rightarrow> string \<Rightarrow> int \<Rightarrow> goval \<Rightarrow> string + string" where
  "GenerateRefreshToken lib cfg now jti userID extra = generateToken lib cfg now jti userID ''refresh'' (refreshTTL cfg) extra"

record TokenPair =
  AccessToken :: string
  RefreshToken :: string
  ExpiresIn :: int

text \<open>\<open>jtis\<close> are the two random identifiers.\<close>

definition GenerateTokenPair :: "jwtlib \<Rightarrow> TokenConfig \<Rightarrow> int \<Rightarrow> string \<times> string \<Rightarrow> int \<Rightarrow> goval \<Rightarrow> string + TokenPair" where
  "GenerateTokenPair lib cfg now jtis userID extra =
     (case GenerateToken lib cfg now (fst jtis) userID extra of
        Inl e \<Rightarrow> Inl e
      | Inr acc \<Rightarrow>
          (case GenerateRefreshToken lib cfg now (snd jtis) userID extra of
             Inl e \<Rightarrow> Inl e
           | Inr ref \<Rightarrow>
               (let e = (if cfg_TTL cfg \<le> 0 then 2 * hour else cfg_TTL cfg)
                in Inr \<lparr>AccessToken = acc, RefreshToken = ref, ExpiresIn = e div 1000000000\<rparr>)))"

definition hmac_key :: "TokenConfig \<Rightarrow> string \<Rightarrow> string + string" where
  "hmac_key cfg alg =
     (if alg \<in> {''HS256'', ''HS384'', ''HS512''} then Inr (cfg_Secret cfg) else Inl (''unexpected signing method: '' @ alg))"

text \<open>\<open>rv\<close> is the configured revoker, if any; its state is threaded through.\<close>

definition ParseToken :: "jwtlib \<Rightarrow> TokenConfig \<Rightarrow> 'r revoker_ops option \<Rightarrow> int \<Rightarrow> string \<Rightarrow> 'r \<Rightarrow> (string + Claims) \<times> 'r" where
  "ParseToken lib cfg rv now tokenStr r =
     (case ParseWithClaims lib (hmac_key cfg) now tokenStr of
        Inl e \<Rightarrow> (Inl (''gai/auth: invalid token: '' @ e), r)
      | Inr (claims, valid) \<Rightarrow>
          if \<not> valid then (Inl ''gai/auth: invalid token claims'', r)
          else (case rv of
                  None \<Rightarrow> (Inr claims, r)
                | Some ops \<Rightarrow>
                    if cl_ID claims = [] then (Inr claims, r)
                    else (case Revoked ops now (cl_ID claims) r of
                            (True, r') \<Rightarrow> (Inl ''gai/auth: token revoked'', r')
                          | (False, r') \<Rightarrow> (Inr claims, r'))))"

section \<open>The JWT guard\<close>

definition NewJWTGuard :: "string \<Rightarrow> int \<Rightarrow> TokenConfig" where
  "NewJWTGuard secret ttlSeconds =
     (let ttl = wrap64 (ttlSeconds * 1000000000) in
      \<lparr>cfg_Secret = secret, cfg_TTL = ttl, cfg_RefreshTTL = wrap64 (ttl * 24), cfg_Issuer = ''gai''\<rparr>)"

definition SetRefreshTTL :: "int \<Rightarrow> TokenConfig \<Rightarrow> TokenConfig" where
  "SetRefreshTTL d cfg = cfg\<lparr>cfg_RefreshTTL := d\<rparr>"

definition extractBearerToken :: "ctx \<Rightarrow> string" where
  "extractBearerToken c =
     (let auth = Header c ''Authorization'' in
      if auth = [] then Query c ''token'' []
      else case split2 (CHR '' '') auth of
        [scheme, tok] \<Rightarrow> if to_lower scheme = ''bearer'' then trim_space tok else []
      | _ \<Rightarrow> [])"

definition ParseFromRequest :: "jwtlib \<Rightarrow> TokenConfig \<Rightarrow> 'r revoker_ops option \<Rightarrow> int \<Rightarrow> ctx \<Rightarrow> 'r \<Rightarrow> (string + Claims option) \<times> 'r" where
  "ParseFromRequest lib cfg rv now c r =
     (let tokenStr = extractBearerToken c in
      if tokenStr = [] then (Inr None, r)
      else case ParseToken lib cfg rv now tokenStr r of (Inl e, r') \<Rightarrow> (Inl e, r') | (Inr cl, r') \<Rightarrow> (Inr (Some cl), r'))"

text \<open>The claims as a value in the context; reading anything else back panics, \<^const>\<open>None\<close>.\<close>

definition claims_val :: "Claims \<Rightarrow> goval" where
  "claims_val cl =
     GMap [(''iss'', GStr (cl_Issuer cl)), (''iat'', GTime (cl_IssuedAt cl)), (''exp'', GTimePtr (cl_ExpiresAt cl)),
       (''jti'', GStr (cl_ID cl)), (''uid'', GUint64 (cl_UserID cl)), (''typ'', GStr (cl_TokenType cl)), (''ext'', cl_Extra cl)]"

definition claims_of :: "goval \<Rightarrow> Claims option" where
  "claims_of v =
     (case v of
        GMap [(_, GStr iss), (_, GTime iat), (_, GTimePtr e), (_, GStr jti), (_, GUint64 u), (_, GStr typ), (_, ext)] \<Rightarrow>
          Some \<lparr>cl_Issuer = iss, cl_IssuedAt = iat, cl_ExpiresAt = e, cl_ID = jti, cl_UserID = u, cl_TokenType = typ, cl_Extra = ext\<rparr>
      | _ \<Rightarrow> None)"

definition extractClaims :: "jwtlib \<Rightarrow> TokenConfig \<Rightarrow> 'r revoker_ops option \<Rightarrow> int \<Rightarrow> ctx \<Rightarrow> 'r \<Rightarrow> (Claims option \<times> ctx \<times> 'r) option" where
  "extractClaims lib cfg rv now c r =
     (case Get c ''auth_claims'' of
        Some v \<Rightarrow> (case claims_of v of None \<Rightarrow> None | Some cl \<Rightarrow> Some (Some cl, c, r))
      | None \<Rightarrow>
          (case ParseFromRequest lib cfg rv now c r of
             (Inr (Some cl), r') \<Rightarrow>
               Some (Some cl, Set ''auth_user_id'' (GUint64 (cl_UserID cl)) (Set ''auth_claims'' (claims_val cl) c), r')
           | (_, r') \<Rightarrow> Some (None, c, r')))"

definition JWT_User :: "jwtlib \<Rightarrow> TokenConfig \<Rightarrow> 'r revoker_ops option \<Rightarrow> int \<Rightarrow> ctx \<Rightarrow> 'r \<Rightarrow> (goval \<times> ctx \<times> 'r) option" where
  "JWT_User lib cfg rv now c r =
     map_option (\<lambda>(cl, c', r'). (case cl of None \<Rightarrow> GNil | Some cl \<Rightarrow> claims_val cl, c', r')) (extractClaims lib cfg rv now c r)"

definition access_claims :: "Claims \<Rightarrow> bool" where
  "access_claims cl \<longleftrightarrow> cl_TokenType cl = [] \<or> cl_TokenType cl = ''access''"

definition JWT_Check :: "jwtlib \<Rightarrow> TokenConfig \<Rightarrow> 'r revoker_ops option \<Rightarrow> int \<Rightarrow> ctx \<Rightarrow> 'r \<Rightarrow> (bool \<times> ctx \<times> 'r) option" where
  "JWT_Check lib cfg rv now c r =
     map_option (\<lambda>(cl, c', r'). (case cl of None \<Rightarrow> False | Some cl \<Rightarrow> access_claims cl, c', r')) (extractClaims lib cfg rv now c r)"

definition JWT_Attempt :: "jwtlib \<Rightarrow> TokenConfig \<Rightarrow> int \<Rightarrow> string \<Rightarrow> (string \<rightharpoonup> goval) \<Rightarrow> string + string" where
  "JWT_Attempt lib cfg now jti credentials =
     GenerateToken lib cfg now jti
       (case credentials ''user_id'' of Some (GUint64 u) \<Rightarrow> u | _ \<Rightarrow> 0)
       (case credentials ''extra'' of Some (GMap kvs) \<Rightarrow> GMap kvs | _ \<Rightarrow> GNilMap)"

definition until_of :: "Claims \<Rightarrow> int \<Rightarrow> int" where
  "until_of cl fallback = (case cl_ExpiresAt cl of Some e \<Rightarrow> e | None \<Rightarrow> fallback)"

definition JWT_Logout :: "jwtlib \<Rightarrow> TokenConfig \<Rightarrow> 'r revoker_ops option \<Rightarrow> int \<Rightarrow> ctx \<Rightarrow> 'r \<Rightarrow> (ctx \<times> 'r) option" where
  "JWT_Logout lib cfg rv now c r =
     map_option (\<lambda>(cl, c', r').
       (c', case (cl, rv) of
              (Some cl, Some ops) \<Rightarrow> Revoke ops now (cl_ID cl) (until_of cl (now + cfg_TTL cfg)) r'
            | _ \<Rightarrow> r')) (extractClaims lib cfg rv now c r)"

definition IssueToken :: "jwtlib \<Rightarrow> TokenConfig \<Rightarrow> int \<Rightarrow> string \<Rightarrow> int \<Rightarrow> goval \<Rightarrow> string + string" where
  "IssueToken lib cfg now jti userID extra = GenerateToken lib cfg now jti userID extra"

definition IssueTokenPair :: "jwtlib \<Rightarrow> TokenConfig \<Rightarrow> int \<Rightarrow> string \<times> string \<Rightarrow> int \<Rightarrow> goval \<Rightarrow> string + TokenPair" where
  "IssueTokenPair lib cfg now jtis userID extra = GenerateTokenPair lib cfg now jtis userID extra"

definition Refresh :: "jwtlib \<Rightarrow> TokenConfig \<Rightarrow> 'r revoker_ops option \<Rightarrow> int \<Rightarrow> string \<times> string \<Rightarrow> string \<Rightarrow> 'r \<Rightarrow> (string + TokenPair) \<times> 'r" where
  "Refresh lib cfg rv now jtis refreshToken r =
     (case ParseToken lib cfg rv now refreshToken r of
        (Inl e, r') \<Rightarrow> (Inl e, r')
      | (Inr cl, r') \<Rightarrow>
          if cl_TokenType cl \<noteq> ''refresh'' then (Inl ''gai/auth: not a refresh token'', r')
          else (GenerateTokenPair lib cfg now jtis (cl_UserID cl) (cl_Extra cl),
                case rv of
                  None \<Rightarrow> r'
                | Some ops \<Rightarrow>
                    if cl_ID cl \<noteq> [] then Revoke ops now (cl_ID cl) (until_of cl (now + refreshTTL cfg)) r' else r'))"

section \<open>The session guard\<close>

text \<open>\<open>login\<close> is the authenticator; the session is the one the middleware put into the context, if any.\<close>

type_synonym authenticator = "(string \<rightharpoonup> goval) \<Rightarrow> string + goval \<times> goval"

definition NewSessionGuard :: "string \<Rightarrow> string" where
  "NewSessionGuard name = (if name = [] then ''session'' else name)"

definition SessionGuard_User :: "ctx \<Rightarrow> Session option \<Rightarrow> goval" where
  "SessionGuard_User c sess =
     (case Get c ''auth_user'' of
        Some v \<Rightarrow> v
      | None \<Rightarrow> (case sess of None \<Rightarrow> GNil | Some s \<Rightarrow> Session_Get ''user_id'' s))"

definition SessionGuard_Check :: "(goval \<Rightarrow> string) \<Rightarrow> ctx \<Rightarrow> Session option \<Rightarrow> bool \<times> ctx" where
  "SessionGuard_Check sprint c sess =
     (case sess of
        None \<Rightarrow> (False, c)
      | Some s \<Rightarrow>
          (let i = Session_Get ''user_id'' s in
           if i = GNil \<or> sprint i = [] then (False, c)
           else (True, Set ''auth_user'' i (Set ''auth_user_id'' i c))))"

definition SessionGuard_Attempt :: "(goval \<Rightarrow> string) \<Rightarrow> authenticator option \<Rightarrow> (string \<rightharpoonup> goval) \<Rightarrow> string + string" where
  "SessionGuard_Attempt sprint login credentials =
     (case login of
        None \<Rightarrow> Inl ''gai/auth: session guard has no authenticator''
      | Some f \<Rightarrow> (case f credentials of Inl e \<Rightarrow> Inl e | Inr (i, _) \<Rightarrow> Inr (sprint i)))"

definition SessionGuard_Logout :: "Session option \<Rightarrow> Session option" where
  "SessionGuard_Logout sess = map_option (Session_Forget ''user_id'') sess"

text \<open>\<^verbatim>\<open>Login\<close>; the outer \<^const>\<open>None\<close> is the panic of writing into a nil session map.\<close>

definition SessionGuard_Login :: "authenticator option \<Rightarrow> (string \<rightharpoonup> goval) \<Rightarrow> ctx \<Rightarrow> Session option \<Rightarrow>
    (string option \<times> ctx \<times> Session option) option" where
  "SessionGuard_Login login credentials c sess =
     (case login of
        None \<Rightarrow> Some (Some ''gai/auth: session guard has no authenticator'', c, sess)
      | Some f \<Rightarrow>
          (case sess of
             None \<Rightarrow> Some (Some ''gai/auth: session middleware not installed'', c, sess)
           | Some s \<Rightarrow>
               (case f credentials of
                  Inl e \<Rightarrow> Some (Some e, c, sess)
                | Inr (i, extra) \<Rightarrow>
                    (case Session_Set ''user_id'' i s of
                       None \<Rightarrow> None
                     | Some s' \<Rightarrow>
                         (let c' = Set ''auth_user'' i (Set ''auth_user_id'' i c)
                          in Some (None, if extra \<noteq> GNilMap then Set ''auth_extra'' extra c' else c', Some s'))))))"

section \<open>The WeChat guard\<close>

record MiniProgramSession =
  OpenID :: string
  UnionID :: string
  SessionKey :: string

text \<open>\<^verbatim>\<open>openidToID\<close>: the 64-bit FNV-1a hash.\<close>

definition openidToID :: "string \<Rightarrow> 64 word" where
  "openidToID openid = fold (\<lambda>c h. xor h (of_nat (ord c)) * 1099511628211) openid 14695981039346656037"

definition WeChat_Attempt :: "jwtlib \<Rightarrow> TokenConfig \<Rightarrow> (string \<Rightarrow> string + MiniProgramSession) option \<Rightarrow> int \<Rightarrow> string \<Rightarrow>
    (string \<rightharpoonup> goval) \<Rightarrow> string + string" where
  "WeChat_Attempt lib cfg c2s now jti credentials =
     (case c2s of
        None \<Rightarrow> Inl ''gai/auth: wechat guard has no Code2Session''
      | Some f \<Rightarrow>
          (let code = (case credentials ''code'' of Some (GStr s) \<Rightarrow> s | _ \<Rightarrow> []) in
           if code = [] then Inl ''gai/auth: missing wechat code''
           else case f code of
             Inl e \<Rightarrow> Inl e
           | Inr s \<Rightarrow>
               IssueToken lib cfg now jti (uint (openidToID (OpenID s)))
                 (GMap [(''openid'', GStr (OpenID s)), (''unionid'', GStr (UnionID s))])))"

text \<open>The guard is a JWT guard beside the exchange of codes.\<close>

record 'r WeChatGuard =
  wg_config :: TokenConfig
  wg_revoker :: "'r revoker_ops"
  wg_c2s :: "(string \<Rightarrow> string + MiniProgramSession) option"

definition NewWeChatGuard :: "string \<Rightarrow> int \<Rightarrow> (string \<Rightarrow> string + MiniProgramSession) option \<Rightarrow> memory_revoker WeChatGuard" where
  "NewWeChatGuard secret ttlSeconds c2s =
     \<lparr>wg_config = NewJWTGuard secret ttlSeconds, wg_revoker = MemoryRevoker, wg_c2s = c2s\<rparr>"

definition WeChat_SetRevoker :: "'r revoker_ops \<Rightarrow> 'q WeChatGuard \<Rightarrow> 'r WeChatGuard" where
  "WeChat_SetRevoker rv g = \<lparr>wg_config = wg_config g, wg_revoker = rv, wg_c2s = wg_c2s g\<rparr>"

definition WeChat_SetRefreshTTL :: "int \<Rightarrow> 'r WeChatGuard \<Rightarrow> 'r WeChatGuard" where
  "WeChat_SetRefreshTTL d g = g\<lparr>wg_config := SetRefreshTTL d (wg_config g)\<rparr>"

definition WeChat_User :: "jwtlib \<Rightarrow> 'r WeChatGuard \<Rightarrow> int \<Rightarrow> ctx \<Rightarrow> 'r \<Rightarrow> (goval \<times> ctx \<times> 'r) option" where
  "WeChat_User lib g = JWT_User lib (wg_config g) (Some (wg_revoker g))"

definition WeChat_Check :: "jwtlib \<Rightarrow> 'r WeChatGuard \<Rightarrow> int \<Rightarrow> ctx \<Rightarrow> 'r \<Rightarrow> (bool \<times> ctx \<times> 'r) option" where
  "WeChat_Check lib g = JWT_Check lib (wg_config g) (Some (wg_revoker g))"

definition WeChat_Logout :: "jwtlib \<Rightarrow> 'r WeChatGuard \<Rightarrow> int \<Rightarrow> ctx \<Rightarrow> 'r \<Rightarrow> (ctx \<times> 'r) option" where
  "WeChat_Logout lib g = JWT_Logout lib (wg_config g) (Some (wg_revoker g))"

definition WeChat_IssueToken :: "jwtlib \<Rightarrow> 'r WeChatGuard \<Rightarrow> int \<Rightarrow> string \<Rightarrow> int \<Rightarrow> goval \<Rightarrow> string + string" where
  "WeChat_IssueToken lib g = IssueToken lib (wg_config g)"

section \<open>The manager\<close>

text \<open>A guard as the middleware uses it: \<^verbatim>\<open>Check\<close> on the context, \<^const>\<open>None\<close> when it panics.\<close>

type_synonym guard = "ctx \<Rightarrow> (bool \<times> ctx) option"

record AuthManager =
  guards :: "string \<rightharpoonup> guard"
  fallback :: string

definition NewManager :: "string \<Rightarrow> AuthManager" where
  "NewManager defaultGuard = \<lparr>guards = Map.empty, fallback = defaultGuard\<rparr>"

definition RegisterGuard :: "string \<Rightarrow> guard \<Rightarrow> AuthManager \<Rightarrow> AuthManager" where
  "RegisterGuard name g m = m\<lparr>guards := (guards m)(name \<mapsto> g)\<rparr>"

definition Guard :: "AuthManager \<Rightarrow> string list \<Rightarrow> string + guard" where
  "Guard m name =
     (let key = (case name of n # _ \<Rightarrow> if n \<noteq> [] then n else fallback m | [] \<Rightarrow> fallback m) in
      case guards m key of None \<Rightarrow> Inl (''gai/auth: guard '' @ key @ '' not registered'') | Some g \<Rightarrow> Inr g)"

definition unauthorized :: handler where
  "unauthorized = AbortWithJSON 401 (error_json 401 ''Unauthorized'') Done"

fun guard_loop :: "AuthManager \<Rightarrow> string list \<Rightarrow> handler" where
  "guard_loop m [] = unauthorized"
| "guard_loop m (name # names) =
     (case Guard m [name] of
        Inl _ \<Rightarrow> unauthorized
      | Inr g \<Rightarrow>
          Dyn (\<lambda>c. case g c of
                 None \<Rightarrow> Panic (GErr ''interface conversion'')
               | Some (True, c') \<Rightarrow> Do (\<lambda>_. Set ''auth_guard'' (GStr name) c') (Next Done)
               | Some (False, c') \<Rightarrow> Do (\<lambda>_. c') (guard_loop m names)))"

definition Auth_Middleware :: "AuthManager \<Rightarrow> string list \<Rightarrow> handler" where
  "Auth_Middleware m guardNames = guard_loop m (if guardNames = [] then [fallback m] else guardNames)"

section \<open>The contract of a revocation list\<close>

text \<open>
  What the guard relies on: a revoked identifier is reported from the revocation to the given time, revoking one identifier
  does not affect another, and asking does not change later answers.
\<close>

datatype rv_event = EvRevoke int string int | EvCheck int string

fun rv_run :: "'r revoker_ops \<Rightarrow> rv_event list \<Rightarrow> 'r \<Rightarrow> 'r" where
  "rv_run ops [] r = r"
| "rv_run ops (EvRevoke now k until # evs) r = rv_run ops evs (Revoke ops now k until r)"
| "rv_run ops (EvCheck now k # evs) r = rv_run ops evs (snd (Revoked ops now k r))"

text \<open>Events up to a time that do not revoke an identifier anew.\<close>

definition quiet :: "string \<Rightarrow> int \<Rightarrow> rv_event list \<Rightarrow> bool" where
  "quiet j t evs \<longleftrightarrow> list_all (\<lambda>ev. case ev of EvRevoke _ k _ \<Rightarrow> k \<noteq> j | EvCheck s _ \<Rightarrow> s \<le> t) evs"

text \<open>
  The JWT library's promise: what was signed is parsed back under the key of its algorithm until it
  expires; the extra claims pass through JSON and may come back in another form.
\<close>

definition jwt_laws :: "jwtlib \<Rightarrow> bool" where
  "jwt_laws lib \<longleftrightarrow>
     (\<forall>secret cl tok. SignedString lib secret cl = Inr tok \<longrightarrow>
        (\<exists>x. \<forall>keyf t. keyf ''HS256'' = Inr secret \<longrightarrow>
           (case cl_ExpiresAt cl of
              None \<Rightarrow> ParseWithClaims lib keyf t tok = Inr (cl\<lparr>cl_Extra := x\<rparr>, True)
            | Some e \<Rightarrow>
                if t < e then ParseWithClaims lib keyf t tok = Inr (cl\<lparr>cl_Extra := x\<rparr>, True)
                else \<exists>err. ParseWithClaims lib keyf t tok = Inl err)))"

lemma generated_parses:
  assumes "jwt_laws lib" and "generateToken lib cfg t0 jti u typ ttl extra = Inr tok"
  obtains cl e where "cl_ID cl = jti" and "cl_UserID cl = u" and "cl_TokenType cl = typ" and "cl_ExpiresAt cl = Some e"
    and "e = NewNumericDate lib (t0 + (if ttl \<le> 0 then 2 * hour else ttl))"
    and "\<And>t. t < e \<Longrightarrow> ParseWithClaims lib (hmac_key cfg) t tok = Inr (cl, True)"
    and "\<And>t. e \<le> t \<Longrightarrow> \<exists>err. ParseWithClaims lib (hmac_key cfg) t tok = Inl err"
proof -
  let ?cl = "new_claims lib cfg t0 jti u typ ttl extra"
  let ?e = "NewNumericDate lib (t0 + (if ttl \<le> 0 then 2 * hour else ttl))"
  have e: "cl_ExpiresAt ?cl = Some ?e" by (simp add: new_claims_def Let_def)
  have key: "hmac_key cfg ''HS256'' = Inr (cfg_Secret cfg)" by (simp add: hmac_key_def)
  have "\<exists>x. \<forall>keyf t. keyf ''HS256'' = Inr (cfg_Secret cfg) \<longrightarrow>
      (case cl_ExpiresAt ?cl of
         None \<Rightarrow> ParseWithClaims lib keyf t tok = Inr (?cl\<lparr>cl_Extra := x\<rparr>, True)
       | Some e \<Rightarrow>
           if t < e then ParseWithClaims lib keyf t tok = Inr (?cl\<lparr>cl_Extra := x\<rparr>, True)
           else \<exists>err. ParseWithClaims lib keyf t tok = Inl err)"
    using assms unfolding jwt_laws_def generateToken_def by blast
  then obtain x where "\<forall>keyf t. keyf ''HS256'' = Inr (cfg_Secret cfg) \<longrightarrow>
      (if t < ?e then ParseWithClaims lib keyf t tok = Inr (?cl\<lparr>cl_Extra := x\<rparr>, True)
       else \<exists>err. ParseWithClaims lib keyf t tok = Inl err)" unfolding e option.case by blast
  then have x: "if t < ?e then ParseWithClaims lib (hmac_key cfg) t tok = Inr (?cl\<lparr>cl_Extra := x\<rparr>, True)
      else \<exists>err. ParseWithClaims lib (hmac_key cfg) t tok = Inl err" for t using key by blast
  show ?thesis
  proof (rule that [of "?cl\<lparr>cl_Extra := x\<rparr>" ?e])
    show "ParseWithClaims lib (hmac_key cfg) t tok = Inr (?cl\<lparr>cl_Extra := x\<rparr>, True)" if "t < ?e" for t using x [of t] that by simp
    show "\<exists>err. ParseWithClaims lib (hmac_key cfg) t tok = Inl err" if "?e \<le> t" for t using x [of t] that by simp
  qed (simp_all add: new_claims_def Let_def)
qed

text \<open>\<open>tick\<close> is the precision of the list's clock: a revocation is kept up to a time it can express.\<close>

locale revoker =
  fixes tick :: int
    and ops :: "'r revoker_ops"
  assumes revoke_lasts: "now \<le> t \<Longrightarrow> t < until \<Longrightarrow> tick dvd until \<Longrightarrow> fst (Revoked ops t j (Revoke ops now j until r))"
    and revoke_other: "j \<noteq> k \<Longrightarrow> fst (Revoked ops t k (Revoke ops now j until r)) = fst (Revoked ops t k r)"
    and check_neutral: "s \<le> t \<Longrightarrow> fst (Revoked ops t k (snd (Revoked ops s j r))) = fst (Revoked ops t k r)"
begin

lemma rv_run_quiet: "quiet j t evs \<Longrightarrow> fst (Revoked ops t j (rv_run ops evs r)) = fst (Revoked ops t j r)"
proof (induction evs arbitrary: r)
  case (Cons ev evs)
  then have q: "quiet j t evs" by (simp add: quiet_def)
  show ?case
  proof (cases ev)
    case (EvRevoke now k until)
    then show ?thesis using Cons.IH [OF q] Cons.prems revoke_other [of k j] by (simp add: quiet_def)
  next
    case (EvCheck now k)
    then show ?thesis using Cons.IH [OF q] Cons.prems check_neutral [of now t] by (simp add: quiet_def)
  qed
qed simp

lemma revoked_rejects:
  assumes "ParseWithClaims lib (hmac_key cfg) t2 tok = Inr (cl, True)" and "cl_ID cl \<noteq> []"
    and "t1 \<le> t2" and "t2 < until" and "tick dvd until" and "quiet (cl_ID cl) t2 evs"
  shows "fst (ParseToken lib cfg (Some ops) t2 tok (rv_run ops evs (Revoke ops t1 (cl_ID cl) until r))) = Inl ''gai/auth: token revoked''"
proof -
  have "fst (Revoked ops t2 (cl_ID cl) (rv_run ops evs (Revoke ops t1 (cl_ID cl) until r)))"
    using rv_run_quiet [OF assms(6)] revoke_lasts [OF assms(3-5)] by simp
  then show ?thesis
    using assms(1,2) by (auto simp: ParseToken_def split: prod.split bool.split)
qed

lemma refresh_once:
  assumes "jwt_laws lib" and "GenerateRefreshToken lib cfg t0 jti u extra = Inr tok" and "jti \<noteq> []"
    and "Refresh lib cfg (Some ops) t1 jtis tok r = (Inr p, r1)" and "t1 \<le> t2" and "quiet jti t2 evs"
    and "\<And>x. tick dvd NewNumericDate lib x"
  shows "\<exists>e r2. Refresh lib cfg (Some ops) t2 jtis' tok (rv_run ops evs r1) = (Inl e, r2)"
proof -
  obtain cl e where cl: "cl_ID cl = jti" "cl_TokenType cl = ''refresh''" "cl_ExpiresAt cl = Some e" "tick dvd e"
    "\<And>t. t < e \<Longrightarrow> ParseWithClaims lib (hmac_key cfg) t tok = Inr (cl, True)"
    "\<And>t. e \<le> t \<Longrightarrow> \<exists>err. ParseWithClaims lib (hmac_key cfg) t tok = Inl err"
    using generated_parses [OF assms(1) assms(2) [unfolded GenerateRefreshToken_def]] assms(7) by metis
  have "\<exists>e'. fst (ParseToken lib cfg (Some ops) t2 tok (rv_run ops evs r1)) = Inl e'"
  proof (cases "t2 < e")
    case True
    with assms(5) have "ParseWithClaims lib (hmac_key cfg) t1 tok = Inr (cl, True)" by (intro cl(5)) simp
    then obtain r' where "r1 = Revoke ops t1 (cl_ID cl) e r'"
      using assms(3,4) cl(1-3) by (auto simp: Refresh_def ParseToken_def until_of_def split: prod.splits if_splits bool.splits)
    then show ?thesis
      using revoked_rejects [OF cl(5) [OF True], of t1 e evs] assms(3,5,6) cl(1,4) True by auto
  next
    case False
    then show ?thesis using cl(6) [of t2] by (auto simp: ParseToken_def)
  qed
  then show ?thesis by (auto simp: Refresh_def split: prod.split sum.split)
qed

lemma logout_lasts:
  assumes "jwt_laws lib" and "GenerateToken lib cfg t0 jti u extra = Inr tok" and "jti \<noteq> []" and "tok \<noteq> []"
    and "extractBearerToken c = tok" "Get c ''auth_claims'' = None"
    and "extractBearerToken c2 = tok" "Get c2 ''auth_claims'' = None"
    and "\<not> fst (Revoked ops t1 jti r)"
    and "JWT_Logout lib cfg (Some ops) t1 c r = Some (c', r1)" and "t1 \<le> t2" and "quiet jti t2 evs"
    and "\<And>x. tick dvd NewNumericDate lib x"
  shows "\<exists>r2. JWT_Check lib cfg (Some ops) t2 c2 (rv_run ops evs r1) = Some (False, c2, r2)"
proof -
  obtain cl e where cl: "cl_ID cl = jti" "cl_ExpiresAt cl = Some e" "tick dvd e"
    "\<And>t. t < e \<Longrightarrow> ParseWithClaims lib (hmac_key cfg) t tok = Inr (cl, True)"
    "\<And>t. e \<le> t \<Longrightarrow> \<exists>err. ParseWithClaims lib (hmac_key cfg) t tok = Inl err"
    using generated_parses [OF assms(1) assms(2) [unfolded GenerateToken_def]] assms(13) by metis
  have "\<exists>e'. fst (ParseToken lib cfg (Some ops) t2 tok (rv_run ops evs r1)) = Inl e'"
  proof (cases "t2 < e")
    case True
    with assms(11) have "ParseWithClaims lib (hmac_key cfg) t1 tok = Inr (cl, True)" by (intro cl(4)) simp
    then obtain r' where "r1 = Revoke ops t1 (cl_ID cl) e r'"
      using assms(3-6,9,10) cl(1,2)
      by (auto simp: JWT_Logout_def extractClaims_def ParseFromRequest_def ParseToken_def until_of_def split: prod.splits bool.splits)
    then show ?thesis
      using revoked_rejects [OF cl(4) [OF True], of t1 e evs] assms(3,11,12) cl(1,3) True by auto
  next
    case False
    then show ?thesis using cl(5) [of t2] by (auto simp: ParseToken_def)
  qed
  then show ?thesis
    using assms(4,7,8) by (auto simp: JWT_Check_def extractClaims_def ParseFromRequest_def split: prod.split sum.split)
qed

end

interpretation mem_revoker: revoker 1 MemoryRevoker
  by unfold_locales (auto simp: MemoryRevoker_def Memory_Revoke_def Memory_Revoked_def split: option.split)

section \<open>Properties\<close>



text \<open>An issued access token opens the door, whatever the revocation list, as long as it is neither expired nor revoked.\<close>

lemma issued_token_checks:
  assumes "jwt_laws lib" and "tok \<noteq> []" and "extractBearerToken c = tok" and "Get c ''auth_claims'' = None" and "jti \<noteq> []"
    and "GenerateToken lib cfg t0 jti u extra = Inr tok"
    and "t < NewNumericDate lib (t0 + (if cfg_TTL cfg \<le> 0 then 2 * hour else cfg_TTL cfg))" and "\<not> fst (Revoked ops t jti r)"
  shows "\<exists>c' r'. JWT_Check lib cfg (Some ops) t c r = Some (True, c', r') \<and> Get c' ''auth_user_id'' = Some (GUint64 u)"
proof -
  obtain cl where "cl_ID cl = jti" "cl_UserID cl = u" "cl_TokenType cl = ''access''"
    "ParseWithClaims lib (hmac_key cfg) t tok = Inr (cl, True)"
    using generated_parses [OF assms(1), of cfg t0 jti u "''access''" "cfg_TTL cfg" extra tok] assms(6,7) unfolding GenerateToken_def by metis
  with assms(2-5,8) show ?thesis
    by (auto simp: JWT_Check_def extractClaims_def ParseFromRequest_def ParseToken_def access_claims_def Get_def Set_def split: prod.split bool.split)
qed

text \<open>A login with a WeChat code: the token it gives opens the guard, for the user whose identifier is the hash of the openid.\<close>

lemma wechat_login_opens:
  assumes "jwt_laws lib" and "WeChat_Attempt lib (wg_config g) (wg_c2s g) t0 jti credentials = Inr tok" and "jti \<noteq> []" "tok \<noteq> []"
    and "extractBearerToken c = tok" "Get c ''auth_claims'' = None" and "\<not> fst (Revoked (wg_revoker g) t jti r)"
    and "t < NewNumericDate lib (t0 + (if cfg_TTL (wg_config g) \<le> 0 then 2 * hour else cfg_TTL (wg_config g)))"
  shows "\<exists>c' r' code f s. WeChat_Check lib g t c r = Some (True, c', r') \<and> credentials ''code'' = Some (GStr code) \<and> wg_c2s g = Some f \<and>
     f code = Inr s \<and> Get c' ''auth_user_id'' = Some (GUint64 (uint (openidToID (OpenID s))))"
proof -
  obtain f code s extra where "wg_c2s g = Some f" "credentials ''code'' = Some (GStr code)" "f code = Inr s"
    "GenerateToken lib (wg_config g) t0 jti (uint (openidToID (OpenID s))) extra = Inr tok"
    using assms(2) by (auto simp: WeChat_Attempt_def IssueToken_def Let_def split: option.splits goval.splits sum.splits if_splits)
  with issued_token_checks [OF assms(1,4,5,6,3) _ assms(8,7)] show ?thesis unfolding WeChat_Check_def by blast
qed

text \<open>
  Property C10: only access tokens open doors. A request with an issued access token that is neither expired nor
  revoked passes \<^verbatim>\<open>Check\<close> and leaves the user's identifier in the context; one with a refresh token
  never passes, at no time.
\<close>

theorem access_token_accepted:
  assumes "jwt_laws lib" and "tok \<noteq> []" and "extractBearerToken c = tok" and "Get c ''auth_claims'' = None" and "jti \<noteq> []"
  shows "(GenerateToken lib cfg t0 jti u extra = Inr tok \<and> t < NewNumericDate lib (t0 + (if cfg_TTL cfg \<le> 0 then 2 * hour else cfg_TTL cfg)) \<and>
       \<not> fst (Revoked MemoryRevoker t jti r) \<longrightarrow>
       (\<exists>c' r'. JWT_Check lib cfg (Some MemoryRevoker) t c r = Some (True, c', r') \<and> Get c' ''auth_user_id'' = Some (GUint64 u))) \<and>
     (GenerateRefreshToken lib cfg t0 jti u extra = Inr tok \<longrightarrow>
       (\<exists>c' r'. JWT_Check lib cfg (Some MemoryRevoker) t c r = Some (False, c', r')))"
proof (intro conjI impI)
  assume a: "GenerateToken lib cfg t0 jti u extra = Inr tok \<and> t < NewNumericDate lib (t0 + (if cfg_TTL cfg \<le> 0 then 2 * hour else cfg_TTL cfg)) \<and>
       \<not> fst (Revoked MemoryRevoker t jti r)"
  then show "\<exists>c' r'. JWT_Check lib cfg (Some MemoryRevoker) t c r = Some (True, c', r') \<and> Get c' ''auth_user_id'' = Some (GUint64 u)"
    by (elim conjE) (rule issued_token_checks [OF assms])
next
  assume a: "GenerateRefreshToken lib cfg t0 jti u extra = Inr tok"
  obtain cl e where "cl_TokenType cl = ''refresh''"
    "\<And>t. t < e \<Longrightarrow> ParseWithClaims lib (hmac_key cfg) t tok = Inr (cl, True)"
    "\<And>t. e \<le> t \<Longrightarrow> \<exists>err. ParseWithClaims lib (hmac_key cfg) t tok = Inl err"
    using generated_parses [OF assms(1), of cfg t0 jti u "''refresh''" "refreshTTL cfg" extra tok] a unfolding GenerateRefreshToken_def by metis
  then have "ParseWithClaims lib (hmac_key cfg) t tok = Inr (cl, True) \<or> (\<exists>err. ParseWithClaims lib (hmac_key cfg) t tok = Inl err)"
    by (metis not_less)
  then consider (rejected) err r' where "ParseToken lib cfg (Some MemoryRevoker) t tok r = (Inl err, r')"
    | (parsed) r' where "ParseToken lib cfg (Some MemoryRevoker) t tok r = (Inr cl, r')"
    by (cases "cl_ID cl = []"; cases "Revoked MemoryRevoker t (cl_ID cl) r"; cases "fst (Revoked MemoryRevoker t (cl_ID cl) r)")
      (auto simp: ParseToken_def)
  then show "\<exists>c' r'. JWT_Check lib cfg (Some MemoryRevoker) t c r = Some (False, c', r')"
    using assms(2-4) \<open>cl_TokenType cl = ''refresh''\<close>
    by cases (auto simp: JWT_Check_def extractClaims_def ParseFromRequest_def access_claims_def)
qed

text \<open>A request every guard turns down.\<close>

fun refused :: "AuthManager \<Rightarrow> string list \<Rightarrow> ctx \<Rightarrow> ctx \<Rightarrow> bool" where
  "refused m [] c c' \<longleftrightarrow> c' = c"
| "refused m (name # names) c c' \<longleftrightarrow>
     (case Guard m [name] of
        Inl _ \<Rightarrow> c' = c
      | Inr g \<Rightarrow> (case g c of Some (False, c1) \<Rightarrow> refused m names c1 c' | _ \<Rightarrow> False))"

lemma guard_loop_refused:
  "refused m names c c' \<Longrightarrow>
     run_handler nx n (guard_loop m names) \<lparr>index = i, cx = c, started = l\<rparr> =
       Ret \<lparr>index = int n, cx = JSON 401 (error_json 401 ''Unauthorized'') c', started = l\<rparr>"
proof (induction m names c c' rule: refused.induct)
  case (2 m name names c c')
  show ?case
  proof (cases "Guard m [name]")
    case (Inr g)
    with "2.prems" obtain c1 where c1: "g c = Some (False, c1)" "refused m names c1 c'"
      by (auto split: option.splits prod.splits bool.splits)
    then show ?thesis using Inr "2.IH" [OF Inr c1(1) refl refl c1(2)] by simp
  qed (use "2.prems" in \<open>simp add: unauthorized_def AbortWithJSON_def\<close>)
qed (simp add: unauthorized_def AbortWithJSON_def)

text \<open>
  An unauthenticated request goes no further. When every guard named in the middleware (the default guard, if
  none is named) turns the request down, or a guard on the way is not registered, no handler after the
  middleware starts and the answer is 401.
\<close>

lemma auth_blocks:
  assumes "refused m (if names = [] then [fallback m] else names) c c'" and "sent (resp c') = None"
  shows "\<exists>st h. run_chain (Auth_Middleware m names # hs) c = Ret st \<and> started st = [0] \<and> sent (resp (cx st)) = Some (401, h)"
proof -
  let ?all = "Auth_Middleware m names # hs"
  have "run_handler (call_next ?all) (length ?all) (Auth_Middleware m names) \<lparr>index = 0, cx = c, started = [0]\<rparr> =
      Ret \<lparr>index = int (length ?all), cx = JSON 401 (error_json 401 ''Unauthorized'') c', started = [0]\<rparr>"
    unfolding Auth_Middleware_def by (rule guard_loop_refused [OF assms(1)])
  from first_handler_aborts [OF this] show ?thesis using sent_JSON [OF assms(2)] by auto
qed

section \<open>A sample library\<close>

definition sample_cfg :: TokenConfig where
  "sample_cfg = NewJWTGuard ''k'' 60"

text \<open>A library that knows a table of tokens with their claims.\<close>

definition table_jwt :: "(string \<times> Claims) list \<Rightarrow> jwtlib" where
  "table_jwt tbl =
     \<lparr>NewNumericDate = id,
      SignedString = \<lambda>k c. if k = ''k'' then (case find (\<lambda>p. snd p = c) tbl of Some p \<Rightarrow> Inr (fst p) | None \<Rightarrow> Inl ''unknown'') else Inl ''unknown'',
      ParseWithClaims = \<lambda>keyf t s.
        (case map_of tbl s of
           Some cl \<Rightarrow> if keyf ''HS256'' = Inr ''k'' \<and> (case cl_ExpiresAt cl of None \<Rightarrow> True | Some e \<Rightarrow> t < e) then Inr (cl, True) else Inl ''bad''
         | None \<Rightarrow> Inl ''bad'')\<rparr>"

lemma table_jwt_laws: "distinct (map fst tbl) \<Longrightarrow> jwt_laws (table_jwt tbl)"
  unfolding jwt_laws_def
proof (intro allI impI)
  fix secret cl tok
  assume d: "distinct (map fst tbl)" and "SignedString (table_jwt tbl) secret cl = Inr tok"
  then have k: "secret = ''k''" and "(tok, cl) \<in> set tbl"
    by (auto simp: table_jwt_def find_Some_iff split: if_splits option.splits)
  then have "map_of tbl tok = Some cl" using d by simp
  then show "\<exists>x. \<forall>keyf t. keyf ''HS256'' = Inr secret \<longrightarrow>
      (case cl_ExpiresAt cl of
         None \<Rightarrow> ParseWithClaims (table_jwt tbl) keyf t tok = Inr (cl\<lparr>cl_Extra := x\<rparr>, True)
       | Some e \<Rightarrow>
           if t < e then ParseWithClaims (table_jwt tbl) keyf t tok = Inr (cl\<lparr>cl_Extra := x\<rparr>, True)
           else \<exists>err. ParseWithClaims (table_jwt tbl) keyf t tok = Inl err)"
    by (intro exI [of _ "cl_Extra cl"]) (auto simp: table_jwt_def k split: option.split)
qed

definition sample_claims :: "string \<Rightarrow> string \<Rightarrow> int \<Rightarrow> int \<Rightarrow> Claims" where
  "sample_claims jti typ iat e =
     \<lparr>cl_Issuer = ''gai'', cl_IssuedAt = iat, cl_ExpiresAt = Some e, cl_ID = jti, cl_UserID = 7, cl_TokenType = typ, cl_Extra = GNil\<rparr>"

definition sample_jwt :: jwtlib where
  "sample_jwt = table_jwt
     [(''acc'', sample_claims ''a'' ''access'' 0 60000000000), (''ref'', sample_claims ''b'' ''refresh'' 0 1440000000000),
      (''acc2'', sample_claims ''c'' ''access'' 10 60000000010), (''ref2'', sample_claims ''d'' ''refresh'' 10 1440000000010)]"

lemma sample_jwt_laws: "jwt_laws sample_jwt"
  unfolding sample_jwt_def by (rule table_jwt_laws) simp

definition sample_request :: ctx where
  "sample_request = new_context
     \<lparr>req_method = ''GET'', req_path = ''/'', req_uri = ''/'', req_host = [], req_tls = False, req_header = Map.empty,
      req_query = [''token'' \<mapsto> [''acc'']], req_form = Map.empty, req_cookie = Map.empty, req_remote = [], req_body = [], req_body_err = None\<rparr>"

lemmas sample_token_defs = GenerateToken_def GenerateRefreshToken_def generateToken_def new_claims_def Let_def sample_jwt_def table_jwt_def
  sample_claims_def sample_cfg_def NewJWTGuard_def refreshTTL_def

lemma sample_tokens:
  "GenerateToken sample_jwt sample_cfg 0 ''a'' 7 GNil = Inr ''acc''"
  "GenerateRefreshToken sample_jwt sample_cfg 0 ''b'' 7 GNil = Inr ''ref''"
  "extractBearerToken sample_request = ''acc''" "Get sample_request ''auth_claims'' = None"
  by (simp_all add: sample_token_defs extractBearerToken_def sample_request_def Header_def header_get_def new_context_def Query_def
      query_get_def first_string_def Get_def)

lemma sample_Refresh:
  "\<exists>p r1. Refresh sample_jwt sample_cfg (Some MemoryRevoker) 10 (''c'', ''d'') ''ref'' Map.empty = (Inr p, r1)"
  by (simp add: Refresh_def ParseToken_def MemoryRevoker_def Memory_Revoked_def GenerateTokenPair_def hmac_key_def sample_token_defs)

lemma sample_Logout: "\<exists>c' r1. JWT_Logout sample_jwt sample_cfg (Some MemoryRevoker) 10 sample_request Map.empty = Some (c', r1)"
  using sample_tokens(3,4)
  by (simp add: JWT_Logout_def extractClaims_def ParseFromRequest_def ParseToken_def MemoryRevoker_def Memory_Revoked_def hmac_key_def sample_token_defs)



theorem access_token_accepted_witness:
  "\<exists>c' r'. JWT_Check sample_jwt sample_cfg (Some MemoryRevoker) 10 sample_request Map.empty = Some (True, c', r') \<and>
     Get c' ''auth_user_id'' = Some (GUint64 7)"
proof -
  have "\<not> fst (Revoked MemoryRevoker 10 ''a'' Map.empty)" by (simp add: MemoryRevoker_def Memory_Revoked_def)
  moreover have "10 < NewNumericDate sample_jwt (0 + (if cfg_TTL sample_cfg \<le> 0 then 2 * hour else cfg_TTL sample_cfg))"
    by (simp add: sample_token_defs)
  ultimately show ?thesis
    using access_token_accepted [OF sample_jwt_laws, of "''acc''" sample_request "''a''" sample_cfg 0 7 GNil 10 Map.empty] sample_tokens
    by simp
qed

lemma auth_blocks_example:
  "\<exists>st h. run_chain (Auth_Middleware (RegisterGuard ''jwt'' (\<lambda>c. Some (False, c)) (NewManager ''jwt'')) [] # [Done]) sample_request = Ret st \<and>
     started st = [0] \<and> sent (resp (cx st)) = Some (401, h)"
  by (rule auth_blocks [where c' = sample_request])
    (simp_all add: RegisterGuard_def NewManager_def Guard_def sample_request_def new_context_def empty_response_def)

section \<open>Where the guards fall short\<close>

text \<open>
  The claims are cached in the context under one key for all guards: after one guard has accepted a request, a guard with
  another secret accepts it too, and so does \<^verbatim>\<open>Check\<close> after \<^verbatim>\<open>Logout\<close> in the same request. A token
  without identifier cannot be revoked.
\<close>

lemma claims_of_val [simp]: "claims_of (claims_val cl) = Some cl"
  by (simp add: claims_of_def claims_val_def)

lemma cached_claims_cross_guards:
  "Get c ''auth_claims'' = Some (claims_val cl) \<Longrightarrow> access_claims cl \<Longrightarrow> JWT_Check lib other_cfg rv now c r = Some (True, c, r)"
  by (simp add: JWT_Check_def extractClaims_def)

lemma logout_keeps_request_authenticated:
  assumes "JWT_Check lib cfg rv now c r = Some (True, c', r')" and "JWT_Logout lib cfg rv now c' r' = Some (c'', r'')"
  shows "JWT_Check lib cfg rv now c'' r'' = Some (True, c'', r'')"
proof -
  obtain cl where cl: "extractClaims lib cfg rv now c r = Some (Some cl, c', r')" "access_claims cl"
    using assms(1) by (auto simp: JWT_Check_def split: option.splits)
  then have "\<exists>v. Get c' ''auth_claims'' = Some v \<and> claims_of v = Some cl"
    by (auto simp: extractClaims_def Get_def Set_def split: option.splits prod.splits sum.splits)
  then show ?thesis using assms(2) cl(2) by (auto simp: JWT_Logout_def JWT_Check_def extractClaims_def)
qed

end
