(* ===== verification/Storage.thy ===== *)
theory Storage
  imports Paths "HOL-Library.List_Lexorder" "HOL-Library.Char_ord" "HOL-Library.Multiset"
begin

text \<open>
  Package storage: the local disk, the S3 disk with its request signing, and the manager of named disks. The file system
  of the local disk is a list of cleaned paths with a directory or a file each, without links and
  permissions; hashing, URL escaping and the HTTP client of the S3 disk are parameters. The interface
  \<^verbatim>\<open>Disk\<close> is the locale \<open>disk\<close>, interpreted by the local disk.
\<close>

section \<open>The file system\<close>

datatype fs_entry = Dir | File string

datatype os_error = ENOENT | ENOTDIR | EISDIR | ENOTEMPTY | EINVAL | EscapesRoot | ReadError string

type_synonym fs = "(string list \<times> fs_entry) list"

text \<open>The current directory or the root, with no parts, is always a directory. The empty path names nothing.\<close>

definition fs_node :: "fs \<Rightarrow> string list \<Rightarrow> fs_entry option" where
  "fs_node s ps = (if ps = [] then Some Dir else map_of s ps)"

definition fs_put :: "string list \<Rightarrow> fs_entry \<Rightarrow> fs \<Rightarrow> fs" where
  "fs_put ps n s = (ps, n) # filter (\<lambda>e. fst e \<noteq> ps) s"

definition is_file :: "fs \<Rightarrow> string list \<Rightarrow> bool" where
  "is_file s ps = (case fs_node s ps of Some (File _) \<Rightarrow> True | _ \<Rightarrow> False)"

definition below_file :: "fs \<Rightarrow> string list \<Rightarrow> bool" where
  "below_file s ps = list_ex (\<lambda>k. is_file s (take k ps)) [0..<length ps]"

definition os_Stat :: "string \<Rightarrow> fs \<Rightarrow> os_error + fs_entry" where
  "os_Stat path s =
     (if path = [] then Inl ENOENT
      else case fs_node s (clean_parts path) of
        Some n \<Rightarrow> Inr n
      | None \<Rightarrow> Inl (if below_file s (clean_parts path) then ENOTDIR else ENOENT))"

text \<open>\<^verbatim>\<open>os.MkdirAll\<close> on the directory with these parts.\<close>

definition os_MkdirAll :: "string list \<Rightarrow> fs \<Rightarrow> os_error + fs" where
  "os_MkdirAll ps s =
     (if list_ex (\<lambda>k. is_file s (take k ps)) [0..<Suc (length ps)] then Inl ENOTDIR
      else Inr (fold (\<lambda>k s. if fs_node s (take k ps) = None then fs_put (take k ps) Dir s else s) [0..<Suc (length ps)] s))"

definition os_Create :: "string \<Rightarrow> fs \<Rightarrow> os_error + fs" where
  "os_Create path s =
     (let ps = clean_parts path in
      if path = [] then Inl ENOENT
      else if fs_node s ps = Some Dir then Inl EISDIR
      else case fs_node s (butlast ps) of
        Some Dir \<Rightarrow> Inr (fs_put ps (File []) s)
      | Some (File _) \<Rightarrow> Inl ENOTDIR
      | None \<Rightarrow> Inl (if below_file s ps then ENOTDIR else ENOENT))"

definition os_Remove :: "string \<Rightarrow> fs \<Rightarrow> os_error option \<times> fs" where
  "os_Remove path s =
     (let ps = clean_parts path in
      case os_Stat path s of
        Inl e \<Rightarrow> (Some e, s)
      | Inr n \<Rightarrow>
          if ps = [] then (Some EINVAL, s)
          else if n = Dir \<and> list_ex (\<lambda>e. fst e \<noteq> [] \<and> butlast (fst e) = ps) s then (Some ENOTEMPTY, s)
          else (None, filter (\<lambda>e. fst e \<noteq> ps) s))"

text \<open>
  \<^verbatim>\<open>filepath.Rel\<close> for a target that is not the current directory: the parts both paths begin with are dropped.
\<close>

fun strip_common :: "string list \<Rightarrow> string list \<Rightarrow> string list \<times> string list" where
  "strip_common (b # bs) (t # ts) = (if b = t then strip_common bs ts else (b # bs, t # ts))"
| "strip_common bs ts = (bs, ts)"

definition filepath_Rel :: "string \<Rightarrow> string \<Rightarrow> string option" where
  "filepath_Rel base targ =
     (if path_clean targ = path_clean base then Some ''.''
      else if has_prefix base ''/'' \<noteq> has_prefix targ ''/'' then None
      else case strip_common (clean_parts base) (clean_parts targ) of
        (bs, ts) \<Rightarrow> if bs \<noteq> [] \<and> hd bs = ''..'' then None else Some (join (replicate (length bs) ''..'' @ ts) ''/''))"

section \<open>The local disk\<close>

record Local =
  l_Root :: string
  l_BaseURL :: string

definition Local_abs :: "Local \<Rightarrow> string \<Rightarrow> os_error + string" where
  "Local_abs l path =
     (let clean = path_clean (''/'' @ path);
          full = path_join [l_Root l, trim_prefix clean ''/''] in
      case filepath_Rel (l_Root l) full of
        None \<Rightarrow> Inl EscapesRoot
      | Some rel \<Rightarrow> if has_prefix rel ''..'' then Inl EscapesRoot else Inr full)"

text \<open>A reader is the bytes it delivers and the error it ends with, if any. The bytes are written as they come.\<close>

definition Local_Put :: "Local \<Rightarrow> string \<Rightarrow> string \<times> string option \<Rightarrow> fs \<Rightarrow> os_error option \<times> fs" where
  "Local_Put l path r s =
     (case Local_abs l path of
        Inl e \<Rightarrow> (Some e, s)
      | Inr full \<Rightarrow>
          (case os_MkdirAll (butlast (clean_parts full)) s of
             Inl e \<Rightarrow> (Some e, s)
           | Inr s \<Rightarrow>
               (case os_Create full s of
                  Inl e \<Rightarrow> (Some e, s)
                | Inr s \<Rightarrow> (map_option ReadError (snd r), fs_put (clean_parts full) (File (fst r)) s))))"

text \<open>\<^verbatim>\<open>os.Open\<close> also opens a directory; reading it fails.\<close>

definition Local_Get :: "Local \<Rightarrow> string \<Rightarrow> fs \<Rightarrow> os_error + fs_entry" where
  "Local_Get l path s = (case Local_abs l path of Inl e \<Rightarrow> Inl e | Inr full \<Rightarrow> os_Stat full s)"

definition Local_Delete :: "Local \<Rightarrow> string \<Rightarrow> fs \<Rightarrow> os_error option \<times> fs" where
  "Local_Delete l path s = (case Local_abs l path of Inl e \<Rightarrow> (Some e, s) | Inr full \<Rightarrow> os_Remove full s)"

definition Local_Exists :: "Local \<Rightarrow> string \<Rightarrow> fs \<Rightarrow> os_error + bool" where
  "Local_Exists l path s =
     (case Local_abs l path of
        Inl e \<Rightarrow> Inl e
      | Inr full \<Rightarrow> (case os_Stat full s of Inl ENOENT \<Rightarrow> Inr False | Inl e \<Rightarrow> Inl e | Inr _ \<Rightarrow> Inr True))"

definition Local_URL :: "Local \<Rightarrow> string \<Rightarrow> string" where
  "Local_URL l path =
     (let p = trim_prefix path ''/'' in
      if l_BaseURL l = [] then ''/'' @ p else trim_suffix (l_BaseURL l) ''/'' @ ''/'' @ p)"

section \<open>The manager\<close>

record 'd DiskManager =
  disks :: "string \<rightharpoonup> 'd"
  defaultName :: string

definition NewDiskManager :: "'d DiskManager" where
  "NewDiskManager = \<lparr>disks = Map.empty, defaultName = []\<rparr>"

definition DiskManager_Add :: "string \<Rightarrow> 'd \<Rightarrow> 'd DiskManager \<Rightarrow> 'd DiskManager" where
  "DiskManager_Add name d m =
     (let m = m\<lparr>disks := (disks m)(name \<mapsto> d)\<rparr> in if defaultName m = [] then m\<lparr>defaultName := name\<rparr> else m)"

definition DiskManager_Disk :: "string list \<Rightarrow> 'd DiskManager \<Rightarrow> string + 'd" where
  "DiskManager_Disk name m =
     (let key = (case name of n # _ \<Rightarrow> if n \<noteq> [] then n else defaultName m | [] \<Rightarrow> defaultName m) in
      case disks m key of
        None \<Rightarrow> Inl (''gai/storage: disk '' @ [CHR 34] @ key @ [CHR 34] @ '' not registered'')
      | Some d \<Rightarrow> Inr d)"

section \<open>The S3 disk\<close>

record S3 =
  Endpoint :: string
  Region :: string
  Bucket :: string
  AccessKey :: string
  SecretKey :: string
  s3_BaseURL :: string
  PathStyle :: bool

text \<open>
  What the disk asks of the standard library: the two formats of the time, SHA-256 and HMAC, hexadecimal, the
  escaped path of a URL, and the check of the URL by \<^verbatim>\<open>http.NewRequest\<close>.
\<close>

record s3lib =
  amz_date :: "int \<Rightarrow> string"
  date_stamp :: "int \<Rightarrow> string"
  sha256 :: "string \<Rightarrow> string"
  hmac :: "string \<Rightarrow> string \<Rightarrow> string"
  hex_encode :: "string \<Rightarrow> string"
  escaped_path :: "string \<Rightarrow> string"
  url_error :: "string \<Rightarrow> string option"

record s3_request =
  rq_method :: string
  rq_host :: string
  rq_path :: string
  rq_header :: "(string \<times> string) list"
  rq_body :: "string option"

definition s3_region :: "S3 \<Rightarrow> string" where
  "s3_region d = (if Region d \<noteq> [] then Region d else ''us-east-1'')"

definition s3_host :: "S3 \<Rightarrow> string" where
  "s3_host d =
     (let ep = trim_suffix (trim_prefix (trim_prefix (Endpoint d) ''https://'') ''http://'') ''/'' in
      if ep = [] then
        (if PathStyle d then ''s3.'' @ s3_region d @ ''.amazonaws.com''
         else Bucket d @ ''.s3.'' @ s3_region d @ ''.amazonaws.com'')
      else if PathStyle d then ep else Bucket d @ ''.'' @ ep)"

definition objectPath :: "S3 \<Rightarrow> string \<Rightarrow> string" where
  "objectPath d path =
     (let p = trim_prefix path ''/'' in if PathStyle d then ''/'' @ Bucket d @ ''/'' @ p else ''/'' @ p)"

definition s3_scheme :: "S3 \<Rightarrow> string" where
  "s3_scheme d = (if has_prefix (Endpoint d) ''http://'' then ''http'' else ''https'')"

definition sha256Hex :: "s3lib \<Rightarrow> string \<Rightarrow> string" where
  "sha256Hex lib b = hex_encode lib (sha256 lib b)"

definition s3SigningKey :: "s3lib \<Rightarrow> string \<Rightarrow> string \<Rightarrow> string \<Rightarrow> string \<Rightarrow> string" where
  "s3SigningKey lib secret date reg service =
     (let kDate = hmac lib (''AWS4'' @ secret) date;
          kRegion = hmac lib kDate reg;
          kService = hmac lib kRegion service in
      hmac lib kService ''aws4_request'')"

text \<open>
  The header of a request is the list of its entries in the order in which Go visits the map; its keys are in
  canonical form, so that the lower-case key finds the entry.
\<close>

definition header_value :: "(string \<times> string) list \<Rightarrow> string \<Rightarrow> string" where
  "header_value hs k = (case filter (\<lambda>e. to_lower (fst e) = to_lower k) hs of [] \<Rightarrow> [] | e # _ \<Rightarrow> snd e)"

definition header_put :: "string \<Rightarrow> string \<Rightarrow> (string \<times> string) list \<Rightarrow> (string \<times> string) list" where
  "header_put k v hs = filter (\<lambda>e. to_lower (fst e) \<noteq> to_lower k) hs @ [(k, v)]"

definition header_keys :: "(string \<times> string) list \<Rightarrow> string list" where
  "header_keys hs =
     (let keys = rev (remdups (rev (map (\<lambda>e. to_lower (fst e)) hs))) in
      sort (if ''host'' \<in> set keys then keys else keys @ [''host'']))"

definition header_line :: "string \<Rightarrow> (string \<times> string) list \<Rightarrow> string \<Rightarrow> string" where
  "header_line host hs k =
     (let val = trim_space (header_value hs k);
          val = (if k = ''host'' \<and> val = [] then host else val) in
      k @ '':'' @ val @ [CHR 10])"

definition canonicalHeaderString :: "string \<Rightarrow> (string \<times> string) list \<Rightarrow> string \<times> string" where
  "canonicalHeaderString host hs = (join (header_keys hs) '';'', concat (map (header_line host hs) (header_keys hs)))"

text \<open>\<^verbatim>\<open>sign\<close> at time \<open>now\<close>; \<open>visit\<close> is the order in which the map of headers is visited. The requests have no query.\<close>

definition s3_sign :: "s3lib \<Rightarrow> ((string \<times> string) list \<Rightarrow> (string \<times> string) list) \<Rightarrow> int \<Rightarrow> S3 \<Rightarrow> s3_request \<Rightarrow> s3_request" where
  "s3_sign lib visit now d req =
     (let amzDate = amz_date lib now;
          dateStamp = date_stamp lib now;
          payloadHash = sha256Hex lib (case rq_body req of None \<Rightarrow> [] | Some b \<Rightarrow> b);
          hs = header_put ''X-Amz-Content-Sha256'' payloadHash (header_put ''X-Amz-Date'' amzDate (rq_header req));
          hs = (if header_value hs ''Host'' = [] then header_put ''Host'' (rq_host req) hs else hs);
          (signedHeaders, canonicalHeaders) = canonicalHeaderString (rq_host req) (visit hs);
          canonical = join [rq_method req, escaped_path lib (rq_path req), [], canonicalHeaders, signedHeaders, payloadHash] [CHR 10];
          scope = dateStamp @ ''/'' @ s3_region d @ ''/s3/aws4_request'';
          sts = join [''AWS4-HMAC-SHA256'', amzDate, scope, sha256Hex lib canonical] [CHR 10];
          signingKey = s3SigningKey lib (SecretKey d) dateStamp (s3_region d) ''s3'';
          sig = hex_encode lib (hmac lib signingKey sts) in
      req\<lparr>rq_header := header_put ''Authorization''
        (''AWS4-HMAC-SHA256 Credential='' @ AccessKey d @ ''/'' @ scope @ '', SignedHeaders='' @ signedHeaders @ '', Signature='' @ sig) hs\<rparr>)"

definition s3_newRequest :: "s3lib \<Rightarrow> ((string \<times> string) list \<Rightarrow> (string \<times> string) list) \<Rightarrow> int \<Rightarrow> S3 \<Rightarrow> string \<Rightarrow> string \<Rightarrow>
    string option \<Rightarrow> string + s3_request" where
  "s3_newRequest lib visit now d meth path body =
     (case url_error lib (s3_scheme d @ ''://'' @ s3_host d @ escaped_path lib (objectPath d path)) of
        Some e \<Rightarrow> Inl e
      | None \<Rightarrow>
          Inr (s3_sign lib visit now d
            \<lparr>rq_method = meth, rq_host = s3_host d, rq_path = objectPath d path, rq_header = [], rq_body = body\<rparr>))"

text \<open>The HTTP client: an error or the status code, the status line and the body.\<close>

record s3_response =
  rs_code :: nat
  rs_status :: string
  rs_body :: string

type_synonym 'w http_do = "s3_request \<Rightarrow> 'w \<Rightarrow> (string + s3_response) \<times> 'w"

definition s3_failure :: "string \<Rightarrow> string \<Rightarrow> s3_response \<Rightarrow> string" where
  "s3_failure op path resp = ''gai/storage/s3: '' @ op @ '' '' @ path @ '': '' @ rs_status resp @ '' '' @ rs_body resp"

definition S3_Put :: "'w http_do \<Rightarrow> (string \<Rightarrow> string option \<Rightarrow> string + s3_request) \<Rightarrow> string \<Rightarrow> string \<times> string option \<Rightarrow> 'w \<Rightarrow>
    string option \<times> 'w" where
  "S3_Put client req path r w =
     (case snd r of
        Some e \<Rightarrow> (Some e, w)
      | None \<Rightarrow>
          (case req ''PUT'' (Some (fst r)) of
             Inl e \<Rightarrow> (Some e, w)
           | Inr q \<Rightarrow>
               (case client q w of
                  (Inl e, w) \<Rightarrow> (Some e, w)
                | (Inr resp, w) \<Rightarrow> (if 300 \<le> rs_code resp then Some (s3_failure ''put'' path resp) else None, w))))"

definition S3_Get :: "'w http_do \<Rightarrow> (string \<Rightarrow> string option \<Rightarrow> string + s3_request) \<Rightarrow> string \<Rightarrow> 'w \<Rightarrow> (string + string) \<times> 'w" where
  "S3_Get client req path w =
     (case req ''GET'' None of
        Inl e \<Rightarrow> (Inl e, w)
      | Inr q \<Rightarrow>
          (case client q w of
             (Inl e, w) \<Rightarrow> (Inl e, w)
           | (Inr resp, w) \<Rightarrow> (if 300 \<le> rs_code resp then Inl (s3_failure ''get'' path resp) else Inr (rs_body resp), w)))"

definition S3_Delete :: "'w http_do \<Rightarrow> (string \<Rightarrow> string option \<Rightarrow> string + s3_request) \<Rightarrow> string \<Rightarrow> 'w \<Rightarrow> string option \<times> 'w" where
  "S3_Delete client req path w =
     (case req ''DELETE'' None of
        Inl e \<Rightarrow> (Some e, w)
      | Inr q \<Rightarrow>
          (case client q w of
             (Inl e, w) \<Rightarrow> (Some e, w)
           | (Inr resp, w) \<Rightarrow>
               (if 300 \<le> rs_code resp \<and> rs_code resp \<noteq> 404 then Some (s3_failure ''delete'' path resp) else None, w)))"

definition S3_Exists :: "'w http_do \<Rightarrow> (string \<Rightarrow> string option \<Rightarrow> string + s3_request) \<Rightarrow> string \<Rightarrow> 'w \<Rightarrow> (string + bool) \<times> 'w" where
  "S3_Exists client req path w =
     (case req ''HEAD'' None of
        Inl e \<Rightarrow> (Inl e, w)
      | Inr q \<Rightarrow>
          (case client q w of
             (Inl e, w) \<Rightarrow> (Inl e, w)
           | (Inr resp, w) \<Rightarrow>
               (if rs_code resp = 404 then Inr False
                else if 300 \<le> rs_code resp then Inl (''gai/storage/s3: head '' @ path @ '': '' @ rs_status resp)
                else Inr True, w)))"

definition S3_URL :: "S3 \<Rightarrow> string \<Rightarrow> string" where
  "S3_URL d path =
     (let p = trim_prefix path ''/'' in
      if s3_BaseURL d \<noteq> [] then trim_suffix (s3_BaseURL d) ''/'' @ ''/'' @ p
      else s3_scheme d @ ''://'' @ s3_host d @ objectPath d p)"

section \<open>The interface of a disk\<close>

text \<open>A sequence of writes, all of which succeed.\<close>

fun write_all :: "(string \<Rightarrow> string \<Rightarrow> 's \<Rightarrow> 'e option \<times> 's) \<Rightarrow> (string \<times> string) list \<Rightarrow> 's \<Rightarrow> 's option" where
  "write_all put [] s = Some s"
| "write_all put ((p, c) # ws) s = (case put p c s of (None, s') \<Rightarrow> write_all put ws s' | (Some _, s') \<Rightarrow> None)"

text \<open>
  What a client of \<^verbatim>\<open>Disk\<close> relies on: a stored file is read back, storing leaves the files under other keys alone, and a
  deleted file cannot be read. \<open>key\<close> says when two paths name the same file.
\<close>

locale disk =
  fixes put :: "string \<Rightarrow> string \<Rightarrow> 's \<Rightarrow> 'e option \<times> 's"
    and get :: "string \<Rightarrow> 's \<Rightarrow> 'e + string"
    and remove :: "string \<Rightarrow> 's \<Rightarrow> 'e option \<times> 's"
    and key :: "string \<Rightarrow> 'k"
  assumes put_get: "put p c s = (None, s') \<Longrightarrow> get p s' = Inr c"
    and get_key: "key p = key q \<Longrightarrow> get p s = get q s"
    and put_frame: "put p c s = (r, s') \<Longrightarrow> key q \<noteq> key p \<Longrightarrow> get q s = Inr d \<Longrightarrow> get q s' = Inr d"
    and remove_get: "remove p s = (None, s') \<Longrightarrow> \<exists>e. get p s' = Inl e"
    and remove_frame: "remove p s = (r, s') \<Longrightarrow> key q \<noteq> key p \<Longrightarrow> get q s = Inr d \<Longrightarrow> get q s' = Inr d"
begin

lemma writes_keep:
  "write_all put ws s = Some s' \<Longrightarrow> \<forall>(q, _)\<in>set ws. key q \<noteq> key p \<Longrightarrow> get p s = Inr c \<Longrightarrow> get p s' = Inr c"
proof (induction ws arbitrary: s)
  case (Cons w ws)
  obtain q d where w: "w = (q, d)" by (cases w)
  obtain s1 where s1: "put q d s = (None, s1)" "write_all put ws s1 = Some s'"
    using Cons.prems(1) w by (auto split: prod.splits option.splits)
  then show ?case using Cons.IH [OF s1(2)] put_frame [OF s1(1)] Cons.prems w by auto
qed simp

lemma last_write_wins:
  assumes "write_all put (ws @ (p, c) # ws') s = Some s'" and "\<forall>(q, _)\<in>set ws'. key q \<noteq> key p" and "key r = key p"
  shows "get r s' = Inr c"
proof -
  have "\<exists>s1 s2. put p c s1 = (None, s2) \<and> write_all put ws' s2 = Some s'"
    using assms(1) by (induction ws arbitrary: s) (auto split: prod.splits option.splits)
  then obtain s1 s2 where "put p c s1 = (None, s2)" "write_all put ws' s2 = Some s'" by blast
  then show ?thesis using writes_keep [OF _ assms(2)] put_get get_key [OF assms(3)] by metis
qed

end

section \<open>The local disk is a disk\<close>

lemma strip_common_append [simp]: "strip_common xs (xs @ ts) = ([], ts)"
  by (induction xs) simp_all

lemma path_clean_cong: "clean_parts p = clean_parts q \<Longrightarrow> has_prefix p ''/'' = has_prefix q ''/'' \<Longrightarrow> path_clean p = path_clean q"
  by (simp add: path_clean_def)

lemma dots_of_join: "list_all safe_part ps \<Longrightarrow> ps \<noteq> [] \<Longrightarrow> has_prefix (join ps ''/'') ''..'' = has_prefix (hd ps) ''..''"
proof -
  assume "list_all safe_part ps" "ps \<noteq> []"
  then obtain c e ps' where ps: "ps = (c # e) # ps'" "safe_part (c # e)"
    by (cases ps; cases "hd ps") (auto simp: safe_part_def)
  then show ?thesis by (cases e; cases ps') (auto simp: safe_part_def)
qed

text \<open>Where a path leads, and which paths are refused: those whose cleaned first part begins with two dots.\<close>

definition disk_key :: "string \<Rightarrow> string list" where
  "disk_key path = clean_parts (''/'' @ path)"

definition full_path :: "Local \<Rightarrow> string \<Rightarrow> string" where
  "full_path l path = path_join [l_Root l, trim_prefix (path_clean (''/'' @ path)) ''/'']"

lemma full_path_parts [simp]: "clean_parts (full_path l path) = clean_parts (l_Root l) @ disk_key path"
  using join_confined [of "l_Root l" path] by (simp add: full_path_def disk_key_def)

lemma full_path_cong: "disk_key p = disk_key q \<Longrightarrow> full_path l p = full_path l q"
  by (simp add: full_path_def disk_key_def path_clean_def)

lemma Local_abs_eq:
  "Local_abs l path = (if disk_key path \<noteq> [] \<and> has_prefix (hd (disk_key path)) ''..'' then Inl EscapesRoot else Inr (full_path l path))"
proof -
  let ?root = "l_Root l" and ?full = "full_path l path" and ?ps = "disk_key path"
  have c: "list_all safe_part ?ps" "has_prefix ?full ''/'' = has_prefix ?root ''/''"
    using join_confined [of ?root path] by (simp_all add: full_path_def disk_key_def)
  have "filepath_Rel ?root ?full = Some (if ?ps = [] then ''.'' else join ?ps ''/'')"
  proof (cases "?ps = []")
    case True
    then show ?thesis using path_clean_cong [of ?full ?root] c by (simp add: filepath_Rel_def)
  next
    case False
    then have "path_clean ?full \<noteq> path_clean ?root"
      using clean_parts_clean [of ?full] clean_parts_clean [of ?root] by auto
    then show ?thesis using False c by (simp add: filepath_Rel_def)
  qed
  then show ?thesis using dots_of_join [OF c(1)] by (auto simp: Local_abs_def full_path_def Let_def)
qed

lemma fs_node_put [simp]: "ps \<noteq> [] \<Longrightarrow> fs_node (fs_put ps n s) qs = (if qs = ps then Some n else fs_node s qs)"
proof -
  have "map_of (filter (\<lambda>e. fst e \<noteq> ps) xs) qs = map_of xs qs" if "qs \<noteq> ps" for xs :: fs
    using that by (induction xs) auto
  then show "ps \<noteq> [] \<Longrightarrow> ?thesis" by (simp add: fs_node_def fs_put_def)
qed

lemma fs_node_del: "fs_node (filter (\<lambda>e. fst e \<noteq> ps) s) qs = (if qs = ps \<and> ps \<noteq> [] then None else fs_node s qs)"
  unfolding fs_node_def by (induction s) auto

text \<open>An operation that leaves a node as it is or makes a directory of nothing.\<close>

definition grows :: "fs \<Rightarrow> fs \<Rightarrow> string list \<Rightarrow> bool" where
  "grows s s' q \<longleftrightarrow> fs_node s' q = fs_node s q \<or> fs_node s q = None \<and> fs_node s' q = Some Dir"

lemma grows_refl [simp]: "grows s s q"
  by (simp add: grows_def)

lemma grows_trans: "grows s s1 q \<Longrightarrow> grows s1 s2 q \<Longrightarrow> grows s s2 q"
  by (auto simp: grows_def)

lemma mkdir_fold_grows:
  "grows s (fold (\<lambda>k s. if fs_node s (take k ps) = None then fs_put (take k ps) Dir s else s) ks s) q"
proof -
  define step where "step = (\<lambda>k s. if fs_node s (take k ps) = None then fs_put (take k ps) Dir s else s)"
  have step: "grows s (step k s) q" for k s
    by (cases "take k ps = []") (auto simp: grows_def step_def fs_node_def [of _ "[]"])
  have "grows s (fold step ks s) q"
    by (induction ks arbitrary: s) (auto intro: grows_trans [OF step])
  then show ?thesis by (simp add: step_def)
qed

lemma MkdirAll_grows:
  assumes "os_MkdirAll ps s = Inr s'"
  shows "grows s s' q"
  using assms mkdir_fold_grows by (auto simp: os_MkdirAll_def simp del: upt_Suc split: if_splits)

text \<open>After \<^verbatim>\<open>os.MkdirAll\<close> the directory and all above it exist; when they do, it changes nothing.\<close>

definition dirs_exist :: "fs \<Rightarrow> string list \<Rightarrow> bool" where
  "dirs_exist s ps \<longleftrightarrow> (\<forall>k. fs_node s (take k ps) = Some Dir)"

lemma grows_dir: "grows s s' q \<Longrightarrow> fs_node s q = Some Dir \<Longrightarrow> fs_node s' q = Some Dir"
  by (auto simp: grows_def)

lemma mkdir_fold_dirs:
  assumes "\<And>k. k \<in> set ks \<Longrightarrow> \<not> is_file s (take k ps)" and "k \<in> set ks"
  shows "fs_node (fold (\<lambda>k s. if fs_node s (take k ps) = None then fs_put (take k ps) Dir s else s) ks s) (take k ps) = Some Dir"
  using assms
proof (induction ks arbitrary: s)
  case (Cons k' ks)
  let ?s = "if fs_node s (take k' ps) = None then fs_put (take k' ps) Dir s else s"
  have ne: "fs_node s (take k' ps) = None \<Longrightarrow> take k' ps \<noteq> []" by (auto simp: fs_node_def split: if_splits simp del: take_eq_Nil)
  have dir: "fs_node ?s (take k' ps) = Some Dir"
    using Cons.prems(1) [of k'] ne by (auto simp: is_file_def split: option.splits fs_entry.splits)
  have files: "\<not> is_file ?s (take j ps)" if "j \<in> set (k' # ks)" for j
    using Cons.prems(1) [OF that] ne by (auto simp: is_file_def)
  show ?case
  proof (cases "k = k'")
    case True
    then show ?thesis using grows_dir [OF mkdir_fold_grows dir] by simp
  next
    case False
    then show ?thesis using Cons.IH [of ?s] files Cons.prems(2) by simp
  qed
qed simp

lemma MkdirAll_dirs:
  assumes "os_MkdirAll ps s = Inr s'"
  shows "dirs_exist s' ps"
  unfolding dirs_exist_def
proof
  fix k
  have "fs_node s' (take (min k (length ps)) ps) = Some Dir"
    using assms mkdir_fold_dirs [of "[0..<Suc (length ps)]" s ps "min k (length ps)"]
    by (auto simp: os_MkdirAll_def list_ex_iff simp del: upt_Suc split: if_splits)
  then show "fs_node s' (take k ps) = Some Dir" by (simp add: min_def split: if_splits)
qed

lemma MkdirAll_same:
  assumes "dirs_exist s ps"
  shows "os_MkdirAll ps s = Inr s"
proof -
  have d: "fs_node s (take k ps) = Some Dir" for k using assms by (simp add: dirs_exist_def)
  then have "fold (\<lambda>k s. if fs_node s (take k ps) = None then fs_put (take k ps) Dir s else s) ks s = s" for ks
    by (induction ks) simp_all
  then show ?thesis using d by (simp add: os_MkdirAll_def list_ex_iff is_file_def del: upt_Suc)
qed

lemma Create_Some:
  "os_Create path s = Inr s' \<Longrightarrow> path \<noteq> [] \<and> clean_parts path \<noteq> [] \<and> fs_node s (clean_parts path) \<noteq> Some Dir \<and>
     s' = fs_put (clean_parts path) (File []) s"
  by (auto simp: os_Create_def Let_def fs_node_def split: if_splits option.splits fs_entry.splits)

lemma Put_grows:
  assumes "q \<noteq> clean_parts (full_path l p)"
  shows "grows s (snd (Local_Put l p r s)) q"
proof (cases "Local_abs l p")
  case (Inr full)
  then have full: "full = full_path l p" by (simp add: Local_abs_eq split: if_splits)
  show ?thesis
  proof (cases "os_MkdirAll (butlast (clean_parts full)) s")
    case mk: (Inr s1)
    have "grows s1 (snd (Local_Put l p r s)) q" using assms Inr mk full
      by (cases "os_Create full s1") (auto simp: Local_Put_def grows_def dest!: Create_Some)
    with MkdirAll_grows [OF mk] show ?thesis by (rule grows_trans)
  qed (use Inr in \<open>simp add: Local_Put_def\<close>)
qed (simp add: Local_Put_def)

text \<open>The whole file.\<close>

definition Local_read :: "Local \<Rightarrow> string \<Rightarrow> fs \<Rightarrow> os_error + string" where
  "Local_read l path s = (case Local_Get l path s of Inl e \<Rightarrow> Inl e | Inr Dir \<Rightarrow> Inl EISDIR | Inr (File c) \<Rightarrow> Inr c)"

abbreviation Local_write :: "Local \<Rightarrow> string \<Rightarrow> string \<Rightarrow> fs \<Rightarrow> os_error option \<times> fs" where
  "Local_write l path c \<equiv> Local_Put l path (c, None)"

lemma Local_read_iff:
  "Local_read l path s = Inr c \<longleftrightarrow> (\<exists>full. Local_abs l path = Inr full \<and> full \<noteq> [] \<and> fs_node s (clean_parts full) = Some (File c))"
  by (auto simp: Local_read_def Local_Get_def os_Stat_def split: sum.splits option.splits fs_entry.splits)

lemma Local_write_Some:
  assumes "Local_write l p c s = (None, s')"
  obtains s1 where "Local_abs l p = Inr (full_path l p)" "full_path l p \<noteq> []" "clean_parts (full_path l p) \<noteq> []"
    "os_MkdirAll (butlast (clean_parts (full_path l p))) s = Inr s1"
    "s' = fs_put (clean_parts (full_path l p)) (File c) (fs_put (clean_parts (full_path l p)) (File []) s1)"
  using assms by (auto simp: Local_Put_def Local_abs_eq dest!: Create_Some split: if_splits sum.splits)

interpretation local_disk: disk "Local_write l" "Local_read l" "Local_Delete l" disk_key for l
proof
  fix p q c d s s' r
  show "Local_read l p s' = Inr c" if "Local_write l p c s = (None, s')"
    using that by (rule Local_write_Some) (auto simp: Local_read_iff)
  show "Local_read l p s = Local_read l q s" if "disk_key p = disk_key q"
    using that full_path_cong [OF that, of l] by (simp add: Local_read_def Local_Get_def Local_abs_eq)
  show "Local_read l q s' = Inr d" if "Local_write l p c s = (r, s')" "disk_key q \<noteq> disk_key p" "Local_read l q s = Inr d"
    using that Put_grows [of "clean_parts (full_path l q)" l p s "(c, None)"]
    by (auto simp: Local_read_iff Local_abs_eq grows_def split: if_splits)
  show "\<exists>e. Local_read l p s' = Inl e" if "Local_Delete l p s = (None, s')"
    using that by (auto simp: Local_Delete_def os_Remove_def Local_read_def Local_Get_def Let_def os_Stat_def fs_node_del
        split: sum.splits if_splits)
  show "Local_read l q s' = Inr d" if "Local_Delete l p s = (r, s')" "disk_key q \<noteq> disk_key p" "Local_read l q s = Inr d"
    using that by (auto simp: Local_Delete_def os_Remove_def Local_read_iff Let_def fs_node_del Local_abs_eq
        split: sum.splits if_splits)
qed

section \<open>Properties\<close>

text \<open>
  The local disk keeps what is stored last. After any sequence of successful writes, reading a path,
  under any spelling that cleans to the same parts, gives the contents of the last write to that path,
  whatever was written elsewhere afterwards.
\<close>

lemma local_last_write_wins:
  assumes "write_all (Local_write l) (ws @ (p, c) # ws') s = Some s'"
    and "\<forall>(q, _)\<in>set ws'. disk_key q \<noteq> disk_key p" and "disk_key r = disk_key p"
  shows "Local_read l r s' = Inr c"
  using assms by (rule local_disk.last_write_wins)

lemma local_last_write_wins_example:
  "Local_read \<lparr>l_Root = ''/srv'', l_BaseURL = []\<rparr> ''x/../a//b''
     (the (write_all (Local_write \<lparr>l_Root = ''/srv'', l_BaseURL = []\<rparr>) [(''a/b'', ''old''), (''a/b'', ''new''), (''a/c'', ''z'')] [])) = Inr ''new''"
proof -
  let ?l = "\<lparr>l_Root = ''/srv'', l_BaseURL = []\<rparr>" and ?ws = "[(''a/b'', ''old''), (''a/b'', ''new''), (''a/c'', ''z'')]"
  have "write_all (Local_write ?l) ?ws [] \<noteq> None" by code_simp
  then obtain s' where s': "write_all (Local_write ?l) ?ws [] = Some s'" by blast
  have 1: "disk_key ''a/c'' \<noteq> disk_key ''a/b''" and 2: "disk_key ''x/../a//b'' = disk_key ''a/b''" by code_simp+
  show ?thesis
    using local_last_write_wins [of ?l "[(''a/b'', ''old'')]" "''a/b''" "''new''" "[(''a/c'', ''z'')]" "[]" s', OF _ _ 2] s' 1 by simp
qed

text \<open>
  The local disk never leaves its root. Whatever path is given, with double dots or not, a write creates or
  changes no file and removes nothing outside the root, and a deletion changes nothing there.
\<close>

lemma local_confined:
  assumes "\<nexists>ps. q = clean_parts (l_Root l) @ ps"
  shows "(fs_node s q = Some n \<longrightarrow> fs_node (snd (Local_Put l p r s)) q = Some n) \<and>
     is_file (snd (Local_Put l p r s)) q = is_file s q \<and> fs_node (snd (Local_Delete l p s)) q = fs_node s q"
proof -
  have ne: "q \<noteq> clean_parts (full_path l p)" using assms by auto
  have "grows s (snd (Local_Put l p r s)) q" using ne by (rule Put_grows)
  moreover have "fs_node (snd (Local_Delete l p s)) q = fs_node s q"
    using ne by (auto simp: Local_Delete_def Local_abs_eq os_Remove_def Let_def fs_node_del split: sum.split)
  ultimately show ?thesis by (auto simp: grows_def is_file_def)
qed

lemma local_confined_example:
  "fs_node (snd (Local_Put \<lparr>l_Root = ''/srv'', l_BaseURL = []\<rparr> ''../etc/passwd'' (''x'', None) [([''etc''], Dir), ([''etc'', ''passwd''], File ''root'')]))
     [''etc'', ''passwd''] = Some (File ''root'')"
proof -
  have "clean_parts ''/srv'' = [''srv'']" by code_simp
  then show ?thesis
    using local_confined [of "[''etc'', ''passwd'']" "\<lparr>l_Root = ''/srv'', l_BaseURL = []\<rparr>"
        "[([''etc''], Dir), ([''etc'', ''passwd''], File ''root'')]" "File ''root''" "''../etc/passwd''" "(''x'', None)"]
    by (simp add: fs_node_def)
qed

text \<open>The test for an escape only ever refuses paths that do not escape.\<close>

lemma dotted_names_refused: "Local_abs l ''..notes'' = Inl EscapesRoot"
proof -
  have "disk_key ''..notes'' = [''..notes'']" by code_simp
  then show ?thesis by (simp add: Local_abs_eq)
qed

text \<open>A reader that fails leaves the bytes it delivered in the file, in place of what was there.\<close>

lemma failed_put_truncates:
  "Local_read \<lparr>l_Root = ''/srv'', l_BaseURL = []\<rparr> ''a''
     (snd (Local_Put \<lparr>l_Root = ''/srv'', l_BaseURL = []\<rparr> ''a'' (''ne'', Some ''timeout'') [([''srv''], Dir), ([''srv'', ''a''], File ''old'')])) = Inr ''ne''"
  by code_simp

section \<open>Signatures do not depend on the order of the headers\<close>

lemma filter_key_le1: "distinct (map f xs) \<Longrightarrow> filter (\<lambda>x. f x = k) xs = [] \<or> (\<exists>x. filter (\<lambda>x. f x = k) xs = [x])"
proof (induction xs)
  case (Cons x xs)
  then show ?case by (cases "f x = k") (auto simp: filter_empty_conv image_iff)
qed simp

lemma header_value_perm:
  assumes "distinct (map (\<lambda>e. to_lower (fst e)) hs)" and "mset hs' = mset hs"
  shows "header_value hs' k = header_value hs k"
proof -
  let ?P = "\<lambda>e. to_lower (fst e) = to_lower k"
  have "mset (filter ?P hs') = mset (filter ?P hs)" using assms(2) by simp
  then have "filter ?P hs' = filter ?P hs"
    using filter_key_le1 [OF assms(1), of "to_lower k"] by (metis mset_single_iff mset_zero_iff mset.simps)
  then show ?thesis by (simp add: header_value_def)
qed

lemma header_keys_perm:
  assumes "mset hs' = mset hs"
  shows "header_keys hs' = header_keys hs"
proof -
  define ks where "ks hs = rev (remdups (rev (map (\<lambda>e. to_lower (fst e)) hs)))" for hs :: "(string \<times> string) list"
  have ks: "distinct (ks hs)" "set (ks hs) = (\<lambda>e. to_lower (fst e)) ` set hs" for hs by (simp_all add: ks_def)
  have "set hs' = set hs" using assms by (rule mset_eq_setD)
  then have "mset (ks hs') = mset (ks hs)" using ks by (metis set_eq_iff_mset_eq_distinct)
  then have "sort (ks hs' @ xs) = sort (ks hs @ xs)" for xs by (intro properties_for_sort) simp_all
  from this [of "[]"] this [of "[''host'']"] show ?thesis
    using \<open>set hs' = set hs\<close> by (simp add: header_keys_def Let_def ks_def [symmetric] ks)
qed

lemma canonicalHeaderString_perm:
  "distinct (map (\<lambda>e. to_lower (fst e)) hs) \<Longrightarrow> mset hs' = mset hs \<Longrightarrow>
     canonicalHeaderString host hs' = canonicalHeaderString host hs"
  using header_value_perm [of hs hs'] header_keys_perm [of hs' hs]
  by (simp add: canonicalHeaderString_def header_line_def [abs_def])

lemma header_put_distinct [simp]:
  "distinct (map (\<lambda>e. to_lower (fst e)) hs) \<Longrightarrow> distinct (map (\<lambda>e. to_lower (fst e)) (header_put k v hs))"
  by (auto simp: header_put_def distinct_map_filter)

text \<open>
  The signature of an S3 request is determined by the request. The order in which Go visits the map of headers,
  different on every run, changes neither the signed headers nor the signature.
\<close>

lemma s3_signature_deterministic:
  assumes "\<And>hs. mset (visit hs) = mset hs"
  shows "s3_newRequest lib visit now d meth path body = s3_newRequest lib (\<lambda>hs. hs) now d meth path body"
proof -
  have c: "canonicalHeaderString host (visit hs) = canonicalHeaderString host hs" if "distinct (map (\<lambda>e. to_lower (fst e)) hs)" for host hs
    using canonicalHeaderString_perm [OF that assms] .
  show ?thesis by (simp add: s3_newRequest_def s3_sign_def Let_def c split: option.split)
qed

lemma s3_signature_deterministic_example:
  "let lib = \<lparr>amz_date = itoa, date_stamp = itoa, sha256 = rev, hmac = (@), hex_encode = (\<lambda>s. s), escaped_path = (\<lambda>s. s), url_error = (\<lambda>_. None)\<rparr>;
      d = \<lparr>Endpoint = [], Region = [], Bucket = ''b'', AccessKey = ''k'', SecretKey = ''s'', s3_BaseURL = [], PathStyle = False\<rparr>
   in s3_newRequest lib rev 7 d ''GET'' ''x'' None = s3_newRequest lib (\<lambda>hs. hs) 7 d ''GET'' ''x'' None"
  unfolding Let_def by (rule s3_signature_deterministic) simp

end
