(* ===== verification/GenRegistry.thy ===== *)
theory GenRegistry
  imports Storage
begin

text \<open>
  The registry of generated routes (\<^verbatim>\<open>ai/generator/register.go\<close>). The file \<^verbatim>\<open>routes/generated.go\<close> is both the Go code that
  registers the routes of every generated model and, in its comments, the list of these models, which the
  next run of the generator reads back. \<^verbatim>\<open>go/format\<close> is a parameter: it gives the formatted source or,
  on an error, nothing. In the literals \<^verbatim>\<open>~\<close> is a double quote and \<^verbatim>\<open>^\<close> a tab.
\<close>

definition src :: "string \<Rightarrow> string" where
  "src s = map (\<lambda>c. if c = CHR ''~'' then CHR 34 else if c = CHR ''^'' then CHR 9 else c) s"

definition text_of :: "string list \<Rightarrow> string" where
  "text_of ls = join ls [CHR 10]"

section \<open>Reading and writing the list\<close>

record generatedRoute =
  gr_Model :: string
  gr_Auth :: bool

definition parse_route_line :: "string \<Rightarrow> generatedRoute option" where
  "parse_route_line line0 =
     (let line = trim_space line0 in
      if \<not> has_prefix line ''// gai-route:'' then None
      else case GoPrelude.fields (trim_space (trim_prefix line ''// gai-route:'')) of
        [] \<Rightarrow> None
      | model # rest \<Rightarrow> Some \<lparr>gr_Model = model, gr_Auth = (case rest of a # _ \<Rightarrow> a = ''auth'' | [] \<Rightarrow> False)\<rparr>)"

definition parseGeneratedRoutes :: "string \<Rightarrow> generatedRoute list" where
  "parseGeneratedRoutes text = List.map_filter parse_route_line (split_by (CHR 10) text)"

definition route_comment :: "generatedRoute \<Rightarrow> string" where
  "route_comment r = ''// gai-route:'' @ gr_Model r @ (if gr_Auth r then '' auth'' else [])"

definition route_call :: "generatedRoute \<Rightarrow> string list" where
  "route_call r =
     (if gr_Auth r then
        [src ''^if db != nil && authMgr != nil {'', src ''^^Register'' @ gr_Model r @ ''Routes(r, db, authMgr)'', src ''^}'']
      else
        [src ''^if db != nil {'', src ''^^Register'' @ gr_Model r @ ''Routes(r, db)'', src ''^}''])"

definition formatGenerated :: "(string \<Rightarrow> string option) \<Rightarrow> string \<Rightarrow> string" where
  "formatGenerated format text = (case format text of None \<Rightarrow> text | Some out \<Rightarrow> out)"

definition generated_head :: "string list" where
  "generated_head =
     [src ''package routes'', [], src ''import ('', src ''^~github.com/Hlgxz/gai~'', src ''^~github.com/Hlgxz/gai/auth~'',
      src ''^~github.com/Hlgxz/gai/database/orm~'', src ''^~github.com/Hlgxz/gai/router~'', src '')'', []]"

definition generated_setup :: "string list" where
  "generated_setup =
     [src ''^var db *orm.DB'', src ''^if app.Has(~db~) {'', src ''^^db = gai.Make[*orm.DB](app.Container, ~db~)'', src ''^}'',
      src ''^var authMgr *auth.Manager'', src ''^if app.Has(~auth~) {'',
      src ''^^authMgr = gai.Make[*auth.Manager](app.Container, ~auth~)'', src ''^}'']"

definition generated_lines :: "generatedRoute list \<Rightarrow> string list" where
  "generated_lines rs =
     generated_head @ map route_comment rs @
     [[], src ''func registerGenerated(app *gai.Application, r *router.Router) {''] @
     (if rs = [] then [] else generated_setup @ concat (map route_call rs)) @
     [src ''}'', []]"

definition renderGeneratedRoutes :: "(string \<Rightarrow> string option) \<Rightarrow> generatedRoute list \<Rightarrow> string" where
  "renderGeneratedRoutes format rs = formatGenerated format (text_of (generated_lines rs))"

text \<open>The loop that updates the entry of the model or appends one.\<close>

fun upsert :: "generatedRoute \<Rightarrow> generatedRoute list \<Rightarrow> generatedRoute list" where
  "upsert r [] = [r]"
| "upsert r (e # es) = (if gr_Model e = gr_Model r then e\<lparr>gr_Auth := gr_Auth r\<rparr> # es else e # upsert r es)"

section \<open>Files\<close>

definition os_ReadFile :: "string \<Rightarrow> fs \<Rightarrow> os_error + string" where
  "os_ReadFile path s = (case os_Stat path s of Inl e \<Rightarrow> Inl e | Inr Dir \<Rightarrow> Inl EISDIR | Inr (File c) \<Rightarrow> Inr c)"

definition os_WriteFile :: "string \<Rightarrow> string \<Rightarrow> fs \<Rightarrow> os_error option \<times> fs" where
  "os_WriteFile path c s =
     (case os_Create path s of Inl e \<Rightarrow> (Some e, s) | Inr s' \<Rightarrow> (None, fs_put (clean_parts path) (File c) s'))"

text \<open>The errors; \<open>GenPanic\<close> stands for a panic.\<close>

datatype gen_error = GenOs string os_error | GenText string | GenPanic

text \<open>\<^verbatim>\<open>strings.Replace\<close> with a count of one.\<close>

fun replace_first :: "string \<Rightarrow> string \<Rightarrow> string \<Rightarrow> string" where
  "replace_first old new [] = (if old = [] then new else [])"
| "replace_first old new (c # cs) =
     (if has_prefix (c # cs) old then new @ drop (length old) (c # cs) else c # replace_first old new cs)"

definition ensureRegisterCall :: "(string \<Rightarrow> string option) \<Rightarrow> string \<Rightarrow> fs \<Rightarrow> gen_error option \<times> fs" where
  "ensureRegisterCall format path s =
     (case os_ReadFile path s of
        Inl ENOENT \<Rightarrow> (None, s)
      | Inl e \<Rightarrow> (Some (GenOs [] e), s)
      | Inr text \<Rightarrow>
          (if contains text ''registerGenerated('' then (None, s)
           else if \<not> contains text ''r := app.Router()'' then
             (Some (GenText (''gai/generator: cannot wire registerGenerated into '' @ path @ '' (no app.Router() call)'')), s)
           else
             (case os_WriteFile path (formatGenerated format
                 (replace_first ''r := app.Router()'' (text_of [''r := app.Router()'', src ''^registerGenerated(app, r)'']) text)) s of
                (Some e, s') \<Rightarrow> (Some (GenOs [] e), s')
              | (None, s') \<Rightarrow> (None, s'))))"

definition registerRoutes :: "(string \<Rightarrow> string option) \<Rightarrow> string \<Rightarrow> generatedRoute \<Rightarrow> fs \<Rightarrow> gen_error option \<times> fs" where
  "registerRoutes format dir r s =
     (let routesDir = path_join [dir, ''routes''];
          generatedPath = path_join [routesDir, ''generated.go''] in
      case os_MkdirAll (clean_parts routesDir) s of
        Inl e \<Rightarrow> (Some (GenOs [] e), s)
      | Inr s \<Rightarrow>
          (let existing = (case os_ReadFile generatedPath s of Inl _ \<Rightarrow> [] | Inr data \<Rightarrow> parseGeneratedRoutes data) in
           case os_WriteFile generatedPath (renderGeneratedRoutes format (upsert r existing)) s of
             (Some e, s) \<Rightarrow> (Some (GenOs [] e), s)
           | (None, s) \<Rightarrow> ensureRegisterCall format (path_join [routesDir, ''routes.go'']) s))"

section \<open>The list is read back\<close>

definition go_name :: "string \<Rightarrow> bool" where
  "go_name m \<longleftrightarrow> m \<noteq> [] \<and> list_all (\<lambda>c. \<not> is_space c) m"

text \<open>The comment lines of a source. The formatter keeps them.\<close>

definition comment_lines :: "string \<Rightarrow> string list" where
  "comment_lines text = filter (\<lambda>l. has_prefix l ''//'') (map trim_space (split_by (CHR 10) text))"

definition keeps_comments :: "(string \<Rightarrow> string option) \<Rightarrow> bool" where
  "keeps_comments format \<longleftrightarrow> (\<forall>text out. format text = Some out \<longrightarrow> comment_lines out = comment_lines text)"

lemma trim_space_idem [simp]: "trim_space (trim_space s) = trim_space s"
proof -
  have d: "dropWhile is_space (dropWhile is_space xs) = dropWhile is_space xs" for xs by simp
  have "dropWhile is_space (rev (dropWhile is_space (rev xs))) = rev (dropWhile is_space (rev xs))" if "dropWhile is_space xs = xs" for xs
  proof (cases xs)
    case (Cons x ys)
    then have "\<not> is_space x" using that by (metis dropWhile_eq_Cons_conv)
    then have "rev (dropWhile is_space (rev ys @ [x])) = x # rev (dropWhile is_space (rev ys))"
      by (cases "dropWhile is_space (rev ys) = []") (auto simp: dropWhile_append)
    then show ?thesis using Cons \<open>\<not> is_space x\<close> by simp
  qed simp
  then show ?thesis using d by (simp add: trim_space_def)
qed

lemma parse_route_comment: "parse_route_line l = (if has_prefix (trim_space l) ''//'' then parse_route_line (trim_space l) else None)"
proof -
  have "has_prefix (trim_space l) ''//'' \<or> \<not> has_prefix (trim_space l) ''// gai-route:''"
    by (cases "trim_space l" rule: remdups_adj.cases) auto
  then show ?thesis by (auto simp: parse_route_line_def Let_def)
qed

lemma parse_comment_lines: "parseGeneratedRoutes text = List.map_filter parse_route_line (comment_lines text)"
proof -
  have "List.map_filter parse_route_line ls = List.map_filter parse_route_line (filter (\<lambda>l. has_prefix l ''//'') (map trim_space ls))" for ls
  proof (induction ls)
    case (Cons l ls)
    then show ?case using parse_route_comment [of l] by (simp add: map_filter_simps split: option.split)
  qed (simp add: map_filter_simps)
  then show ?thesis by (simp add: parseGeneratedRoutes_def comment_lines_def)
qed

lemma parse_formatted: "keeps_comments format \<Longrightarrow> parseGeneratedRoutes (formatGenerated format text) = parseGeneratedRoutes text"
  by (auto simp: parse_comment_lines formatGenerated_def keeps_comments_def split: option.split)

lemma fields_go_run: "list_all (\<lambda>c. \<not> is_space c) w \<Longrightarrow> fields_go cur (w @ t) = fields_go (rev w @ cur) t"
  by (induction w arbitrary: cur) simp_all

lemma fields_go_name: "list_all (\<lambda>c. \<not> is_space c) cur \<Longrightarrow> m \<in> set (fields_go cur t) \<Longrightarrow> go_name m"
proof (induction t arbitrary: cur)
  case (Cons c t)
  show ?case
  proof (cases "is_space c")
    case True
    then have "m = rev cur \<and> cur \<noteq> [] \<or> m \<in> set (fields_go [] t)" using Cons.prems(2) by (simp split: if_splits)
    then show ?thesis using Cons.prems(1) Cons.IH [of "[]"] by (auto simp: go_name_def)
  qed (use Cons.prems Cons.IH [of "c # cur"] in simp)
qed (simp add: go_name_def split: if_splits)

lemma parse_route_name:
  assumes "parse_route_line l = Some r"
  shows "go_name (gr_Model r)"
proof -
  obtain m rest where "GoPrelude.fields (trim_space (trim_prefix (trim_space l) ''// gai-route:'')) = m # rest" "gr_Model r = m"
    using assms by (auto simp: parse_route_line_def Let_def split: if_splits list.splits)
  then show ?thesis using fields_go_name [of "[]" m "trim_space (trim_prefix (trim_space l) ''// gai-route:'')"]
    by (simp add: GoPrelude.fields_def)
qed

lemma parsed_names: "r \<in> set (parseGeneratedRoutes text) \<Longrightarrow> go_name (gr_Model r)"
  using parse_route_name by (auto simp: parseGeneratedRoutes_def map_filter_def)

lemma go_name_ends: "go_name m \<Longrightarrow> \<not> is_space (hd m) \<and> \<not> is_space (last m)"
  by (auto simp: go_name_def list_all_iff)

lemma trim_space_ends: "s \<noteq> [] \<Longrightarrow> \<not> is_space (hd s) \<Longrightarrow> \<not> is_space (last s) \<Longrightarrow> trim_space s = s"
proof -
  assume a: "s \<noteq> []" "\<not> is_space (hd s)" "\<not> is_space (last s)"
  then have "dropWhile is_space s = s" by (cases s) simp_all
  moreover have "dropWhile is_space (rev s) = rev s" using a by (cases s rule: rev_cases) simp_all
  ultimately show ?thesis by (simp add: trim_space_def)
qed

lemma spaces [simp]: "is_space (CHR '' '')" "\<not> is_space (CHR ''/'')" "\<not> is_space (CHR ''a'')" "\<not> is_space (CHR ''h'')"
  "\<not> is_space (CHR ''u'')" "\<not> is_space (CHR ''t'')"
  by (simp_all add: is_space_def)

lemma parse_route_own:
  assumes "go_name (gr_Model r)"
  shows "parse_route_line (route_comment r) = Some r"
proof -
  let ?m = "gr_Model r" and ?a = "if gr_Auth r then '' auth'' else []"
  have m: "?m \<noteq> []" "list_all (\<lambda>c. \<not> is_space c) ?m" using assms by (simp_all add: go_name_def)
  have t: "trim_space (?m @ ?a) = ?m @ ?a"
    using m go_name_ends [OF assms] by (intro trim_space_ends) (cases "gr_Auth r"; simp)+
  have tl: "trim_space (route_comment r) = route_comment r"
    using m go_name_ends [OF assms] by (intro trim_space_ends) (cases "gr_Auth r"; simp add: route_comment_def)+
  have f: "GoPrelude.fields (?m @ ?a) = ?m # (if gr_Auth r then [''auth''] else [])"
    using m by (cases "gr_Auth r") (simp_all add: GoPrelude.fields_def fields_go_run [OF m(2), of "[]"] fields_go_run [OF m(2), of _ "[]", simplified])
  have "trim_prefix (route_comment r) ''// gai-route:'' = ?m @ ?a" "has_prefix (route_comment r) ''// gai-route:''"
    by (simp_all add: route_comment_def trim_prefix_def)
  then show ?thesis by (simp add: parse_route_line_def Let_def tl t f)
qed

text \<open>A line whose first character other than a space is not a slash is no entry of the list.\<close>

lemma parse_other_line:
  assumes "\<And>c cs. dropWhile is_space l = c # cs \<Longrightarrow> c \<noteq> CHR ''/''"
  shows "parse_route_line l = None"
proof -
  have "hd (trim_space l) \<noteq> CHR ''/'' \<or> trim_space l = []"
  proof (cases "dropWhile is_space l")
    case (Cons c cs)
    then have "\<not> is_space c" by (simp add: dropWhile_eq_Cons_conv)
    then have "trim_space l = c # rev (dropWhile is_space (rev cs))"
      using Cons by (cases "dropWhile is_space (rev cs) = []") (auto simp: trim_space_def dropWhile_append)
    then show ?thesis using assms [OF Cons] by simp
  next
    case Nil
    then have "trim_space l = []" by (simp only: trim_space_def) simp
    then show ?thesis by simp
  qed
  then show ?thesis by (cases "trim_space l") (auto simp: parse_route_line_def Let_def)
qed

lemma generated_lines_plain:
  assumes "\<And>r. r \<in> set rs \<Longrightarrow> go_name (gr_Model r)"
  shows "List.map_filter parse_route_line (generated_lines rs) = rs" and "l \<in> set (generated_lines rs) \<Longrightarrow> CHR 10 \<notin> set l"
proof -
  have own: "List.map_filter parse_route_line (map route_comment rs) = rs"
    using assms by (induction rs) (simp_all add: map_filter_simps parse_route_own)
  have app: "List.map_filter f (xs @ ys) = List.map_filter f xs @ List.map_filter f ys" for f :: "string \<Rightarrow> generatedRoute option" and xs ys
    by (simp add: map_filter_def)
  have none: "List.map_filter parse_route_line ls = []" if "\<And>l. l \<in> set ls \<Longrightarrow> parse_route_line l = None" for ls
    using that by (induction ls) (simp_all add: map_filter_simps)
  have call: "parse_route_line l = None" if "l \<in> set (route_call r)" for l r
    using that by (intro parse_other_line) (auto simp: route_call_def src_def is_space_def split: if_splits)
  have "List.map_filter parse_route_line (concat (map route_call rs)) = []" using call by (intro none) auto
  moreover have "List.map_filter parse_route_line generated_head = []" "List.map_filter parse_route_line generated_setup = []"
    "List.map_filter parse_route_line [[], src ''func registerGenerated(app *gai.Application, r *router.Router) {''] = []"
    "List.map_filter parse_route_line [src ''}'', []] = []" by code_simp+
  ultimately show "List.map_filter parse_route_line (generated_lines rs) = rs"
    unfolding generated_lines_def app own by (cases rs) (simp_all add: app map_filter_simps)
  have nl: "is_space (CHR 10)" by (simp add: is_space_def)
  have "CHR 10 \<notin> set (gr_Model r)" if "r \<in> set rs" for r
    using assms [OF that] nl by (auto simp: go_name_def list_all_iff)
  moreover have "list_all (\<lambda>l. CHR 10 \<notin> set l) (generated_head @ generated_setup)" by code_simp
  ultimately show "l \<in> set (generated_lines rs) \<Longrightarrow> CHR 10 \<notin> set l"
    by (auto simp: generated_lines_def route_comment_def route_call_def src_def list_all_iff split: if_splits)
qed

lemma render_parse:
  assumes "keeps_comments format" and "\<And>r. r \<in> set rs \<Longrightarrow> go_name (gr_Model r)"
  shows "parseGeneratedRoutes (renderGeneratedRoutes format rs) = rs"
proof -
  have "generated_lines rs \<noteq> []" by (simp add: generated_lines_def)
  then have "split_by (CHR 10) (text_of (generated_lines rs)) = generated_lines rs"
    using generated_lines_plain(2) [OF assms(2)] split_by_join [of "generated_lines rs" "CHR 10"] by (simp add: text_of_def)
  then show ?thesis
    using generated_lines_plain(1) [of rs, OF assms(2)]
    unfolding renderGeneratedRoutes_def parse_formatted [OF assms(1)] by (simp add: parseGeneratedRoutes_def)
qed

text \<open>The list on disk, and a run of the generator over several models.\<close>

definition registry :: "string \<Rightarrow> fs \<Rightarrow> generatedRoute list" where
  "registry dir s =
     (case os_ReadFile (path_join [path_join [dir, ''routes''], ''generated.go'']) s of Inl _ \<Rightarrow> [] | Inr data \<Rightarrow> parseGeneratedRoutes data)"

fun register_all :: "(string \<Rightarrow> string option) \<Rightarrow> string \<Rightarrow> generatedRoute list \<Rightarrow> fs \<Rightarrow> gen_error option \<times> fs" where
  "register_all format dir [] s = (None, s)"
| "register_all format dir (r # rs) s =
     (case registerRoutes format dir r s of (Some e, s') \<Rightarrow> (Some e, s') | (None, s') \<Rightarrow> register_all format dir rs s')"

lemma path_join_name:
  assumes "list_all (\<lambda>c. c \<noteq> CHR ''/'') name" and "name \<noteq> []" "name \<noteq> ''.''" "name \<noteq> ''..''"
  shows "clean_parts (path_join [dir, name]) = clean_parts dir @ [name]"
proof -
  have "split_by (CHR ''/'') name = [name]" using assms(1) by (intro split_by_absent) (auto simp: list_all_iff)
  then have "clean_parts (''/'' @ name) = [name]" using assms by (simp add: clean_parts_def)
  moreover from this have "trim_prefix (path_clean (''/'' @ name)) ''/'' = name" by (simp add: path_clean_def trim_prefix_def)
  ultimately show ?thesis using join_confined [of dir name] by simp
qed

lemma ReadFile_iff:
  "os_ReadFile path s = Inr c \<longleftrightarrow> path \<noteq> [] \<and> fs_node s (clean_parts path) = Some (File c)"
  by (auto simp: os_ReadFile_def os_Stat_def split: option.splits fs_entry.splits)

lemma WriteFile_Some:
  assumes "os_WriteFile path c s = (None, s')"
  shows "path \<noteq> []" and "fs_node s' q = (if q = clean_parts path then Some (File c) else fs_node s q)"
  using assms by (auto simp: os_WriteFile_def dest!: Create_Some split: sum.splits)

lemma upsert_names: "x \<in> set (upsert r es) \<Longrightarrow> gr_Model x = gr_Model r \<or> x \<in> set es"
  by (induction es) (auto split: if_splits)

lemma upsert_models: "map gr_Model (upsert r es) = (if gr_Model r \<in> gr_Model ` set es then map gr_Model es else map gr_Model es @ [gr_Model r])"
  by (induction es) auto

lemma upsert_distinct: "distinct (map gr_Model es) \<Longrightarrow> distinct (map gr_Model (upsert r es))"
  by (auto simp: upsert_models)

lemma upsert_find: "find (\<lambda>e. gr_Model e = gr_Model r) (upsert r es) = Some r"
  by (induction es) auto

lemma upsert_find_other: "m \<noteq> gr_Model r \<Longrightarrow> find (\<lambda>e. gr_Model e = m) (upsert r es) = find (\<lambda>e. gr_Model e = m) es"
  by (induction es) auto

lemma registry_node: "registry dir s = (case fs_node s (clean_parts dir @ [''routes'', ''generated.go'']) of
    Some (File c) \<Rightarrow> parseGeneratedRoutes c | _ \<Rightarrow> [])"
proof -
  let ?p = "path_join [path_join [dir, ''routes''], ''generated.go'']"
  have p: "clean_parts ?p = clean_parts dir @ [''routes'', ''generated.go'']" by (simp add: path_join_name)
  then have "?p \<noteq> []" by (auto simp: clean_parts_def)
  then show ?thesis by (auto simp: registry_def os_ReadFile_def os_Stat_def p split: option.split fs_entry.split)
qed

lemma ensureRegisterCall_frame:
  assumes "ensureRegisterCall format path s = (None, s')" and "q \<noteq> clean_parts path"
  shows "fs_node s' q = fs_node s q"
  using assms WriteFile_Some(2) [of path _ s s' q]
  by (auto simp: ensureRegisterCall_def split: sum.splits os_error.splits if_splits prod.splits option.splits)

lemma registerRoutes_step:
  assumes "keeps_comments format" and "go_name (gr_Model r)" and "registerRoutes format dir r s = (None, s')"
  shows "registry dir s' = upsert r (registry dir s)"
proof -
  let ?rd = "path_join [dir, ''routes'']"
  let ?gp = "path_join [?rd, ''generated.go'']" and ?rp = "path_join [?rd, ''routes.go'']"
  have parts: "clean_parts ?gp = clean_parts dir @ [''routes'', ''generated.go'']" "clean_parts ?rp = clean_parts dir @ [''routes'', ''routes.go'']"
    by (simp_all add: path_join_name)
  obtain s1 where s1: "os_MkdirAll (clean_parts ?rd) s = Inr s1"
    using assms(3) by (auto simp: registerRoutes_def Let_def split: sum.splits)
  define rs where "rs = upsert r (registry dir s1)"
  obtain s2 where s2: "os_WriteFile ?gp (renderGeneratedRoutes format rs) s1 = (None, s2)" "ensureRegisterCall format ?rp s2 = (None, s')"
    using assms(3) s1 unfolding registerRoutes_def Let_def registry_def [symmetric] rs_def
    by (auto split: prod.splits option.splits)
  have "fs_node s' (clean_parts ?gp) = fs_node s2 (clean_parts ?gp)"
    using s2(2) by (rule ensureRegisterCall_frame) (simp add: parts)
  then have "fs_node s' (clean_parts ?gp) = Some (File (renderGeneratedRoutes format rs))"
    using WriteFile_Some(2) [OF s2(1)] by simp
  then have "registry dir s' = parseGeneratedRoutes (renderGeneratedRoutes format rs)" by (simp add: registry_node parts)
  also have "\<dots> = rs"
  proof (rule render_parse [OF assms(1)])
    fix x
    assume "x \<in> set rs"
    then have "gr_Model x = gr_Model r \<or> x \<in> set (registry dir s1)" unfolding rs_def by (rule upsert_names)
    then show "go_name (gr_Model x)"
      using assms(2) parsed_names [of x] by (elim disjE) (auto simp: registry_def split: sum.splits)
  qed
  finally have "registry dir s' = upsert r (registry dir s1)" by (simp add: rs_def)
  moreover have "registry dir s1 = registry dir s"
    using MkdirAll_grows [OF s1, of "clean_parts ?gp"] by (auto simp: registry_node parts grows_def)
  ultimately show ?thesis by simp
qed

section \<open>Properties\<close>

text \<open>
  The registry of generated routes accumulates the models. Over any number of successful runs the list in
  \<^verbatim>\<open>generated.go\<close>, read back from the comments of the formatted source, is the previous list with
  every model updated in place or appended: no model is lost, none is listed twice, and each carries the authentication of its last run.
\<close>

lemma registry_accumulates:
  assumes "keeps_comments format" and "\<And>r. r \<in> set rs \<Longrightarrow> go_name (gr_Model r)"
    and "register_all format dir rs s = (None, s')" and "distinct (map gr_Model (registry dir s))"
  shows "registry dir s' = fold upsert rs (registry dir s) \<and> distinct (map gr_Model (registry dir s'))"
  using assms(2-4)
proof (induction rs arbitrary: s)
  case (Cons r rs)
  obtain s1 where s1: "registerRoutes format dir r s = (None, s1)" "register_all format dir rs s1 = (None, s')"
    using Cons.prems(2) by (auto split: prod.splits option.splits)
  have "registry dir s1 = upsert r (registry dir s)"
    using assms(1) _ s1(1) by (rule registerRoutes_step) (simp add: Cons.prems(1))
  moreover have "distinct (map gr_Model (registry dir s1))" using calculation upsert_distinct [OF Cons.prems(3)] by simp
  ultimately show ?case using Cons.IH [OF _ s1(2)] Cons.prems(1) by auto
qed simp

text \<open>A file of routes that already calls the registry is left as it is.\<close>

lemma registerRoutes_keeps_routes:
  assumes "registerRoutes format dir r s = (None, s')"
    and "fs_node s (clean_parts dir @ [''routes'', ''routes.go'']) = Some (File t)" and "contains t ''registerGenerated(''"
  shows "fs_node s' (clean_parts dir @ [''routes'', ''routes.go'']) = Some (File t)"
proof -
  let ?rd = "path_join [dir, ''routes'']"
  let ?gp = "path_join [?rd, ''generated.go'']" and ?rp = "path_join [?rd, ''routes.go'']"
  have parts: "clean_parts ?gp = clean_parts dir @ [''routes'', ''generated.go'']" "clean_parts ?rp = clean_parts dir @ [''routes'', ''routes.go'']"
    by (simp_all add: path_join_name)
  obtain s1 where s1: "os_MkdirAll (clean_parts ?rd) s = Inr s1"
    using assms(1) by (auto simp: registerRoutes_def Let_def split: sum.splits)
  obtain text2 s2 where s2: "os_WriteFile ?gp text2 s1 = (None, s2)" "ensureRegisterCall format ?rp s2 = (None, s')"
    using assms(1) s1 by (auto simp: registerRoutes_def Let_def split: prod.splits option.splits sum.splits)
  have "fs_node s1 (clean_parts ?rp) = Some (File t)" using MkdirAll_grows [OF s1, of "clean_parts ?rp"] assms(2) parts by (simp add: grows_def)
  then have "fs_node s2 (clean_parts ?rp) = Some (File t)" using WriteFile_Some(2) [OF s2(1)] parts by simp
  moreover from this have "os_ReadFile ?rp s2 = Inr t" using parts(2) by (auto simp: ReadFile_iff clean_parts_def)
  then have "s' = s2" using s2(2) assms(3) by (simp add: ensureRegisterCall_def)
  ultimately show ?thesis using parts by simp
qed

lemma register_all_keeps_routes:
  "register_all format dir rs s = (None, s') \<Longrightarrow> fs_node s (clean_parts dir @ [''routes'', ''routes.go'']) = Some (File t) \<Longrightarrow>
     contains t ''registerGenerated('' \<Longrightarrow> fs_node s' (clean_parts dir @ [''routes'', ''routes.go'']) = Some (File t)"
proof (induction rs arbitrary: s)
  case (Cons r rs)
  then obtain s1 where "registerRoutes format dir r s = (None, s1)" "register_all format dir rs s1 = (None, s')"
    by (auto split: prod.splits option.splits)
  then show ?case using Cons registerRoutes_keeps_routes by blast
qed simp

text \<open>In a project whose directories exist and whose routes call the registry, a registration cannot fail.\<close>

definition registry_ready :: "string \<Rightarrow> fs \<Rightarrow> bool" where
  "registry_ready dir s \<longleftrightarrow>
     dirs_exist s (clean_parts dir @ [''routes'']) \<and>
     fs_node s (clean_parts dir @ [''routes'', ''generated.go'']) \<noteq> Some Dir \<and>
     (\<exists>t. fs_node s (clean_parts dir @ [''routes'', ''routes.go'']) = Some (File t) \<and> contains t ''registerGenerated('')"

lemma registerRoutes_ready:
  assumes "registry_ready dir s"
  shows "\<exists>s'. registerRoutes format dir r s = (None, s') \<and> registry_ready dir s'"
proof -
  let ?rd = "path_join [dir, ''routes'']"
  let ?gp = "path_join [?rd, ''generated.go'']" and ?rp = "path_join [?rd, ''routes.go'']"
  let ?g = "clean_parts dir @ [''routes'', ''generated.go'']"
  have parts: "clean_parts ?rd = clean_parts dir @ [''routes'']" "clean_parts ?gp = ?g" "clean_parts ?rp = clean_parts dir @ [''routes'', ''routes.go'']"
    by (simp_all add: path_join_name)
  obtain t where t: "fs_node s (clean_parts ?rp) = Some (File t)" "contains t ''registerGenerated(''"
    using assms parts(3) by (auto simp: registry_ready_def)
  have dirs: "dirs_exist s (clean_parts ?rd)" and "fs_node s ?g \<noteq> Some Dir" using assms parts by (auto simp: registry_ready_def)
  moreover have "fs_node s (clean_parts dir @ [''routes'']) = Some Dir"
    using dirs parts(1) unfolding dirs_exist_def by (metis order_refl take_all_iff)
  moreover have "?gp \<noteq> []" "?rp \<noteq> []" using parts by (auto simp: clean_parts_def)
  ultimately have w: "os_WriteFile ?gp x s = (None, fs_put ?g (File x) (fs_put ?g (File []) s))" for x
    using parts by (simp add: os_WriteFile_def os_Create_def Let_def butlast_append)
  let ?x = "renderGeneratedRoutes format (upsert r (case os_ReadFile ?gp s of Inl _ \<Rightarrow> [] | Inr data \<Rightarrow> parseGeneratedRoutes data))"
  let ?s = "fs_put ?g (File ?x) (fs_put ?g (File []) s)"
  have "os_ReadFile ?rp ?s = Inr t" using t parts \<open>?rp \<noteq> []\<close> by (simp add: ReadFile_iff)
  then have "registerRoutes format dir r s = (None, ?s)"
    using t(2) w MkdirAll_same [OF dirs] by (simp add: registerRoutes_def Let_def ensureRegisterCall_def)
  moreover have "take k (clean_parts dir @ [''routes'']) \<noteq> ?g" for k by (rule notI, drule arg_cong [where f = length]) simp
  then have "registry_ready dir ?s" using t dirs parts by (auto simp: registry_ready_def dirs_exist_def simp del: take_append)
  ultimately show ?thesis by blast
qed

lemma register_all_ready: "registry_ready dir s \<Longrightarrow> \<exists>s'. register_all format dir rs s = (None, s')"
proof (induction rs arbitrary: s)
  case (Cons r rs)
  then show ?case using registerRoutes_ready [OF Cons.prems, of format r] by auto
qed simp

lemma registry_accumulates_example:
  "registry ''out'' (snd (register_all (\<lambda>_. None) ''out''
     [\<lparr>gr_Model = ''User'', gr_Auth = False\<rparr>, \<lparr>gr_Model = ''Post'', gr_Auth = False\<rparr>, \<lparr>gr_Model = ''User'', gr_Auth = True\<rparr>] [])) =
   [\<lparr>gr_Model = ''User'', gr_Auth = True\<rparr>, \<lparr>gr_Model = ''Post'', gr_Auth = False\<rparr>]"
proof -
  let ?rs = "[\<lparr>gr_Model = ''User'', gr_Auth = False\<rparr>, \<lparr>gr_Model = ''Post'', gr_Auth = False\<rparr>, \<lparr>gr_Model = ''User'', gr_Auth = True\<rparr>]"
  have "fst (register_all (\<lambda>_. None) ''out'' ?rs []) = None" by code_simp
  then obtain s' where s': "register_all (\<lambda>_. None) ''out'' ?rs [] = (None, s')" by (metis prod.collapse)
  have 1: "registry ''out'' [] = []" by code_simp
  have 2: "\<And>r. r \<in> set ?rs \<Longrightarrow> go_name (gr_Model r)" by (auto simp: go_name_def is_space_def)
  show ?thesis
    using registry_accumulates [OF _ 2 s'] 1 s' by (simp add: keeps_comments_def)
qed

end
