(* ===== verification/Generator.thy ===== *)
theory Generator
  imports OrmRelation GenRegistry
begin

text \<open>
  The code generator (packages \<^verbatim>\<open>ai/schema\<close> and \<^verbatim>\<open>ai/generator\<close>): schemas, the texts of the model, controller, migration and
  route files, the registry of generated routes and the OpenAPI document. The YAML parser, the clock, the
  formatter of Go sources and the order in which a map is visited are parameters; files are those of
  \<open>Storage\<close>. The output of \<^verbatim>\<open>text/template\<close> is written as a list of lines: an action that trims the
  space before it stands for whole lines. In the literals \<^verbatim>\<open>~\<close> is a double quote and \<^verbatim>\<open>^\<close> a tab.
\<close>

section \<open>Schemas\<close>

record Field =
  f_Name :: string
  f_Type :: string
  f_Size :: int
  f_Unique :: bool
  f_Nullable :: bool
  f_Index :: bool
  f_Default :: string
  f_Rules :: string
  f_Values :: "string list"

record APIConfig =
  Prefix :: string
  Actions :: "string list"
  api_Auth :: string

record Relation =
  r_Type :: string
  r_Model :: string
  r_FK :: string
  r_Pivot :: string
  r_RelatedFK :: string

record Schema =
  s_Model :: string
  s_Table :: string
  s_Fields :: "Field list"
  s_API :: APIConfig
  s_Relations :: "Relation list"

definition GoType :: "Field \<Rightarrow> string" where
  "GoType f =
     (let t = f_Type f in
      if t \<in> {''string'', ''text'', ''enum''} then ''string''
      else if t \<in> {''int'', ''integer''} then ''int''
      else if t = ''bigint'' then ''int64''
      else if t = ''float'' then ''float32''
      else if t \<in> {''double'', ''decimal''} then ''float64''
      else if t \<in> {''bool'', ''boolean''} then ''bool''
      else if t \<in> {''date'', ''datetime'', ''timestamp''} then ''time.Time''
      else if t = ''json'' then ''json.RawMessage''
      else ''string'')"

definition NeedsImport :: "Field \<Rightarrow> string option" where
  "NeedsImport f =
     (if f_Type f \<in> {''date'', ''datetime'', ''timestamp''} then Some ''time''
      else if f_Type f = ''json'' then Some ''encoding/json''
      else None)"

text \<open>The last element of a path, and the extension: from the last dot on.\<close>

definition path_base :: "string \<Rightarrow> string" where
  "path_base path = last (split_by (CHR ''/'') path)"

definition path_ext :: "string \<Rightarrow> string" where
  "path_ext base = (if CHR ''.'' \<in> set base then CHR ''.'' # last (split_by (CHR ''.'') base) else [])"

definition with_defaults :: "string \<Rightarrow> Schema \<Rightarrow> Schema" where
  "with_defaults path s =
     (let s = (if s_Model s = [] then s\<lparr>s_Model := camel (trim_suffix (path_base path) (path_ext (path_base path)))\<rparr> else s) in
      if s_Table s = [] then s\<lparr>s_Table := to_lower (plural (snake (s_Model s)))\<rparr> else s)"

definition ParseFile :: "(string \<Rightarrow> string + string) \<Rightarrow> (string \<Rightarrow> string + Schema) \<Rightarrow> string \<Rightarrow> string + Schema" where
  "ParseFile readfile yaml path =
     (case readfile path of
        Inl e \<Rightarrow> Inl (''gai/schema: cannot read '' @ path @ '': '' @ e)
      | Inr data \<Rightarrow>
          (case yaml data of
             Inl e \<Rightarrow> Inl (''gai/schema: invalid YAML in '' @ path @ '': '' @ e)
           | Inr s \<Rightarrow> Inr (with_defaults path s)))"

text \<open>The loop of \<^verbatim>\<open>ParseDir\<close> over the names of the entries and whether they are directories.\<close>

fun parse_entries :: "(string \<Rightarrow> string + Schema) \<Rightarrow> string \<Rightarrow> (string \<times> bool) list \<Rightarrow> string + Schema list" where
  "parse_entries parse dir [] = Inr []"
| "parse_entries parse dir ((name, isdir) # es) =
     (if isdir \<or> \<not> has_suffix name ''.yaml'' \<and> \<not> has_suffix name ''.yml'' then parse_entries parse dir es
      else case parse (path_join [dir, name]) of
        Inl e \<Rightarrow> Inl e
      | Inr s \<Rightarrow> (case parse_entries parse dir es of Inl e \<Rightarrow> Inl e | Inr ss \<Rightarrow> Inr (s # ss)))"

definition ParseDir :: "(string \<Rightarrow> string + (string \<times> bool) list) \<Rightarrow> (string \<Rightarrow> string + Schema) \<Rightarrow> string \<Rightarrow> string + Schema list" where
  "ParseDir readdir parse dir =
     (case readdir dir of
        Inl e \<Rightarrow> Inl (''gai/schema: cannot read directory '' @ dir @ '': '' @ e)
      | Inr es \<Rightarrow> parse_entries parse dir es)"

record Generator =
  OutputDir :: string
  Module :: string

section \<open>Models\<close>

record modelField =
  mf_GoName :: string
  mf_GoType :: string
  mf_JSONName :: string
  mf_Column :: string
  mf_TagExtra :: string

record modelRelation =
  mr_Name :: string
  mr_GoType :: string
  mr_JSONName :: string
  mr_RelType :: string

record modelData =
  md_Model :: string
  md_Table :: string
  md_Receiver :: string
  md_Imports :: "string list"
  md_Fields :: "modelField list"
  md_Relations :: "modelRelation list"

definition tag_extra :: "Field \<Rightarrow> string" where
  "tag_extra f =
     (if 0 < f_Size f then '';size:'' @ itoa (f_Size f) else []) @ (if f_Unique f then '';unique'' else []) @
     (if f_Nullable f then '';nullable'' else []) @ (if f_Index f then '';index'' else [])"

definition model_field :: "Field \<Rightarrow> modelField" where
  "model_field f =
     \<lparr>mf_GoName = camel (f_Name f),
      mf_GoType = (if f_Nullable f \<and> GoType f \<noteq> ''string'' then ''*'' @ GoType f else GoType f),
      mf_JSONName = f_Name f, mf_Column = f_Name f, mf_TagExtra = tag_extra f\<rparr>"

definition model_relation :: "Relation \<Rightarrow> modelRelation" where
  "model_relation r =
     (if r_Type r = ''hasMany'' then
        \<lparr>mr_Name = plural (r_Model r), mr_GoType = ''[]'' @ r_Model r, mr_JSONName = snake (plural (r_Model r)), mr_RelType = r_Type r\<rparr>
      else if r_Type r = ''belongsToMany'' then
        \<lparr>mr_Name = plural (r_Model r), mr_GoType = ''[]'' @ r_Model r, mr_JSONName = snake (plural (r_Model r)),
         mr_RelType = (if r_Pivot r \<noteq> [] then r_Type r @ '';pivot:'' @ r_Pivot r else r_Type r)\<rparr>
      else
        \<lparr>mr_Name = r_Model r, mr_GoType = (if r_Type r = ''hasOne'' \<or> r_Type r = ''belongsTo'' then ''*'' @ r_Model r else []),
         mr_JSONName = snake (r_Model r), mr_RelType = r_Type r\<rparr>)"

definition model_text :: "modelData \<Rightarrow> string list" where
  "model_text d =
     [src ''package models'',
      [],
      src ''import ('',
      src ''^~github.com/Hlgxz/gai/database/orm~''] @
     concat (map (\<lambda>i. [src ''^~'' @ i @ src ''~'']) (md_Imports d)) @
     [src '')'',
      [],
      src ''// '' @ md_Model d @ src '' represents the '' @ md_Table d @ src '' table.'',
      src ''type '' @ md_Model d @ src '' struct {'',
      src ''^orm.Model''] @
     concat (map (\<lambda>f. [src ''^'' @ mf_GoName f @ src ''  '' @ mf_GoType f @ src ''  `json:~'' @ mf_JSONName f @ src ''~ gai:~column:'' @ mf_Column f @ mf_TagExtra f @ src ''~`'']) (md_Fields d)) @
     concat (map (\<lambda>r. [src ''^'' @ mr_Name r @ src ''  '' @ mr_GoType r @ src ''  `json:~'' @ mr_JSONName r @ src '',omitempty~ gai:~'' @ mr_RelType r @ src ''~`'']) (md_Relations d)) @
     [src ''}'',
      [],
      src ''// TableName returns the database table name.'',
      src ''func ('' @ md_Receiver d @ src '' *'' @ md_Model d @ src '') TableName() string {'',
      src ''^return ~'' @ md_Table d @ src ''~'',
      src ''}'',
      []]"

text \<open>The slice of the first byte of the model's name panics, \<^const>\<open>None\<close>, when the name is empty.\<close>

definition model_data :: "(string list \<Rightarrow> string list) \<Rightarrow> Schema \<Rightarrow> modelData" where
  "model_data visit s =
     \<lparr>md_Model = s_Model s, md_Table = s_Table s, md_Receiver = to_lower (take 1 (s_Model s)),
      md_Imports = visit (remdups (List.map_filter NeedsImport (s_Fields s))),
      md_Fields = map model_field (s_Fields s), md_Relations = map model_relation (s_Relations s)\<rparr>"

definition GenerateModel :: "(string list \<Rightarrow> string list) \<Rightarrow> Schema \<Rightarrow> string option" where
  "GenerateModel visit s = (if s_Model s = [] then None else Some (text_of (model_text (model_data visit s))))"

section \<open>Migrations\<close>

record migrationData =
  gm_Name :: string
  gm_Table :: string
  gm_Fields :: "string list"
  gm_Relations :: "string list"
  gm_PivotSQL :: string
  gm_PivotTable :: string

definition fieldToBlueprintCall :: "Field \<Rightarrow> string" where
  "fieldToBlueprintCall f =
     (let name = quoted (f_Name f); t = f_Type f;
          call =
            (if t = ''string'' then ''String('' @ name @ '', '' @ itoa (if f_Size f \<le> 0 then 255 else f_Size f) @ '')''
             else if t = ''text'' then ''Text('' @ name @ '')''
             else if t \<in> {''int'', ''integer''} then ''Integer('' @ name @ '')''
             else if t = ''bigint'' then ''BigInteger('' @ name @ '')''
             else if t = ''float'' then ''Float('' @ name @ '')''
             else if t = ''decimal'' then ''Decimal('' @ name @ '')''
             else if t \<in> {''bool'', ''boolean''} then ''Boolean('' @ name @ '')''
             else if t \<in> {''datetime'', ''timestamp'', ''date''} then ''DateTime('' @ name @ '')''
             else if t = ''json'' then ''JSON('' @ name @ '')''
             else if t = ''enum'' then ''String('' @ name @ '', 50)''
             else ''String('' @ name @ '', 255)'') in
      call @ (if f_Nullable f then ''.SetNullable()'' else []) @ (if f_Unique f then ''.SetUnique()'' else []) @
      (if f_Index f then ''.SetIndex()'' else []) @
      (if f_Default f \<noteq> [] then ''.SetDefault('' @ quoted (f_Default f) @ '')'' else []))"

definition relation_step :: "string \<Rightarrow> Relation \<Rightarrow> string list \<times> string \<times> string \<Rightarrow> string list \<times> string \<times> string" where
  "relation_step model r = (\<lambda>(rels, pivotSQL, pivotTable).
     let t = to_lower (r_Type r) in
     if t = ''belongsto'' then
       (let fk = or_default (r_FK r) (snake (r_Model r) @ ''_id''); tbl = plural (snake (r_Model r)) in
        (rels @ [''b.BigInteger('' @ quoted fk @ '')'', ''b.Foreign('' @ quoted fk @ src '').References(~id~).On('' @ quoted tbl @ '')''],
         pivotSQL, pivotTable))
     else if t = ''belongstomany'' then
       (let a = snake model; b = snake (r_Model r);
            pivot = or_default (r_Pivot r) (if string_less b a then b @ ''_'' @ a else a @ ''_'' @ b);
            fk = or_default (r_FK r) (snake model @ ''_id'');
            relatedFK = or_default (r_RelatedFK r) (snake (r_Model r) @ ''_id'') in
        (rels,
         text_of
           [''pivot := migration.NewBlueprint('' @ quoted pivot @ '', drv)'',
            src ''^^^pivot.BigInteger('' @ quoted fk @ '')'',
            src ''^^^pivot.BigInteger('' @ quoted relatedFK @ '')'',
            src ''^^^sql += ~;'' @ [CHR 92] @ src ''n~ + pivot.ToCreateSQL()''],
         pivot))
     else (rels, pivotSQL, pivotTable))"

definition relationBlueprint :: "Schema \<Rightarrow> string list \<times> string \<times> string" where
  "relationBlueprint s = fold (relation_step (s_Model s)) (s_Relations s) ([], [], [])"

definition migration_text :: "migrationData \<Rightarrow> string list" where
  "migration_text d =
     [src ''package migrations'',
      [],
      src ''import ('',
      src ''^~github.com/Hlgxz/gai/database/driver~'',
      src ''^~github.com/Hlgxz/gai/database/migration~'',
      src '')'',
      [],
      src ''func init() {'',
      src ''^Migrations = append(Migrations, migration.Migration{'',
      src ''^^Name: ~'' @ gm_Name d @ src ''~,'',
      src ''^^Up: func(drv driver.Driver) string {'',
      src ''^^^b := migration.NewBlueprint(~'' @ gm_Table d @ src ''~, drv)'',
      src ''^^^b.ID()''] @
     concat (map (\<lambda>call. [src ''^^^b.'' @ call]) (gm_Fields d)) @
     concat (map (\<lambda>r. [src ''^^^'' @ r]) (gm_Relations d)) @
     [src ''^^^b.Timestamps()'',
      src ''^^^b.SoftDeletes()'',
      src ''^^^sql := b.ToCreateSQL()''] @
     (if gm_PivotSQL d \<noteq> [] then [src ''^^^'' @ gm_PivotSQL d] else []) @
     [src ''^^^return sql'',
      src ''^^},'',
      src ''^^Down: func(drv driver.Driver) string {'',
      src ''^^^b := migration.NewBlueprint(~'' @ gm_Table d @ src ''~, drv)'',
      src ''^^^sql := b.ToDropSQL()''] @
     (if gm_PivotTable d \<noteq> [] then [src ''^^^sql += ~; DROP TABLE IF EXISTS '' @ gm_PivotTable d @ src ''~''] else []) @
     [src ''^^^return sql'',
      src ''^^},'',
      src ''^})'',
      src ''}'',
      []]"

definition GenerateMigration :: "string \<Rightarrow> Schema \<Rightarrow> string" where
  "GenerateMigration stamp s =
     (let (rels, pivotSQL, pivotTable) = relationBlueprint s in
      text_of (migration_text
        \<lparr>gm_Name = stamp @ ''_create_'' @ s_Table s @ ''_table'', gm_Table = s_Table s, gm_Fields = map fieldToBlueprintCall (s_Fields s),
         gm_Relations = rels, gm_PivotSQL = pivotSQL, gm_PivotTable = pivotTable\<rparr>))"

section \<open>Routes\<close>

definition HasAction :: "string list \<Rightarrow> string \<Rightarrow> bool" where
  "HasAction acts name \<longleftrightarrow> list_ex (\<lambda>a. a = name) acts"

record routesData =
  rd_Module :: string
  rd_Model :: string
  rd_Prefix :: string
  rd_Auth :: string
  rd_Actions :: "string list"

definition all_actions :: "string list" where
  "all_actions = [''index'', ''show'', ''store'', ''update'', ''destroy'']"

definition actions_of :: "Schema \<Rightarrow> string list" where
  "actions_of s = (if Actions (s_API s) = [] then all_actions else Actions (s_API s))"

definition routes_text :: "routesData \<Rightarrow> string list" where
  "routes_text d =
     [src ''package routes'',
      [],
      src ''import ('',
      src ''^~github.com/Hlgxz/gai/database/orm~'',
      src ''^~github.com/Hlgxz/gai/router~''] @
     (if rd_Auth d \<noteq> [] then [src ''^~github.com/Hlgxz/gai/auth~''] else []) @
     [src ''^~'' @ rd_Module d @ src ''/app/controllers~'',
      src '')'',
      [],
      src ''// Register'' @ rd_Model d @ src ''Routes sets up the '' @ rd_Model d @ src '' resource routes.'',
      src ''func Register'' @ rd_Model d @ src ''Routes(r *router.Router, db *orm.DB'' @ (if rd_Auth d \<noteq> [] then '', authMgr *auth.Manager'' else []) @ src '') {'',
      src ''^ctrl := controllers.New'' @ rd_Model d @ src ''Controller(db)'',
      [],
      src ''^r.Group(~'' @ rd_Prefix d @ src ''~, func(g *router.Group) {''] @
     (if rd_Auth d \<noteq> [] then [src ''^^g.Use(authMgr.Middleware(~'' @ rd_Auth d @ src ''~))''] else []) @
     (if HasAction (rd_Actions d) ''index'' then [src ''^^g.Get(~~, ctrl.Index)''] else []) @
     (if HasAction (rd_Actions d) ''store'' then [src ''^^g.Post(~~, ctrl.Store)''] else []) @
     (if HasAction (rd_Actions d) ''show'' then [src ''^^g.Get(~/:id~, ctrl.Show)''] else []) @
     (if HasAction (rd_Actions d) ''update'' then [src ''^^g.Put(~/:id~, ctrl.Update)''] else []) @
     (if HasAction (rd_Actions d) ''destroy'' then [src ''^^g.Delete(~/:id~, ctrl.Destroy)''] else []) @
     [src ''^})'',
      src ''}'',
      []]"

definition GenerateRoutes :: "Generator \<Rightarrow> Schema \<Rightarrow> string" where
  "GenerateRoutes g s =
     text_of (routes_text
       \<lparr>rd_Module = Module g, rd_Model = s_Model s,
        rd_Prefix = or_default (Prefix (s_API s)) (''/api/'' @ to_lower (plural (s_Model s))),
        rd_Auth = api_Auth (s_API s), rd_Actions = actions_of s\<rparr>)"

section \<open>Controllers\<close>

record controllerField =
  cf_Name :: string
  cf_GoName :: string
  cf_GoType :: string

record controllerData =
  cd_Module :: string
  cd_Model :: string
  cd_ModelLower :: string
  cd_PluralLower :: string
  cd_Actions :: "string list"
  cd_Fields :: "controllerField list"
  cd_ValidationRules :: "(string \<times> string) list"
  cd_NeedsDB :: bool
  cd_Preloads :: "string list"

definition controller_head :: "controllerData \<Rightarrow> string list" where
  "controller_head d =
     [src ''package controllers'',
      [],
      src ''import ('',
      src ''^~fmt~'',
      src ''^~net/http~'',
      [],
      src ''^ghttp ~github.com/Hlgxz/gai/http~'',
      src ''^~github.com/Hlgxz/gai/database/orm~'',
      src ''^~'' @ cd_Module d @ src ''/app/models~'',
      src '')'',
      [],
      src ''// '' @ cd_Model d @ src ''Controller handles CRUD operations for '' @ cd_Model d @ src ''.'',
      src ''type '' @ cd_Model d @ src ''Controller struct {'',
      src ''^DB *orm.DB'',
      src ''}'',
      [],
      src ''// New'' @ cd_Model d @ src ''Controller creates a new controller instance.'',
      src ''func New'' @ cd_Model d @ src ''Controller(db *orm.DB) *'' @ cd_Model d @ src ''Controller {'',
      src ''^return &'' @ cd_Model d @ src ''Controller{DB: db}'',
      src ''}'']"

definition controller_index :: "controllerData \<Rightarrow> string list" where
  "controller_index d =
     (if HasAction (cd_Actions d) ''index'' then [[],
      src ''// Index lists all '' @ cd_PluralLower d @ src '' with pagination.'',
      src ''func (ctrl *'' @ cd_Model d @ src ''Controller) Index(c *ghttp.Context) {'',
      src ''^page := c.QueryInt(~page~, 1)'',
      src ''^perPage := c.QueryInt(~per_page~, 20)'',
      [],
      src ''^result, err := orm.Paginate[models.'' @ cd_Model d @ src '']('',
      src ''^^orm.Query[models.'' @ cd_Model d @ src ''](ctrl.DB).'',
      src ''^^^OrderBy(~created_at~, ~DESC~),'',
      src ''^^page, perPage,'',
      src ''^)'',
      src ''^if err != nil {'',
      src ''^^c.Error(http.StatusInternalServerError, err.Error())'',
      src ''^^return'',
      src ''^}''] @
     concat (map (\<lambda>p. [src ''^_ = orm.With(ctrl.DB, result.Items, ~'' @ p @ src ''~)'']) (cd_Preloads d)) @
     [src ''^c.Success(result)'',
      src ''}''] else [])"

definition controller_show :: "controllerData \<Rightarrow> string list" where
  "controller_show d =
     (if HasAction (cd_Actions d) ''show'' then [[],
      src ''// Show returns a single '' @ cd_ModelLower d @ src '' by ID.'',
      src ''func (ctrl *'' @ cd_Model d @ src ''Controller) Show(c *ghttp.Context) {'',
      src ''^id := c.ParamInt(~id~)'',
      src ''^item, err := orm.First[models.'' @ cd_Model d @ src '']('',
      src ''^^orm.Query[models.'' @ cd_Model d @ src ''](ctrl.DB).Where(~id~, ~=~, id),'',
      src ''^)'',
      src ''^if err != nil {'',
      src ''^^c.Error(http.StatusInternalServerError, err.Error())'',
      src ''^^return'',
      src ''^}'',
      src ''^if item == nil {'',
      src ''^^c.Error(http.StatusNotFound, ~'' @ cd_Model d @ src '' not found~)'',
      src ''^^return'',
      src ''^}''] @
     (if cd_Preloads d \<noteq> [] then [src ''^items := []models.'' @ cd_Model d @ src ''{*item}''] @
     concat (map (\<lambda>p. [src ''^_ = orm.With(ctrl.DB, items, ~'' @ p @ src ''~)'']) (cd_Preloads d)) @
     [src ''^item = &items[0]''] else []) @
     [src ''^c.Success(item)'',
      src ''}''] else [])"

definition controller_store :: "controllerData \<Rightarrow> string list" where
  "controller_store d =
     (if HasAction (cd_Actions d) ''store'' then [[],
      src ''// Store creates a new '' @ cd_ModelLower d @ src ''.'',
      src ''func (ctrl *'' @ cd_Model d @ src ''Controller) Store(c *ghttp.Context) {'',
      src ''^var input map[string]any'',
      src ''^if err := c.BindJSON(&input); err != nil {'',
      src ''^^c.Error(http.StatusBadRequest, ~Invalid JSON~)'',
      src ''^^return'',
      src ''^}''] @
     (if cd_ValidationRules d \<noteq> [] then [src ''^validator := ghttp.NewValidator(input, map[string]string{''] @
     concat (map (\<lambda>v. [src ''^^~'' @ fst v @ src ''~: ~'' @ snd v @ src ''~,'']) (cd_ValidationRules d)) @
     [src ''^})''] @
     (if cd_NeedsDB d then [src ''^validator.WithDB(ctrl.DB)''] else []) @
     [src ''^if errs := validator.Validate(); errs != nil {'',
      src ''^^c.JSON(http.StatusUnprocessableEntity, map[string]any{'',
      src ''^^^~code~:    422,'',
      src ''^^^~message~: ~Validation failed~,'',
      src ''^^^~errors~:  errs,'',
      src ''^^})'',
      src ''^^return'',
      src ''^}''] else []) @
     [[],
      src ''^item := &models.'' @ cd_Model d @ src ''{}''] @
     concat (map (\<lambda>f. [src ''^if v, ok := input[~'' @ cf_Name f @ src ''~]; ok {'',
      src ''^^if typed, ok := v.('' @ cf_GoType f @ src ''); ok {'',
      src ''^^^item.'' @ cf_GoName f @ src '' = typed'',
      src ''^^} else {'',
      src ''^^^c.Error(http.StatusBadRequest, fmt.Sprintf(~invalid type for field '' @ cf_Name f @ src '': expected '' @ cf_GoType f @ src '', got %T~, v))'',
      src ''^^^return'',
      src ''^^}'',
      src ''^}'']) (cd_Fields d)) @
     [[],
      src ''^result, err := orm.Create[models.'' @ cd_Model d @ src ''](ctrl.DB, item)'',
      src ''^if err != nil {'',
      src ''^^c.Error(http.StatusInternalServerError, err.Error())'',
      src ''^^return'',
      src ''^}'',
      src ''^c.JSON(http.StatusCreated, map[string]any{'',
      src ''^^~code~:    0,'',
      src ''^^~message~: ~ok~,'',
      src ''^^~data~:    result,'',
      src ''^})'',
      src ''}''] else [])"

definition controller_update :: "controllerData \<Rightarrow> string list" where
  "controller_update d =
     (if HasAction (cd_Actions d) ''update'' then [[],
      src ''// Update modifies an existing '' @ cd_ModelLower d @ src ''.'',
      src ''func (ctrl *'' @ cd_Model d @ src ''Controller) Update(c *ghttp.Context) {'',
      src ''^id := c.ParamInt(~id~)'',
      src ''^item, err := orm.First[models.'' @ cd_Model d @ src '']('',
      src ''^^orm.Query[models.'' @ cd_Model d @ src ''](ctrl.DB).Where(~id~, ~=~, id),'',
      src ''^)'',
      src ''^if err != nil {'',
      src ''^^c.Error(http.StatusInternalServerError, err.Error())'',
      src ''^^return'',
      src ''^}'',
      src ''^if item == nil {'',
      src ''^^c.Error(http.StatusNotFound, ~'' @ cd_Model d @ src '' not found~)'',
      src ''^^return'',
      src ''^}'',
      [],
      src ''^var input map[string]any'',
      src ''^if err := c.BindJSON(&input); err != nil {'',
      src ''^^c.Error(http.StatusBadRequest, ~Invalid JSON~)'',
      src ''^^return'',
      src ''^}''] @
     concat (map (\<lambda>f. [src ''^if v, ok := input[~'' @ cf_Name f @ src ''~]; ok {'',
      src ''^^if typed, ok := v.('' @ cf_GoType f @ src ''); ok {'',
      src ''^^^item.'' @ cf_GoName f @ src '' = typed'',
      src ''^^} else {'',
      src ''^^^c.Error(http.StatusBadRequest, fmt.Sprintf(~invalid type for field '' @ cf_Name f @ src '': expected '' @ cf_GoType f @ src '', got %T~, v))'',
      src ''^^^return'',
      src ''^^}'',
      src ''^}'']) (cd_Fields d)) @
     [[],
      src ''^if err := orm.Update[models.'' @ cd_Model d @ src ''](ctrl.DB, item); err != nil {'',
      src ''^^c.Error(http.StatusInternalServerError, err.Error())'',
      src ''^^return'',
      src ''^}'',
      src ''^c.Success(item)'',
      src ''}''] else [])"

definition controller_destroy :: "controllerData \<Rightarrow> string list" where
  "controller_destroy d =
     (if HasAction (cd_Actions d) ''destroy'' then [[],
      src ''// Destroy deletes a '' @ cd_ModelLower d @ src '' by ID.'',
      src ''func (ctrl *'' @ cd_Model d @ src ''Controller) Destroy(c *ghttp.Context) {'',
      src ''^id := c.ParamInt(~id~)'',
      src ''^item, err := orm.First[models.'' @ cd_Model d @ src '']('',
      src ''^^orm.Query[models.'' @ cd_Model d @ src ''](ctrl.DB).Where(~id~, ~=~, id),'',
      src ''^)'',
      src ''^if err != nil {'',
      src ''^^c.Error(http.StatusInternalServerError, err.Error())'',
      src ''^^return'',
      src ''^}'',
      src ''^if item == nil {'',
      src ''^^c.Error(http.StatusNotFound, ~'' @ cd_Model d @ src '' not found~)'',
      src ''^^return'',
      src ''^}'',
      [],
      src ''^if err := orm.Delete[models.'' @ cd_Model d @ src ''](ctrl.DB, item); err != nil {'',
      src ''^^c.Error(http.StatusInternalServerError, err.Error())'',
      src ''^^return'',
      src ''^}'',
      src ''^c.NoContent()'',
      src ''}''] else [])"

definition controller_tail :: "controllerData \<Rightarrow> string list" where
  "controller_tail d =
     [[],
      src ''// Ensure '' @ cd_Model d @ src ''Controller satisfies the ResourceController interface.'',
      src ''var _ interface {'',
      src ''^Index(c *ghttp.Context)'',
      src ''^Show(c *ghttp.Context)'',
      src ''^Store(c *ghttp.Context)'',
      src ''^Update(c *ghttp.Context)'',
      src ''^Destroy(c *ghttp.Context)'',
      src ''} = (*'' @ cd_Model d @ src ''Controller)(nil)'',
      []]"

definition controller_text :: "controllerData \<Rightarrow> string list" where
  "controller_text d =
     controller_head d @ controller_index d @ controller_show d @ controller_store d @ controller_update d @ controller_destroy d @
     controller_tail d"

text \<open>The rules of the fields; a unique field gets the rule that asks the database.\<close>

definition field_rules :: "string \<Rightarrow> Field \<Rightarrow> string" where
  "field_rules tbl f =
     (if f_Unique f \<and> \<not> contains (f_Rules f) ''unique'' then
        (let extra = ''unique:'' @ tbl @ '','' @ f_Name f in if f_Rules f = [] then extra else f_Rules f @ ''|'' @ extra)
      else f_Rules f)"

definition relationPreloads :: "Schema \<Rightarrow> string list" where
  "relationPreloads s =
     map (\<lambda>r. if to_lower (r_Type r) \<in> {''hasmany'', ''belongstomany''} then plural (r_Model r) else r_Model r) (s_Relations s)"

definition controller_data :: "Generator \<Rightarrow> Schema \<Rightarrow> controllerData" where
  "controller_data g s =
     (let tbl = or_default (s_Table s) (to_lower (plural (s_Model s)));
          rules = filter (\<lambda>v. snd v \<noteq> []) (map (\<lambda>f. (f_Name f, field_rules tbl f)) (s_Fields s)) in
      \<lparr>cd_Module = Module g, cd_Model = s_Model s, cd_ModelLower = to_lower (s_Model s),
       cd_PluralLower = to_lower (plural (s_Model s)), cd_Actions = actions_of s,
       cd_Fields = map (\<lambda>f. \<lparr>cf_Name = f_Name f, cf_GoName = camel (f_Name f), cf_GoType = GoType f\<rparr>) (s_Fields s),
       cd_ValidationRules = rules,
       cd_NeedsDB = list_ex (\<lambda>v. contains (snd v) ''unique'' \<or> contains (snd v) ''exists'') rules,
       cd_Preloads = relationPreloads s\<rparr>)"

definition GenerateController :: "Generator \<Rightarrow> Schema \<Rightarrow> string" where
  "GenerateController g s = text_of (controller_text (controller_data g s))"

text \<open>
  What the generated Store and Update do with the decoded input: every field that is present must have the
  Go type of the field, otherwise the request is answered with an error.
\<close>

fun generated_assign :: "controllerField list \<Rightarrow> (string \<rightharpoonup> goval) \<Rightarrow> string + (string \<times> goval) list" where
  "generated_assign [] input = Inr []"
| "generated_assign (f # fs) input =
     (case input (cf_Name f) of
        None \<Rightarrow> generated_assign fs input
      | Some v \<Rightarrow>
          (if type_tag v = cf_GoType f then
             (case generated_assign fs input of Inl e \<Rightarrow> Inl e | Inr as \<Rightarrow> Inr ((cf_GoName f, v) # as))
           else Inl (''invalid type for field '' @ cf_Name f @ '': expected '' @ cf_GoType f @ '', got '' @ type_tag v)))"

section \<open>Writing the files\<close>

definition ensureMigrationRegistry :: "string \<Rightarrow> fs \<Rightarrow> os_error option \<times> fs" where
  "ensureMigrationRegistry dir s =
     (let path = path_join [dir, ''registry.go''] in
      case os_Stat path s of
        Inr _ \<Rightarrow> (None, s)
      | Inl _ \<Rightarrow>
          os_WriteFile path (text_of
            [''package migrations'', [], src ''import ~github.com/Hlgxz/gai/database/migration~'', [],
             ''// Migrations collects all migrations registered via init() functions.'', ''var Migrations []migration.Migration'', []]) s)"

definition write_generated :: "Generator \<Rightarrow> string list \<Rightarrow> bool \<Rightarrow> string \<Rightarrow> string \<Rightarrow> fs \<Rightarrow> gen_error option \<times> fs" where
  "write_generated g sub reg filename content s =
     (let dir = path_join [OutputDir g, path_join sub] in
      case os_MkdirAll (clean_parts dir) s of
        Inl e \<Rightarrow> (Some (GenOs (''gai/generator: mkdir '' @ dir @ '' failed: '') e), s)
      | Inr s \<Rightarrow>
          (case (if reg then ensureMigrationRegistry dir s else (None, s)) of
             (Some e, s) \<Rightarrow> (Some (GenOs ''gai/generator: migration registry failed: '' e), s)
           | (None, s) \<Rightarrow>
               (let outPath = path_join [dir, filename] in
                case os_WriteFile outPath content s of
                  (Some e, s) \<Rightarrow> (Some (GenOs (''gai/generator: write '' @ outPath @ '' failed: '') e), s)
                | (None, s) \<Rightarrow> (None, s))))"

definition and_then :: "'e option \<times> 's \<Rightarrow> ('s \<Rightarrow> 'e option \<times> 's) \<Rightarrow> 'e option \<times> 's" where
  "and_then r k = (case r of (Some e, s) \<Rightarrow> (Some e, s) | (None, s) \<Rightarrow> k s)"

definition wrap_error :: "string \<Rightarrow> gen_error \<Rightarrow> gen_error" where
  "wrap_error p e = (case e of GenOs q o' \<Rightarrow> GenOs (p @ q) o' | GenText t \<Rightarrow> GenText (p @ t) | GenPanic \<Rightarrow> GenPanic)"

text \<open>The clock is read twice for the migration: for the name inside the file, \<open>t1\<close>, and for the name of the file, \<open>t2\<close>.\<close>

definition GenerateAll :: "(string list \<Rightarrow> string list) \<Rightarrow> (string \<Rightarrow> string option) \<Rightarrow> string \<Rightarrow> string \<Rightarrow> Generator \<Rightarrow> Schema \<Rightarrow> fs \<Rightarrow>
    gen_error option \<times> fs" where
  "GenerateAll visit format t1 t2 g s w =
     (case GenerateModel visit s of
        None \<Rightarrow> (Some GenPanic, w)
      | Some model \<Rightarrow>
          and_then (write_generated g [''app'', ''models''] False (snake (s_Model s) @ ''.go'') model w) (\<lambda>w.
          and_then (write_generated g [''app'', ''controllers''] False (snake (s_Model s) @ ''_controller.go'') (GenerateController g s) w) (\<lambda>w.
          and_then (write_generated g [''database'', ''migrations''] True (t2 @ ''_create_'' @ s_Table s @ ''_table.go'') (GenerateMigration t1 s) w) (\<lambda>w.
          and_then (write_generated g [''routes''] False (snake (s_Model s) @ ''_routes.go'') (GenerateRoutes g s) w) (\<lambda>w.
          case registerRoutes format (OutputDir g) \<lparr>gr_Model = s_Model s, gr_Auth = api_Auth (s_API s) \<noteq> []\<rparr> w of
            (Some e, w) \<Rightarrow> (Some (wrap_error ''gai/generator: route registration failed: '' e), w)
          | (None, w) \<Rightarrow> (None, w))))))"

text \<open>\<^verbatim>\<open>GenerateFromDir\<close>; \<open>stamps\<close> gives the two readings of the clock for each schema.\<close>

fun generate_schemas :: "(Schema \<Rightarrow> fs \<Rightarrow> gen_error option \<times> fs) \<Rightarrow> Schema list \<Rightarrow> fs \<Rightarrow> gen_error option \<times> fs" where
  "generate_schemas gen [] w = (None, w)"
| "generate_schemas gen (s # ss) w = and_then (gen s w) (generate_schemas gen ss)"

definition GenerateFromDir :: "(string \<Rightarrow> string + Schema list) \<Rightarrow> (Schema \<Rightarrow> fs \<Rightarrow> gen_error option \<times> fs) \<Rightarrow> string \<Rightarrow> fs \<Rightarrow> gen_error option \<times> fs" where
  "GenerateFromDir parsedir gen dir w = (case parsedir dir of Inl e \<Rightarrow> (Some (GenText e), w) | Inr ss \<Rightarrow> generate_schemas gen ss w)"

section \<open>The OpenAPI document\<close>

definition openAPIType :: "string \<Rightarrow> string" where
  "openAPIType t =
     (if t \<in> {''int'', ''integer'', ''bigint''} then ''integer''
      else if t \<in> {''float'', ''double'', ''decimal''} then ''number''
      else if t \<in> {''bool'', ''boolean''} then ''boolean''
      else ''string'')"

definition schema_ref :: "string \<Rightarrow> string" where
  "schema_ref name = ''schema: { $ref: '' @ [CHR 39] @ ''#/components/schemas/'' @ name @ [CHR 39] @ '' }''"

definition writeOp :: "string \<Rightarrow> string \<Rightarrow> string \<Rightarrow> bool \<Rightarrow> string \<Rightarrow> string list" where
  "writeOp meth summary name hasBody auth =
     [''    '' @ meth @ '':'', ''      summary: '' @ summary] @
     (if auth \<noteq> [] then [''      security: [{ bearerAuth: [] }]''] else []) @
     (if hasBody then
        [''      requestBody:'', ''        required: true'', ''        content:'', ''          application/json:'',
         ''            '' @ schema_ref name] else []) @
     [''      responses:'', ''        '' @ [CHR 39] @ ''200'' @ [CHR 39] @ '':'', ''          description: OK'', ''          content:'',
      ''            application/json:'', ''              '' @ schema_ref name]"

definition openapi_paths :: "Schema \<Rightarrow> string list" where
  "openapi_paths s =
     (let prefix = or_default (Prefix (s_API s)) (''/api/v1/'' @ s_Table s);
          act = (\<lambda>a. a \<in> set (actions_of s)); m = s_Model s; auth = api_Auth (s_API s) in
      (if act ''index'' \<or> act ''store'' then
         [''  '' @ prefix @ '':''] @
         (if act ''index'' then writeOp ''get'' (''List '' @ plural m) m False auth else []) @
         (if act ''store'' then writeOp ''post'' (''Create '' @ m) m True auth else []) else []) @
      (if act ''show'' \<or> act ''update'' \<or> act ''destroy'' then
         [''  '' @ prefix @ ''/{id}:'', ''    parameters:'', ''      - name: id'', ''        in: path'', ''        required: true'',
          ''        schema: { type: integer }''] @
         (if act ''show'' then writeOp ''get'' (''Get '' @ m) m False auth else []) @
         (if act ''update'' then writeOp ''put'' (''Update '' @ m) m True auth else []) @
         (if act ''destroy'' then writeOp ''delete'' (''Delete '' @ m) m False auth else []) else []))"

definition openapi_schema :: "Schema \<Rightarrow> string list" where
  "openapi_schema s =
     [''    '' @ s_Model s @ '':'', ''      type: object'', ''      properties:'', ''        id: { type: integer }''] @
     map (\<lambda>f. ''        '' @ f_Name f @ '': { type: '' @ openAPIType (f_Type f) @ '' }'') (s_Fields s)"

definition GenerateOpenAPI :: "string \<Rightarrow> Schema list \<Rightarrow> string" where
  "GenerateOpenAPI title ss =
     text_of
       ([''openapi: 3.0.3'', ''info:'', ''  title: '' @ or_default title ''Gai API'', ''  version: 1.0.0'', ''paths:''] @
        concat (map openapi_paths ss) @ [''components:'', ''  schemas:''] @ concat (map openapi_schema ss) @
        [''  securitySchemes:'', ''    bearerAuth:'', ''      type: http'', ''      scheme: bearer'', ''      bearerFormat: JWT'', []])"

section \<open>The tags of generated models\<close>

definition gen_tag :: "Field \<Rightarrow> string" where
  "gen_tag f = ''column:'' @ mf_Column (model_field f) @ mf_TagExtra (model_field f)"

definition tag_parts :: "Field \<Rightarrow> string list" where
  "tag_parts f =
     [''column:'' @ f_Name f] @ (if 0 < f_Size f then [''size:'' @ itoa (f_Size f)] else []) @ (if f_Unique f then [''unique''] else []) @
     (if f_Nullable f then [''nullable''] else []) @ (if f_Index f then [''index''] else [])"

definition column_name :: "string \<Rightarrow> bool" where
  "column_name n \<longleftrightarrow> n \<noteq> [] \<and> list_all (\<lambda>c. \<not> is_space c \<and> c \<noteq> CHR '';'') n"

lemma gen_tag_join: "gen_tag f = join (tag_parts f) '';''"
  by (simp add: gen_tag_def model_field_def tag_extra_def tag_parts_def)

lemma itoa_plain: "0 \<le> n \<Longrightarrow> c \<in> set (itoa n) \<Longrightarrow> is_digit c"
  using nat_str_digits by (simp add: itoa_def)

lemma split_gen_tag: "column_name (f_Name f) \<Longrightarrow> split_by (CHR '';'') (gen_tag f) = tag_parts f"
proof -
  assume n: "column_name (f_Name f)"
  have d: "CHR '';'' \<notin> set (itoa k)" if "0 < k" for k
    using itoa_plain [of k "CHR '';''"] that by (auto simp: is_digit_def)
  have m: "CHR '';'' \<notin> set (f_Name f)" using n by (auto simp: column_name_def list_all_iff)
  have "list_all (\<lambda>x. CHR '';'' \<notin> set x) (tag_parts f)" by (simp add: tag_parts_def m d)
  then have "x \<in> set (tag_parts f) \<Longrightarrow> CHR '';'' \<notin> set x" for x unfolding list_all_iff by blast
  moreover have "tag_parts f \<noteq> []" by (simp add: tag_parts_def)
  ultimately show ?thesis unfolding gen_tag_join by (intro split_by_join)
qed

lemma key_val_of:
  assumes "v \<noteq> []" and "list_all (\<lambda>c. \<not> is_space c) v" and "CHR '':'' \<notin> set k" and "k \<noteq> []" and "\<not> is_space (hd k)"
  shows "tag_key (k @ '':'' @ v) = k" and "tag_val (k @ '':'' @ v) = v"
proof -
  have "trim_space (k @ '':'' @ v) = k @ '':'' @ v"
    using assms by (intro trim_space_ends) (auto simp: list_all_iff)
  moreover have "split2 (CHR '':'') (k @ '':'' @ v) = [k, v]" using split2_pair [OF assms(3), of v] by simp
  ultimately show "tag_key (k @ '':'' @ v) = k" "tag_val (k @ '':'' @ v) = v" by (simp_all add: tag_key_def tag_val_def)
qed

lemma parseInt_nat_str: "int n \<le> max_int \<Longrightarrow> parseInt (nat_str n) = int n"
proof (induction n rule: nat_str.induct)
  case (1 n)
  show ?case
  proof (cases "n < 10")
    case False
    then have "parseInt (nat_str (n div 10)) = int (n div 10)" using 1 by (intro "1.IH") auto
    moreover have "int (n div 10) * 10 + int (n mod 10) = int n" using div_mult_mod_eq [of n 10] by linarith
    ultimately show ?thesis using False "1.prems"
      by (simp add: nat_str.simps [of n] parseInt_def wrap64_id)
  qed (simp add: nat_str.simps [of n] parseInt_def wrap64_id)
qed

text \<open>
  The ORM reads the tags the generator writes. For every field of a schema, parsing the tag of the generated struct
  field gives back the column, the size, and whether it is unique, nullable and indexed, and no
  relation.
\<close>

lemma generated_tag_read_back:
  assumes "column_name (f_Name f)" and "f_Size f \<le> max_int"
  shows "parseTag (gen_tag f) (new_info (camel (f_Name f))) =
    (new_info (camel (f_Name f)))\<lparr>fi_Column := f_Name f, fi_Size := max 0 (f_Size f), fi_Unique := f_Unique f,
      fi_Nullable := f_Nullable f, fi_Index := f_Index f\<rparr>"
proof -
  have name: "f_Name f \<noteq> []" "list_all (\<lambda>c. \<not> is_space c) (f_Name f)"
    using assms(1) by (auto simp: column_name_def list_all_iff)
  have col: "tag_key (''column:'' @ f_Name f) = ''column''" "tag_val (''column:'' @ f_Name f) = f_Name f"
    using key_val_of [OF name, of "''column''"] by (simp_all add: is_space_def)
  have sz: "tag_key (''size:'' @ itoa (f_Size f)) = ''size''" "tag_val (''size:'' @ itoa (f_Size f)) = itoa (f_Size f)" if "0 < f_Size f"
  proof -
    have "itoa (f_Size f) \<noteq> []" "list_all (\<lambda>c. \<not> is_space c) (itoa (f_Size f))"
      using that itoa_plain [of "f_Size f"] is_digit_not_space by (auto simp: itoa_def list_all_iff)
    from key_val_of [OF this, of "''size''"] show "tag_key (''size:'' @ itoa (f_Size f)) = ''size''"
      "tag_val (''size:'' @ itoa (f_Size f)) = itoa (f_Size f)" by (simp_all add: is_space_def)
  qed
  have int: "parseInt (itoa (f_Size f)) = f_Size f" if "0 < f_Size f"
    using parseInt_nat_str [of "nat (f_Size f)"] that assms(2) by (simp add: itoa_def)
  have flags: "tag_key ''unique'' = ''unique''" "tag_key ''nullable'' = ''nullable''" "tag_key ''index'' = ''index''" by code_simp+
  have step: "tag_part (''column:'' @ f_Name f) info = info\<lparr>fi_Column := f_Name f\<rparr>"
    "0 < f_Size f \<Longrightarrow> tag_part (''size:'' @ itoa (f_Size f)) info = info\<lparr>fi_Size := f_Size f\<rparr>"
    "tag_part ''unique'' info = info\<lparr>fi_Unique := True\<rparr>" "tag_part ''nullable'' info = info\<lparr>fi_Nullable := True\<rparr>"
    "tag_part ''index'' info = info\<lparr>fi_Index := True\<rparr>" for info
    using sz int unfolding tag_part_def Let_def flags col by simp_all
  show ?thesis
    unfolding parseTag_def split_gen_tag [OF assms(1)] tag_parts_def using step [unfolded append_Cons append_Nil]
    by (cases "0 < f_Size f"; cases "f_Unique f"; cases "f_Nullable f"; cases "f_Index f") (simp_all add: new_info_def)
qed

lemma generated_tag_read_back_example:
  "let f = \<lparr>f_Name = ''email'', f_Type = ''string'', f_Size = 100, f_Unique = True, f_Nullable = False, f_Index = True,
      f_Default = [], f_Rules = [], f_Values = []\<rparr>
   in fi_Size (parseTag (gen_tag f) (new_info ''Email'')) = 100 \<and> fi_Column (parseTag (gen_tag f) (new_info ''Email'')) = ''email''"
proof -
  let ?f = "\<lparr>f_Name = ''email'', f_Type = ''string'', f_Size = 100, f_Unique = True, f_Nullable = False, f_Index = True,
      f_Default = [], f_Rules = [], f_Values = []\<rparr>"
  have "column_name (f_Name ?f)" "camel (f_Name ?f) = ''Email''" by code_simp+
  then show ?thesis using generated_tag_read_back [of ?f] unfolding Let_def by simp
qed

section \<open>Pivot tables\<close>

lemma to_lower_snake [simp]: "to_lower (snake s) = snake s"
proof -
  have "map lower_char cs = cs" if "\<And>c. c \<in> set cs \<Longrightarrow> \<not> is_upper c" for cs
    using that by (induction cs) (auto simp: lower_char_def)
  then show ?thesis using snake_go_no_upper by (simp add: to_lower_def snake_def)
qed

text \<open>
  The generated migration and the generated model agree on the pivot table. For a belongsToMany relation the table the
  migration creates is the one the eager loader asks for when it reads the tag the
  generator wrote into the model, with a pivot name in the schema or without.
\<close>

lemma pivot_tables_agree:
  assumes "r_Type r = ''belongsToMany''" and "s_Relations s = [r]"
    and "r_Pivot r = [] \<or> list_all (\<lambda>c. \<not> is_space c \<and> c \<noteq> CHR '';'') (r_Pivot r)"
  shows "snd (snd (relationBlueprint s)) =
     or_default (rm_pivot (snd (parseRelationMeta (mr_RelType (model_relation r))))) (pivot_name (s_Model s) (r_Model r))"
proof -
  have l: "to_lower (r_Type r) = ''belongstomany''" unfolding assms(1) by code_simp
  have made: "snd (snd (relationBlueprint s)) = or_default (r_Pivot r) (pivot_name (s_Model s) (r_Model r))"
    by (simp add: relationBlueprint_def assms(2) relation_step_def l Let_def pivot_name_def)
  have "rm_pivot (snd (parseRelationMeta (mr_RelType (model_relation r)))) = r_Pivot r"
  proof (cases "r_Pivot r = []")
    case True
    have "rm_pivot (snd (parseRelationMeta ''belongsToMany'')) = []" by code_simp
    then show ?thesis using True by (simp add: model_relation_def assms(1))
  next
    case False
    then have p: "list_all (\<lambda>c. \<not> is_space c) (r_Pivot r)" "CHR '';'' \<notin> set (r_Pivot r)"
      using assms(3) by (auto simp: list_all_iff)
    have kv: "tag_key (''pivot:'' @ r_Pivot r) = ''pivot''" "tag_val (''pivot:'' @ r_Pivot r) = r_Pivot r"
      using key_val_of [OF False p(1), of "''pivot''"] by (simp_all add: is_space_def)
    have k: "tag_key ''belongsToMany'' = ''belongsToMany''" by code_simp
    have m1: "meta_part (''pivot:'' @ r_Pivot r) x = (fst x, (snd x)\<lparr>rm_pivot := r_Pivot r\<rparr>)" for x
      unfolding meta_part_def Let_def kv by (simp add: relation_keys_def case_prod_unfold)
    have m2: "rm_pivot (snd (meta_part ''belongsToMany'' x)) = rm_pivot (snd x)" for x
      unfolding meta_part_def Let_def k by (simp add: relation_keys_def case_prod_unfold)
    have "split_by (CHR '';'') (join [''belongsToMany'', ''pivot:'' @ r_Pivot r] '';'') = [''belongsToMany'', ''pivot:'' @ r_Pivot r]"
      using p(2) by (intro split_by_join) auto
    moreover have "mr_RelType (model_relation r) = join [''belongsToMany'', ''pivot:'' @ r_Pivot r] '';''"
      using False by (simp add: model_relation_def assms(1))
    ultimately show ?thesis by (simp only: parseRelationMeta_def fold_simps m1) simp
  qed
  then show ?thesis using made by simp
qed

lemma pivot_tables_agree_example:
  "let r = \<lparr>r_Type = ''belongsToMany'', r_Model = ''Tag'', r_FK = [], r_Pivot = [], r_RelatedFK = []\<rparr>;
      s = \<lparr>s_Model = ''Post'', s_Table = ''posts'', s_Fields = [], s_API = \<lparr>Prefix = [], Actions = [], api_Auth = []\<rparr>, s_Relations = [r]\<rparr>
   in snd (snd (relationBlueprint s)) = ''post_tag''"
proof -
  let ?r = "\<lparr>r_Type = ''belongsToMany'', r_Model = ''Tag'', r_FK = [], r_Pivot = [], r_RelatedFK = []\<rparr>"
  let ?s = "\<lparr>s_Model = ''Post'', s_Table = ''posts'', s_Fields = [], s_API = \<lparr>Prefix = [], Actions = [], api_Auth = []\<rparr>, s_Relations = [?r]\<rparr>"
  have "or_default (rm_pivot (snd (parseRelationMeta (mr_RelType (model_relation ?r))))) (pivot_name (s_Model ?s) (r_Model ?r)) = ''post_tag''"
    by code_simp
  then show ?thesis using pivot_tables_agree [of ?r ?s] unfolding Let_def by simp
qed

section \<open>Where the generated parts do not fit\<close>

text \<open>The tag of a relation never has a foreign key, so one given in the schema is used by the migration only.\<close>

lemma generated_relation_without_fk:
  "rm_fk (snd (parseRelationMeta (mr_RelType (model_relation
     \<lparr>r_Type = ''belongsToMany'', r_Model = ''Tag'', r_FK = ''article_id'', r_Pivot = ''tagging'', r_RelatedFK = []\<rparr>)))) = []"
  by code_simp

text \<open>
  A JSON number is decoded as float64, so the generated Store refuses every request that has an integer field.
\<close>

lemma integer_fields_refused:
  assumes "f_Type f \<in> {''int'', ''integer'', ''bigint''}" and "input (f_Name f) = Some (GFloat x)"
  shows "\<exists>e. generated_assign [\<lparr>cf_Name = f_Name f, cf_GoName = camel (f_Name f), cf_GoType = GoType f\<rparr>] input = Inl e"
  using assms by (auto simp: GoType_def Let_def)

text \<open>The routes and the OpenAPI document disagree on the default prefix.\<close>

lemma default_prefixes_differ:
  "let s = \<lparr>s_Model = ''User'', s_Table = ''users'', s_Fields = [], s_API = \<lparr>Prefix = [], Actions = [], api_Auth = []\<rparr>, s_Relations = []\<rparr>
   in hd (openapi_paths s) = ''  /api/v1/users:'' \<and> or_default (Prefix (s_API s)) (''/api/'' @ to_lower (plural (s_Model s))) = ''/api/users''"
  by code_simp

text \<open>A field of type double is a float64 in the model and a string column in the migration.\<close>

lemma double_becomes_string:
  "let f = \<lparr>f_Name = ''x'', f_Type = ''double'', f_Size = 0, f_Unique = False, f_Nullable = False, f_Index = False, f_Default = [], f_Rules = [], f_Values = []\<rparr>
   in GoType f = ''float64'' \<and> fieldToBlueprintCall f = src ''String(~x~, 255)''"
  by code_simp

end
