(* ===== verification/App.thy ===== *)
theory App
  imports Container Config Storage Router
begin

text \<open>
  The application (\<^verbatim>\<open>app.go\<close>, \<^verbatim>\<open>services.go\<close>): life cycle of the service providers, shutdown, health handlers and the wiring
  of the services from the configuration. A service is an object of the application's heap and the
  container holds its pointer. Providers and hooks of the user are parameters: what a provider's
  Register and Boot do to the application, what a provider's Shutdown and a hook do to the world.
  The router is represented by the middleware and paths the application adds to it.
\<close>

section \<open>State\<close>

datatype disk_driver = DLocal Local | DS3 S3

datatype queue_driver = QRedis string | QMemory int

datatype mailer = SMTPMailer string int string string string bool | LogMailer

datatype service =
    SApp | SConfig | SRouter | SHttpClient | SEvents
  | SDb string string int int
  | SRedis string string int
  | SLock bool
  | SCache bool string "nat option"
  | SSession bool string int bool
  | SQueue queue_driver int int int
  | SMail mailer
  | SStorage "disk_driver DiskManager"
  | SSchedule "nat option"

datatype 'h hook = CloseDB nat | CloseRedis nat | StopCache nat | UserHook 'h

datatype app_middleware = MRecovery | MRequestID | MLogger | MCORS | MSecurityHeaders | MMetrics | MTracing string

record ('p, 'h) Application =
  container :: Container
  heap :: "service list"
  config :: tree
  providers :: "'p list"
  booted :: bool
  basePath :: string
  shutdownTimeout :: int
  readTimeout :: int
  writeTimeout :: int
  idleTimeout :: int
  shutdownHooks :: "'h hook list"
  pprofEnabled :: bool
  metricsEnabled :: bool
  app_uses :: "app_middleware list"
  app_mounts :: "string list"
  ws_origins :: "string list"

abbreviation seconds :: "int \<Rightarrow> int" where
  "seconds n \<equiv> n * 1000000000"

text \<open>A new object and its pointer; \<^verbatim>\<open>app.Instance(name, object)\<close>.\<close>

definition bind_service :: "string \<Rightarrow> service \<Rightarrow> ('p, 'h) Application \<Rightarrow> ('p, 'h) Application" where
  "bind_service name v app = app\<lparr>container := Instance name (GPtr (length (heap app))) (container app), heap := heap app @ [v]\<rparr>"

text \<open>The object bound to a name.\<close>

definition deref :: "service list \<Rightarrow> goval option \<Rightarrow> nat option" where
  "deref h v = (case v of Some (GPtr i) \<Rightarrow> if i < length h then Some i else None | _ \<Rightarrow> None)"

definition service_of :: "('p, 'h) Application \<Rightarrow> string \<Rightarrow> service option" where
  "service_of app name = map_option (\<lambda>i. heap app ! i) (deref (heap app) (instances (container app) name))"

definition New_app :: "('p, 'h) Application" where
  "New_app =
     bind_service ''router'' SRouter (bind_service ''config'' SConfig (bind_service ''app'' SApp
       \<lparr>container = newContainer, heap = [], config = [], providers = [], booted = False, basePath = [],
        shutdownTimeout = seconds 10, readTimeout = seconds 15, writeTimeout = seconds 15, idleTimeout = seconds 60,
        shutdownHooks = [], pprofEnabled = False, metricsEnabled = False, app_uses = [], app_mounts = [], ws_origins = []\<rparr>))"

definition SetBasePath :: "string \<Rightarrow> ('p, 'h) Application \<Rightarrow> ('p, 'h) Application" where
  "SetBasePath path app = app\<lparr>basePath := path\<rparr>"

definition BasePath :: "string + string \<Rightarrow> ('p, 'h) Application \<Rightarrow> string" where
  "BasePath getwd app =
     (if basePath app \<noteq> [] then basePath app else case getwd of Inl _ \<Rightarrow> ''.'' | Inr dir \<Rightarrow> dir)"

text \<open>
  \<^verbatim>\<open>LoadConfig\<close>: both errors are only logged. \<open>read_dir\<close> gives the entries of the directory with what reading and decoding them ends with;
  an entry that fails ends the loading, those before it stay.
\<close>

definition LoadConfig ::
  "(string + string) \<Rightarrow> (string \<Rightarrow> string + string list) \<Rightarrow> (string \<Rightarrow> string + (string \<times> bool \<times> (string + goval)) list) \<Rightarrow>
   string \<Rightarrow> ('p, 'h) Application \<times> (string \<rightharpoonup> string) \<Rightarrow> ('p, 'h) Application \<times> (string \<rightharpoonup> string)" where
  "LoadConfig getwd read_lines read_dir dir = (\<lambda>(app, env).
     let env = (case read_lines (BasePath getwd app @ ''/.env'') of Inl _ \<Rightarrow> env | Inr ls \<Rightarrow> LoadEnvFile ls env) in
     (case read_dir dir of
        Inl _ \<Rightarrow> (app, env)
      | Inr entries \<Rightarrow> (app\<lparr>config := snd (config_Load entries (config app))\<rparr>, env)))"

definition SetShutdownTimeout :: "int \<Rightarrow> ('p, 'h) Application \<Rightarrow> ('p, 'h) Application" where
  "SetShutdownTimeout d app = app\<lparr>shutdownTimeout := d\<rparr>"

definition SetTimeouts :: "int \<Rightarrow> int \<Rightarrow> int \<Rightarrow> ('p, 'h) Application \<Rightarrow> ('p, 'h) Application" where
  "SetTimeouts r w i app = app\<lparr>readTimeout := r, writeTimeout := w, idleTimeout := i\<rparr>"

text \<open>The proxies go to the router, which is a state of its own here; an error is only logged.\<close>

definition app_SetTrustedProxies ::
  "(string \<Rightarrow> string + ipnet) \<Rightarrow> string list \<Rightarrow> ('p, 'h) Application \<times> router \<Rightarrow> ('p, 'h) Application \<times> router" where
  "app_SetTrustedProxies parse_cidr proxies = (\<lambda>(app, r). (app, snd (SetTrustedProxies parse_cidr proxies r)))"

text \<open>
  A list with an entry that cannot be parsed is not refused: the entries before it are trusted, those after it
  are not, and what was trusted before the call no longer is.
\<close>

lemma bad_proxy_cuts_list:
  assumes "parse_cidr ''bad/x'' = Inl e" and "parse_cidr ''10.0.0.1/32'' = Inr net"
  shows "trustedProxies (snd (app_SetTrustedProxies parse_cidr [''10.0.0.1'', ''bad/x'', ''10.0.0.2''] (app, r))) = [net]"
  using assms by (simp add: app_SetTrustedProxies_def SetTrustedProxies_def)

definition OnShutdown :: "'h hook \<Rightarrow> ('p, 'h) Application \<Rightarrow> ('p, 'h) Application" where
  "OnShutdown h app = app\<lparr>shutdownHooks := shutdownHooks app @ [h]\<rparr>"

section \<open>Life cycle\<close>

definition Register_provider :: "'p \<Rightarrow> ('p, 'h) Application \<Rightarrow> ('p, 'h) Application" where
  "Register_provider p app = app\<lparr>providers := providers app @ [p]\<rparr>"

text \<open>
  \<^verbatim>\<open>Boot\<close>: each loop ranges over the list of providers as it is when the loop begins.
\<close>

definition Boot :: "('p \<Rightarrow> ('p, 'h) Application \<Rightarrow> ('p, 'h) Application) \<Rightarrow> ('p \<Rightarrow> ('p, 'h) Application \<Rightarrow> ('p, 'h) Application) \<Rightarrow>
    ('p, 'h) Application \<Rightarrow> ('p, 'h) Application" where
  "Boot reg boot app =
     (if booted app then app
      else let app = fold reg (providers app) app; app = fold boot (providers app) app in app\<lparr>booted := True\<rparr>)"

definition UseDefaults :: "('p, 'h) Application \<Rightarrow> ('p, 'h) Application" where
  "UseDefaults app = app\<lparr>app_uses := app_uses app @ [MRecovery, MRequestID, MLogger, MCORS, MSecurityHeaders]\<rparr>"

definition EnablePprof :: "('p, 'h) Application \<Rightarrow> ('p, 'h) Application" where
  "EnablePprof app =
     (if \<not> pprofEnabled app then app\<lparr>app_mounts := app_mounts app @ [''/debug/pprof''], pprofEnabled := True\<rparr> else app)"

definition EnableMetrics :: "('p, 'h) Application \<Rightarrow> ('p, 'h) Application" where
  "EnableMetrics app =
     (if \<not> metricsEnabled app
      then app\<lparr>app_uses := app_uses app @ [MMetrics], app_mounts := app_mounts app @ [''/metrics''], metricsEnabled := True\<rparr> else app)"

text \<open>
  \<^verbatim>\<open>Shutdown\<close>: \<open>pshut\<close> is the Shutdown method of a provider, if it has one, \<open>hrun\<close> runs a hook. Both loops go on
  after an error and keep the first one.
\<close>

definition shut_step :: "('a \<Rightarrow> ('w \<Rightarrow> 'e option \<times> 'w) option) \<Rightarrow> 'a \<Rightarrow> 'e option \<times> 'w \<Rightarrow> 'e option \<times> 'w" where
  "shut_step f x = (\<lambda>(first, w).
     case f x of
       None \<Rightarrow> (first, w)
     | Some act \<Rightarrow> (case act w of (err, w') \<Rightarrow> (if first = None then err else first, w')))"

definition Shutdown :: "('p \<Rightarrow> ('w \<Rightarrow> 'e option \<times> 'w) option) \<Rightarrow> ('h hook \<Rightarrow> 'w \<Rightarrow> 'e option \<times> 'w) \<Rightarrow> ('p, 'h) Application \<Rightarrow> 'w \<Rightarrow>
    'e option \<times> 'w" where
  "Shutdown pshut hrun app w =
     fold (shut_step (\<lambda>h. Some (hrun h))) (rev (shutdownHooks app)) (fold (shut_step pshut) (rev (providers app)) (None, w))"

text \<open>
  What ends \<^verbatim>\<open>serve\<close>: a signal, or the channel of the server goroutine, which carries an error or is closed. \<open>stop\<close> is
  \<^verbatim>\<open>srv.Shutdown\<close>. The result says whether the resources were released.
\<close>

datatype serve_event = Signal | ServerError string | ServerClosed

definition serve_end :: "('w \<Rightarrow> string option \<times> 'w) \<Rightarrow> ('w \<Rightarrow> 'e option \<times> 'w) \<Rightarrow> serve_event \<Rightarrow> 'w \<Rightarrow> string option \<times> bool \<times> 'w" where
  "serve_end stop shutdown ev w =
     (case ev of
        ServerError e \<Rightarrow> (Some (''gai: server error: '' @ e), False, w)
      | ServerClosed \<Rightarrow> (Some ''gai: server error: %!w(<nil>)'', False, w)
      | Signal \<Rightarrow>
          (case stop w of
             (Some e, w) \<Rightarrow> (Some (''gai: shutdown error: '' @ e), False, w)
           | (None, w) \<Rightarrow> (None, True, snd (shutdown w))))"

text \<open>The server \<^verbatim>\<open>serve\<close> starts, with TLS if there is a certificate, after the application was booted.\<close>

record http_server =
  srv_Addr :: string
  srv_ReadTimeout :: int
  srv_WriteTimeout :: int
  srv_IdleTimeout :: int
  srv_ReadHeaderTimeout :: int
  srv_TLS :: "(string \<times> string) option"

definition http_server_of :: "string \<Rightarrow> string \<Rightarrow> string \<Rightarrow> ('p, 'h) Application \<Rightarrow> http_server" where
  "http_server_of addr certFile keyFile app =
     \<lparr>srv_Addr = addr, srv_ReadTimeout = readTimeout app, srv_WriteTimeout = writeTimeout app, srv_IdleTimeout = idleTimeout app,
      srv_ReadHeaderTimeout = seconds 10, srv_TLS = (if certFile \<noteq> [] then Some (certFile, keyFile) else None)\<rparr>"

definition app_serve where
  "app_serve reg boot stop shutdown ev addr certFile keyFile app w =
     (let app = Boot reg boot app in
      (http_server_of addr certFile keyFile app, app, serve_end stop (shutdown app) ev w))"

definition app_Serve where
  "app_Serve reg boot stop shutdown ev addr app w = app_serve reg boot stop shutdown ev addr [] [] app w"

definition app_ServeTLS where
  "app_ServeTLS reg boot stop shutdown ev addr certFile keyFile app w = app_serve reg boot stop shutdown ev addr certFile keyFile app w"

text \<open>The providers are booted before the server starts, and the server has the timeouts they left.\<close>

lemma serve_boots:
  assumes "app_Serve reg boot stop shutdown ev addr app w = (srv, app', r)"
  shows "booted app' \<and> srv_TLS srv = None \<and> srv_ReadTimeout srv = readTimeout app'"
  using assms by (auto simp: app_Serve_def app_serve_def Boot_def http_server_of_def Let_def split: if_splits)

text \<open>Without the name of a certificate file, \<^verbatim>\<open>ServeTLS\<close> serves in the clear, whatever the key.\<close>

lemma serve_tls_without_cert:
  "app_ServeTLS reg boot stop shutdown ev addr [] keyFile app w = app_Serve reg boot stop shutdown ev addr app w"
  by (simp add: app_ServeTLS_def app_Serve_def app_serve_def http_server_of_def)

section \<open>Health\<close>

definition Liveness :: "nat \<times> (string \<times> string) list" where
  "Liveness = (200, [(''status'', ''ok'')])"

definition Readiness :: "string option \<Rightarrow> ('p, 'h) Application \<Rightarrow> nat \<times> (string \<times> string) list" where
  "Readiness ping app =
     (if container_Has ''db'' (container app) then
        (case ping of
           Some _ \<Rightarrow> (503, [(''status'', ''error''), (''message'', ''database unavailable'')])
         | None \<Rightarrow> (200, [(''status'', ''ok''), (''database'', ''ok'')]))
      else (200, [(''status'', ''ok'')]))"

definition Health :: "string option \<Rightarrow> ('p, 'h) Application \<Rightarrow> nat \<times> (string \<times> string) list" where
  "Health ping app = Readiness ping app"

section \<open>Services\<close>

text \<open>The readers of the configuration: the form of a value of another type as a string, and the environment.\<close>

record conflib =
  cl_sprint :: "goval \<Rightarrow> string"
  cl_env :: "string \<rightharpoonup> string"

definition cstr :: "conflib \<Rightarrow> ('p, 'h) Application \<Rightarrow> string \<Rightarrow> string \<Rightarrow> string" where
  "cstr lib app key dflt = GetString (cl_sprint lib) (cl_env lib) (config app) key [dflt]"

definition cint :: "conflib \<Rightarrow> ('p, 'h) Application \<Rightarrow> string \<Rightarrow> int \<Rightarrow> int" where
  "cint lib app key dflt = GetInt (cl_env lib) (config app) key [dflt]"

definition cbool :: "conflib \<Rightarrow> ('p, 'h) Application \<Rightarrow> string \<Rightarrow> bool \<Rightarrow> bool" where
  "cbool lib app key dflt = GetBool (cl_env lib) (config app) key [dflt]"

definition OpenDB :: "conflib \<Rightarrow> (string \<Rightarrow> string \<Rightarrow> string option) \<Rightarrow> ('p, 'h) Application \<Rightarrow> string option \<times> ('p, 'h) Application" where
  "OpenDB lib opens app =
     (let drv = cstr lib app ''app.database.driver'' ''sqlite''; dsn = cstr lib app ''app.database.dsn'' ''storage/database.db'' in
      case opens drv dsn of
        Some e \<Rightarrow> (Some e, app)
      | None \<Rightarrow>
          (None, OnShutdown (CloseDB (length (heap app)))
             (bind_service ''db'' (SDb drv dsn (cint lib app ''app.database.max_open_conns'' 25) (cint lib app ''app.database.max_idle_conns'' 5)) app)))"

text \<open>The pointer of the lock, if \<^verbatim>\<open>app.Resolve(\<close>lock\<^verbatim>\<open>)\<close> gives one.\<close>

definition lock_ptr :: "('p, 'h) Application \<Rightarrow> nat option" where
  "lock_ptr app =
     (case deref (heap app) (instances (container app) ''lock'') of
        Some i \<Rightarrow> if heap app ! i \<in> {SLock True, SLock False} then Some i else None
      | None \<Rightarrow> None)"

definition wireLock :: "conflib \<Rightarrow> bool \<Rightarrow> ('p, 'h) Application \<Rightarrow> ('p, 'h) Application" where
  "wireLock lib rdb app = bind_service ''lock'' (SLock (rdb \<and> cstr lib app ''app.lock.driver'' ''redis'' \<noteq> ''memory'')) app"

definition wireCache :: "conflib \<Rightarrow> bool \<Rightarrow> ('p, 'h) Application \<Rightarrow> ('p, 'h) Application" where
  "wireCache lib rdb app =
     (let redis = (cstr lib app ''app.cache.driver'' ''memory'' = ''redis'' \<and> rdb);
          app = (if redis then app else OnShutdown (StopCache (length (heap app))) app) in
      bind_service ''cache'' (SCache redis (cstr lib app ''app.cache.prefix'' ''gai:'') (lock_ptr app)) app)"

definition wireSession :: "conflib \<Rightarrow> bool \<Rightarrow> ('p, 'h) Application \<Rightarrow> ('p, 'h) Application" where
  "wireSession lib rdb app =
     bind_service ''session''
       (SSession (cstr lib app ''app.session.driver'' ''memory'' = ''redis'' \<and> rdb) (cstr lib app ''app.session.cookie'' ''gai_session'')
          (wrap64 (seconds (cint lib app ''app.session.ttl'' 86400))) (cbool lib app ''app.session.secure'' False)) app"

definition wireQueue :: "conflib \<Rightarrow> bool \<Rightarrow> ('p, 'h) Application \<Rightarrow> ('p, 'h) Application" where
  "wireQueue lib rdb app =
     bind_service ''queue''
       (SQueue
          (if cstr lib app ''app.queue.driver'' ''memory'' = ''redis'' \<and> rdb then QRedis (cstr lib app ''app.queue.key'' ''gai:queue'')
           else QMemory (cint lib app ''app.queue.size'' 256))
          (cint lib app ''app.queue.retry'' 3) (wrap64 (seconds (cint lib app ''app.queue.timeout'' 60))) (cint lib app ''app.queue.concurrency'' 1)) app"

definition wireMail :: "conflib \<Rightarrow> ('p, 'h) Application \<Rightarrow> ('p, 'h) Application" where
  "wireMail lib app =
     bind_service ''mail''
       (SMail
          (if cstr lib app ''app.mail.driver'' ''log'' = ''smtp'' then
             SMTPMailer (cstr lib app ''app.mail.host'' ''localhost'') (cint lib app ''app.mail.port'' 587)
               (cstr lib app ''app.mail.username'' []) (cstr lib app ''app.mail.password'' []) (cstr lib app ''app.mail.from'' [])
               (cbool lib app ''app.mail.tls'' True)
           else LogMailer)) app"

definition storage_manager :: "conflib \<Rightarrow> ('p, 'h) Application \<Rightarrow> disk_driver DiskManager" where
  "storage_manager lib app =
     (let mgr = DiskManager_Add ''local''
            (DLocal \<lparr>l_Root = cstr lib app ''app.storage.local.root'' ''storage/app'', l_BaseURL = cstr lib app ''app.storage.local.url'' ''/storage''\<rparr>)
            NewDiskManager;
          bucket = cstr lib app ''app.storage.s3.bucket'' [] in
      if bucket \<noteq> [] then
        DiskManager_Add ''s3''
          (DS3 \<lparr>Endpoint = cstr lib app ''app.storage.s3.endpoint'' [], Region = cstr lib app ''app.storage.s3.region'' ''us-east-1'',
             Bucket = bucket, AccessKey = cstr lib app ''app.storage.s3.access_key'' [], SecretKey = cstr lib app ''app.storage.s3.secret_key'' [],
             s3_BaseURL = cstr lib app ''app.storage.s3.url'' [], PathStyle = cbool lib app ''app.storage.s3.path_style'' True\<rparr>) mgr
      else mgr)"

text \<open>The default disk of the configuration is only looked up, for a warning in the log.\<close>

definition wireStorage :: "conflib \<Rightarrow> ('p, 'h) Application \<Rightarrow> ('p, 'h) Application" where
  "wireStorage lib app = bind_service ''storage'' (SStorage (storage_manager lib app)) app"

definition wireSchedule :: "('p, 'h) Application \<Rightarrow> ('p, 'h) Application" where
  "wireSchedule app = bind_service ''schedule'' (SSchedule (lock_ptr app)) app"

definition wireTracing :: "conflib \<Rightarrow> ('p, 'h) Application \<Rightarrow> ('p, 'h) Application" where
  "wireTracing lib app =
     (if cbool lib app ''app.tracing.enabled'' False then app\<lparr>app_uses := app_uses app @ [MTracing (cstr lib app ''app.name'' ''gai'')]\<rparr> else app)"

definition splitCSV :: "string \<Rightarrow> string list" where
  "splitCSV s = filter (\<lambda>p. p \<noteq> []) (map trim_space (split_by (CHR '','') s))"

definition UseServices :: "conflib \<Rightarrow> ('p, 'h) Application \<Rightarrow> ('p, 'h) Application" where
  "UseServices lib app =
     (let app = bind_service ''events'' SEvents (bind_service ''http.client'' SHttpClient app);
          addr = cstr lib app ''app.redis.addr'' [];
          rdb = (addr \<noteq> []);
          app = (if rdb then
                   OnShutdown (CloseRedis (length (heap app)))
                     (bind_service ''redis'' (SRedis addr (cstr lib app ''app.redis.password'' []) (cint lib app ''app.redis.db'' 0)) app)
                 else app);
          app = wireTracing lib (wireSchedule (wireStorage lib (wireMail lib (wireQueue lib rdb (wireSession lib rdb (wireCache lib rdb (wireLock lib rdb app)))))));
          origins = cstr lib app ''app.websocket.origins'' [] in
      if origins \<noteq> [] then app\<lparr>ws_origins := splitCSV origins\<rparr> else app)"

section \<open>Properties\<close>

text \<open>All actions in a row, whatever they return.\<close>

fun run_acts :: "('w \<Rightarrow> 'e option \<times> 'w) list \<Rightarrow> 'w \<Rightarrow> 'e option list \<times> 'w" where
  "run_acts [] w = ([], w)"
| "run_acts (a # as) w = (case a w of (e, w1) \<Rightarrow> (case run_acts as w1 of (es, w2) \<Rightarrow> (e # es, w2)))"

definition first_error :: "'e option list \<Rightarrow> 'e option" where
  "first_error es = (case List.map_filter (\<lambda>e. e) es of [] \<Rightarrow> None | e # _ \<Rightarrow> Some e)"

lemma fold_shut_step:
  "fold (shut_step f) xs (first, w) =
     (first_error (first # fst (run_acts (List.map_filter f xs) w)), snd (run_acts (List.map_filter f xs) w))"
proof (induction xs arbitrary: first w)
  case Nil
  then show ?case by (cases first) (simp_all add: first_error_def map_filter_simps)
next
  case (Cons x xs)
  show ?case
  proof (cases "f x")
    case (Some act)
    obtain err w' where "act w = (err, w')" by (cases "act w")
    then show ?thesis using Some Cons.IH
      by (cases first) (simp_all add: shut_step_def map_filter_simps first_error_def case_prod_unfold)
  qed (use Cons.IH in \<open>simp add: shut_step_def [of f x] map_filter_simps\<close>)
qed

lemma run_acts_append:
  "run_acts (as @ bs) w = (fst (run_acts as w) @ fst (run_acts bs (snd (run_acts as w))), snd (run_acts bs (snd (run_acts as w))))"
  by (induction as arbitrary: w) (simp_all add: case_prod_unfold)

lemma first_error_append: "first_error (first_error es # fs) = first_error (es @ fs)"
  by (auto simp: first_error_def map_filter_def split: list.split)

text \<open>
  Property C28: shutting down releases everything. Every provider that can be shut down is, the last registered first, and then
  every hook, the last one first, each once and even when those before it fail; the result is the first error in this order.
\<close>

theorem shutdown_releases_all:
  "Shutdown pshut hrun app w =
     (let (errs, w') = run_acts (List.map_filter pshut (rev (providers app)) @ map hrun (rev (shutdownHooks app))) w
      in (first_error errs, w'))"
proof -
  have m: "List.map_filter (\<lambda>h. Some (hrun h)) hs = map hrun hs" for hs by (simp add: map_filter_def)
  have n: "first_error (None # es) = first_error es" for es :: "'e option list" by (simp add: first_error_def map_filter_simps)
  show ?thesis
    by (simp add: Shutdown_def fold_shut_step m n run_acts_append first_error_append Let_def case_prod_unfold)
qed

text \<open>Pointers in the container lead to objects.\<close>

definition wf_app :: "('p, 'h) Application \<Rightarrow> bool" where
  "wf_app app \<longleftrightarrow> (\<forall>name i. instances (container app) name = Some (GPtr i) \<longrightarrow> i < length (heap app))"

lemma wf_bind [simp]: "wf_app app \<Longrightarrow> wf_app (bind_service name v app)"
  by (auto simp: wf_app_def bind_service_def Instance_def less_Suc_eq split: if_splits)

lemma wf_hook [simp]: "wf_app (OnShutdown h app) = wf_app app"
  by (simp add: wf_app_def OnShutdown_def)

lemma wf_New_app [simp]: "wf_app New_app"
  unfolding New_app_def by (intro wf_bind) (simp add: wf_app_def newContainer_def)

lemma deref_new [simp]: "deref (h @ [x]) (Some (GPtr (length h))) = Some (length h)"
  by (simp add: deref_def)

lemma deref_old: "wf_app app \<Longrightarrow> deref (heap app @ [x]) (instances (container app) n) = deref (heap app) (instances (container app) n)"
  by (force simp: deref_def wf_app_def split: option.split goval.split)

lemma deref_less: "deref h v = Some i \<Longrightarrow> i < length h"
  by (auto simp: deref_def split: option.splits goval.splits if_splits)

lemma service_of_bind [simp]:
  assumes "wf_app app"
  shows "service_of (bind_service name v app) n = (if n = name then Some v else service_of app n)"
proof (cases "n = name")
  case False
  then show ?thesis
    by (cases "deref (heap app) (instances (container app) n)")
      (simp_all add: service_of_def bind_service_def Instance_def deref_old [OF assms] nth_append deref_less)
qed (simp add: service_of_def bind_service_def Instance_def)

lemma lock_ptr_bind [simp]:
  assumes "wf_app app"
  shows "name \<noteq> ''lock'' \<Longrightarrow> lock_ptr (bind_service name v app) = lock_ptr app"
    and "lock_ptr (bind_service ''lock'' (SLock r) app) = Some (length (heap app))"
proof -
  show "lock_ptr (bind_service name v app) = lock_ptr app" if "name \<noteq> ''lock''"
    using that by (cases "deref (heap app) (instances (container app) ''lock'')")
      (simp_all add: lock_ptr_def bind_service_def Instance_def deref_old [OF assms] nth_append deref_less)
qed (cases r; simp add: lock_ptr_def bind_service_def Instance_def)

lemma app_frames [simp]:
  "config (bind_service name v app) = config app" "config (OnShutdown h app) = config app"
  "service_of (OnShutdown h app) n = service_of app n" "lock_ptr (OnShutdown h app) = lock_ptr app"
  "heap (OnShutdown h app) = heap app" "heap (bind_service name v app) = heap app @ [v]"
  by (simp_all add: bind_service_def OnShutdown_def service_of_def lock_ptr_def cong: option.case_cong)

lemma conf_frames [simp]:
  "cstr lib (bind_service name v app) = cstr lib app" "cstr lib (OnShutdown h app) = cstr lib app"
  "cint lib (bind_service name v app) = cint lib app" "cint lib (OnShutdown h app) = cint lib app"
  "cbool lib (bind_service name v app) = cbool lib app" "cbool lib (OnShutdown h app) = cbool lib app"
  by (simp_all add: fun_eq_iff cstr_def cint_def cbool_def)

lemma tracing_frames [simp]:
  "service_of (wireTracing lib app) n = service_of app n" "service_of (app\<lparr>ws_origins := xs\<rparr>) n = service_of app n"
  "lock_ptr (wireTracing lib app) = lock_ptr app" "lock_ptr (app\<lparr>ws_origins := xs\<rparr>) = lock_ptr app"
  by (simp_all add: wireTracing_def service_of_def lock_ptr_def cong: option.case_cong)

lemma UseServices_core:
  fixes lib :: conflib and app :: "('p, 'h) Application"
  assumes "wf_app app"
  defines "rdb \<equiv> cstr lib app ''app.redis.addr'' [] \<noteq> []"
  shows "\<exists>a0 :: ('p, 'h) Application. wf_app a0 \<and> cstr lib a0 = cstr lib app \<and>
    (\<forall>n. service_of (UseServices lib app) n =
       service_of (wireSchedule (wireStorage lib (wireMail lib (wireQueue lib rdb (wireSession lib rdb (wireCache lib rdb (wireLock lib rdb a0))))))) n) \<and>
    lock_ptr (UseServices lib app) =
       lock_ptr (wireSchedule (wireStorage lib (wireMail lib (wireQueue lib rdb (wireSession lib rdb (wireCache lib rdb (wireLock lib rdb a0)))))))"
proof -
  let ?b = "bind_service ''events'' SEvents (bind_service ''http.client'' SHttpClient app)"
  let ?a0 = "if rdb then OnShutdown (CloseRedis (length (heap ?b)))
      (bind_service ''redis'' (SRedis (cstr lib app ''app.redis.addr'' []) (cstr lib app ''app.redis.password'' []) (cint lib app ''app.redis.db'' 0)) ?b) else ?b"
  have "wf_app ?a0" "cstr lib ?a0 = cstr lib app" using assms(1) by simp_all
  then show ?thesis by (intro exI [of _ ?a0]) (simp add: UseServices_def Let_def rdb_def)
qed

text \<open>
  The services are wired together. After \<^verbatim>\<open>UseServices\<close> the cache and the scheduler hold the lock that is bound in the
  application, and lock, cache and session are kept in Redis only if an address is configured
  and their driver says so.
\<close>

lemma services_share_lock:
  fixes app :: "('p, 'h) Application"
  assumes "wf_app app"
  shows "\<exists>i r c p s k t b. service_of (UseServices lib app) ''lock'' = Some (SLock r) \<and>
     lock_ptr (UseServices lib app) = Some i \<and>
     service_of (UseServices lib app) ''cache'' = Some (SCache c p (Some i)) \<and>
     service_of (UseServices lib app) ''schedule'' = Some (SSchedule (Some i)) \<and>
     service_of (UseServices lib app) ''session'' = Some (SSession s k t b) \<and>
     (r \<longleftrightarrow> cstr lib app ''app.redis.addr'' [] \<noteq> [] \<and> cstr lib app ''app.lock.driver'' ''redis'' \<noteq> ''memory'') \<and>
     (c \<longleftrightarrow> cstr lib app ''app.redis.addr'' [] \<noteq> [] \<and> cstr lib app ''app.cache.driver'' ''memory'' = ''redis'') \<and>
     (s \<longleftrightarrow> cstr lib app ''app.redis.addr'' [] \<noteq> [] \<and> cstr lib app ''app.session.driver'' ''memory'' = ''redis'')"
proof -
  let ?rdb = "cstr lib app ''app.redis.addr'' [] \<noteq> []"
  obtain a0 :: "('p, 'h) Application" where a0: "wf_app a0" "cstr lib a0 = cstr lib app"
    "\<And>n. service_of (UseServices lib app) n =
       service_of (wireSchedule (wireStorage lib (wireMail lib (wireQueue lib ?rdb (wireSession lib ?rdb (wireCache lib ?rdb (wireLock lib ?rdb a0))))))) n"
    "lock_ptr (UseServices lib app) =
       lock_ptr (wireSchedule (wireStorage lib (wireMail lib (wireQueue lib ?rdb (wireSession lib ?rdb (wireCache lib ?rdb (wireLock lib ?rdb a0)))))))"
    using UseServices_core [OF assms, of lib] by blast
  define a1 where "a1 = wireLock lib ?rdb a0"
  have a1: "wf_app a1" "cstr lib a1 = cstr lib app" "lock_ptr a1 = Some (length (heap a0))"
    "service_of a1 ''lock'' = Some (SLock (?rdb \<and> cstr lib app ''app.lock.driver'' ''redis'' \<noteq> ''memory''))"
    using a0(1,2) by (simp_all add: a1_def wireLock_def)
  define a2 where "a2 = wireCache lib ?rdb a1"
  have a2: "wf_app a2" "cstr lib a2 = cstr lib app" "lock_ptr a2 = lock_ptr a1" "service_of a2 ''lock'' = service_of a1 ''lock''"
    "service_of a2 ''cache'' = Some (SCache (cstr lib app ''app.cache.driver'' ''memory'' = ''redis'' \<and> ?rdb) (cstr lib app ''app.cache.prefix'' ''gai:'') (lock_ptr a1))"
    using a1(1,2) by (simp_all add: a2_def wireCache_def Let_def)
  show ?thesis
    unfolding a0(3,4) a1_def [symmetric] a2_def [symmetric]
    using a2 a1 by (simp add: wireSession_def wireQueue_def wireMail_def wireStorage_def wireSchedule_def) blast
qed

lemma services_share_lock_example:
  "\<exists>i r c p. service_of (UseServices \<lparr>cl_sprint = \<lambda>_. [], cl_env = Map.empty\<rparr> (New_app :: (nat, nat) Application)) ''lock'' = Some (SLock r) \<and>
     service_of (UseServices \<lparr>cl_sprint = \<lambda>_. [], cl_env = Map.empty\<rparr> (New_app :: (nat, nat) Application)) ''cache'' = Some (SCache c p (Some i)) \<and>
     service_of (UseServices \<lparr>cl_sprint = \<lambda>_. [], cl_env = Map.empty\<rparr> (New_app :: (nat, nat) Application)) ''schedule'' = Some (SSchedule (Some i))"
  using services_share_lock [of "New_app :: (nat, nat) Application" "\<lparr>cl_sprint = \<lambda>_. [], cl_env = Map.empty\<rparr>"] by auto

section \<open>Unexpected results\<close>

text \<open>The default disk of the configuration has no effect: it is always the local one.\<close>

lemma default_disk_ignored: "\<exists>l. DiskManager_Disk [] (storage_manager lib app) = Inr (DLocal l)"
  by (simp add: storage_manager_def DiskManager_Disk_def DiskManager_Add_def NewDiskManager_def Let_def)

text \<open>A provider that another one adds while it registers is booted without having been registered.\<close>

lemma late_provider_not_registered:
  "ws_origins (Boot (\<lambda>p a. (if p = 1 then Register_provider 2 a else a)\<lparr>ws_origins := ws_origins a @ [''register '' @ itoa p]\<rparr>)
       (\<lambda>p a. a\<lparr>ws_origins := ws_origins a @ [''boot '' @ itoa p]\<rparr>) (Register_provider 1 (New_app :: (int, nat) Application))) =
   [''register 1'', ''boot 1'', ''boot 2'']"
  by code_simp

text \<open>When the server does not stop in time, or ends by itself, the resources are not released.\<close>

lemma failed_stop_skips_release: "fst (stop w) = Some e \<Longrightarrow> fst (snd (serve_end stop shutdown Signal w)) = False"
  by (cases "stop w") (simp add: serve_end_def)

lemma server_error_skips_release: "fst (snd (serve_end stop shutdown (ServerError e) w)) = False"
  by (simp add: serve_end_def)

end
