(* ===== verification/Miniapp.thy ===== *)
theory Miniapp
  imports GoPrelude "HOL-Library.List_Lexorder" "HOL-Library.Char_ord" "HOL-Library.Multiset"
begin

text \<open>
  The mini-program clients (\<^verbatim>\<open>miniapp/wechat\<close>, \<^verbatim>\<open>miniapp/alipay\<close>): request signing, payment notifications, the cached access
  token and the calls that use it. HTTP, JSON, XML decoding, hashing and RSA are parameters. A map
  of strings is a list of entries with distinct keys, in the order in which Go visits it.
\<close>

type_synonym params = "(string \<times> string) list"

definition pget :: "params \<Rightarrow> string \<Rightarrow> string" where
  "pget ps k = (case map_of ps k of None \<Rightarrow> [] | Some v \<Rightarrow> v)"

definition pput :: "string \<Rightarrow> string \<Rightarrow> params \<Rightarrow> params" where
  "pput k v ps = filter (\<lambda>e. fst e \<noteq> k) ps @ [(k, v)]"

text \<open>The entries that are signed, sorted by key and joined.\<close>

definition canonical_query :: "(string \<times> string \<Rightarrow> bool) \<Rightarrow> params \<Rightarrow> string" where
  "canonical_query keep ps = join (map (\<lambda>k. k @ ''='' @ pget ps k) (sort (map fst (filter keep ps)))) ''&''"

section \<open>WeChat payments\<close>

record paylib =
  md5_hex :: "string \<Rightarrow> string"
  pay_post :: "string \<Rightarrow> string \<Rightarrow> string + string"
  xml_tokens :: "string \<Rightarrow> string option \<times> (nat \<times> string) list"

definition signMD5 :: "paylib \<Rightarrow> params \<Rightarrow> string \<Rightarrow> string" where
  "signMD5 lib ps apiKey = to_upper (md5_hex lib (canonical_query (\<lambda>e. snd e \<noteq> []) ps @ ''&key='' @ apiKey))"

definition mapToXML :: "params \<Rightarrow> string" where
  "mapToXML ps =
     ''<xml>'' @ concat (map (\<lambda>(k, v). ''<'' @ k @ ''><![CDATA['' @ v @ '']]></'' @ k @ ''>'') ps) @ ''</xml>''"

text \<open>
  The tokens of the XML decoder: 0 the start of an element with its name, 1 character data, 2 the end of an element, others are
  ignored; the error comes after the tokens read so far. The state of the loop is the current key and the map.
\<close>

definition xml_step :: "nat \<times> string \<Rightarrow> string \<times> params \<Rightarrow> string \<times> params" where
  "xml_step tok = (\<lambda>(key, m).
     if fst tok = 0 then (snd tok, m)
     else if fst tok = 1 then
       (if key \<noteq> [] \<and> key \<noteq> ''xml'' \<and> trim_space (snd tok) \<noteq> [] then (key, pput key (trim_space (snd tok)) m) else (key, m))
     else if fst tok = 2 then ([], m)
     else (key, m))"

definition parseXMLToMap :: "paylib \<Rightarrow> string \<Rightarrow> string + params" where
  "parseXMLToMap lib data =
     (case xml_tokens lib data of
        (Some e, _) \<Rightarrow> Inl (''wechat/pay: xml parse error: '' @ e)
      | (None, toks) \<Rightarrow> Inr (snd (fold xml_step toks ([], []))))"

definition VerifyNotify :: "paylib \<Rightarrow> string \<Rightarrow> string \<Rightarrow> string + params" where
  "VerifyNotify lib apiKey body =
     (case parseXMLToMap lib body of
        Inl e \<Rightarrow> Inl e
      | Inr ps \<Rightarrow>
          (let sig = pget ps ''sign''; ps = filter (\<lambda>e. fst e \<noteq> ''sign'') ps in
           if sig \<noteq> signMD5 lib ps apiKey then Inl ''wechat/pay: invalid notification signature'' else Inr ps))"

record wechat_config =
  AppID :: string
  AppSecret :: string
  MchID :: string
  APIKey :: string
  NotifyURL :: string

record Order =
  o_Body :: string
  OutTradeNo :: string
  TotalFee :: int
  SpbillCreateIP :: string
  OpenID :: string
  TradeType :: string

record PayResult =
  PrepayID :: string
  NonceStr :: string
  Timestamp :: string
  Package :: string
  SignType :: string
  PaySign :: string

definition order_params :: "wechat_config \<Rightarrow> string \<Rightarrow> Order \<Rightarrow> params" where
  "order_params cfg nonce ord0 =
     [(''appid'', AppID cfg), (''mch_id'', MchID cfg), (''nonce_str'', nonce), (''body'', o_Body ord0), (''out_trade_no'', OutTradeNo ord0),
      (''total_fee'', itoa (TotalFee ord0)), (''spbill_create_ip'', SpbillCreateIP ord0), (''notify_url'', NotifyURL cfg),
      (''trade_type'', if TradeType ord0 = [] then ''JSAPI'' else TradeType ord0), (''openid'', OpenID ord0)]"

definition UnifiedOrder :: "paylib \<Rightarrow> wechat_config \<Rightarrow> string \<Rightarrow> int \<Rightarrow> Order \<Rightarrow> string + PayResult" where
  "UnifiedOrder lib cfg nonce now ord0 =
     (let ps = order_params cfg nonce ord0; ps = pput ''sign'' (signMD5 lib ps (APIKey cfg)) ps in
      case pay_post lib ''https://api.mch.weixin.qq.com/pay/unifiedorder'' (mapToXML ps) of
        Inl e \<Rightarrow> Inl (''wechat/pay: unified order request failed: '' @ e)
      | Inr body \<Rightarrow>
          (case parseXMLToMap lib body of
             Inl e \<Rightarrow> Inl (''wechat/pay: failed to parse response: '' @ e)
           | Inr res \<Rightarrow>
               (if pget res ''return_code'' \<noteq> ''SUCCESS'' \<or> pget res ''result_code'' \<noteq> ''SUCCESS'' then
                  Inl (''wechat/pay: order failed: '' @ pget res ''return_msg'' @ '' - '' @ pget res ''err_code_des'')
                else
                  let ts = itoa now; pkg = ''prepay_id='' @ pget res ''prepay_id'' in
                  Inr \<lparr>PrepayID = pget res ''prepay_id'', NonceStr = pget ps ''nonce_str'', Timestamp = ts, Package = pkg, SignType = ''MD5'',
                    PaySign = signMD5 lib [(''appId'', AppID cfg), (''timeStamp'', ts), (''nonceStr'', pget ps ''nonce_str''), (''package'', pkg), (''signType'', ''MD5'')]
                      (APIKey cfg)\<rparr>)))"

section \<open>The access token\<close>

record TokenResponse =
  tr_AccessToken :: string
  tr_ExpiresIn :: int
  tr_ErrCode :: int
  tr_ErrMsg :: string

record wechat_client =
  wc_config :: wechat_config
  accessToken :: string
  tokenExpiry :: int

definition NewClient_wechat :: "wechat_config \<Rightarrow> wechat_client" where
  "NewClient_wechat cfg = \<lparr>wc_config = cfg, accessToken = [], tokenExpiry = 0\<rparr>"

definition token_url :: "wechat_config \<Rightarrow> string" where
  "token_url cfg =
     ''https://api.weixin.qq.com/cgi-bin/token?grant_type=client_credential&appid='' @ AppID cfg @ ''&secret='' @ AppSecret cfg"

text \<open>
  \<^verbatim>\<open>GetAccessToken\<close>: \<open>t1\<close>, \<open>t2\<close> and \<open>t3\<close> are the readings of the clock for the two tests and for the expiry, \<open>seen\<close> is the client as the
  first test sees it, under the read lock; the rest runs under the write lock on \<open>c\<close>. \<open>get\<close> fetches and decodes the
  answer. The last component says whether a request was made.
\<close>

definition token_valid :: "int \<Rightarrow> wechat_client \<Rightarrow> bool" where
  "token_valid t c \<longleftrightarrow> accessToken c \<noteq> [] \<and> t < tokenExpiry c"

definition GetAccessToken :: "(string \<Rightarrow> string + (string + TokenResponse)) \<Rightarrow> int \<Rightarrow> int \<Rightarrow> int \<Rightarrow> wechat_client \<Rightarrow> wechat_client \<Rightarrow>
    (string + string) \<times> wechat_client \<times> bool" where
  "GetAccessToken get t1 t2 t3 seen c =
     (if token_valid t1 seen then (Inr (accessToken seen), c, False)
      else if token_valid t2 c then (Inr (accessToken c), c, False)
      else case get (token_url (wc_config c)) of
        Inl e \<Rightarrow> (Inl (''wechat: failed to get access token: '' @ e), c, True)
      | Inr (Inl e) \<Rightarrow> (Inl (''wechat: failed to decode token response: '' @ e), c, True)
      | Inr (Inr r) \<Rightarrow>
          (if tr_ErrCode r \<noteq> 0 then (Inl (''wechat: token error '' @ itoa (tr_ErrCode r) @ '': '' @ tr_ErrMsg r), c, True)
           else let c = c\<lparr>accessToken := tr_AccessToken r, tokenExpiry := t3 + wrap64 (wrap64 (tr_ExpiresIn r - 300) * 1000000000)\<rparr> in
             (Inr (accessToken c), c, True)))"

section \<open>Calls\<close>

text \<open>
  The two ways a request is made: \<open>send\<close> is the HTTP client, \<open>read_body\<close> reads the response, and \<open>unmarshal\<close> decodes
  it.
\<close>

definition doGet :: "(string \<Rightarrow> string + 'b) \<Rightarrow> ('b \<Rightarrow> string + string) \<Rightarrow> (string \<Rightarrow> string + 'a) \<Rightarrow> string \<Rightarrow> string + 'a" where
  "doGet send read_body unmarshal url =
     (case send url of
        Inl e \<Rightarrow> Inl e
      | Inr resp \<Rightarrow>
          (case read_body resp of
             Inl e \<Rightarrow> Inl (''wechat: failed to read response body: '' @ e)
           | Inr body \<Rightarrow> unmarshal body))"

definition doPostJSON ::
  "(goval \<Rightarrow> string + string) \<Rightarrow> (string \<Rightarrow> string \<Rightarrow> string \<Rightarrow> string + 'b) \<Rightarrow> ('b \<Rightarrow> string + string) \<Rightarrow> (string \<Rightarrow> string + 'a) \<Rightarrow>
     string \<Rightarrow> goval \<Rightarrow> string + 'a" where
  "doPostJSON marshal send read_body unmarshal url payload =
     (case marshal payload of
        Inl e \<Rightarrow> Inl e
      | Inr data \<Rightarrow>
          (case send url ''application/json'' data of
             Inl e \<Rightarrow> Inl e
           | Inr resp \<Rightarrow>
               (case read_body resp of
                  Inl e \<Rightarrow> Inl (''wechat: failed to read response body: '' @ e)
                | Inr body \<Rightarrow> unmarshal body)))"

text \<open>An answer with an error code; \<open>get\<close> and \<open>post\<close> give an error of the transport or of the decoder, or the decoded answer.\<close>

record 'a answer =
  an_ErrCode :: int
  an_ErrMsg :: string
  an_value :: 'a

definition checked :: "string \<Rightarrow> string \<Rightarrow> string + 'a answer \<Rightarrow> string + 'a" where
  "checked failed refused r =
     (case r of
        Inl e \<Rightarrow> Inl (failed @ e)
      | Inr a \<Rightarrow> if an_ErrCode a \<noteq> 0 then Inl (refused @ itoa (an_ErrCode a) @ '': '' @ an_ErrMsg a) else Inr (an_value a))"

record WxSession =
  wx_OpenID :: string
  wx_SessionKey :: string
  wx_UnionID :: string

definition code2session_url :: "wechat_config \<Rightarrow> string \<Rightarrow> string" where
  "code2session_url cfg code =
     ''https://api.weixin.qq.com/sns/jscode2session?appid='' @ AppID cfg @ ''&secret='' @ AppSecret cfg @ ''&js_code='' @ code @
     ''&grant_type=authorization_code''"

definition Code2Session :: "(string \<Rightarrow> string + WxSession answer) \<Rightarrow> wechat_config \<Rightarrow> string \<Rightarrow> string + WxSession" where
  "Code2Session get cfg code =
     checked ''wechat/auth: code2session request failed: '' ''wechat/auth: code2session error '' (get (code2session_url cfg code))"

record PhoneInfo =
  PhoneNumber :: string
  PurePhoneNumber :: string
  CountryCode :: string

text \<open>\<open>token\<close> is the result of \<^const>\<open>GetAccessToken\<close>.\<close>

definition GetPhoneNumber :: "(string \<Rightarrow> goval \<Rightarrow> string + PhoneInfo answer) \<Rightarrow> string + string \<Rightarrow> string \<Rightarrow> string + PhoneInfo" where
  "GetPhoneNumber post token phoneCode =
     (case token of
        Inl e \<Rightarrow> Inl e
      | Inr t \<Rightarrow>
          checked ''wechat/auth: getPhoneNumber failed: '' ''wechat/auth: getPhoneNumber error ''
            (post (''https://api.weixin.qq.com/wxa/business/getuserphonenumber?access_token='' @ t) (GMap [(''code'', GStr phoneCode)])))"

definition SendSubscribe :: "(string \<Rightarrow> goval \<Rightarrow> string + unit answer) \<Rightarrow> string + string \<Rightarrow> goval \<Rightarrow> string + unit" where
  "SendSubscribe post token msg =
     (case token of
        Inl e \<Rightarrow> Inl e
      | Inr t \<Rightarrow>
          checked ''wechat/message: send failed: '' ''wechat/message: error ''
            (post (''https://api.weixin.qq.com/cgi-bin/message/subscribe/send?access_token='' @ t) msg))"

text \<open>A message type called touser or msgtype overwrites these entries, as a later key of a map literal does.\<close>

definition SendCustomerMessage :: "(string \<Rightarrow> goval \<Rightarrow> string + unit answer) \<Rightarrow> string + string \<Rightarrow> string \<Rightarrow> string \<Rightarrow> goval \<Rightarrow> string + unit" where
  "SendCustomerMessage post token toUser msgType content =
     (case token of
        Inl e \<Rightarrow> Inl e
      | Inr t \<Rightarrow>
          checked ''wechat/message: customer msg failed: '' ''wechat/message: error ''
            (post (''https://api.weixin.qq.com/cgi-bin/message/custom/send?access_token='' @ t)
               (GMap (filter (\<lambda>e. fst e \<noteq> msgType) [(''touser'', GStr toUser), (''msgtype'', GStr msgType)] @ [(msgType, content)]))))"

section \<open>Alipay\<close>

definition encodeAlipayParams :: "params \<Rightarrow> string" where
  "encodeAlipayParams ps = canonical_query (\<lambda>(k, v). k \<noteq> ''sign'' \<and> v \<noteq> []) ps"

definition compactKey :: "string \<Rightarrow> string" where
  "compactKey s = replace_char (CHR '' '') [] (replace_char (CHR 13) [] (replace_char (CHR 10) [] s))"

function chunk64 :: "string \<Rightarrow> string" where
  "chunk64 s = (if length s \<le> 64 then s else take 64 s @ [CHR 10] @ chunk64 (drop 64 s))"
  by auto
termination
  by (relation "measure length") auto

declare chunk64.simps [simp del]

definition ensurePEM :: "string \<Rightarrow> string \<Rightarrow> string" where
  "ensurePEM raw kind =
     (if contains raw ''BEGIN'' then raw
      else ''-----BEGIN '' @ kind @ ''-----'' @ [CHR 10] @ chunk64 (compactKey raw) @ [CHR 10] @ ''-----END '' @ kind @ ''-----'')"

text \<open>
  What the client asks of the standard library: PEM (the block, if any, and the rest), base64, the parsers of keys, of which
  \<^const>\<open>None\<close> is an error, and RSA with SHA-256. A parsed key says whether it is an RSA key.
\<close>

record 'k alilib =
  pem_Decode :: "string \<Rightarrow> string option \<times> string"
  base64_decode :: "string \<Rightarrow> string + string"
  base64_encode :: "string \<Rightarrow> string"
  pkcs8 :: "string \<Rightarrow> (bool \<times> 'k) option"
  pkcs1 :: "string \<Rightarrow> string + 'k"
  pkix :: "string \<Rightarrow> string + (bool \<times> 'k)"
  rsa_sign :: "'k \<Rightarrow> string \<Rightarrow> string + string"
  rsa_verify :: "'k \<Rightarrow> string \<Rightarrow> string \<Rightarrow> string option"

definition parsePrivateDER :: "'k alilib \<Rightarrow> string \<Rightarrow> string + 'k" where
  "parsePrivateDER lib der =
     (case pkcs8 lib der of
        Some (isrsa, k) \<Rightarrow> if isrsa then Inr k else Inl ''alipay: not an RSA private key''
      | None \<Rightarrow> (case pkcs1 lib der of Inl e \<Rightarrow> Inl (''alipay: parse private key: '' @ e) | Inr k \<Rightarrow> Inr k))"

definition parsePrivateKey :: "'k alilib \<Rightarrow> string \<Rightarrow> string + 'k" where
  "parsePrivateKey lib raw =
     (case pem_Decode lib (ensurePEM raw ''PRIVATE KEY'') of
        (Some der, _) \<Rightarrow> parsePrivateDER lib der
      | (None, rest) \<Rightarrow>
          (case fst (pem_Decode lib (ensurePEM rest ''RSA PRIVATE KEY'')) of
             Some der \<Rightarrow> parsePrivateDER lib der
           | None \<Rightarrow>
               (case base64_decode lib (compactKey raw) of
                  Inl _ \<Rightarrow> Inl ''alipay: invalid private key''
                | Inr der \<Rightarrow> parsePrivateDER lib der)))"

definition parsePublicKey :: "'k alilib \<Rightarrow> string \<Rightarrow> string + 'k" where
  "parsePublicKey lib raw =
     (case (case fst (pem_Decode lib (ensurePEM raw ''PUBLIC KEY'')) of
              Some der \<Rightarrow> Inr der
            | None \<Rightarrow> (case base64_decode lib (compactKey raw) of Inl _ \<Rightarrow> Inl ''alipay: invalid public key'' | Inr der \<Rightarrow> Inr der)) of
        Inl e \<Rightarrow> Inl e
      | Inr der \<Rightarrow>
          (case pkix lib der of
             Inl e \<Rightarrow> Inl (''alipay: parse public key: '' @ e)
           | Inr (isrsa, k) \<Rightarrow> if isrsa then Inr k else Inl ''alipay: not an RSA public key''))"

definition signParams :: "'k alilib \<Rightarrow> string \<Rightarrow> params \<Rightarrow> string + string" where
  "signParams lib priv ps =
     (case parsePrivateKey lib priv of
        Inl e \<Rightarrow> Inl e
      | Inr k \<Rightarrow>
          (case rsa_sign lib k (encodeAlipayParams ps) of Inl e \<Rightarrow> Inl (''alipay: sign: '' @ e) | Inr sig \<Rightarrow> Inr (base64_encode lib sig)))"

definition verifyAlipaySign :: "'k alilib \<Rightarrow> string \<Rightarrow> string \<Rightarrow> string \<Rightarrow> string option" where
  "verifyAlipaySign lib publicKey content sig =
     (case parsePublicKey lib publicKey of
        Inl e \<Rightarrow> Some e
      | Inr k \<Rightarrow> (case base64_decode lib sig of Inl e \<Rightarrow> Some e | Inr raw \<Rightarrow> rsa_verify lib k content raw))"

text \<open>
  The envelope of a response: the raw values by key, in the order in which Go visits the map; \<open>str\<close> decodes a raw value as a string.
\<close>

definition verifyResponseSign :: "'k alilib \<Rightarrow> (string \<Rightarrow> string option) \<Rightarrow> string \<Rightarrow> string + params \<Rightarrow> string option" where
  "verifyResponseSign lib str publicKey envelope =
     (case envelope of
        Inl e \<Rightarrow> Some e
      | Inr env \<Rightarrow>
          (case map_of env ''sign'' of
             None \<Rightarrow> None
           | Some raw \<Rightarrow>
               (case str raw of
                  None \<Rightarrow> None
                | Some [] \<Rightarrow> None
                | Some sig \<Rightarrow>
                    (case filter (\<lambda>e. fst e \<noteq> ''sign'' \<and> fst e \<noteq> ''sign_type'') env of
                       [] \<Rightarrow> None
                     | (_, content) # _ \<Rightarrow> if content = [] then None else verifyAlipaySign lib publicKey content sig))))"

record alipay_config =
  ali_AppID :: string
  PrivateKey :: string
  PublicKey :: string
  Gateway :: string

definition ali_gateway :: "alipay_config \<Rightarrow> string" where
  "ali_gateway cfg = (if Gateway cfg \<noteq> [] then Gateway cfg else ''https://openapi.alipay.com/gateway.do'')"

text \<open>\<^verbatim>\<open>doSigned\<close> up to the decoding of the result: the request that is posted, and the check of the answer.\<close>

definition signed_params :: "'k alilib \<Rightarrow> alipay_config \<Rightarrow> string \<Rightarrow> string \<Rightarrow> params \<Rightarrow> string + params" where
  "signed_params lib cfg stamp meth biz =
     (let ps = fold (\<lambda>(k, v) ps. pput k v ps) biz
          [(''app_id'', ali_AppID cfg), (''method'', meth), (''charset'', ''utf-8''), (''sign_type'', ''RSA2''), (''timestamp'', stamp), (''version'', ''1.0'')] in
      case signParams lib (PrivateKey cfg) ps of Inl e \<Rightarrow> Inl e | Inr sig \<Rightarrow> Inr (pput ''sign'' sig ps))"

definition doSigned :: "'k alilib \<Rightarrow> (string \<Rightarrow> string option) \<Rightarrow> (string \<Rightarrow> string + params) \<Rightarrow> (string \<Rightarrow> params \<Rightarrow> string + string) \<Rightarrow>
    (string \<Rightarrow> string + 'r) \<Rightarrow> alipay_config \<Rightarrow> string \<Rightarrow> string \<Rightarrow> params \<Rightarrow> string + 'r" where
  "doSigned lib str envelope post decode cfg stamp meth biz =
     (case signed_params lib cfg stamp meth biz of
        Inl e \<Rightarrow> Inl e
      | Inr ps \<Rightarrow>
          (case post (ali_gateway cfg) ps of
             Inl e \<Rightarrow> Inl e
           | Inr body \<Rightarrow>
               (case (if PublicKey cfg \<noteq> [] then verifyResponseSign lib str (PublicKey cfg) (envelope body) else None) of
                  Some e \<Rightarrow> Inl (''alipay: verify sign: '' @ e)
                | None \<Rightarrow> decode body)))"

record OAuthToken =
  at_AccessToken :: string
  AlipayUserID :: string
  at_UserID :: string
  at_ExpiresIn :: int
  RefreshToken :: string
  at_Code :: string
  at_Msg :: string

record oauth_result =
  or_Response :: OAuthToken
  or_ErrCode :: string
  or_ErrMsg :: string

definition SystemOauthToken :: "(string \<Rightarrow> params \<Rightarrow> string + oauth_result) \<Rightarrow> string \<Rightarrow> string + OAuthToken" where
  "SystemOauthToken signed authCode =
     (case signed ''alipay.system.oauth.token'' [(''grant_type'', ''authorization_code''), (''code'', authCode)] of
        Inl e \<Rightarrow> Inl (''alipay: oauth token request failed: '' @ e)
      | Inr r \<Rightarrow>
          if or_ErrCode r \<noteq> [] \<and> or_ErrCode r \<noteq> ''10000'' then Inl (''alipay: oauth error '' @ or_ErrCode r @ '': '' @ or_ErrMsg r)
          else Inr (or_Response r))"

definition Login :: "(string \<Rightarrow> params \<Rightarrow> string + oauth_result) \<Rightarrow> string \<Rightarrow> string + OAuthToken" where
  "Login signed authCode =
     (case SystemOauthToken signed authCode of Inl e \<Rightarrow> Inl (''alipay/auth: login failed: '' @ e) | Inr t \<Rightarrow> Inr t)"

section \<open>Signatures do not depend on the order of the map\<close>

lemma pget_perm: "distinct (map fst ps) \<Longrightarrow> mset qs = mset ps \<Longrightarrow> pget qs k = pget ps k"
proof -
  assume d: "distinct (map fst ps)" and m: "mset qs = mset ps"
  have "mset (map fst qs) = mset (map fst ps)" using m by simp
  then have "distinct (map fst qs)" using d mset_eq_imp_distinct_iff by blast
  then have "map_of qs = map_of ps" using d mset_eq_setD [OF m] by (simp add: map_of_inject_set)
  then show ?thesis by (simp add: pget_def)
qed

lemma canonical_query_perm:
  assumes "distinct (map fst ps)" and "mset qs = mset ps"
  shows "canonical_query keep qs = canonical_query keep ps"
proof -
  have "sort (map fst (filter keep qs)) = sort (map fst (filter keep ps))"
    using assms(2) by (intro properties_for_sort) simp_all
  then show ?thesis using pget_perm [OF assms] by (simp add: canonical_query_def)
qed

lemma signMD5_perm: "distinct (map fst ps) \<Longrightarrow> mset qs = mset ps \<Longrightarrow> signMD5 lib qs key = signMD5 lib ps key"
  using canonical_query_perm [of ps qs "\<lambda>e. snd e \<noteq> []"] by (simp add: signMD5_def)

section \<open>Notifications\<close>

text \<open>The tokens of a document that lists the entries.\<close>

definition doc_tokens :: "params \<Rightarrow> (nat \<times> string) list" where
  "doc_tokens ps = (0, ''xml'') # concat (map (\<lambda>(k, v). [(0, k), (1, v), (2, k)]) ps) @ [(2, ''xml'')]"

definition xml_entry :: "string \<times> string \<Rightarrow> bool" where
  "xml_entry e \<longleftrightarrow> fst e \<noteq> [] \<and> fst e \<noteq> ''xml'' \<and> snd e \<noteq> [] \<and> trim_space (snd e) = snd e"

lemma fold_entries:
  "list_all xml_entry ps \<Longrightarrow> distinct (map fst (ms @ ps)) \<Longrightarrow>
     snd (fold xml_step (concat (map (\<lambda>(k, v). [(0, k), (1, v), (2, k)]) ps)) (key, ms)) = ms @ ps"
proof (induction ps arbitrary: ms key)
  case (Cons e ps)
  obtain k v where e: "e = (k, v)" by (cases e)
  have k: "k \<noteq> []" "k \<noteq> ''xml''" "v \<noteq> []" "trim_space v = v" using Cons.prems(1) by (simp_all add: e xml_entry_def)
  have "filter (\<lambda>x. fst x \<noteq> k) ms = ms" using Cons.prems(2) by (auto simp: e filter_id_conv)
  then have "fold xml_step [(0, k), (1, v), (2, k)] (key, ms) = ([], ms @ [e])"
    using k by (simp add: xml_step_def pput_def e)
  then show ?case using Cons.IH [of "ms @ [e]" "[]"] Cons.prems by (simp add: e)
qed simp

lemma parse_document:
  assumes "xml_tokens lib body = (None, doc_tokens ps)" and "list_all xml_entry ps" and "distinct (map fst ps)"
  shows "parseXMLToMap lib body = Inr ps"
proof -
  have "xml_step (2, ''xml'') st = ([], snd st)" for st by (cases st) (simp add: xml_step_def)
  moreover have "snd (fold xml_step (concat (map (\<lambda>(k, v). [(0, k), (1, v), (2, k)]) ps)) (''xml'', [])) = ps"
    using fold_entries [OF assms(2), of "[]" "''xml''"] assms(3) by simp
  moreover have "xml_step (0, ''xml'') ([], []) = (''xml'', [])" by (simp add: xml_step_def)
  ultimately show ?thesis using assms(1) by (simp add: parseXMLToMap_def doc_tokens_def)
qed

section \<open>Properties\<close>



text \<open>
  The access token is fetched once and used while it is valid. After a successful fetch every call, until five
  minutes before the token ends, gives the same token without a request; a call that finds no valid token makes a
  request, and a failed request leaves the client as it was.
\<close>

lemma token_fetched_once:
  assumes "GetAccessToken get t1 t2 t3 seen c = (Inr tok, c', True)" and "tok \<noteq> []"
    and "t < tokenExpiry c'"
  shows "GetAccessToken get' t u v c' c' = (Inr tok, c', False) \<and>
     (\<exists>r. get (token_url (wc_config c)) = Inr (Inr r) \<and> tok = tr_AccessToken r \<and>
          tokenExpiry c' = t3 + wrap64 (wrap64 (tr_ExpiresIn r - 300) * 1000000000)) \<and>
     \<not> token_valid t1 seen \<and> \<not> token_valid t2 c"
proof -
  have n1: "\<not> token_valid t1 seen" using assms(1) by (cases "token_valid t1 seen") (simp_all add: GetAccessToken_def)
  have n2: "\<not> token_valid t2 c" using assms(1) n1 by (cases "token_valid t2 c") (simp_all add: GetAccessToken_def)
  obtain a where a: "get (token_url (wc_config c)) = Inr a"
    using assms(1) n1 n2 by (cases "get (token_url (wc_config c))") (simp_all add: GetAccessToken_def)
  obtain r where r: "a = Inr r" using assms(1) n1 n2 a by (cases a) (simp_all add: GetAccessToken_def)
  have "tr_ErrCode r = 0" using assms(1) n1 n2 a r by (cases "tr_ErrCode r = 0") (simp_all add: GetAccessToken_def)
  then have c': "c' = c\<lparr>accessToken := tr_AccessToken r, tokenExpiry := t3 + wrap64 (wrap64 (tr_ExpiresIn r - 300) * 1000000000)\<rparr>" "tok = tr_AccessToken r"
    using assms(1) n1 n2 a r by (auto simp: GetAccessToken_def Let_def)
  then have "token_valid t c'" using assms(2,3) by (simp add: token_valid_def)
  then show ?thesis using a r n1 n2 c' by (simp add: GetAccessToken_def)
qed

lemma token_fetched_once_example:
  "let get = (\<lambda>_. Inr (Inr \<lparr>tr_AccessToken = ''tok'', tr_ExpiresIn = 7200, tr_ErrCode = 0, tr_ErrMsg = []\<rparr>));
      c = NewClient_wechat \<lparr>AppID = ''id'', AppSecret = ''s'', MchID = [], APIKey = [], NotifyURL = []\<rparr>;
      c' = fst (snd (GetAccessToken get 5 6 7 c c))
   in GetAccessToken get 1000 1001 1002 c' c' = (Inr ''tok'', c', False)"
proof -
  let ?get = "\<lambda>_ :: string. Inr (Inr \<lparr>tr_AccessToken = ''tok'', tr_ExpiresIn = 7200, tr_ErrCode = 0, tr_ErrMsg = []\<rparr>) :: string + (string + TokenResponse)"
  let ?c = "NewClient_wechat \<lparr>AppID = ''id'', AppSecret = ''s'', MchID = [], APIKey = [], NotifyURL = []\<rparr>"
  have "GetAccessToken ?get 5 6 7 ?c ?c = (Inr ''tok'', ?c\<lparr>accessToken := ''tok'', tokenExpiry := 6900000000007\<rparr>, True)"
    by (simp add: GetAccessToken_def token_valid_def NewClient_wechat_def Let_def wrap64_def)
  from token_fetched_once [OF this, of 1000 ?get 1001 1002] this show ?thesis by simp
qed

section \<open>Weak spots\<close>

text \<open>A response without a signature is accepted although a public key is configured.\<close>

lemma unsigned_response_accepted:
  assumes "signed_params lib cfg stamp meth biz = Inr ps" and "post (ali_gateway cfg) ps = Inr body"
    and "envelope body = Inr env" and "''sign'' \<notin> fst ` set env"
  shows "doSigned lib str envelope post decode cfg stamp meth biz = decode body"
proof -
  have "map_of env ''sign'' = None" using assms(4) by (simp add: map_of_eq_None_iff)
  then show ?thesis using assms(1-3) by (simp add: doSigned_def verifyResponseSign_def)
qed

text \<open>Only the first member that is visited is verified; the other members of the envelope are not.\<close>

lemma other_members_unverified:
  "verifyResponseSign lib str pk (Inr [(''sign'', s), (''a'', x), (''b'', y)]) = verifyResponseSign lib str pk (Inr [(''sign'', s), (''a'', x), (''b'', z)])"
  by (simp add: verifyResponseSign_def split: option.split list.split)

text \<open>Different parameters have the same text that is signed.\<close>

lemma signed_text_ambiguous:
  "canonical_query (\<lambda>e. snd e \<noteq> []) [(''a'', ''1&b=2'')] = canonical_query (\<lambda>e. snd e \<noteq> []) [(''a'', ''1''), (''b'', ''2'')]"
  by code_simp

text \<open>A value can close the CDATA section it is written into.\<close>

lemma cdata_not_escaped:
  "mapToXML [(''body'', ''x]]></body><total_fee>1</total_fee><body><![CDATA['')] =
     ''<xml><body><![CDATA[x]]></body><total_fee>1</total_fee><body><![CDATA[]]></body></xml>''"
  by code_simp

text \<open>The login code is put into the URL as it is.\<close>

lemma login_code_not_escaped: "code2session_url cfg (''x&grant_type=y'') =
    ''https://api.weixin.qq.com/sns/jscode2session?appid='' @ AppID cfg @ ''&secret='' @ AppSecret cfg @ ''&js_code=x&grant_type=y&grant_type=authorization_code''"
  by (simp add: code2session_url_def)

section \<open>Keys\<close>

text \<open>A key that was broken into lines is put together again, and no line is longer than 64 characters.\<close>

lemma replace_char_remove: "replace_char b [] s = filter (\<lambda>c. c \<noteq> b) s"
  by (induction s) (simp_all add: replace_char_def)

lemma compactKey_filter: "compactKey s = filter (\<lambda>c. c \<noteq> CHR '' '' \<and> c \<noteq> CHR 13 \<and> c \<noteq> CHR 10) s"
  by (simp add: compactKey_def replace_char_remove conj_commute conj_left_commute)

lemma compact_chunk64: "compactKey (chunk64 s) = compactKey s"
proof (induction s rule: chunk64.induct)
  case (1 s)
  have "compactKey s = compactKey (take 64 s) @ compactKey (drop 64 s)"
    unfolding compactKey_filter by (metis append_take_drop_id filter_append)
  then show ?case using 1 by (cases "length s \<le> 64") (simp_all add: chunk64.simps [of s] compactKey_filter)
qed

lemma chunk64_lines: "CHR 10 \<notin> set s \<Longrightarrow> l \<in> set (split_by (CHR 10) (chunk64 s)) \<Longrightarrow> length l \<le> 64"
proof (induction s rule: chunk64.induct)
  case (1 s)
  show ?case
  proof (cases "length s \<le> 64")
    case True
    then show ?thesis using "1.prems" by (simp add: chunk64.simps [of s])
  next
    case False
    have "CHR 10 \<notin> set (take 64 s)" "CHR 10 \<notin> set (drop 64 s)"
      using "1.prems"(1) in_set_takeD in_set_dropD by metis+
    then have "split_by (CHR 10) (chunk64 s) = take 64 s # split_by (CHR 10) (chunk64 (drop 64 s))"
      using False split_by_append_sep [of "CHR 10" "take 64 s"] by (simp add: chunk64.simps [of s])
    then show ?thesis using "1.prems"(2) "1.IH" [OF False \<open>CHR 10 \<notin> set (drop 64 s)\<close>] False by auto
  qed
qed

end
