(* ===== verification/HttpClient.thy ===== *)
theory HttpClient
  imports GoPrelude
begin

text \<open>
  The outgoing HTTP client (\<^verbatim>\<open>client/client.go\<close>): the retry loop and the JSON calls. The transport of the
  standard library is the argument \<open>send\<close>: what it answers to attempt \<open>i\<close> when \<open>body\<close> is still unread in the reader of the
  request, and what it leaves unread. The cancellation of the request's context is the argument \<open>cancelled\<close>: the error
  of the context if it is done before the wait in front of attempt \<open>i\<close> ends. JSON coding is a parameter.
\<close>

section \<open>The client\<close>

record http_client =
  Retries :: int
  Backoff :: int

definition New_client :: http_client where
  "New_client = \<lparr>Retries = 2, Backoff = 200000000\<rparr>"

text \<open>A response: its status and what reading its body gives.\<close>

record http_response =
  resp_StatusCode :: int
  resp_Body :: "string + string"

type_synonym sender = "nat \<Rightarrow> string \<Rightarrow> (string + http_response) \<times> string"

datatype do_event = Waited int | Sent string

text \<open>
  The loop of \<^verbatim>\<open>Do\<close>, with the waits and the bodies that are handed to the transport. The number of retries is a natural number; at the
  largest integer the counter of the code would wrap around, after more attempts than can be made.
\<close>

function do_loop :: "sender \<Rightarrow> (nat \<Rightarrow> string option) \<Rightarrow> int \<Rightarrow> nat \<Rightarrow> nat \<Rightarrow> string \<Rightarrow> string \<Rightarrow> (string + http_response) \<times> do_event list" where
  "do_loop send cancelled backoff retries attempt body last_err =
     (if attempt \<le> retries then
        (let wait = (if attempt > 0 then [Waited (wrap64 (backoff * int attempt))] else []) in
         case (if attempt > 0 then cancelled attempt else None) of
           Some e \<Rightarrow> (Inl e, [])
         | None \<Rightarrow>
             (let rest = snd (send attempt body);
                  again = (\<lambda>err. let (r, evs) = do_loop send cancelled backoff retries (Suc attempt) rest err in (r, wait @ [Sent body] @ evs)) in
              case fst (send attempt body) of
                Inl e \<Rightarrow> again e
              | Inr resp \<Rightarrow>
                  if 500 \<le> resp_StatusCode resp \<and> attempt < retries then again (''gai/client: status '' @ itoa (resp_StatusCode resp))
                  else (Inr resp, wait @ [Sent body])))
      else (Inl (''gai/client: retries exhausted: '' @ last_err), []))"
  by pat_completeness auto
termination
  by (relation "measure (\<lambda>(_, _, _, retries, attempt, _, _). Suc retries - attempt)") auto

declare do_loop.simps [simp del]

definition Do_client :: "sender \<Rightarrow> (nat \<Rightarrow> string option) \<Rightarrow> http_client \<Rightarrow> string \<Rightarrow> (string + http_response) \<times> do_event list" where
  "Do_client send cancelled c body =
     do_loop send cancelled (if Backoff c \<le> 0 then 200000000 else Backoff c) (nat (Retries c)) 0 body []"

definition truncate_body :: "string \<Rightarrow> nat \<Rightarrow> string" where
  "truncate_body b n = (if length b \<le> n then b else take n b @ ''...'')"

text \<open>\<open>decode\<close> is \<^verbatim>\<open>json.Unmarshal\<close> into the destination; \<^const>\<open>None\<close> is a nil destination.\<close>

definition doJSON :: "sender \<Rightarrow> (nat \<Rightarrow> string option) \<Rightarrow> http_client \<Rightarrow> (string \<Rightarrow> string + 'd) option \<Rightarrow> string \<Rightarrow> string + 'd option" where
  "doJSON send cancelled c dst body =
     (case fst (Do_client send cancelled c body) of
        Inl e \<Rightarrow> Inl e
      | Inr resp \<Rightarrow>
          (case resp_Body resp of
             Inl e \<Rightarrow> Inl e
           | Inr b \<Rightarrow>
               if 400 \<le> resp_StatusCode resp then Inl (''gai/client: status '' @ itoa (resp_StatusCode resp) @ '': '' @ truncate_body b 512)
               else (case dst of None \<Rightarrow> Inr None | Some decode \<Rightarrow> (case decode b of Inl e \<Rightarrow> Inl e | Inr d \<Rightarrow> Inr (Some d)))))"

text \<open>\<open>bad\<close> is the error of \<^verbatim>\<open>http.NewRequestWithContext\<close>, if any; the transport gets the method, the URL and the headers.\<close>

type_synonym transport = "string \<Rightarrow> string \<Rightarrow> (string \<times> string) list \<Rightarrow> sender"

definition GetJSON :: "transport \<Rightarrow> (string \<Rightarrow> string option) \<Rightarrow> (nat \<Rightarrow> string option) \<Rightarrow> http_client \<Rightarrow> string \<Rightarrow> (string \<Rightarrow> string + 'd) option \<Rightarrow> string + 'd option" where
  "GetJSON tr bad cancelled c url dst =
     (case bad url of Some e \<Rightarrow> Inl e | None \<Rightarrow> doJSON (tr ''GET'' url []) cancelled c dst [])"

definition PostJSON :: "transport \<Rightarrow> (string \<Rightarrow> string option) \<Rightarrow> (nat \<Rightarrow> string option) \<Rightarrow> http_client \<Rightarrow> string \<Rightarrow> string + string \<Rightarrow> (string \<Rightarrow> string + 'd) option \<Rightarrow> string + 'd option" where
  "PostJSON tr bad cancelled c url payload dst =
     (case payload of
        Inl e \<Rightarrow> Inl e
      | Inr raw \<Rightarrow>
          (case bad url of Some e \<Rightarrow> Inl e | None \<Rightarrow> doJSON (tr ''POST'' url [(''Content-Type'', ''application/json'')]) cancelled c dst raw))"

section \<open>What the loop returns\<close>

text \<open>The body that is left for attempt \<open>i\<close>, and the attempts that do not end the loop.\<close>

fun body_at :: "sender \<Rightarrow> string \<Rightarrow> nat \<Rightarrow> string" where
  "body_at send body 0 = body"
| "body_at send body (Suc i) = snd (send i (body_at send body i))"

definition answer_at :: "sender \<Rightarrow> string \<Rightarrow> nat \<Rightarrow> string + http_response" where
  "answer_at send body i = fst (send i (body_at send body i))"

definition retried :: "nat \<Rightarrow> nat \<Rightarrow> string + http_response \<Rightarrow> bool" where
  "retried retries i r = (case r of Inl _ \<Rightarrow> True | Inr resp \<Rightarrow> 500 \<le> resp_StatusCode resp \<and> i < retries)"

definition loop_from :: "sender \<Rightarrow> int \<Rightarrow> nat \<Rightarrow> string \<Rightarrow> nat \<Rightarrow> string \<Rightarrow> (string + http_response) \<times> do_event list" where
  "loop_from send backoff retries body i err = do_loop send (\<lambda>_. None) backoff retries i (body_at send body i) err"

definition events_at :: "sender \<Rightarrow> int \<Rightarrow> string \<Rightarrow> nat \<Rightarrow> do_event list" where
  "events_at send backoff body i = (if i > 0 then [Waited (wrap64 (backoff * int i))] else []) @ [Sent (body_at send body i)]"

lemma loop_from_retried:
  assumes "i \<le> retries" and "retried retries i (answer_at send body i)"
  shows "\<exists>err'. (\<forall>e. answer_at send body i = Inl e \<longrightarrow> err' = e) \<and>
    loop_from send backoff retries body i err =
      (fst (loop_from send backoff retries body (Suc i) err'), events_at send backoff body i @ snd (loop_from send backoff retries body (Suc i) err'))"
proof (cases "answer_at send body i")
  case (Inl e)
  then show ?thesis using assms
    by (intro exI [of _ e]) (simp add: loop_from_def answer_at_def events_at_def do_loop.simps [of send _ backoff retries i] case_prod_beta Let_def)
next
  case (Inr resp)
  then have "500 \<le> resp_StatusCode resp" "i < retries" using assms(2) by (simp_all add: retried_def)
  then show ?thesis using Inr
    by (intro exI [of _ "''gai/client: status '' @ itoa (resp_StatusCode resp)"])
      (simp add: loop_from_def answer_at_def events_at_def do_loop.simps [of send _ backoff retries i] case_prod_beta Let_def)
qed

lemma loop_from_final:
  assumes "i \<le> retries" and "\<not> retried retries i (answer_at send body i)"
  shows "loop_from send backoff retries body i err = (answer_at send body i, events_at send backoff body i)"
proof -
  obtain resp where r: "answer_at send body i = Inr resp" "\<not> (500 \<le> resp_StatusCode resp \<and> i < retries)"
    using assms(2) by (auto simp: retried_def split: sum.splits)
  then show ?thesis using assms(1)
    by (auto simp: loop_from_def answer_at_def events_at_def do_loop.simps [of send _ backoff retries i] Let_def)
qed

lemma loop_from_run:
  assumes "i \<le> n" and "n \<le> Suc retries" and "\<forall>j. i \<le> j \<and> j < n \<longrightarrow> retried retries j (answer_at send body j)"
  shows "\<exists>err'. (i < n \<longrightarrow> (\<forall>e. answer_at send body (n - 1) = Inl e \<longrightarrow> err' = e)) \<and>
    loop_from send backoff retries body i err =
      (fst (loop_from send backoff retries body n err'), concat (map (events_at send backoff body) [i..<n]) @ snd (loop_from send backoff retries body n err'))"
  using assms
proof (induction n rule: nat_induct)
  case (Suc n)
  show ?case
  proof (cases "i = Suc n")
    case False
    then obtain e1 where e1: "loop_from send backoff retries body i err =
        (fst (loop_from send backoff retries body n e1), concat (map (events_at send backoff body) [i..<n]) @ snd (loop_from send backoff retries body n e1))"
      using Suc by auto
    obtain e2 where "\<forall>e. answer_at send body n = Inl e \<longrightarrow> e2 = e" "loop_from send backoff retries body n e1 =
        (fst (loop_from send backoff retries body (Suc n) e2), events_at send backoff body n @ snd (loop_from send backoff retries body (Suc n) e2))"
      using loop_from_retried [of n retries send body backoff e1] Suc.prems False by auto
    then show ?thesis using e1 False Suc.prems(1) by (intro exI [of _ e2]) auto
  qed auto
qed auto



section \<open>A retry does not send the body again\<close>

text \<open>
  The reader of the request is not reset: after an attempt that has read the body, the next one has nothing to send.
\<close>

lemma retry_sends_empty_body:
  assumes "send 0 body = (Inl e, [])" and "0 < Retries c" and "\<forall>i. cancelled i = None"
  shows "\<exists>w evs. snd (Do_client send cancelled c body) = Sent body # Waited w # Sent [] # evs"
proof -
  let ?b = "if Backoff c \<le> 0 then 200000000 else Backoff c" and ?n = "nat (Retries c)"
  have c: "cancelled = (\<lambda>_. None)" using assms(3) by auto
  have n1: "1 \<le> ?n" using assms(2) by linarith
  have r0: "retried ?n 0 (answer_at send body 0)" using assms(1) by (simp add: retried_def answer_at_def)
  have b1: "body_at send body 1 = []" using assms(1) by simp
  obtain e1 where "snd (loop_from send ?b ?n body 0 []) = events_at send ?b body 0 @ snd (loop_from send ?b ?n body 1 e1)"
    using loop_from_retried [OF _ r0, of ?b "[]"] by auto
  moreover have "\<exists>evs. snd (loop_from send ?b ?n body 1 e1) = events_at send ?b body 1 @ evs"
  proof (cases "retried ?n 1 (answer_at send body 1)")
    case True
    then show ?thesis using loop_from_retried [OF n1 True, of ?b e1] by auto
  next
    case False
    then show ?thesis using loop_from_final [OF n1 False, of ?b e1] by auto
  qed
  ultimately show ?thesis using b1 c by (auto simp: Do_client_def loop_from_def events_at_def)
qed

text \<open>A cancelled context ends the loop with its error, and no further attempt is made.\<close>

lemma cancelled_stops:
  assumes "send 0 body = (Inl e, rest)" and "cancelled 1 = Some why" and "0 < Retries c"
  shows "Do_client send cancelled c body = (Inl why, [Sent body])"
proof -
  have "Suc 0 \<le> nat (Retries c)" using assms(3) by linarith
  then have "do_loop send cancelled b (nat (Retries c)) (Suc 0) rest e = (Inl why, [])" for b
    using assms(2) by (subst do_loop.simps) (simp add: Let_def)
  then show ?thesis using assms(1) by (simp add: Do_client_def do_loop.simps [of send _ _ _ 0] Let_def)
qed

lemma truncate_body_bound: "length (truncate_body b n) \<le> n + 3"
  by (simp add: truncate_body_def)

end
