(* ===== verification/Mail.thy ===== *)
theory Mail
  imports GoPrelude
begin

text \<open>
  Outgoing mail (\<^verbatim>\<open>mail/mail.go\<close>): the text of a message and the SMTP session. The multipart writer and the base64 encoder of the
  standard library are written out; the random boundary is an argument. A write into the buffer cannot fail, so \<open>buildBody\<close> has no
  error. The server is a function from the commands sent so far, the last one included, to the error it answers.
\<close>

section \<open>Messages\<close>

record Attachment =
  att_Name :: string
  att_ContentType :: string
  att_Data :: string

record Message =
  msg_From :: string
  msg_To :: "string list"
  msg_Subject :: string
  msg_Text :: string
  msg_HTML :: string
  Attachments :: "Attachment list"

abbreviation crlf :: string where
  "crlf \<equiv> [CHR 0x0D, CHR 0x0A]"

text \<open>\<^verbatim>\<open>base64.StdEncoding\<close>.\<close>

definition b64_char :: "nat \<Rightarrow> char" where
  "b64_char n =
     (if n < 26 then char_of (65 + n) else if n < 52 then char_of (71 + n) else if n < 62 then char_of (n - 4)
      else if n = 62 then CHR ''+'' else CHR ''/'')"

fun b64_encode :: "string \<Rightarrow> string" where
  "b64_encode [] = []"
| "b64_encode [a] = [b64_char (ord a div 4), b64_char (ord a mod 4 * 16), CHR ''='', CHR ''='']"
| "b64_encode [a, b] =
     [b64_char (ord a div 4), b64_char (ord a mod 4 * 16 + ord b div 16), b64_char (ord b mod 16 * 4), CHR ''='']"
| "b64_encode (a # b # c # s) =
     b64_char (ord a div 4) # b64_char (ord a mod 4 * 16 + ord b div 16) # b64_char (ord b mod 16 * 4 + ord c div 64) #
     b64_char (ord c mod 64) # b64_encode s"

text \<open>
  A part as \<^verbatim>\<open>CreatePart\<close> writes it: the headers sorted by key, a blank line, the content. Every part but the first is preceded by
  the line break that belongs to the delimiter.
\<close>

type_synonym part = "string list \<times> string"

definition header_block :: "string list \<Rightarrow> string" where
  "header_block ls = concat (map (\<lambda>l. l @ crlf) ls) @ crlf"

definition write_parts :: "string \<Rightarrow> part list \<Rightarrow> string" where
  "write_parts boundary ps =
     join (map (\<lambda>(ls, content). ''--'' @ boundary @ crlf @ header_block ls @ content) ps) crlf @ crlf @ ''--'' @ boundary @ ''--'' @ crlf"

definition attachment_part :: "Attachment \<Rightarrow> part" where
  "attachment_part a =
     ([''Content-Disposition: attachment; filename='' @ [CHR 0x22] @ att_Name a @ [CHR 0x22],
       ''Content-Transfer-Encoding: base64'',
       ''Content-Type: '' @ (if att_ContentType a = [] then ''application/octet-stream'' else att_ContentType a)],
      b64_encode (att_Data a))"

definition message_parts :: "Message \<Rightarrow> part list" where
  "message_parts msg =
     (if msg_HTML msg \<noteq> [] then [([''Content-Type: text/html; charset=UTF-8''], msg_HTML msg)]
      else if msg_Text msg \<noteq> [] then [([''Content-Type: text/plain; charset=UTF-8''], msg_Text msg)]
      else []) @ map attachment_part (Attachments msg)"

definition mail_headers :: "string \<Rightarrow> string \<Rightarrow> Message \<Rightarrow> string list" where
  "mail_headers boundary from msg =
     [''From: '' @ from, ''To: '' @ join (msg_To msg) '', '', ''Subject: '' @ msg_Subject msg] @
     (if Attachments msg = [] \<and> msg_HTML msg = [] then [''Content-Type: text/plain; charset=UTF-8'']
      else [''MIME-Version: 1.0'', ''Content-Type: multipart/mixed; boundary='' @ boundary])"

definition buildBody :: "string \<Rightarrow> string \<Rightarrow> Message \<Rightarrow> string" where
  "buildBody boundary from msg =
     header_block (mail_headers boundary from msg) @
     (if Attachments msg = [] \<and> msg_HTML msg = [] then msg_Text msg else write_parts boundary (message_parts msg))"

section \<open>The SMTP session\<close>

record SMTPMailer =
  smtp_Host :: string
  smtp_Port :: int
  smtp_Username :: string
  smtp_Password :: string
  smtp_From :: string
  smtp_TLS :: bool

datatype smtp_cmd =
    SendMail string "(string \<times> string) option" string "string list" string
  | Dial string
  | Greeting string
  | StartTLS string
  | AuthPlain string string
  | MailFrom string
  | RcptTo string
  | DataStart
  | Payload string
  | DataEnd
  | Quit

text \<open>The commands are sent one after the other until the server answers one with an error.\<close>

fun run_smtp :: "(smtp_cmd list \<Rightarrow> string option) \<Rightarrow> smtp_cmd list \<Rightarrow> smtp_cmd list \<Rightarrow> string option \<times> smtp_cmd list" where
  "run_smtp srv hist [] = (None, hist)"
| "run_smtp srv hist (c # cs) = (case srv (hist @ [c]) of Some e \<Rightarrow> (Some e, hist @ [c]) | None \<Rightarrow> run_smtp srv (hist @ [c]) cs)"

definition smtp_script :: "bool \<Rightarrow> SMTPMailer \<Rightarrow> string \<Rightarrow> string list \<Rightarrow> string \<Rightarrow> smtp_cmd list" where
  "smtp_script starttls s from to body =
     (let addr = smtp_Host s @ '':'' @ itoa (smtp_Port s); login = (smtp_Username s, smtp_Password s) in
      if \<not> smtp_TLS s then [SendMail addr (if smtp_Username s \<noteq> [] then Some login else None) from to body]
      else [Dial addr, Greeting (smtp_Host s)] @
        (if starttls then [StartTLS (smtp_Host s)] else []) @
        (if smtp_Username s \<noteq> [] then [AuthPlain (smtp_Username s) (smtp_Password s)] else []) @
        [MailFrom from] @ map RcptTo to @ [DataStart, Payload body, DataEnd, Quit])"

text \<open>\<open>starttls\<close> is what the server answers to the question for the extension.\<close>

definition SMTP_Send :: "(smtp_cmd list \<Rightarrow> string option) \<Rightarrow> bool \<Rightarrow> string \<Rightarrow> SMTPMailer \<Rightarrow> Message \<Rightarrow> string option \<times> smtp_cmd list" where
  "SMTP_Send srv starttls boundary s msg =
     (let from = (if msg_From msg = [] then smtp_From s else msg_From msg) in
      run_smtp srv [] (smtp_script starttls s from (msg_To msg) (buildBody boundary from msg)))"

definition Log_Send :: "Message list \<Rightarrow> Message \<Rightarrow> string option \<times> Message list" where
  "Log_Send sent_msgs msg = (None, sent_msgs @ [msg])"

section \<open>Reading a message\<close>

text \<open>The reader the lemmas compare with: the header lines up to the blank line, and the parts between the delimiters.\<close>

fun cut_at :: "string \<Rightarrow> string \<Rightarrow> (string \<times> string) option" where
  "cut_at sep s =
     (if has_prefix s sep then Some ([], drop (length sep) s)
      else case s of [] \<Rightarrow> None | c # cs \<Rightarrow> map_option (\<lambda>(a, b). (c # a, b)) (cut_at sep cs))"

declare cut_at.simps [simp del]

lemma cut_at_length: "cut_at sep s = Some (a, b) \<Longrightarrow> length s = length a + length sep + length b"
proof (induction s arbitrary: a)
  case Nil
  then show ?case by (auto simp: cut_at.simps has_prefix_def split: if_splits)
next
  case (Cons c s)
  show ?case
  proof (cases "has_prefix (c # s) sep")
    case True
    then obtain t where "c # s = sep @ t" by (auto simp: has_prefix_iff)
    then have "length (c # s) = length sep + length t" by simp
    then show ?thesis using Cons.prems True \<open>c # s = sep @ t\<close> by (auto simp: cut_at.simps)
  next
    case False
    then obtain a' where "cut_at sep s = Some (a', b)" "a = c # a'" using Cons.prems by (auto simp: cut_at.simps [of sep "c # s"])
    then show ?thesis using Cons.IH by simp
  qed
qed

function split_on :: "string \<Rightarrow> string \<Rightarrow> string list" where
  "split_on sep s = (case cut_at sep s of None \<Rightarrow> [s] | Some (a, b) \<Rightarrow> if sep = [] then [s] else a # split_on sep b)"
  by auto
termination
  by (relation "measure (\<lambda>(sep, s). length s)") (auto dest!: cut_at_length)

declare split_on.simps [simp del]

function read_head :: "string \<Rightarrow> part" where
  "read_head s = (case cut_at crlf s of
     None \<Rightarrow> ([], s)
   | Some (l, r) \<Rightarrow> if l = [] then ([], r) else (l # fst (read_head r), snd (read_head r)))"
  by auto
termination
  by (relation "measure length") (auto dest!: cut_at_length)

declare read_head.simps [simp del]

definition read_parts :: "string \<Rightarrow> string \<Rightarrow> part list" where
  "read_parts boundary body = map (\<lambda>p. read_head (drop 2 p)) (butlast (tl (split_on (crlf @ ''--'' @ boundary) (crlf @ body))))"

lemma contains_iff: "contains s t \<longleftrightarrow> (\<exists>a b. s = a @ t @ b)"
proof (induction s)
  case Nil
  then show ?case by (auto simp: has_prefix_def)
next
  case (Cons c s)
  have "(\<exists>a b. c # s = a @ t @ b) \<longleftrightarrow> has_prefix (c # s) t \<or> (\<exists>a b. s = a @ t @ b)"
    unfolding has_prefix_iff by (metis append_Cons append_Nil append_eq_Cons_conv)
  then show ?case using Cons by simp
qed

text \<open>A separator whose first byte does not come again in it does not overlap with itself.\<close>

lemma cut_at_append: "c \<notin> set r \<Longrightarrow> \<not> contains x (c # r) \<Longrightarrow> cut_at (c # r) (x @ (c # r) @ y) = Some (x, y)"
proof (induction x)
  case Nil
  then show ?case by (simp add: cut_at.simps)
next
  case (Cons a x)
  have "\<not> has_prefix ((a # x) @ (c # r) @ y) (c # r)"
  proof
    assume "has_prefix ((a # x) @ (c # r) @ y) (c # r)"
    then obtain t where t: "(a # x) @ (c # r) @ y = (c # r) @ t" by (auto simp: has_prefix_iff)
    then consider u where "a # x = (c # r) @ u" | u where "(a # x) @ u = c # r" "u \<noteq> []" "(c # r) @ y = u @ t"
      unfolding append_eq_append_conv2 by (metis append_Nil2)
    then show False
    proof cases
      case 1
      then have "contains (a # x) (c # r)" unfolding contains_iff by (metis append_Nil)
      then show False using Cons.prems(2) by blast
    next
      case 2
      then have "hd u = c" by (cases u) auto
      moreover have "r = x @ u" using 2(1) by simp
      ultimately have "c \<in> set r" using 2(2) by (cases u) auto
      then show False using Cons.prems(1) by blast
    qed
  qed
  moreover have "cut_at (c # r) (x @ (c # r) @ y) = Some (x, y)" using Cons by simp
  ultimately show ?case by (subst cut_at.simps) simp
qed

lemma cut_at_absent: "sep \<noteq> [] \<Longrightarrow> \<not> contains x sep \<Longrightarrow> cut_at sep x = None"
proof (induction x)
  case Nil
  then show ?case by (subst cut_at.simps) (simp add: has_prefix_def)
next
  case (Cons a x)
  then show ?case by (subst cut_at.simps) simp
qed

lemma split_on_append:
  "c \<notin> set r \<Longrightarrow> \<not> contains x (c # r) \<Longrightarrow> split_on (c # r) (x @ (c # r) @ y) = x # split_on (c # r) y"
  using cut_at_append [of c r x y] by (subst split_on.simps) simp

lemma split_on_absent: "sep \<noteq> [] \<Longrightarrow> \<not> contains x sep \<Longrightarrow> split_on sep x = [x]"
  by (subst split_on.simps) (simp add: cut_at_absent)

lemma split_on_joined:
  assumes "c \<notin> set r" and "\<And>x. x \<in> set xs \<Longrightarrow> \<not> contains x (c # r)" and "\<not> contains z (c # r)"
  shows "split_on (c # r) (concat (map (\<lambda>x. x @ c # r) xs) @ z) = xs @ [z]"
  using assms(2)
proof (induction xs)
  case Nil
  then show ?case using assms(3) by (simp add: split_on_absent)
next
  case (Cons x xs)
  then show ?case using split_on_append [OF assms(1), of x "concat (map (\<lambda>x. x @ c # r) xs) @ z"] by simp
qed

lemma contains_absent: "CHR 0x0D \<notin> set l \<Longrightarrow> \<not> contains l (CHR 0x0D # r)"
  by (auto simp: contains_iff)

text \<open>Header lines without a carriage return are read back.\<close>

lemma read_head_block:
  "(\<And>l. l \<in> set ls \<Longrightarrow> l \<noteq> [] \<and> CHR 0x0D \<notin> set l) \<Longrightarrow> read_head (header_block ls @ content) = (ls, content)"
proof (induction ls)
  case Nil
  have "cut_at crlf ([] @ crlf @ content) = Some ([], content)" by (rule cut_at_append) simp_all
  then show ?case by (subst read_head.simps) (simp add: header_block_def)
next
  case (Cons l ls)
  have "cut_at crlf (l @ crlf @ header_block ls @ content) = Some (l, header_block ls @ content)"
    using Cons.prems by (intro cut_at_append) (simp_all add: contains_absent)
  moreover have "header_block (l # ls) @ content = l @ crlf @ header_block ls @ content" by (simp add: header_block_def)
  moreover have "read_head (header_block ls @ content) = (ls, content)" "l \<noteq> []" using Cons by simp_all
  ultimately show ?case by (subst read_head.simps) simp
qed

section \<open>What was written is read back\<close>

fun b64_val :: "char \<Rightarrow> nat" where
  "b64_val c =
     (if is_upper c then ord c - 65 else if is_lower c then ord c - 71 else if is_digit c then ord c + 4
      else if c = CHR ''+'' then 62 else 63)"

fun b64_decode :: "string \<Rightarrow> string" where
  "b64_decode (a # b # c # d # s) =
     char_of (b64_val a * 4 + b64_val b div 16) #
     (if c = CHR ''='' then []
      else char_of (b64_val b mod 16 * 16 + b64_val c div 4) #
        (if d = CHR ''='' then [] else char_of (b64_val c mod 4 * 64 + b64_val d) # b64_decode s))"
| "b64_decode s = []"

lemma ord_b64_char:
  "n < 64 \<Longrightarrow> ord (b64_char n) = (if n < 26 then 65 + n else if n < 52 then 71 + n else if n < 62 then n - 4 else if n = 62 then 43 else 47)"
  by (simp add: b64_char_def)

lemma b64_char_cases:
  assumes "n < 64"
  shows "b64_val (b64_char n) = n" "b64_char n \<noteq> CHR ''=''" "b64_char n \<noteq> CHR ''-''" "b64_char n \<noteq> CHR 0x0D"
proof -
  consider "n < 26" | "26 \<le> n" "n < 52" | "52 \<le> n" "n < 62" | "n = 62" | "n = 63" using assms by linarith
  then show "b64_val (b64_char n) = n"
    by cases (simp_all add: is_upper_def is_lower_def is_digit_def ord_b64_char, auto simp: b64_char_def)
  have o: "ord (b64_char n) \<noteq> 61" "ord (b64_char n) \<noteq> 45" "ord (b64_char n) \<noteq> 13" using assms by (auto simp: ord_b64_char)
  from o(1) show "b64_char n \<noteq> CHR ''=''" by (rule contrapos_nn) simp
  from o(2) show "b64_char n \<noteq> CHR ''-''" by (rule contrapos_nn) simp
  from o(3) show "b64_char n \<noteq> CHR 0x0D" by (rule contrapos_nn) simp
qed

lemma b64_ranges:
  "ord a div 4 < 64" "ord a mod 4 * 16 + ord b div 16 < 64" "ord b mod 16 * 4 + ord c div 64 < 64" "ord c mod 64 < 64"
  "ord a mod 4 * 16 < 64" "ord b mod 16 * 4 < 64"
  using ord_lt_256 [of a] ord_lt_256 [of b] ord_lt_256 [of c] by linarith+

lemma b64_digits:
  "ord b div 16 div 16 = 0" "ord b div 16 mod 16 = ord b div 16" "ord c div 64 div 4 = 0" "ord c div 64 mod 4 = ord c div 64"
proof -
  have "ord b div 16 < 16" "ord c div 64 < 4" using ord_lt_256 [of b] ord_lt_256 [of c] by linarith+
  then show "ord b div 16 div 16 = 0" "ord b div 16 mod 16 = ord b div 16" "ord c div 64 div 4 = 0" "ord c div 64 mod 4 = ord c div 64"
    by simp_all
qed

lemma b64_decode_encode: "b64_decode (b64_encode s) = s"
  by (induction s rule: b64_encode.induct)
    (simp_all add: b64_char_cases b64_ranges b64_digits del: b64_val.simps)

lemma b64_char_no: "n < 64 \<Longrightarrow> CHR 0x0D \<noteq> b64_char n" "n < 64 \<Longrightarrow> CHR ''-'' \<noteq> b64_char n"
  using b64_char_cases(3,4) [of n] by (simp_all add: eq_commute [of "b64_char n"])

lemma set_b64_encode: "CHR 0x0D \<notin> set (b64_encode s)" "CHR ''-'' \<notin> set (b64_encode s)"
  by (induction s rule: b64_encode.induct) (simp_all add: b64_char_no b64_ranges)

abbreviation delimiter :: "string \<Rightarrow> string" where
  "delimiter boundary \<equiv> CHR 0x0D # CHR 0x0A # CHR ''-'' # CHR ''-'' # boundary"

definition readable :: "string \<Rightarrow> part \<Rightarrow> bool" where
  "readable boundary p \<longleftrightarrow>
     list_all (\<lambda>l. l \<noteq> [] \<and> hd l \<noteq> CHR ''-'' \<and> CHR 0x0D \<notin> set l) (fst p) \<and> \<not> contains (crlf @ snd p) (delimiter boundary)"

lemma contains_skip: "c \<notin> set l \<Longrightarrow> contains (l @ s) (c # r) = contains s (c # r)"
  by (induction l) auto

lemma readable_segment: "readable boundary (ls, content) \<Longrightarrow> \<not> contains (crlf @ header_block ls @ content) (delimiter boundary)"
proof (induction ls)
  case Nil
  then show ?case by (simp add: readable_def header_block_def)
next
  case (Cons l ls)
  then have l: "l \<noteq> []" "hd l \<noteq> CHR ''-''" "CHR 0x0D \<notin> set l" by (simp_all add: readable_def)
  have "readable boundary (ls, content)" using Cons.prems by (simp add: readable_def)
  then have ih: "\<not> contains (crlf @ header_block ls @ content) (delimiter boundary)" by (rule Cons.IH)
  obtain a l' where "l = a # l'" using l(1) by (cases l) auto
  then have "\<not> has_prefix (crlf @ l @ crlf @ header_block ls @ content) (delimiter boundary)" using l(2) by simp
  then show ?case using ih contains_skip [OF l(3), of "crlf @ header_block ls @ content"] by (simp add: header_block_def)
qed

lemma write_parts_eq:
  assumes "ps \<noteq> []"
  shows "crlf @ write_parts boundary ps =
    concat (map (\<lambda>x. x @ delimiter boundary) ([] # map (\<lambda>(ls, content). crlf @ header_block ls @ content) ps)) @ ''--'' @ crlf"
proof -
  have "delimiter boundary @ concat (map (\<lambda>x. x @ delimiter boundary) (map g qs)) =
      crlf @ join (map (\<lambda>p. ''--'' @ boundary @ g p) qs) crlf @ delimiter boundary"
    if "qs \<noteq> []" for g :: "part \<Rightarrow> string" and qs
    using that by (induction qs rule: list_nonempty_induct) (simp_all add: join_Cons)
  from this [OF assms, of "\<lambda>(ls, content). crlf @ header_block ls @ content"] show ?thesis
    by (simp add: write_parts_def case_prod_unfold)
qed

lemma read_parts_write:
  assumes "CHR 0x0D \<notin> set boundary" and "ps \<noteq> []" and "list_all (readable boundary) ps"
  shows "read_parts boundary (write_parts boundary ps) = ps"
proof -
  let ?seg = "\<lambda>(ls, content). crlf @ header_block ls @ content"
  have "\<not> contains x (delimiter boundary)" if "x \<in> set ([] # map ?seg ps)" for x
    using that assms(3) readable_segment by (auto simp: list_all_iff)
  moreover have "\<not> contains (''--'' @ crlf) (delimiter boundary)" by (simp add: has_prefix_def)
  ultimately have "split_on (delimiter boundary) (crlf @ write_parts boundary ps) = ([] # map ?seg ps) @ [''--'' @ crlf]"
    unfolding write_parts_eq [OF assms(2)] using assms(1) by (intro split_on_joined) auto
  then have "read_parts boundary (write_parts boundary ps) = map (\<lambda>p. read_head (drop 2 (?seg p))) ps"
    by (simp add: read_parts_def comp_def)
  also have "\<dots> = ps"
    using assms(3) by (intro map_idI) (auto simp: list_all_iff readable_def read_head_block)
  finally show ?thesis .
qed

definition well_formed_mail :: "string \<Rightarrow> string \<Rightarrow> Message \<Rightarrow> bool" where
  "well_formed_mail boundary from msg \<longleftrightarrow>
     list_all (\<lambda>s. CHR 0x0D \<notin> set s)
       (boundary # from # msg_Subject msg # msg_To msg @ map att_Name (Attachments msg) @ map att_ContentType (Attachments msg)) \<and>
     list_all (\<lambda>s. \<not> contains (crlf @ s) (delimiter boundary)) [msg_HTML msg, msg_Text msg]"

lemma readable_message:
  assumes "well_formed_mail boundary from msg"
  shows "list_all (readable boundary) (message_parts msg)"
proof -
  have "readable boundary (attachment_part a)" if "a \<in> set (Attachments msg)" for a
  proof -
    have "CHR 0x0D \<notin> set (att_Name a)" "CHR 0x0D \<notin> set (att_ContentType a)"
      using assms that by (auto simp: well_formed_mail_def list_all_iff)
    moreover have "\<not> contains (crlf @ b64_encode (att_Data a)) (delimiter boundary)"
    proof -
      have "\<not> has_prefix (b64_encode (att_Data a)) (CHR ''-'' # t)" for t
        using set_b64_encode(2) [of "att_Data a"] by (cases "b64_encode (att_Data a)") auto
      moreover have "\<not> contains (b64_encode (att_Data a)) (delimiter boundary)" using set_b64_encode(1) by (rule contains_absent)
      ultimately show ?thesis by simp
    qed
    ultimately show ?thesis by (simp add: readable_def attachment_part_def)
  qed
  then have 1: "list_all (readable boundary) (map attachment_part (Attachments msg))" by (simp add: list_all_iff)
  have "\<not> contains (crlf @ msg_HTML msg) (delimiter boundary)" "\<not> contains (crlf @ msg_Text msg) (delimiter boundary)"
    using assms by (simp_all add: well_formed_mail_def)
  then have "readable boundary ([''Content-Type: text/html; charset=UTF-8''], msg_HTML msg)"
    "readable boundary ([''Content-Type: text/plain; charset=UTF-8''], msg_Text msg)"
    by (simp_all add: readable_def)
  with 1 show ?thesis by (simp add: message_parts_def)
qed


definition sample_mail :: Message where
  "sample_mail = \<lparr>msg_From = ''a@x'', msg_To = [''b@y'', ''c@z''], msg_Subject = ''hi'', msg_Text = [], msg_HTML = ''<p>'',
     Attachments = [\<lparr>att_Name = ''f'', att_ContentType = [], att_Data = ''data''\<rparr>]\<rparr>"


section \<open>Sending\<close>

lemma run_smtp_accepted:
  "x \<in> set (snd (run_smtp srv hist (pre @ suf))) \<Longrightarrow> x \<notin> set hist \<union> set pre \<Longrightarrow> c \<in> set pre \<Longrightarrow> \<exists>h. srv (h @ [c]) = None"
proof (induction pre arbitrary: hist)
  case (Cons d pre)
  show ?case
  proof (cases "srv (hist @ [d])")
    case None
    then show ?thesis using Cons.IH [of "hist @ [d]"] Cons.prems by auto
  next
    case (Some e)
    then show ?thesis using Cons.prems by auto
  qed
qed simp

lemma smtp_script_split:
  assumes "smtp_TLS s"
  shows "\<exists>pre. smtp_script starttls s from to body = pre @ [Payload body, DataEnd, Quit] \<and>
    (\<forall>b. Payload b \<notin> set pre) \<and> DataEnd \<notin> set pre \<and> Quit \<notin> set pre \<and> (\<forall>t\<in>set to. RcptTo t \<in> set pre)"
  using assms
  by (intro exI [of _ "[Dial (smtp_Host s @ '':'' @ itoa (smtp_Port s)), Greeting (smtp_Host s)] @ (if starttls then [StartTLS (smtp_Host s)] else []) @
      (if smtp_Username s \<noteq> [] then [AuthPlain (smtp_Username s) (smtp_Password s)] else []) @ [MailFrom from] @ map RcptTo to @ [DataStart]"])
    (auto simp: smtp_script_def Let_def)

text \<open>The body of a message is sent only after every recipient was accepted.\<close>

lemma payload_after_recipients:
  assumes "smtp_TLS s" and "Payload body \<in> set (snd (SMTP_Send srv starttls boundary s msg))" and "to \<in> set (msg_To msg)"
  shows "\<exists>h. srv (h @ [RcptTo to]) = None"
proof -
  let ?from = "if msg_From msg = [] then smtp_From s else msg_From msg"
  obtain pre where pre: "smtp_script starttls s ?from (msg_To msg) (buildBody boundary ?from msg) = pre @ [Payload (buildBody boundary ?from msg), DataEnd, Quit]"
    "\<forall>b. Payload b \<notin> set pre" "RcptTo to \<in> set pre"
    using smtp_script_split [OF assms(1)] assms(3) by metis
  then have "Payload body \<in> set (snd (run_smtp srv [] (pre @ [Payload (buildBody boundary ?from msg), DataEnd, Quit])))"
    using assms(2) by (simp add: SMTP_Send_def Let_def)
  then show ?thesis by (rule run_smtp_accepted) (use pre in auto)
qed

section \<open>Weak spots\<close>

text \<open>A line break in the subject adds a header; HTML replaces the text; a failed QUIT is reported although the message was taken.\<close>

lemma subject_adds_header:
  "buildBody b f \<lparr>msg_From = f, msg_To = to, msg_Subject = ''x'' @ crlf @ ''Bcc: y'', msg_Text = t, msg_HTML = [], Attachments = []\<rparr> =
     header_block [''From: '' @ f, ''To: '' @ join to '', '', ''Subject: x'', ''Bcc: y'', ''Content-Type: text/plain; charset=UTF-8''] @ t"
  by (simp add: buildBody_def mail_headers_def header_block_def)

lemma text_dropped: "msg_HTML msg \<noteq> [] \<Longrightarrow> buildBody b f (msg\<lparr>msg_Text := t\<rparr>) = buildBody b f msg"
  by (simp add: buildBody_def mail_headers_def message_parts_def)

lemma run_smtp_until_quit:
  assumes "\<And>h c. srv (h @ [c]) = (if c = Quit then Some e else None)"
  shows "Quit \<notin> set cs \<Longrightarrow> run_smtp srv h (cs @ [Quit]) = (Some e, h @ cs @ [Quit])"
  using assms by (induction cs arbitrary: h) auto

lemma failed_quit_reported:
  assumes "smtp_TLS s" and "\<And>h c. srv (h @ [c]) = (if c = Quit then Some e else None)"
  shows "fst (SMTP_Send srv starttls b s msg) = Some e \<and> DataEnd \<in> set (snd (SMTP_Send srv starttls b s msg))"
proof -
  let ?from = "if msg_From msg = [] then smtp_From s else msg_From msg"
  obtain pre where pre: "smtp_script starttls s ?from (msg_To msg) (buildBody b ?from msg) = (pre @ [Payload (buildBody b ?from msg), DataEnd]) @ [Quit]"
    "Quit \<notin> set pre"
    using smtp_script_split [OF assms(1)] by (metis append.assoc append_Cons append_Nil)
  then have "run_smtp srv [] ((pre @ [Payload (buildBody b ?from msg), DataEnd]) @ [Quit]) =
      (Some e, [] @ (pre @ [Payload (buildBody b ?from msg), DataEnd]) @ [Quit])"
    by (intro run_smtp_until_quit assms(2)) auto
  then show ?thesis using pre(1) by (simp add: SMTP_Send_def Let_def)
qed

text \<open>A server that does not offer STARTTLS gets the message in the clear although the mailer asks for TLS.\<close>

lemma tls_not_enforced:
  assumes "smtp_TLS s" and "smtp_Username s = []" and "\<And>h. srv h = None"
  shows "\<exists>cs. SMTP_Send srv False b s msg = (None, cs) \<and> StartTLS (smtp_Host s) \<notin> set cs"
proof -
  let ?from = "if msg_From msg = [] then smtp_From s else msg_From msg"
  let ?cs = "smtp_script False s ?from (msg_To msg) (buildBody b ?from msg)"
  have "run_smtp srv h cs = (None, h @ cs)" for h cs using assms(3) by (induction cs arbitrary: h) simp_all
  then have "SMTP_Send srv False b s msg = (None, ?cs)" by (simp only: SMTP_Send_def Let_def append_Nil)
  moreover have "StartTLS (smtp_Host s) \<notin> set ?cs" using assms(1) by (auto simp: smtp_script_def Let_def)
  ultimately show ?thesis by blast
qed

end
