(* ===== verification/Tracing.thy ===== *)
theory Tracing
  imports HttpContext "HOL-Library.AList"
begin

text \<open>
  Tracing and logging (\<^verbatim>\<open>tracing/tracing.go\<close>, \<^verbatim>\<open>tracing/otlp.go\<close>, \<^verbatim>\<open>logging/logging.go\<close>): spans, their identifiers and the
  W3C header, the middleware that opens a span per request, and what is exported when a span ends. The random
  bytes of an identifier and the duration of a span are arguments; the attributes of a span are a list of entries in the order in which Go visits
  the map. An exporter function is a value of the type \<open>'f\<close>; that it was called with a span is recorded as a report.
\<close>

section \<open>Spans\<close>

datatype 'f exporter = OtelLog string | Callback 'f

record 'f span =
  sp_name :: string
  traceID :: string
  spanID :: string
  parentID :: string
  sp_attrs :: "(string \<times> goval) list"
  sp_err :: "string option"
  sp_ended :: bool
  onEnd :: "'f exporter option"

text \<open>The values a Go context carries for this package: the active span and the incoming header.\<close>

record 'f gctx =
  active :: "'f span option"
  traceparent :: "string option"

definition SetAttribute :: "string \<Rightarrow> goval \<Rightarrow> 'f span \<Rightarrow> 'f span" where
  "SetAttribute key v s = s\<lparr>sp_attrs := AList.update key v (sp_attrs s)\<rparr>"

definition RecordError :: "string \<Rightarrow> 'f span \<Rightarrow> 'f span" where
  "RecordError e s = s\<lparr>sp_err := Some e\<rparr>"

text \<open>\<^verbatim>\<open>End\<close> reports the span the first time; what the report is depends on the exporter the span was started with.\<close>

definition End_span :: "'f span \<Rightarrow> 'f span \<times> 'f span list" where
  "End_span s = (if sp_ended s then (s, []) else (s\<lparr>sp_ended := True\<rparr>, [s\<lparr>sp_ended := True\<rparr>]))"

text \<open>The level, the message and the arguments of a log line; a callback logs nothing.\<close>

definition log_line :: "int \<Rightarrow> 'f span \<Rightarrow> (string \<times> string \<times> (string \<times> goval) list) option" where
  "log_line ms s =
     (let ids = [(''span'', GStr (sp_name s)), (''trace_id'', GStr (traceID s)), (''span_id'', GStr (spanID s)), (''duration_ms'', GInt ms)];
          parent = (\<lambda>k. if parentID s \<noteq> [] then [(k, GStr (parentID s))] else []) in
      case onEnd s of
        None \<Rightarrow>
          (let args = ids @ parent ''parent_id'' @ sp_attrs s in
           case sp_err s of Some e \<Rightarrow> Some (''ERROR'', ''span'', args @ [(''error'', GStr e)]) | None \<Rightarrow> Some (''DEBUG'', ''span'', args))
      | Some (OtelLog svc) \<Rightarrow>
          (let args = (''service'', GStr svc) # ids @ parent ''parent_span_id'' @ sp_attrs s in
           case sp_err s of
             Some e \<Rightarrow> Some (''INFO'', ''otel.span'', args @ [(''status'', GStr ''error''), (''error'', GStr e)])
           | None \<Rightarrow> Some (''INFO'', ''otel.span'', args @ [(''status'', GStr ''ok'')]))
      | Some (Callback f) \<Rightarrow> None)"

text \<open>The process-wide exporter is explicit state.\<close>

definition Setup_tracing :: "string \<Rightarrow> bool \<Rightarrow> 'f exporter option" where
  "Setup_tracing service enabled = (if \<not> enabled then None else Some (OtelLog (if service = [] then ''gai'' else service)))"

definition SetExporter :: "'f option \<Rightarrow> 'f exporter option" where
  "SetExporter f = map_option Callback f"

text \<open>The callback of \<^verbatim>\<open>EnableOTLP\<close> posts this object to the endpoint, and ignores every error.\<close>

definition otlp_payload :: "int \<Rightarrow> 'f span \<Rightarrow> goval" where
  "otlp_payload ns s =
     GMap ([(''name'', GStr (sp_name s)), (''traceId'', GStr (traceID s)), (''spanId'', GStr (spanID s))] @
       (if parentID s \<noteq> [] then [(''parentSpanId'', GStr (parentID s))] else []) @ [(''durationNano'', GInt ns)] @
       (if sp_attrs s \<noteq> [] then [(''attributes'', GMap (sp_attrs s))] else []) @
       (case sp_err s of None \<Rightarrow> [] | Some e \<Rightarrow> if e \<noteq> [] then [(''error'', GStr e)] else []))"

definition EnableOTLP :: "(string \<Rightarrow> 'f) \<Rightarrow> string \<Rightarrow> 'f exporter option \<Rightarrow> 'f exporter option" where
  "EnableOTLP poster endpoint current = (if endpoint = [] then current else SetExporter (Some (poster endpoint)))"

section \<open>Identifiers and the header\<close>

definition newID :: "string \<Rightarrow> string" where
  "newID bytes = hex_encode bytes"

definition formatTraceparent :: "string \<Rightarrow> string \<Rightarrow> string" where
  "formatTraceparent tid sid = ''00-'' @ tid @ ''-'' @ sid @ ''-01''"

definition withTraceparent :: "string \<Rightarrow> 'f gctx \<Rightarrow> 'f gctx" where
  "withTraceparent header g = g\<lparr>traceparent := Some header\<rparr>"

definition extractTraceparent :: "'f gctx \<Rightarrow> (string \<times> string) option" where
  "extractTraceparent g =
     (let parts = split_by (CHR ''-'') (case traceparent g of None \<Rightarrow> [] | Some v \<Rightarrow> v) in
      if length parts < 4 \<or> length (parts ! 1) \<noteq> 32 \<or> length (parts ! 2) \<noteq> 16 then None else Some (parts ! 1, parts ! 2))"

text \<open>\<open>b16\<close> and \<open>b8\<close> are the random bytes of a new trace identifier and of the span identifier.\<close>

definition Start :: "'f exporter option \<Rightarrow> string \<Rightarrow> string \<Rightarrow> 'f gctx \<Rightarrow> string \<Rightarrow> 'f gctx \<times> 'f span" where
  "Start dflt b16 b8 g name =
     (let (tid, pid) = (case active g of
             Some p \<Rightarrow> (traceID p, spanID p)
           | None \<Rightarrow> (case extractTraceparent g of Some ids \<Rightarrow> ids | None \<Rightarrow> (newID b16, [])));
          s = \<lparr>sp_name = name, traceID = tid, spanID = newID b8, parentID = pid, sp_attrs = [], sp_err = None, sp_ended = False, onEnd = dflt\<rparr>
      in (g\<lparr>active := Some s\<rparr>, s))"

text \<open>A nil context, \<^const>\<open>None\<close>, has no span.\<close>

definition SpanFromContext :: "'f gctx option \<Rightarrow> 'f span option" where
  "SpanFromContext g = (case g of None \<Rightarrow> None | Some g \<Rightarrow> active g)"

section \<open>The middleware\<close>

definition request_span :: "'f exporter option \<Rightarrow> string \<Rightarrow> string \<Rightarrow> 'f gctx \<Rightarrow> ctx \<Rightarrow> 'f gctx \<times> 'f span" where
  "request_span dflt b16 b8 g c =
     (let tp = Header c ''traceparent'';
          g = (if tp \<noteq> [] then withTraceparent tp g else g);
          (g, s) = Start dflt b16 b8 g (req_method (req c) @ '' '' @ req_path (req c));
          s = SetAttribute ''http.route'' (GStr (req_path (req c))) (SetAttribute ''http.method'' (GStr (req_method (req c))) s)
      in (g\<lparr>active := Some s\<rparr>, s))"

text \<open>The deferred function passes a panic on after it has reported the span.\<close>

definition Tracing_Middleware :: "'f exporter option \<Rightarrow> string \<Rightarrow> string \<Rightarrow> 'f gctx \<Rightarrow> handler" where
  "Tracing_Middleware dflt b16 b8 g =
     Dyn (\<lambda>c. let s = snd (request_span dflt b16 b8 g c) in
       Do (Set ''trace_id'' (GStr (traceID s)))
         (Do (SetHeader ''traceparent'' (formatTraceparent (traceID s) (spanID s)))
           (NextRecover (\<lambda>v. Panic v) Done)))"

text \<open>What is reported when the rest of the chain has returned or panicked; \<open>show_value\<close> formats the value of a panic.\<close>

definition request_report :: "(goval \<Rightarrow> string) \<Rightarrow> 'f span \<Rightarrow> outcome \<Rightarrow> 'f span list" where
  "request_report show_value s r =
     (case r of
        Ret s' \<Rightarrow> snd (End_span (SetAttribute ''http.status_code'' (GInt (StatusCode (cx s'))) s))
      | Panicked v s' \<Rightarrow> snd (End_span (RecordError (show_value v) s))
      | OutOfFuel \<Rightarrow> [])"

section \<open>Logging\<close>

record log_config =
  lg_Level :: string
  lg_Output :: string
  lg_Path :: string
  lg_MaxSize :: int
  lg_MaxBackups :: int
  lg_MaxAge :: int
  lg_Compress :: bool

datatype log_level = LevelDebug | LevelInfo | LevelWarn | LevelError

text \<open>The levels are the numbers of \<^verbatim>\<open>log/slog\<close>, in their order.\<close>

fun level_number :: "log_level \<Rightarrow> int" where
  "level_number LevelDebug = -4"
| "level_number LevelInfo = 0"
| "level_number LevelWarn = 4"
| "level_number LevelError = 8"

lemma level_number_inject [simp]: "level_number a = level_number b \<longleftrightarrow> a = b"
  by (cases a; cases b) simp_all

instantiation log_level :: linorder
begin

definition less_eq_log_level :: "log_level \<Rightarrow> log_level \<Rightarrow> bool" where
  "less_eq_log_level a b \<longleftrightarrow> level_number a \<le> level_number b"

definition less_log_level :: "log_level \<Rightarrow> log_level \<Rightarrow> bool" where
  "less_log_level a b \<longleftrightarrow> level_number a < level_number b"

instance
  by standard (auto simp: less_eq_log_level_def less_log_level_def)

end

datatype log_writer = Stdout | Stderr | Rotating string int int int bool

definition parseLevel :: "string \<Rightarrow> log_level" where
  "parseLevel s =
     (let l = to_lower (trim_space s) in
      if l = ''debug'' then LevelDebug else if l = ''warn'' \<or> l = ''warning'' then LevelWarn else if l = ''error'' then LevelError else LevelInfo)"

text \<open>\<open>mkdir\<close> says whether the directory of the file could be made.\<close>

definition log_writer_of :: "(string \<Rightarrow> bool) \<Rightarrow> log_config \<Rightarrow> log_writer" where
  "log_writer_of mkdir cfg =
     (let out = to_lower (lg_Output cfg) in
      if out = ''stderr'' then Stderr
      else if out = ''file'' then
        (let path = (if lg_Path cfg = [] then ''storage/logs/app.log'' else lg_Path cfg) in
         if \<not> mkdir path then Stdout
         else Rotating path (if lg_MaxSize cfg \<le> 0 then 100 else lg_MaxSize cfg) (if lg_MaxBackups cfg \<le> 0 then 3 else lg_MaxBackups cfg)
           (if lg_MaxAge cfg \<le> 0 then 28 else lg_MaxAge cfg) (lg_Compress cfg))
      else Stdout)"

definition Setup_logging :: "(string \<Rightarrow> bool) \<Rightarrow> log_config \<Rightarrow> log_writer \<times> log_level" where
  "Setup_logging mkdir cfg = (log_writer_of mkdir cfg, parseLevel (lg_Level cfg))"

text \<open>What a logger writes of the records it is given: those of its level and above.\<close>

definition written :: "log_level \<Rightarrow> (log_level \<times> 'a) list \<Rightarrow> (log_level \<times> 'a) list" where
  "written level rs = filter (\<lambda>r. level \<le> fst r) rs"

text \<open>A stricter setting writes a part of what a laxer one writes; a level that is misspelt is the one for information.\<close>

lemma stricter_level_writes_less: "a \<le> b \<Longrightarrow> written b (written a rs) = written b rs"
  by (induction rs) (auto simp: written_def)

lemma misspelt_level: "parseLevel ''errors'' = LevelInfo \<and> parseLevel '' Warning '' = LevelWarn"
  by code_simp

definition FromRequest :: "ctx \<Rightarrow> (string \<times> goval) list" where
  "FromRequest c =
     (case Get c ''request_id'' of None \<Rightarrow> [] | Some v \<Rightarrow> [(''request_id'', v)]) @
     (case Get c ''trace_id'' of None \<Rightarrow> [] | Some v \<Rightarrow> [(''trace_id'', v)]) @
     [(''method'', GStr (req_method (req c))), (''path'', GStr (req_path (req c)))]"

section \<open>A trace goes on\<close>

lemma End_once: "snd (End_span (fst (End_span s))) = []"
  by (simp add: End_span_def)

lemma length_newID [simp]: "length (newID bs) = 2 * length bs"
  by (induction bs) (simp_all add: newID_def hex_encode_def)

lemma hex_digit_no_dash: "n < 16 \<Longrightarrow> hex_digit n \<noteq> CHR ''-''"
proof -
  assume "n < 16"
  then have "ord (hex_digit n) \<noteq> 45" by (auto simp: hex_digit_def)
  then show ?thesis by (rule contrapos_nn) simp
qed

lemma newID_no_dash [simp]: "CHR ''-'' \<notin> set (newID bs)"
proof (induction bs)
  case (Cons c bs)
  have "ord c div 16 < 16" "ord c mod 16 < 16" using ord_lt_256 [of c] by linarith+
  then show ?case using Cons hex_digit_no_dash [of "ord c div 16"] hex_digit_no_dash [of "ord c mod 16"] by (auto simp: newID_def hex_encode_def)
qed (simp add: newID_def hex_encode_def)

lemma extract_format:
  assumes "CHR ''-'' \<notin> set tid" "length tid = 32" "CHR ''-'' \<notin> set sid" "length sid = 16"
  shows "extractTraceparent (withTraceparent (formatTraceparent tid sid) g) = Some (tid, sid)"
proof -
  have "split_by (CHR ''-'') (''00'' @ CHR ''-'' # tid @ CHR ''-'' # sid @ CHR ''-'' # ''01'') = [''00'', tid, sid, ''01'']"
    using assms(1,3) by (simp add: split_by_append_sep)
  then show ?thesis using assms(2,4) by (simp add: extractTraceparent_def withTraceparent_def formatTraceparent_def)
qed

definition trace_id_ok :: "string \<Rightarrow> bool" where
  "trace_id_ok tid \<longleftrightarrow> length tid = 32 \<and> CHR ''-'' \<notin> set tid"

lemma extract_ok:
  assumes "extractTraceparent g = Some (t, s)"
  shows "trace_id_ok t"
proof -
  let ?parts = "split_by (CHR ''-'') (case traceparent g of None \<Rightarrow> [] | Some v \<Rightarrow> v)"
  have t: "4 \<le> length ?parts" "length (?parts ! 1) = 32" "t = ?parts ! 1"
    using assms by (simp_all add: extractTraceparent_def Let_def not_less split: if_splits)
  then have "?parts ! 1 \<in> set ?parts" by (intro nth_mem) simp
  then show ?thesis using t(2,3) split_by_no_sep by (simp add: trace_id_ok_def)
qed

definition active_ok :: "'f gctx \<Rightarrow> bool" where
  "active_ok g \<longleftrightarrow> (case active g of None \<Rightarrow> True | Some p \<Rightarrow> trace_id_ok (traceID p))"

lemma Start_ids:
  assumes "Start dflt b16 b8 g name = (g', s)" and "active_ok g" and "length b16 = 16"
  shows "trace_id_ok (traceID s) \<and> spanID s = newID b8 \<and> active g' = Some s \<and> \<not> sp_ended s"
  using assms extract_ok [of g]
  by (auto simp: Start_def trace_id_ok_def active_ok_def Let_def split: option.splits prod.splits)

text \<open>The response header of the middleware names the request's span.\<close>

lemma request_span_ids:
  assumes "request_span dflt b16 b8 g c = (g', s)" and "active_ok g" and "length b16 = 16"
  shows "trace_id_ok (traceID s) \<and> spanID s = newID b8 \<and> \<not> sp_ended s"
proof -
  let ?g = "if Header c ''traceparent'' \<noteq> [] then withTraceparent (Header c ''traceparent'') g else g"
  obtain g1 s1 where st: "Start dflt b16 b8 ?g (req_method (req c) @ '' '' @ req_path (req c)) = (g1, s1)" by fastforce
  have "active_ok ?g" using assms(2) by (simp add: active_ok_def withTraceparent_def)
  from Start_ids [OF st this assms(3)] show ?thesis using assms(1) st by (auto simp: request_span_def SetAttribute_def Let_def)
qed

text \<open>
  A trace goes on in the next service. The header that the middleware puts on its response, sent with a request
  to another service, makes the span which that service opens for the request a child of this one: it has the same trace
  identifier and its parent is this request's span.
\<close>

lemma trace_continues:
  assumes "request_span dflt b16 b8 g c = (g', s)" and "active_ok g" and "length b16 = 16" and "length b8 = 8"
    and "Header c2 ''traceparent'' = formatTraceparent (traceID s) (spanID s)" and "active g2 = None"
  shows "traceID (snd (request_span dflt2 c16 c8 g2 c2)) = traceID s \<and> parentID (snd (request_span dflt2 c16 c8 g2 c2)) = spanID s"
proof -
  have ids: "trace_id_ok (traceID s)" "spanID s = newID b8" using request_span_ids [OF assms(1-3)] by auto
  then have "extractTraceparent (withTraceparent (formatTraceparent (traceID s) (spanID s)) g2) = Some (traceID s, spanID s)"
    using assms(4) by (intro extract_format) (simp_all add: trace_id_ok_def)
  moreover have "formatTraceparent (traceID s) (spanID s) \<noteq> []" by (simp add: formatTraceparent_def)
  ultimately show ?thesis using assms(5,6)
    by (simp add: request_span_def Start_def withTraceparent_def SetAttribute_def Let_def)
qed

definition sample_ctx :: "string option \<Rightarrow> ctx" where
  "sample_ctx tp = new_context \<lparr>req_method = ''GET'', req_path = ''/'', req_uri = ''/'', req_host = ''h'', req_tls = False,
     req_header = (\<lambda>k. if k = ''traceparent'' then tp else None), req_query = Map.empty, req_form = Map.empty, req_cookie = Map.empty,
     req_remote = [], req_body = [], req_body_err = None\<rparr>"

lemma trace_continues_example:
  "let g = \<lparr>active = None, traceparent = None\<rparr> :: unit gctx; s = snd (request_span None (replicate 16 CHR ''a'') (replicate 8 CHR ''b'') g (sample_ctx None));
       s2 = snd (request_span None (replicate 16 CHR ''c'') (replicate 8 CHR ''d'') g (sample_ctx (Some (formatTraceparent (traceID s) (spanID s)))))
   in traceID s2 = traceID s \<and> parentID s2 = spanID s"
proof -
  let ?g = "\<lparr>active = None, traceparent = None\<rparr> :: unit gctx"
  obtain g' s where s: "request_span None (replicate 16 CHR ''a'') (replicate 8 CHR ''b'') ?g (sample_ctx None) = (g', s)" by fastforce
  let ?c2 = "sample_ctx (Some (formatTraceparent (traceID s) (spanID s)))"
  have h: "Header ?c2 ''traceparent'' = formatTraceparent (traceID s) (spanID s)"
    by (simp add: sample_ctx_def new_context_def Header_def header_get_def to_lower_def lower_char_def is_upper_def)
  have "traceID (snd (request_span None (replicate 16 CHR ''c'') (replicate 8 CHR ''d'') ?g ?c2)) = traceID s \<and>
      parentID (snd (request_span None (replicate 16 CHR ''c'') (replicate 8 CHR ''d'') ?g ?c2)) = spanID s"
    by (rule trace_continues [OF s _ _ _ h]) (simp_all add: active_ok_def)
  then show ?thesis using s by (simp add: Let_def)
qed

text \<open>Every request is reported exactly once, with an error exactly if the chain panicked, and the panic is passed on.\<close>

lemma request_reported_once:
  assumes "\<not> sp_ended s" and "sp_err s = None" and "r \<noteq> OutOfFuel"
  shows "\<exists>s'. request_report show_value s r = [s'] \<and> traceID s' = traceID s \<and> sp_ended s' \<and>
     (sp_err s' = None \<longleftrightarrow> (\<exists>e. r = Ret e)) \<and> (\<forall>v e. r = Panicked v e \<longrightarrow> sp_err s' = Some (show_value v))"
  using assms by (cases r) (auto simp: request_report_def End_span_def SetAttribute_def RecordError_def)

lemma tracing_passes_panic:
  "run_handler (\<lambda>t. Panicked v (u t)) n (Tracing_Middleware dflt b16 b8 g) st = Panicked v (u (st\<lparr>cx :=
     SetHeader ''traceparent'' (formatTraceparent (traceID (snd (request_span dflt b16 b8 g (cx st)))) (spanID (snd (request_span dflt b16 b8 g (cx st)))))
       (Set ''trace_id'' (GStr (traceID (snd (request_span dflt b16 b8 g (cx st))))) (cx st))\<rparr>))"
  by (simp add: Tracing_Middleware_def Let_def)

text \<open>A trace identifier of the right length is taken over whatever it contains, also when it is not hexadecimal.\<close>

lemma header_not_checked:
  "extractTraceparent (withTraceparent (''x-'' @ replicate 32 (CHR ''z'') @ ''-'' @ replicate 16 (CHR ''z'') @ ''-'') g) =
     Some (replicate 32 (CHR ''z''), replicate 16 (CHR ''z''))"
  by (simp add: extractTraceparent_def withTraceparent_def numeral_eq_Suc)

end
