(* ===== verification/Metrics.thy ===== *)
theory Metrics
  imports Router "HOL-Library.AList" "HOL-Library.Multiset" "HOL-Library.Word" "HOL-Library.List_Lexorder" "HOL-Library.Product_Lexorder"
    "HOL-Library.Char_ord"
begin

text \<open>
  The request metrics (\<^verbatim>\<open>metrics/metrics.go\<close>). The counters are 64-bit words; the counts per method and status are a list of entries
  with distinct keys, in the order in which Go visits the map. The middleware changes the shared counters in separate atomic
  steps, so requests that run at the same time interleave: a step relation over the counters and the requests that are being
  handled. The duration of a request is an argument.
\<close>

section \<open>Counters\<close>

type_synonym counter_key = "string \<times> string"

record metrics =
  requestCounts :: "(counter_key \<times> 64 word) list"
  durationNanos :: "64 word"
  requestTotal :: "64 word"
  inflight :: "64 word"

definition no_metrics :: metrics where
  "no_metrics = \<lparr>requestCounts = [], durationNanos = 0, requestTotal = 0, inflight = 0\<rparr>"

definition count_of :: "metrics \<Rightarrow> counter_key \<Rightarrow> 64 word" where
  "count_of g k = (case map_of (requestCounts g) k of None \<Rightarrow> 0 | Some n \<Rightarrow> n)"

definition metered :: "string \<Rightarrow> bool" where
  "metered path \<longleftrightarrow> \<not> (has_prefix path ''/metrics'' \<or> has_prefix path ''/debug/pprof'')"

text \<open>The steps of the middleware: before \<^verbatim>\<open>Next\<close>, and four after it.\<close>

definition metrics_enter :: "metrics \<Rightarrow> metrics" where
  "metrics_enter g = g\<lparr>inflight := inflight g + 1\<rparr>"

definition metrics_leave :: "metrics \<Rightarrow> metrics" where
  "metrics_leave g = g\<lparr>inflight := inflight g - 1\<rparr>"

definition metrics_duration :: "64 word \<Rightarrow> metrics \<Rightarrow> metrics" where
  "metrics_duration elapsed g = g\<lparr>durationNanos := durationNanos g + elapsed\<rparr>"

definition metrics_total :: "metrics \<Rightarrow> metrics" where
  "metrics_total g = g\<lparr>requestTotal := requestTotal g + 1\<rparr>"

definition metrics_count :: "counter_key \<Rightarrow> metrics \<Rightarrow> metrics" where
  "metrics_count k g = g\<lparr>requestCounts := AList.update k (count_of g k + 1) (requestCounts g)\<rparr>"

text \<open>The whole of the middleware for one request that nothing interleaves with.\<close>

definition metrics_request :: "string \<Rightarrow> string \<Rightarrow> int \<Rightarrow> 64 word \<Rightarrow> metrics \<Rightarrow> metrics" where
  "metrics_request path meth code elapsed g =
     (if metered path then
        metrics_count (meth, itoa code) (metrics_total (metrics_duration elapsed (metrics_leave (metrics_enter g))))
      else g)"

definition push_status_sw :: "ctx \<Rightarrow> ctx" where
  "push_status_sw c = c\<lparr>writer := StatusW 200 # writer c\<rparr>"

text \<open>What the middleware does to the context; the writer it pushes records the status that is counted.\<close>

definition Metrics_Middleware :: handler where
  "Metrics_Middleware = Dyn (\<lambda>c. if metered (req_path (req c)) then Do push_status_sw (Next Done) else Next Done)"

section \<open>The exposition\<close>

text \<open>\<open>quote\<close> is the verb \<^verbatim>\<open>%q\<close>, \<open>seconds\<close> formats the sum of the durations given in nanoseconds.\<close>

definition count_line :: "(string \<Rightarrow> string) \<Rightarrow> metrics \<Rightarrow> counter_key \<Rightarrow> string" where
  "count_line quote g k =
     ''gai_http_requests_total{method='' @ quote (fst k) @ '',code='' @ quote (snd k) @ ''} '' @ itoa (uint (count_of g k)) @ [CHR 10]"

definition metrics_text :: "(string \<Rightarrow> string) \<Rightarrow> (int \<Rightarrow> string) \<Rightarrow> metrics \<Rightarrow> string" where
  "metrics_text quote seconds g =
     (let ks = sort (map fst (requestCounts g)) in
      ''# HELP gai_http_requests_total Total HTTP requests'' @ [CHR 10] @
      ''# TYPE gai_http_requests_total counter'' @ [CHR 10] @
      concat (map (count_line quote g) ks) @
      (if ks = [] then ''gai_http_requests_total{method='' @ [CHR 34] @ ''none'' @ [CHR 34] @ '',code='' @ [CHR 34] @ ''0'' @ [CHR 34] @ ''} 0'' @ [CHR 10] else []) @
      ''# HELP gai_http_request_duration_seconds_sum Sum of request durations'' @ [CHR 10] @
      ''# TYPE gai_http_request_duration_seconds_sum counter'' @ [CHR 10] @
      ''gai_http_request_duration_seconds_sum '' @ seconds (sint (durationNanos g)) @ [CHR 10] @
      ''# HELP gai_http_requests_in_flight In-flight HTTP requests'' @ [CHR 10] @
      ''# TYPE gai_http_requests_in_flight gauge'' @ [CHR 10] @
      ''gai_http_requests_in_flight '' @ itoa (sint (inflight g)) @ [CHR 10])"

definition Metrics_Handler :: "(string \<Rightarrow> string) \<Rightarrow> (int \<Rightarrow> string) \<Rightarrow> metrics \<Rightarrow> ctx \<Rightarrow> ctx" where
  "Metrics_Handler quote seconds g c =
     String 200 (metrics_text quote seconds g) (SetHeader ''Content-Type'' ''text/plain; version=0.0.4; charset=utf-8'' c)"

section \<open>Profiles\<close>

text \<open>
  \<^verbatim>\<open>MountPprof\<close> mounts the handlers of \<^verbatim>\<open>net/http/pprof\<close>, \<open>profile\<close>, behind a mux of their own. The mux takes the pattern that is the path, or
  else the longest one that ends in a slash and begins the path; the path \<^verbatim>\<open>/debug/pprof\<close> is redirected to the one with a
  slash.
\<close>

definition pprof_patterns :: "string list" where
  "pprof_patterns =
     [''/debug/pprof/'', ''/debug/pprof/cmdline'', ''/debug/pprof/profile'', ''/debug/pprof/symbol'', ''/debug/pprof/trace''] @
     map (\<lambda>name. ''/debug/pprof/'' @ name) [''allocs'', ''block'', ''goroutine'', ''heap'', ''mutex'', ''threadcreate'']"

definition pprof_pattern :: "string \<Rightarrow> string option" where
  "pprof_pattern path =
     (if path \<in> set pprof_patterns then Some path
      else if has_prefix path ''/debug/pprof/'' then Some ''/debug/pprof/'' else None)"

definition pprof_wrap :: "(string \<Rightarrow> ctx \<Rightarrow> ctx) \<Rightarrow> (ctx \<Rightarrow> ctx) \<Rightarrow> handler" where
  "pprof_wrap profile redirect =
     Do (\<lambda>c. case pprof_pattern (req_path (req c)) of Some p \<Rightarrow> profile p c | None \<Rightarrow> redirect c) Done"

definition MountPprof :: "(string \<Rightarrow> ctx \<Rightarrow> ctx) \<Rightarrow> (ctx \<Rightarrow> ctx) \<Rightarrow> router \<Rightarrow> router" where
  "MountPprof profile redirect r =
     router_Any ''/debug/pprof/*'' (pprof_wrap profile redirect) (router_Any ''/debug/pprof'' (pprof_wrap profile redirect) r)"

text \<open>Mounting is an operation of the router like any other, and no route it adds is metered.\<close>

lemma mount_reach: "router_reach r \<Longrightarrow> router_reach (MountPprof profile redirect r)"
  by (simp add: MountPprof_def reach_methods)

lemma pprof_unmetered: "pprof_pattern path = Some p \<Longrightarrow> \<not> metered path"
proof -
  have "has_prefix path ''/debug/pprof/'' \<Longrightarrow> has_prefix path ''/debug/pprof''"
    by (auto simp: has_prefix_iff)
  then show "pprof_pattern path = Some p \<Longrightarrow> \<not> metered path"
    by (auto simp: pprof_pattern_def pprof_patterns_def metered_def split: if_splits)
qed

section \<open>Requests at the same time\<close>

text \<open>Where a request is: in the rest of the chain, or after the first, the second or the third step behind it.\<close>

datatype phase = Running string | Left string int | Timed string int | Totalled string int

text \<open>
  A request enters, returns from the chain with a status, or is left by a panic, which skips the rest of the middleware; the last
  component counts these.
\<close>

inductive metrics_step :: "metrics \<times> phase multiset \<times> nat \<Rightarrow> metrics \<times> phase multiset \<times> nat \<Rightarrow> bool" where
  enter: "metrics_step (g, rs, p) (metrics_enter g, add_mset (Running m) rs, p)"
| leave: "metrics_step (g, add_mset (Running m) rs, p) (metrics_leave g, add_mset (Left m code) rs, p)"
| duration: "metrics_step (g, add_mset (Left m code) rs, p) (metrics_duration d g, add_mset (Timed m code) rs, p)"
| total: "metrics_step (g, add_mset (Timed m code) rs, p) (metrics_total g, add_mset (Totalled m code) rs, p)"
| counted: "metrics_step (g, add_mset (Totalled m code) rs, p) (metrics_count (m, itoa code) g, rs, p)"
| panicked: "metrics_step (g, add_mset (Running m) rs, p) (g, rs, Suc p)"

inductive metrics_reach :: "metrics \<times> phase multiset \<times> nat \<Rightarrow> bool" where
  start: "metrics_reach (no_metrics, {#}, 0)"
| step: "metrics_reach s \<Longrightarrow> metrics_step s s' \<Longrightarrow> metrics_reach s'"

primrec running :: "phase \<Rightarrow> bool" where
  "running (Running m) = True"
| "running (Left m code) = False"
| "running (Timed m code) = False"
| "running (Totalled m code) = False"

primrec totalled :: "phase \<Rightarrow> bool" where
  "totalled (Running m) = False"
| "totalled (Left m code) = False"
| "totalled (Timed m code) = False"
| "totalled (Totalled m code) = True"

definition counts_sum :: "metrics \<Rightarrow> 64 word" where
  "counts_sum g = sum_list (map snd (requestCounts g))"

lemma sum_list_update:
  "distinct (map fst xs) \<Longrightarrow>
     sum_list (map snd (AList.update k (v :: 64 word) xs)) = sum_list (map snd xs) - (case map_of xs k of None \<Rightarrow> 0 | Some u \<Rightarrow> u) + v"
  by (induction xs) (auto simp: algebra_simps split: option.split)

lemma metrics_simps [simp]:
  "inflight (metrics_enter g) = inflight g + 1" "inflight (metrics_leave g) = inflight g - 1"
  "inflight (metrics_duration d g) = inflight g" "inflight (metrics_total g) = inflight g" "inflight (metrics_count k g) = inflight g"
  "requestTotal (metrics_enter g) = requestTotal g" "requestTotal (metrics_leave g) = requestTotal g"
  "requestTotal (metrics_duration d g) = requestTotal g" "requestTotal (metrics_total g) = requestTotal g + 1"
  "requestTotal (metrics_count k g) = requestTotal g"
  "requestCounts (metrics_enter g) = requestCounts g" "requestCounts (metrics_leave g) = requestCounts g"
  "requestCounts (metrics_duration d g) = requestCounts g" "requestCounts (metrics_total g) = requestCounts g"
  "requestCounts (metrics_count k g) = AList.update k (count_of g k + 1) (requestCounts g)"
  by (simp_all add: metrics_enter_def metrics_leave_def metrics_duration_def metrics_total_def metrics_count_def)

lemma counts_sum_count: "distinct (map fst (requestCounts g)) \<Longrightarrow> counts_sum (metrics_count k g) = counts_sum g + 1"
  by (simp add: counts_sum_def sum_list_update count_of_def)

lemma counts_sum_cong: "requestCounts g = requestCounts g' \<Longrightarrow> counts_sum g = counts_sum g'"
  by (simp add: counts_sum_def)

definition metrics_inv :: "metrics \<times> phase multiset \<times> nat \<Rightarrow> bool" where
  "metrics_inv = (\<lambda>(g, rs, p).
     distinct (map fst (requestCounts g)) \<and>
     inflight g = of_nat (size (filter_mset running rs)) + of_nat p \<and>
     requestTotal g = counts_sum g + of_nat (size (filter_mset totalled rs)))"

lemma metrics_step_inv: "metrics_step s s' \<Longrightarrow> metrics_inv s \<Longrightarrow> metrics_inv s'"
  by (induction rule: metrics_step.induct)
    (auto simp: metrics_inv_def counts_sum_count distinct_update algebra_simps counts_sum_def sum_list_update count_of_def)

text \<open>
  Property C32: however the requests interleave, the gauge of requests in flight is the number of requests inside the chain plus the
  number of panics, and the total is the sum of the counts per method and status plus the requests that are between the two last
  steps; both modulo the width of the counters.
\<close>

theorem metrics_account:
  assumes "metrics_reach (g, rs, p)"
  shows "inflight g = of_nat (size (filter_mset running rs)) + of_nat p \<and>
     requestTotal g = counts_sum g + of_nat (size (filter_mset totalled rs))"
proof -
  have "metrics_reach s \<Longrightarrow> metrics_inv s" for s
  proof (induction rule: metrics_reach.induct)
    case start
    then show ?case by (simp add: metrics_inv_def no_metrics_def counts_sum_def)
  next
    case (step s s')
    then show ?case using metrics_step_inv by blast
  qed
  from this [OF assms] show ?thesis by (simp add: metrics_inv_def)
qed

lemma reach_one:
  "metrics_reach (metrics_count (''GET'', itoa 200) (metrics_total (metrics_duration 5 (metrics_leave (metrics_enter no_metrics)))), {#}, 0)"
  by (intro metrics_reach.step [OF _ metrics_step.counted] metrics_reach.step [OF _ metrics_step.total]
      metrics_reach.step [OF _ metrics_step.duration] metrics_reach.step [OF _ metrics_step.leave]
      metrics_reach.step [OF _ metrics_step.enter] metrics_reach.start)

theorem metrics_account_witness:
  "requestTotal (metrics_request ''/x'' ''GET'' 200 5 no_metrics) = counts_sum (metrics_request ''/x'' ''GET'' 200 5 no_metrics)"
  using metrics_account [OF reach_one] by (simp add: metrics_request_def metered_def has_prefix_def)

text \<open>A panic leaves the gauge too high for good.\<close>

lemma panic_leaves_inflight: "metrics_reach (metrics_enter no_metrics, {#}, 1) \<and> inflight (metrics_enter no_metrics) = 1"
proof -
  have "metrics_reach (metrics_enter no_metrics, add_mset (Running ''GET'') {#}, 0)"
    by (rule metrics_reach.step [OF metrics_reach.start metrics_step.enter])
  from metrics_reach.step [OF this metrics_step.panicked] show ?thesis by (simp add: no_metrics_def)
qed

text \<open>The text does not depend on the order in which the counts are visited.\<close>

lemma metrics_text_perm:
  assumes "distinct (map fst (requestCounts g))" and "mset (requestCounts g') = mset (requestCounts g)"
    and "durationNanos g' = durationNanos g" and "inflight g' = inflight g"
  shows "metrics_text quote seconds g' = metrics_text quote seconds g"
proof -
  have m: "mset (map fst (requestCounts g')) = mset (map fst (requestCounts g))" using assms(2) by simp
  then have "sort (map fst (requestCounts g')) = sort (map fst (requestCounts g))" by (intro properties_for_sort) simp_all
  moreover have "distinct (map fst (requestCounts g'))" using m assms(1) mset_eq_imp_distinct_iff by blast
  then have "map_of (requestCounts g') = map_of (requestCounts g)" using assms(1) mset_eq_setD [OF assms(2)] by (simp add: map_of_inject_set)
  then have "count_of g' = count_of g" by (simp add: count_of_def fun_eq_iff)
  then have "count_line quote g' = count_line quote g" by (simp add: count_line_def fun_eq_iff)
  ultimately show ?thesis using assms(3,4) by (simp add: metrics_text_def)
qed

end
