(* ===== verification/WebSocket.thy ===== *)
theory WebSocket
  imports HttpContext
begin

text \<open>
  The WebSocket entry (\<^verbatim>\<open>websocket/websocket.go\<close>): the check of the Origin header and the upgrade, which ends the handler chain. The
  upgrader of the WebSocket library is a parameter; it is given the check.
\<close>

definition AllowOrigins :: "string list \<Rightarrow> ctx \<Rightarrow> bool" where
  "AllowOrigins origins c =
     (let origin = Header c ''Origin'';
          allow = map (trim_right_char (CHR ''/'')) (filter (\<lambda>a. a \<noteq> ''*'') origins) in
      origin = [] \<or> ''*'' \<in> set origins \<or> trim_right_char (CHR ''/'') origin \<in> set allow)"

definition Upgrade :: "((ctx \<Rightarrow> bool) \<Rightarrow> ctx \<Rightarrow> string + 'conn) \<Rightarrow> string list \<Rightarrow> (string \<Rightarrow> handler) \<Rightarrow> ('conn \<Rightarrow> handler) \<Rightarrow> handler" where
  "Upgrade upgrader origins failed k =
     Dyn (\<lambda>c. case upgrader (AllowOrigins origins) c of Inl e \<Rightarrow> failed e | Inr conn \<Rightarrow> Abort (k conn))"

text \<open>Without a list no browser is let in, and a listed origin is matched as a whole.\<close>

lemma no_origins_deny: "AllowOrigins [] c \<longleftrightarrow> Header c ''Origin'' = []"
  by (simp add: AllowOrigins_def Let_def)

lemma allowed_origin:
  assumes "''*'' \<notin> set origins" and "Header c ''Origin'' \<noteq> []"
  shows "AllowOrigins origins c \<longleftrightarrow> (\<exists>a\<in>set origins. trim_right_char (CHR ''/'') a = trim_right_char (CHR ''/'') (Header c ''Origin''))"
  using assms by (auto simp: AllowOrigins_def Let_def image_iff)

lemma upgrade_aborts:
  "upgrader (AllowOrigins origins) (cx s) = Inr conn \<Longrightarrow>
     run_handler nx n (Upgrade upgrader origins failed k) s = run_handler nx n (k conn) (s\<lparr>index := int n\<rparr>)"
  by (simp add: Upgrade_def)

end
