(* ===== verification/Database.thy ===== *)
theory Database
  imports Driver
begin

text \<open>
  Opening databases, the manager of named connections and the seeder (\<^verbatim>\<open>database/database.go\<close>, \<^verbatim>\<open>database/seed/seed.go\<close>), and the password
  helpers (\<^verbatim>\<open>support/hash.go\<close>). Connections are values of the type \<open>'c\<close>; database/sql, bcrypt and SHA-256 are parameters.
\<close>

section \<open>Opening a database\<close>

record db_config =
  cfg_Driver :: string
  cfg_DSN :: string
  MaxOpenConns :: int
  MaxIdleConns :: int
  ConnMaxLifetime :: int

record 'c db_handle =
  db_SQL :: 'c
  db_DriverName :: string
  db_dialect :: dialect
  db_pool :: "int \<times> int \<times> int"

text \<open>What database/sql does: opening a data source and testing the connection.\<close>

record 'c sqllib =
  sql_Open :: "dialect \<Rightarrow> string \<Rightarrow> string + 'c"
  sql_Ping :: "'c \<Rightarrow> string option"

text \<open>The result, and the connections that were opened and closed again.\<close>

definition Open_db :: "'c sqllib \<Rightarrow> registry \<Rightarrow> db_config \<Rightarrow> (string + 'c db_handle) \<times> 'c list" where
  "Open_db lib reg cfg =
     (let name = (if cfg_Driver cfg = [] then ''sqlite'' else cfg_Driver cfg);
          dsn = (if cfg_DSN cfg = [] then '':memory:'' else cfg_DSN cfg) in
      case driver_Get name reg of
        Inl e \<Rightarrow> (Inl e, [])
      | Inr d \<Rightarrow>
          (case sql_Open lib d dsn of
             Inl e \<Rightarrow> (Inl (''gai/database: open '' @ name @ '': '' @ e), [])
           | Inr c \<Rightarrow>
               (case sql_Ping lib c of
                  Some e \<Rightarrow> (Inl (''gai/database: ping '' @ name @ '': '' @ e), [c])
                | None \<Rightarrow>
                    (Inr \<lparr>db_SQL = c, db_DriverName = driver_Name d, db_dialect = d,
                       db_pool = (if MaxOpenConns cfg \<le> 0 then 25 else MaxOpenConns cfg, if MaxIdleConns cfg \<le> 0 then 5 else MaxIdleConns cfg,
                         if ConnMaxLifetime cfg \<le> 0 then 3600000000000 else ConnMaxLifetime cfg)\<rparr>, []))))"

section \<open>The manager\<close>

record 'd DbManager =
  conns :: "string \<rightharpoonup> 'd"
  defaultName :: string

definition NewDbManager :: "'d DbManager" where
  "NewDbManager = \<lparr>conns = Map.empty, defaultName = []\<rparr>"

definition AddConn :: "string \<Rightarrow> 'd \<Rightarrow> 'd DbManager \<Rightarrow> 'd DbManager" where
  "AddConn name d m = m\<lparr>conns := (conns m)(name \<mapsto> d), defaultName := if defaultName m = [] then name else defaultName m\<rparr>"

definition SetDefaultConn :: "string \<Rightarrow> 'd DbManager \<Rightarrow> 'd DbManager" where
  "SetDefaultConn name m = m\<lparr>defaultName := name\<rparr>"

text \<open>The argument is the variadic list of names; only the first counts.\<close>

definition Connection :: "string list \<Rightarrow> 'd DbManager \<Rightarrow> string + 'd" where
  "Connection names m =
     (let key = (case names of n # _ \<Rightarrow> if n \<noteq> [] then n else defaultName m | [] \<Rightarrow> defaultName m) in
      case conns m key of None \<Rightarrow> Inl key | Some d \<Rightarrow> Inr d)"

definition DefaultConn :: "'d DbManager \<Rightarrow> 'd option" where
  "DefaultConn m = (case Connection [] m of Inl _ \<Rightarrow> None | Inr d \<Rightarrow> Some d)"

text \<open>
  \<open>visit\<close> is the order in which Go visits the map. Every connection is shut, the first error is kept with the name it belongs to.
\<close>

definition close_step :: "('d \<Rightarrow> string option) \<Rightarrow> string \<times> 'd \<Rightarrow> (string \<times> string) option \<times> 'd list \<Rightarrow> (string \<times> string) option \<times> 'd list" where
  "close_step close e = (\<lambda>(err, shut).
     (case close (snd e) of
        Some why \<Rightarrow> (if err = None then Some (fst e, why) else err, shut @ [snd e])
      | None \<Rightarrow> (err, shut @ [snd e])))"

definition CloseAll :: "('d \<Rightarrow> string option) \<Rightarrow> (string \<times> 'd) list \<Rightarrow> (string \<times> string) option \<times> 'd list" where
  "CloseAll close visit = fold (close_step close) visit (None, [])"

section \<open>Seeders\<close>

fun Run_seeders :: "'w \<Rightarrow> ('w \<Rightarrow> string option \<times> 'w) list \<Rightarrow> string option \<times> 'w" where
  "Run_seeders w [] = (None, w)"
| "Run_seeders w (s # ss) = (case s w of (Some e, w') \<Rightarrow> (Some e, w') | (None, w') \<Rightarrow> Run_seeders w' ss)"

section \<open>Passwords\<close>

text \<open>\<open>rnd\<close> gives the random bytes or the error of the source, which is a panic; \<open>hex\<close> is their hexadecimal form.\<close>

record hashlib =
  bcrypt_hash :: "string \<Rightarrow> string + string"
  bcrypt_compare :: "string \<Rightarrow> string \<Rightarrow> string option"
  hex :: "string \<Rightarrow> string"
  sha256 :: "string \<Rightarrow> string"

definition Hash :: "hashlib \<Rightarrow> string \<Rightarrow> string + string" where
  "Hash lib password = bcrypt_hash lib password"

definition CheckHash :: "hashlib \<Rightarrow> string \<Rightarrow> string \<Rightarrow> bool" where
  "CheckHash lib password h = (bcrypt_compare lib h password = None)"

definition Sha256 :: "hashlib \<Rightarrow> string \<Rightarrow> string" where
  "Sha256 lib s = hex lib (sha256 lib s)"

definition RandomString :: "hashlib \<Rightarrow> string + string \<Rightarrow> string + string" where
  "RandomString lib rnd = (case rnd of Inl e \<Rightarrow> Inl (''gai: failed to generate random bytes: '' @ e) | Inr b \<Rightarrow> Inr (hex lib b))"

section \<open>Properties\<close>

text \<open>A handle is returned exactly if no connection had to be shut, and it is in the dialect that was asked for.\<close>

lemma open_leaves_no_connection:
  assumes "Open_db lib reg cfg = (r, shut)"
  shows "(case r of
      Inr h \<Rightarrow> shut = [] \<and> sql_Ping lib (db_SQL h) = None \<and> db_DriverName h = driver_Name (db_dialect h) \<and>
        0 < fst (db_pool h) \<and> 0 < fst (snd (db_pool h)) \<and> 0 < snd (snd (db_pool h))
    | Inl e \<Rightarrow> \<forall>d c. driver_Get (if cfg_Driver cfg = [] then ''sqlite'' else cfg_Driver cfg) reg = Inr d \<and>
        sql_Open lib d (if cfg_DSN cfg = [] then '':memory:'' else cfg_DSN cfg) = Inr c \<longrightarrow> shut = [c])"
  using assms by (auto simp: Open_db_def Let_def split: sum.splits option.splits if_splits)

lemma first_added_is_default:
  "n \<noteq> [] \<Longrightarrow> DefaultConn (AddConn n d NewDbManager) = Some d"
  "defaultName m \<noteq> [] \<Longrightarrow> n \<noteq> defaultName m \<Longrightarrow> DefaultConn (AddConn n d m) = DefaultConn m"
  by (simp_all add: DefaultConn_def Connection_def AddConn_def NewDbManager_def)

lemma connection_added: "n \<noteq> [] \<Longrightarrow> Connection [n] (AddConn n d m) = Inr d"
  "n \<noteq> [] \<Longrightarrow> k \<noteq> [] \<Longrightarrow> k \<noteq> n \<Longrightarrow> Connection [k] (AddConn n d m) = Connection [k] m"
  by (simp_all add: Connection_def AddConn_def)

text \<open>Every connection is closed, whatever errors come, and the error is that of the first that failed.\<close>

lemma close_all: "snd (CloseAll close visit) = map snd visit \<and>
    fst (CloseAll close visit) = (case filter (\<lambda>e. close (snd e) \<noteq> None) visit of [] \<Rightarrow> None | e # _ \<Rightarrow> Some (fst e, the (close (snd e))))"
proof -
  have "fold (close_step close) visit (err, shut) =
      ((case err of Some e \<Rightarrow> Some e
        | None \<Rightarrow> (case filter (\<lambda>e. close (snd e) \<noteq> None) visit of [] \<Rightarrow> None | e # _ \<Rightarrow> Some (fst e, the (close (snd e))))),
       shut @ map snd visit)" for err shut
    by (induction visit arbitrary: err shut) (auto simp: close_step_def split: option.split)
  then show ?thesis by (simp add: CloseAll_def)
qed

text \<open>The seeders run in order up to the first that fails.\<close>

lemma seeders_stop_at_error:
  "Run_seeders w (ss @ ts) = (case Run_seeders w ss of (Some e, w') \<Rightarrow> (Some e, w') | (None, w') \<Rightarrow> Run_seeders w' ts)"
  by (induction ss arbitrary: w) (auto split: option.split prod.split)

end
