(* ===== verification/HttpBind.thy ===== *)
theory HttpBind
  imports HttpContext Validator Storage
begin

text \<open>
  Binding, downloads and uploads (\<^verbatim>\<open>http/extra.go\<close> and the rest of \<^verbatim>\<open>http/context.go\<close>). The JSON decoder into a Go value is a
  parameter, as are the parser of forms and \<^verbatim>\<open>http.ServeFile\<close>; a Go value that is bound to is of the type \<open>'d\<close>. A struct that is validated
  is the list of its fields with their tags.
\<close>

section \<open>Binding\<close>

definition body_error_text :: "body_error \<Rightarrow> string" where
  "body_error_text e = (case e of ErrBodyTooLarge \<Rightarrow> ''request body too large (max 10485760 bytes)'' | ErrRead t \<Rightarrow> t)"

text \<open>\<open>decode\<close> is \<^verbatim>\<open>json.Unmarshal\<close>, or \<^verbatim>\<open>Decode\<close> of a decoder that refuses unknown fields.\<close>

definition bind_body :: "(string \<Rightarrow> string + 'd) \<Rightarrow> ctx \<Rightarrow> (string + 'd) \<times> ctx" where
  "bind_body decode c =
     (case read_body c of
        (Inl e, c') \<Rightarrow> (Inl (body_error_text e), c')
      | (Inr body, c') \<Rightarrow> (decode body, c'))"

definition BindJSON :: "(string \<Rightarrow> string + 'd) \<Rightarrow> ctx \<Rightarrow> (string + 'd) \<times> ctx" where
  "BindJSON unmarshal c = bind_body unmarshal c"

definition BindJSONStrict :: "(string \<Rightarrow> string + 'd) \<Rightarrow> ctx \<Rightarrow> (string + 'd) \<times> ctx" where
  "BindJSONStrict decode_known c = bind_body decode_known c"

text \<open>The values of a form or query in the order in which Go visits the map.\<close>

type_synonym url_values = "(string \<times> string list) list"

definition values_map :: "url_values \<Rightarrow> goval" where
  "values_map vals = GMap (map (\<lambda>(k, vs). (k, if length vs = 1 then GStr (hd vs) else GList (map GStr vs))) vals)"

text \<open>\<open>remarshal\<close> writes a value as JSON and decodes it into the destination.\<close>

definition valuesToStruct :: "(goval \<Rightarrow> string + 'd) \<Rightarrow> url_values \<Rightarrow> string + 'd" where
  "valuesToStruct remarshal vals = remarshal (values_map vals)"

text \<open>What the request's parsers give: the query, and the form with and without the query or an error.\<close>

record request_values =
  query_values :: url_values
  form_values :: "string + url_values \<times> url_values"

definition BindQuery :: "(goval \<Rightarrow> string + 'd) \<Rightarrow> request_values \<Rightarrow> string + 'd" where
  "BindQuery remarshal rv = valuesToStruct remarshal (query_values rv)"

definition BindForm :: "(goval \<Rightarrow> string + 'd) \<Rightarrow> request_values \<Rightarrow> string + 'd" where
  "BindForm remarshal rv = (case form_values rv of Inl e \<Rightarrow> Inl e | Inr (all, post) \<Rightarrow> valuesToStruct remarshal post)"

definition Bind :: "(string \<Rightarrow> string + 'd) \<Rightarrow> (goval \<Rightarrow> string + 'd) \<Rightarrow> request_values \<Rightarrow> ctx \<Rightarrow> (string + 'd) \<times> ctx" where
  "Bind unmarshal remarshal rv c =
     (if IsJSON c then BindJSON unmarshal c
      else if req_method (req c) \<in> {''GET'', ''HEAD'', ''DELETE''} then (BindQuery remarshal rv, c)
      else case form_values rv of Inl e \<Rightarrow> (Inl e, c) | Inr (all, post) \<Rightarrow> (valuesToStruct remarshal all, c))"

section \<open>Responses\<close>

text \<open>\<open>serve\<close> is \<^verbatim>\<open>http.ServeFile\<close> or \<^verbatim>\<open>http.Redirect\<close>, which write the response themselves.\<close>

definition Redirect :: "(int \<Rightarrow> string \<Rightarrow> ctx \<Rightarrow> ctx) \<Rightarrow> int \<Rightarrow> string \<Rightarrow> ctx \<Rightarrow> ctx" where
  "Redirect redirect n url c = (redirect n url c)\<lparr>is_written := True\<rparr>"

definition File_response :: "(string \<Rightarrow> ctx \<Rightarrow> ctx) \<Rightarrow> string \<Rightarrow> ctx \<Rightarrow> ctx" where
  "File_response serve path c = (serve path c)\<lparr>is_written := True\<rparr>"

definition filepath_Base :: "string \<Rightarrow> string" where
  "filepath_Base path =
     (let p = trim_right_char (CHR ''/'') path in
      if path = [] then ''.'' else if p = [] then ''/'' else last (split_by (CHR ''/'') p))"

definition Attachment_response :: "(string \<Rightarrow> ctx \<Rightarrow> ctx) \<Rightarrow> string \<Rightarrow> string \<Rightarrow> ctx \<Rightarrow> ctx" where
  "Attachment_response serve path filename c =
     (let filename = (if filename = [] then filepath_Base path else filename) in
      (serve path (SetHeader ''Content-Disposition'' (''attachment; filename='' @ [CHR 34] @ filename @ [CHR 34]) c))\<lparr>is_written := True\<rparr>)"

text \<open>The reader is the bytes it delivers; an error at its end is ignored.\<close>

definition Stream_response :: "int \<Rightarrow> string \<Rightarrow> string \<Rightarrow> ctx \<Rightarrow> ctx" where
  "Stream_response n ctype bytes c = write_body (Bytes bytes) ((write_header n (SetHeader ''Content-Type'' ctype c))\<lparr>is_written := True\<rparr>)"

section \<open>Uploads\<close>

definition SaveUploadedFile :: "string + string \<times> string option \<Rightarrow> string \<Rightarrow> fs \<Rightarrow> os_error option \<times> fs" where
  "SaveUploadedFile src_file dest s =
     (case src_file of
        Inl e \<Rightarrow> (Some (ReadError e), s)
      | Inr r \<Rightarrow>
          (case os_MkdirAll (butlast (clean_parts dest)) s of
             Inl e \<Rightarrow> (Some e, s)
           | Inr s \<Rightarrow>
               (case os_Create dest s of
                  Inl e \<Rightarrow> (Some e, s)
                | Inr s \<Rightarrow> (map_option ReadError (snd r), fs_put (clean_parts dest) (File (fst r)) s))))"

section \<open>Validating a struct\<close>

record struct_field =
  sf_Name :: string
  sf_Exported :: bool
  sf_validate :: string
  sf_json :: string
  sf_value :: goval

definition field_key :: "struct_field \<Rightarrow> string" where
  "field_key f =
     (if sf_json f = [] \<or> sf_json f = ''-'' then to_lower (sf_Name f) else hd (split_by (CHR '','') (sf_json f)))"

definition validated :: "struct_field \<Rightarrow> bool" where
  "validated f \<longleftrightarrow> sf_Exported f \<and> sf_validate f \<noteq> []"

text \<open>
  The target is \<^const>\<open>None\<close> if it is not a struct or a pointer to one. \<open>visit\<close> puts the rules into the order in which Go visits the map; a
  later field with the same key replaces an earlier one.
\<close>

definition struct_data :: "struct_field list \<Rightarrow> string \<rightharpoonup> goval" where
  "struct_data fs = map_of (rev (map (\<lambda>f. (field_key f, sf_value f)) (filter validated fs)))"

definition struct_rules :: "struct_field list \<Rightarrow> string \<rightharpoonup> string" where
  "struct_rules fs = map_of (rev (map (\<lambda>f. (field_key f, sf_validate f)) (filter validated fs)))"

definition ValidateStruct :: "vlib \<Rightarrow> ((string \<rightharpoonup> string) \<Rightarrow> (string \<times> string) list) \<Rightarrow> struct_field list option \<Rightarrow> ValidationErrors option" where
  "ValidateStruct lib visit target =
     (case target of
        None \<Rightarrow> Some [''_'' \<mapsto> [''validate target must be a struct'']]
      | Some fs \<Rightarrow> fst (Validate lib (NewValidator (struct_data fs) (visit (struct_rules fs)))))"

section \<open>Properties\<close>

text \<open>The body can be bound twice: the second binding sees the bytes of the first.\<close>

lemma bind_twice: "bind_body decode (snd (bind_body decode' c)) = (fst (bind_body decode c), snd (bind_body decode' c))"
proof -
  have "read_body (snd (read_body c)) = (fst (read_body c), snd (read_body c))"
    by (cases "body_once c") (simp_all add: read_body_def Let_def)
  then show ?thesis by (cases "read_body c"; cases "fst (read_body c)") (auto simp: bind_body_def)
qed

text \<open>A body above the limit is refused, however it would decode.\<close>

lemma large_body_refused:
  "body_once c = None \<Longrightarrow> max_body_size < length (req_body (req c)) \<Longrightarrow>
     fst (BindJSON decode c) = Inl (body_error_text ErrBodyTooLarge)"
  by (simp add: BindJSON_def bind_body_def read_body_def Let_def)

text \<open>Query and form values arrive as strings: the decoder never sees a number or a boolean.\<close>

lemma bound_values_are_strings:
  "values_map vals = GMap m \<Longrightarrow> (k, v) \<in> set m \<Longrightarrow> (\<exists>t. v = GStr t) \<or> (\<exists>ts. v = GList (map GStr ts))"
  by (fastforce simp: values_map_def split: if_splits)

text \<open>An upload can be read back, and what else is there stays, apart from directories that are made.\<close>

lemma upload_saved:
  assumes "SaveUploadedFile (Inr (c, None)) dest s = (None, s')"
  shows "fs_node s' (clean_parts dest) = Some (File c) \<and> (q \<noteq> clean_parts dest \<longrightarrow> grows s s' q)"
proof -
  obtain s1 s2 where s1: "os_MkdirAll (butlast (clean_parts dest)) s = Inr s1" and s2: "os_Create dest s1 = Inr s2"
    and s': "s' = fs_put (clean_parts dest) (File c) s2"
    using assms by (auto simp: SaveUploadedFile_def split: sum.splits)
  have "clean_parts dest \<noteq> []" "s2 = fs_put (clean_parts dest) (File []) s1" using Create_Some [OF s2] by auto
  moreover have "grows s s1 q" using MkdirAll_grows [OF s1] .
  ultimately show ?thesis using s' by (auto simp: grows_def)
qed

text \<open>A struct without rules is valid; a value without a struct is not.\<close>

lemma validate_no_rules: "filter validated fs = [] \<Longrightarrow> visit Map.empty = [] \<Longrightarrow> ValidateStruct lib visit (Some fs) = None"
  by (simp add: ValidateStruct_def struct_rules_def Validate_def NewValidator_def Let_def)

text \<open>The field is validated under the name it has in JSON, and two fields with an empty name in their tag share one key.\<close>

lemma empty_json_names_collide:
  "field_key \<lparr>sf_Name = ''A'', sf_Exported = True, sf_validate = r, sf_json = '',omitempty'', sf_value = v\<rparr> =
     field_key \<lparr>sf_Name = ''B'', sf_Exported = True, sf_validate = r', sf_json = '',omitempty'', sf_value = w\<rparr>"
  by (simp add: field_key_def)

end
