(* ===== verification/CliTemplates.thy ===== *)
theory CliTemplates
  imports Support GenRegistry
begin

text \<open>
  The texts that the command line tool writes (\<^verbatim>\<open>cmd/gai\<close>): the stubs of \<^verbatim>\<open>gai make\<close>, the registries, the programs that run
  migrations, seeders, queue workers and the scheduler, and the files of a new project. A text is a list of lines. In the
  literals \<^verbatim>\<open>~\<close> is a double quote and \<^verbatim>\<open>^\<close> a tab.
\<close>

section \<open>The texts of gai make\<close>

text \<open>\<^verbatim>\<open>name[:1]\<close> panics on the empty name; then there is no text.\<close>

definition modelStub :: "string \<Rightarrow> string \<Rightarrow> string option" where
  "modelStub name table =
     (if name = [] then None else Some (text_of
     [''package models'',
      [],
      ''import ('',
      src ''^~github.com/Hlgxz/gai/database/orm~'',
      '')'',
      [],
      ''// '' @ name @ '' represents the '' @ table @ '' table.'',
      ''type '' @ name @ '' struct {'',
      src ''^orm.Model'',
      src ''^// Add your fields here'',
      ''}'',
      [],
      ''// TableName returns the database table name.'',
      ''func ('' @ to_lower (take 1 name) @ '' *'' @ name @ '') TableName() string {'',
      src ''^return ~'' @ table @ src ''~'',
      ''}'',
      []]))"

definition controllerStub :: "string \<Rightarrow> string" where
  "controllerStub name =
     text_of
     [''package controllers'',
      [],
      ''import ('',
      src ''^~net/http~'',
      [],
      src ''^ghttp ~github.com/Hlgxz/gai/http~'',
      '')'',
      [],
      ''// '' @ name @ ''Controller handles '' @ name @ '' operations.'',
      ''type '' @ name @ ''Controller struct {'',
      src ''^// Add dependencies here'',
      ''}'',
      [],
      ''// New'' @ name @ ''Controller creates a new controller instance.'',
      ''func New'' @ name @ ''Controller() *'' @ name @ ''Controller {'',
      src ''^return &'' @ name @ ''Controller{}'',
      ''}'',
      [],
      ''// Index lists resources.'',
      ''func (ctrl *'' @ name @ ''Controller) Index(c *ghttp.Context) {'',
      src ''^c.Success(nil)'',
      ''}'',
      [],
      ''// Show returns a single resource.'',
      ''func (ctrl *'' @ name @ ''Controller) Show(c *ghttp.Context) {'',
      src ''^id := c.Param(~id~)'',
      src ''^c.Success(map[string]string{~id~: id})'',
      ''}'',
      [],
      ''// Store creates a new resource.'',
      ''func (ctrl *'' @ name @ ''Controller) Store(c *ghttp.Context) {'',
      src ''^c.JSON(http.StatusCreated, map[string]any{'',
      src ''^^~code~: 0, ~message~: ~created~,'',
      src ''^})'',
      ''}'',
      [],
      ''// Update modifies an existing resource.'',
      ''func (ctrl *'' @ name @ ''Controller) Update(c *ghttp.Context) {'',
      src ''^c.Success(nil)'',
      ''}'',
      [],
      ''// Destroy deletes a resource.'',
      ''func (ctrl *'' @ name @ ''Controller) Destroy(c *ghttp.Context) {'',
      src ''^c.NoContent()'',
      ''}'',
      []]"

definition middlewareStub :: "string \<Rightarrow> string" where
  "middlewareStub name =
     text_of
     [''package middleware'',
      [],
      ''import ('',
      src ''^ghttp ~github.com/Hlgxz/gai/http~'',
      '')'',
      [],
      ''// '' @ name @ '' returns a new '' @ name @ '' middleware handler.'',
      ''func '' @ name @ ''() ghttp.HandlerFunc {'',
      src ''^return func(c *ghttp.Context) {'',
      src ''^^// Add your middleware logic here'',
      src ''^^c.Next()'',
      src ''^}'',
      ''}'',
      []]"

definition migrationStub :: "string \<Rightarrow> string" where
  "migrationStub name =
     text_of
     [''package migrations'',
      [],
      ''import ('',
      src ''^~github.com/Hlgxz/gai/database/driver~'',
      src ''^~github.com/Hlgxz/gai/database/migration~'',
      '')'',
      [],
      ''func init() {'',
      src ''^Migrations = append(Migrations, migration.Migration{'',
      src ''^^Name: ~'' @ name @ src ''~,'',
      src ''^^Up: func(drv driver.Driver) string {'',
      src ''^^^// Write your UP migration SQL here'',
      src ''^^^return ~~'',
      src ''^^},'',
      src ''^^Down: func(drv driver.Driver) string {'',
      src ''^^^// Write your DOWN migration SQL here'',
      src ''^^^return ~~'',
      src ''^^},'',
      src ''^})'',
      ''}'',
      []]"

definition seederStub :: "string \<Rightarrow> string" where
  "seederStub name =
     text_of
     [''package seeders'',
      [],
      ''import ('',
      src ''^~github.com/Hlgxz/gai/database/orm~'',
      '')'',
      [],
      ''func init() {'',
      src ''^Seeders = append(Seeders, '' @ name @ '')'',
      ''}'',
      [],
      ''// '' @ name @ '' seeds initial data.'',
      ''func '' @ name @ ''(db *orm.DB) error {'',
      src ''^// orm.Create[Model](db, &Model{})'',
      src ''^return nil'',
      ''}'',
      []]"

definition jobStub :: "string \<Rightarrow> string" where
  "jobStub name =
     text_of
     [''package jobs'',
      [],
      ''import ('',
      src ''^~context~'',
      '')'',
      [],
      ''const '' @ name @ src ''Job = ~'' @ snake name @ src ''~'',
      [],
      ''func init() {'',
      src ''^Handlers['' @ name @ ''Job] = Handle'' @ name,
      ''}'',
      [],
      ''// Handle'' @ name @ '' processes a queued '' @ name @ '' job.'',
      ''func Handle'' @ name @ ''(ctx context.Context, payload []byte) error {'',
      src ''^return nil'',
      ''}'',
      []]"

section \<open>Registries\<close>

definition migration_registry :: "string" where
  "migration_registry =
     text_of
     [''package migrations'',
      [],
      src ''import ~github.com/Hlgxz/gai/database/migration~'',
      [],
      ''// Migrations collects all migrations registered via init() functions.'',
      ''var Migrations []migration.Migration'',
      []]"

definition jobs_registry :: "string" where
  "jobs_registry =
     text_of
     [''package jobs'',
      [],
      src ''import ~github.com/Hlgxz/gai/queue~'',
      [],
      ''// Handlers maps job names to handlers. gai make job registers via init().'',
      ''var Handlers = map[string]queue.Handler{}'',
      [],
      ''// Register attaches all Handlers to the queue manager.'',
      ''func Register(m *queue.Manager) {'',
      src ''^for name, h := range Handlers {'',
      src ''^^m.Register(name, h)'',
      src ''^}'',
      ''}'',
      []]"

definition seeder_registry :: "string" where
  "seeder_registry =
     text_of
     [''package seeders'',
      [],
      src ''import ~github.com/Hlgxz/gai/database/seed~'',
      [],
      ''// Seeders collects all seeders registered via init() functions.'',
      ''var Seeders []seed.Seeder'',
      []]"

definition schedule_registry :: "string" where
  "schedule_registry =
     text_of
     [''package console'',
      [],
      ''import ('',
      src ''^~github.com/Hlgxz/gai/schedule~'',
      '')'',
      [],
      ''// Register attaches scheduled tasks.'',
      ''func Register(s *schedule.Scheduler) {'',
      ''}'',
      []]"

section \<open>Runners\<close>

definition migrate_runner :: "string \<Rightarrow> string" where
  "migrate_runner gomod =
     text_of
     [''package main'',
      [],
      ''import ('',
      src ''^~fmt~'',
      src ''^~os~'',
      [],
      src ''^~github.com/Hlgxz/gai/config~'',
      src ''^~github.com/Hlgxz/gai/database~'',
      src ''^~github.com/Hlgxz/gai/database/driver~'',
      src ''^_ ~github.com/Hlgxz/gai/database/driver~'',
      src ''^~github.com/Hlgxz/gai/database/migration~'',
      src ''^~'' @ gomod @ src ''/database/migrations~'',
      '')'',
      [],
      ''func main() {'',
      src ''^command := ~migrate~'',
      src ''^if len(os.Args) > 1 {'',
      src ''^^command = os.Args[1]'',
      src ''^}'',
      [],
      src ''^_ = config.LoadEnvFile(~.env~)'',
      src ''^cfg := config.New()'',
      src ''^if err := cfg.Load(~config~); err != nil {'',
      src ''^^fmt.Fprintln(os.Stderr, err)'',
      src ''^^os.Exit(1)'',
      src ''^}'',
      [],
      src ''^db, err := database.Open(database.Config{'',
      src ''^^Driver: cfg.GetString(~app.database.driver~, ~sqlite~),'',
      src ''^^DSN:    cfg.GetString(~app.database.dsn~, ~storage/database.db~),'',
      src ''^})'',
      src ''^if err != nil {'',
      src ''^^fmt.Fprintln(os.Stderr, ~database:~, err)'',
      src ''^^os.Exit(1)'',
      src ''^}'',
      src ''^defer db.Close()'',
      [],
      src ''^drv, err := driver.Get(db.DriverName)'',
      src ''^if err != nil {'',
      src ''^^fmt.Fprintln(os.Stderr, err)'',
      src ''^^os.Exit(1)'',
      src ''^}'',
      [],
      src ''^if err := migration.Execute(db.SQL, drv, migrations.Migrations, command); err != nil {'',
      src ''^^fmt.Fprintln(os.Stderr, err)'',
      src ''^^os.Exit(1)'',
      src ''^}'',
      ''}'',
      []]"

definition seed_runner :: "string \<Rightarrow> string" where
  "seed_runner gomod =
     text_of
     [''package main'',
      [],
      ''import ('',
      src ''^~fmt~'',
      src ''^~os~'',
      [],
      src ''^~github.com/Hlgxz/gai/config~'',
      src ''^~github.com/Hlgxz/gai/database~'',
      src ''^_ ~github.com/Hlgxz/gai/database/driver~'',
      src ''^~github.com/Hlgxz/gai/database/seed~'',
      src ''^~'' @ gomod @ src ''/database/seeders~'',
      '')'',
      [],
      ''func main() {'',
      src ''^_ = config.LoadEnvFile(~.env~)'',
      src ''^cfg := config.New()'',
      src ''^if err := cfg.Load(~config~); err != nil {'',
      src ''^^fmt.Fprintln(os.Stderr, err)'',
      src ''^^os.Exit(1)'',
      src ''^}'',
      [],
      src ''^db, err := database.Open(database.Config{'',
      src ''^^Driver: cfg.GetString(~app.database.driver~, ~sqlite~),'',
      src ''^^DSN:    cfg.GetString(~app.database.dsn~, ~storage/database.db~),'',
      src ''^})'',
      src ''^if err != nil {'',
      src ''^^fmt.Fprintln(os.Stderr, ~database:~, err)'',
      src ''^^os.Exit(1)'',
      src ''^}'',
      src ''^defer db.Close()'',
      [],
      src ''^if err := seed.Run(db, seeders.Seeders...); err != nil {'',
      src ''^^fmt.Fprintln(os.Stderr, err)'',
      src ''^^os.Exit(1)'',
      src ''^}'',
      src ''^fmt.Println(~Seeding complete.~)'',
      ''}'',
      []]"

definition queue_runner :: "string \<Rightarrow> string" where
  "queue_runner gomod =
     text_of
     [''package main'',
      [],
      ''import ('',
      src ''^~context~'',
      src ''^~fmt~'',
      src ''^~os~'',
      src ''^~os/signal~'',
      src ''^~syscall~'',
      [],
      src ''^~github.com/Hlgxz/gai~'',
      src ''^~github.com/Hlgxz/gai/queue~'',
      src ''^~'' @ gomod @ src ''/app/jobs~'',
      '')'',
      [],
      ''func main() {'',
      src ''^app := gai.New()'',
      src ''^app.LoadConfig(~config~)'',
      src ''^app.UseServices()'',
      [],
      src ''^mgr := gai.Make[*queue.Manager](app.Container, ~queue~)'',
      src ''^jobs.Register(mgr)'',
      [],
      src ''^ctx, stop := signal.NotifyContext(context.Background(), os.Interrupt, syscall.SIGTERM)'',
      src ''^defer stop()'',
      [],
      src ''^fmt.Println(~gai queue worker started~)'',
      src ''^if err := mgr.Work(ctx); err != nil && err != context.Canceled {'',
      src ''^^fmt.Fprintln(os.Stderr, err)'',
      src ''^^os.Exit(1)'',
      src ''^}'',
      ''}'',
      []]"

definition schedule_runner :: "string \<Rightarrow> string" where
  "schedule_runner gomod =
     text_of
     [''package main'',
      [],
      ''import ('',
      src ''^~context~'',
      src ''^~fmt~'',
      src ''^~os~'',
      src ''^~os/signal~'',
      src ''^~syscall~'',
      [],
      src ''^~github.com/Hlgxz/gai~'',
      src ''^~github.com/Hlgxz/gai/schedule~'',
      src ''^~'' @ gomod @ src ''/app/console~'',
      '')'',
      [],
      ''func main() {'',
      src ''^app := gai.New()'',
      src ''^app.LoadConfig(~config~)'',
      src ''^app.UseServices()'',
      [],
      src ''^s := gai.Make[*schedule.Scheduler](app.Container, ~schedule~)'',
      src ''^console.Register(s)'',
      [],
      src ''^ctx, stop := signal.NotifyContext(context.Background(), os.Interrupt, syscall.SIGTERM)'',
      src ''^defer stop()'',
      [],
      src ''^fmt.Println(~gai scheduler started~)'',
      src ''^s.Run(ctx)'',
      ''}'',
      []]"

section \<open>A new project\<close>

definition goModContent :: "string \<Rightarrow> string" where
  "goModContent gomod =
     text_of
     [''module '' @ gomod,
      [],
      ''go 1.24'',
      [],
      ''require github.com/Hlgxz/gai v'' @ ''0.2.0'',
      []]"

definition mainGoContent :: "string \<Rightarrow> int \<Rightarrow> string" where
  "mainGoContent gomod port =
     text_of
     [''package main'',
      [],
      ''import ('',
      src ''^~fmt~'',
      src ''^~log~'',
      [],
      src ''^~github.com/Hlgxz/gai~'',
      src ''^~github.com/Hlgxz/gai/auth~'',
      src ''^~'' @ gomod @ src ''/routes~'',
      '')'',
      [],
      ''func main() {'',
      src ''^app := gai.New()'',
      src ''^app.LoadConfig(~config~)'',
      src ''^app.UseDefaults()'',
      src ''^app.UseServices()'',
      [],
      src ''^if _, err := app.OpenDB(); err != nil {'',
      src ''^^log.Printf(~database: %v (continuing without DB)~, err)'',
      src ''^}'',
      [],
      src ''^secret := app.Config().GetString(~app.auth.guards.jwt.secret~, ~change-me~)'',
      src ''^ttl := app.Config().GetInt(~app.auth.guards.jwt.ttl~, 7200)'',
      src ''^guards := auth.NewManager(~jwt~)'',
      src ''^guards.RegisterGuard(auth.NewJWTGuard(secret, ttl))'',
      src ''^app.Instance(~auth~, guards)'',
      [],
      src ''^if app.Config().GetBool(~app.debug~, false) {'',
      src ''^^app.EnablePprof()'',
      src ''^^app.EnableMetrics()'',
      src ''^}'',
      [],
      src ''^app.Router().Get(~/health~, app.Health())'',
      src ''^app.Router().Get(~/health/live~, app.Liveness())'',
      src ''^app.Router().Get(~/health/ready~, app.Readiness())'',
      src ''^routes.Register(app)'',
      [],
      src ''^addr := fmt.Sprintf(~:%d~, '' @ itoa port @ '')'',
      src ''^log.Fatal(app.Serve(addr))'',
      ''}'',
      []]"

definition envContent :: "int \<Rightarrow> string" where
  "envContent port =
     text_of
     [''APP_ENV=development'',
      ''APP_PORT='' @ itoa port,
      ''APP_DEBUG=true'',
      [],
      ''DB_DRIVER=sqlite'',
      ''DB_DATABASE=storage/database.db'',
      [],
      ''JWT_SECRET=change-me-to-a-random-string'',
      ''JWT_TTL=7200'',
      [],
      ''# REDIS_ADDR=127.0.0.1:6379'',
      ''# REDIS_PASSWORD='',
      [],
      ''# WECHAT_APP_ID='',
      ''# WECHAT_APP_SECRET='',
      []]"

definition appYamlContent :: "string \<Rightarrow> int \<Rightarrow> string" where
  "appYamlContent name port =
     text_of
     [''name: '' @ name,
      ''port: '' @ itoa port,
      ''env: ${APP_ENV:development}'',
      ''debug: ${APP_DEBUG:true}'',
      [],
      ''log:'',
      ''  level: ${LOG_LEVEL:info}'',
      ''  output: ${LOG_OUTPUT:stdout}'',
      ''  path: ${LOG_PATH:storage/logs/app.log}'',
      ''  max_size: 100'',
      ''  max_backups: 3'',
      ''  max_age: 28'',
      [],
      ''database:'',
      ''  driver: ${DB_DRIVER:sqlite}'',
      ''  dsn: ${DB_DATABASE:storage/database.db}'',
      ''  max_open_conns: 25'',
      ''  max_idle_conns: 5'',
      [],
      ''redis:'',
      ''  addr: ${REDIS_ADDR:}'',
      ''  password: ${REDIS_PASSWORD:}'',
      ''  db: 0'',
      [],
      ''cache:'',
      ''  driver: ${CACHE_DRIVER:memory}'',
      ''  prefix: gai:'',
      [],
      ''session:'',
      ''  driver: ${SESSION_DRIVER:memory}'',
      ''  cookie: gai_session'',
      ''  ttl: 86400'',
      ''  secure: false'',
      [],
      ''queue:'',
      ''  driver: ${QUEUE_DRIVER:memory}'',
      ''  key: gai:queue'',
      ''  retry: 3'',
      ''  timeout: 60'',
      ''  concurrency: 1'',
      [],
      ''mail:'',
      ''  driver: ${MAIL_DRIVER:log}'',
      ''  host: ${MAIL_HOST:localhost}'',
      ''  port: ${MAIL_PORT:587}'',
      ''  username: ${MAIL_USERNAME:}'',
      ''  password: ${MAIL_PASSWORD:}'',
      ''  from: ${MAIL_FROM:}'',
      ''  tls: true'',
      [],
      ''storage:'',
      ''  default: local'',
      ''  local:'',
      ''    root: storage/app'',
      ''    url: /storage'',
      ''  s3:'',
      ''    endpoint: ${S3_ENDPOINT:}'',
      ''    region: ${S3_REGION:us-east-1}'',
      ''    bucket: ${S3_BUCKET:}'',
      ''    access_key: ${S3_ACCESS_KEY:}'',
      ''    secret_key: ${S3_SECRET_KEY:}'',
      ''    path_style: true'',
      [],
      ''tracing:'',
      ''  enabled: false'',
      ''  endpoint: ${OTEL_EXPORTER_OTLP_ENDPOINT:}'',
      [],
      ''auth:'',
      ''  default: jwt'',
      ''  guards:'',
      ''    jwt:'',
      ''      driver: jwt'',
      ''      secret: ${JWT_SECRET}'',
      ''      ttl: ${JWT_TTL:7200}'',
      []]"

definition routesGoContent :: "string" where
  "routesGoContent =
     text_of
     [''package routes'',
      [],
      ''import ('',
      src ''^~github.com/Hlgxz/gai~'',
      src ''^ghttp ~github.com/Hlgxz/gai/http~'',
      '')'',
      [],
      ''// Register sets up all application routes.'',
      ''func Register(app *gai.Application) {'',
      src ''^r := app.Router()'',
      [],
      src ''^r.Get(~/~, func(c *ghttp.Context) {'',
      src ''^^c.Success(map[string]string{'',
      src ''^^^~framework~: ~Gai~,'',
      src ''^^^~version~:   ~'' @ ''0.2.0'' @ src ''~,'',
      src ''^^^~message~:   ~Welcome to Gai! Define once, generate everything.~,'',
      src ''^^})'',
      src ''^})'',
      [],
      src ''^registerGenerated(app, r)'',
      ''}'',
      []]"

definition generatedRoutesContent :: "string" where
  "generatedRoutesContent =
     text_of
     [''package routes'',
      [],
      ''import ('',
      src ''^~github.com/Hlgxz/gai~'',
      src ''^~github.com/Hlgxz/gai/router~'',
      '')'',
      [],
      ''// registerGenerated is maintained by gai generate. Do not edit by hand.'',
      ''func registerGenerated(app *gai.Application, r *router.Router) {'',
      ''}'',
      []]"

definition gitignoreContent :: "string" where
  "gitignoreContent =
     trim_space (text_of
     [[],
      ''# Binaries'',
      ''*.exe'',
      ''*.dll'',
      ''*.so'',
      ''*.dylib'',
      [],
      ''# IDE'',
      ''.idea/'',
      ''.vscode/'',
      ''*.swp'',
      ''*.swo'',
      [],
      ''# Environment'',
      ''.env'',
      ''.env.local'',
      [],
      ''# Storage'',
      ''storage/logs/*'',
      ''storage/*.db'',
      ''!storage/.gitkeep'',
      [],
      ''# Build'',
      ''/tmp'',
      ''/dist'',
      []]) @ [CHR 10]"

text \<open>The rules for coding assistants; \<open>utf8\<close> gives the bytes of what is not ASCII.\<close>

definition utf8 :: "nat list \<Rightarrow> string" where
  "utf8 bs = map char_of bs"

definition aiRulesCore :: "string \<Rightarrow> string" where
  "aiRulesCore gomod =
     text_of
     [''## Project'',
      [],
      ''- **Module**: '' @ gomod,
      ''- **Framework**: Gai (github.com/Hlgxz/gai) '' @ utf8 [226, 128, 148] @ '' AI-native Go web framework'',
      ''- **Docs**: https://github.com/Hlgxz/gai'',
      [],
      ''## Setup'',
      [],
      ''```bash'',
      ''go mod tidy && go build ./...'',
      ''```'',
      [],
      ''## Architecture'',
      [],
      ''```'',
      last (split_by (CHR ''/'') gomod) @ ''/'',
      utf8 [226, 148, 156, 226, 148, 128, 226, 148, 128] @ '' app/controllers/   # HTTP '' @ utf8 [230, 142, 167, 229, 136, 182, 229, 153, 168],
      utf8 [226, 148, 156, 226, 148, 128, 226, 148, 128] @ '' app/models/        # ORM '' @ utf8 [230, 168, 161, 229, 158, 139],
      utf8 [226, 148, 156, 226, 148, 128, 226, 148, 128] @ '' app/middleware/     # '' @ utf8 [232, 135, 170, 229, 174, 154, 228, 185, 137, 228, 184, 173, 233, 151, 180, 228, 187, 182],
      utf8 [226, 148, 156, 226, 148, 128, 226, 148, 128] @ '' config/app.yaml    # '' @ utf8 [233, 133, 141, 231, 189, 174] @ '' ('' @ utf8 [230, 148, 175, 230, 140, 129] @ '' ${ENV_VAR:default})'',
      utf8 [226, 148, 156, 226, 148, 128, 226, 148, 128] @ '' database/migrations/'',
      utf8 [226, 148, 156, 226, 148, 128, 226, 148, 128] @ '' routes/routes.go   # '' @ utf8 [232, 183, 175, 231, 148, 177, 230, 179, 168, 229, 134, 140, 229, 133, 165, 229, 143, 163],
      utf8 [226, 148, 156, 226, 148, 128, 226, 148, 128] @ '' schemas/           # Schema '' @ utf8 [229, 174, 154, 228, 185, 137] @ '' (YAML '' @ utf8 [226, 134, 146] @ '' '' @ utf8 [232, 135, 170, 229, 138, 168, 231, 148, 159, 230, 136, 144, 228, 187, 163, 231, 160, 129] @ '')'',
      utf8 [226, 148, 156, 226, 148, 128, 226, 148, 128] @ '' storage/           # '' @ utf8 [230, 151, 165, 229, 191, 151, 227, 128, 129] @ ''SQLite'' @ utf8 [227, 128, 129, 228, 184, 138, 228, 188, 160, 230, 150, 135, 228, 187, 182],
      utf8 [226, 148, 156, 226, 148, 128, 226, 148, 128] @ '' .env               # '' @ utf8 [231, 142, 175, 229, 162, 131, 229, 143, 152, 233, 135, 143],
      utf8 [226, 148, 148, 226, 148, 128, 226, 148, 128] @ '' main.go            # '' @ utf8 [229, 133, 165, 229, 143, 163],
      ''```'',
      [],
      ''## Gai Framework Conventions'',
      [],
      ''### 1. Import '' @ utf8 [229, 136, 171, 229, 144, 141] @ '' ('' @ utf8 [229, 188, 186, 229, 136, 182] @ '')'',
      ''```go'',
      src ''import ghttp ~github.com/Hlgxz/gai/http~  // '' @ utf8 [229, 191, 133, 233, 161, 187, 231, 148, 168] @ '' ghttp '' @ utf8 [229, 136, 171, 229, 144, 141],
      ''```'',
      [],
      ''### 2. Handler '' @ utf8 [231, 173, 190, 229, 144, 141],
      ''```go'',
      ''func Handler(c *ghttp.Context) {'',
      ''    c.Success(data)        // '' @ utf8 [226, 134, 146] @ src '' {~code~:0,~message~:~ok~,~data~:...}'',
      src ''    c.Error(400, ~msg~)    // '' @ utf8 [226, 134, 146] @ src '' {~code~:400,~message~:~msg~}'',
      ''}'',
      ''```'',
      [],
      ''### 3. ORM ('' @ utf8 [230, 179, 155, 229, 158, 139, 229, 135, 189, 230, 149, 176] @ '')'',
      ''```go'',
      src ''import ~github.com/Hlgxz/gai/database/orm~'',
      [],
      ''// '' @ utf8 [230, 159, 165, 232, 175, 162],
      src ''query := orm.Query[User](db).Where(~status~, ~=~, ~active~).OrderBy(~id~, ~DESC~)'',
      ''users, _ := orm.Get[User](query)       // []User'',
      ''user, _ := orm.First[User](query)      // *User'',
      ''page, _ := orm.Paginate[User](query, 1, 20)'',
      [],
      ''// '' @ utf8 [229, 162, 158, 229, 136, 160, 230, 148, 185],
      src ''created, _ := orm.Create[User](db, &User{Name: ~test~})'',
      ''orm.Update[User](db, user)'',
      ''orm.Delete[User](db, user)             // '' @ utf8 [232, 189, 175, 229, 136, 160, 233, 153, 164],
      ''```'',
      [],
      ''### 4. Model '' @ utf8 [229, 174, 154, 228, 185, 137],
      ''```go'',
      src ''import ~github.com/Hlgxz/gai/database/orm~'',
      [],
      ''type User struct {'',
      ''    orm.Model                                        // ID, CreatedAt, UpdatedAt, DeletedAt'',
      src ''    Name  string `json:~name~  gai:~column:name;size:100~`'',
      src ''    Email string `json:~email~ gai:~column:email;unique~`'',
      src ''    Posts []Post `json:~-~     gai:~hasMany~`'',
      ''}'',
      ''```'',
      [],
      ''### 5. '' @ utf8 [232, 183, 175, 231, 148, 177],
      ''```go'',
      src ''import ~github.com/Hlgxz/gai/router~'',
      [],
      src ''r.Get(~/path/:id~, handler)'',
      src ''r.Group(~/api/v1~, func(g *router.Group) {'',
      src ''    g.Use(authManager.Middleware(~jwt~))'',
      src ''    g.Resource(~/users~, userController) // '' @ utf8 [232, 135, 170, 229, 138, 168] @ '' CRUD '' @ utf8 [228, 186, 148, 230, 157, 161, 232, 183, 175, 231, 148, 177],
      ''})'',
      ''```'',
      [],
      ''### 6. '' @ utf8 [228, 184, 173, 233, 151, 180, 228, 187, 182],
      ''```go'',
      ''func MyMiddleware() ghttp.HandlerFunc {'',
      ''    return func(c *ghttp.Context) {'',
      ''        // '' @ utf8 [229, 137, 141, 231, 189, 174, 233, 128, 187, 232, 190, 145],
      ''        c.Next()  // '' @ utf8 [229, 191, 133, 233, 161, 187, 232, 176, 131, 231, 148, 168],
      ''        // '' @ utf8 [229, 144, 142, 231, 189, 174, 233, 128, 187, 232, 190, 145],
      ''    }'',
      ''}'',
      ''```'',
      [],
      ''### 7. '' @ utf8 [230, 160, 161, 233, 170, 140],
      ''```go'',
      ''v := ghttp.NewValidator(data, map[string]string{'',
      src ''    ~email~: ~required|email~,'',
      src ''    ~name~:  ~required|min:2|max:50~,'',
      src ''    ~phone~: ~phone~,'',
      ''})'',
      ''if errs := v.Validate(); errs != nil { /* 422 */ }'',
      ''```'',
      [],
      ''### 8. Schema '' @ utf8 [233, 169, 177, 229, 138, 168, 229, 188, 128, 229, 143, 145],
      utf8 [229, 156, 168] @ '' schemas/ '' @ utf8 [228, 184, 173, 229, 136, 155, 229, 187, 186] @ '' YAML'' @ utf8 [239, 188, 140, 232, 191, 144, 232, 161, 140] @ '' `gai generate --schema schemas/` '' @ utf8 [232, 135, 170, 229, 138, 168, 231, 148, 159, 230, 136, 144] @ '' Model + Controller + Migration + Routes'' @ utf8 [227, 128, 130],
      [],
      ''## Package '' @ utf8 [233, 128, 159, 230, 159, 165],
      [],
      ''| '' @ utf8 [229, 175, 188, 229, 133, 165, 232, 183, 175, 229, 190, 132] @ '' | '' @ utf8 [229, 136, 171, 229, 144, 141] @ '' | '' @ utf8 [231, 148, 168, 233, 128, 148] @ '' |'',
      ''|---------|------|------|'',
      ''| github.com/Hlgxz/gai | gai | Application, Container, Make[T] |'',
      ''| github.com/Hlgxz/gai/http | ghttp | Context, HandlerFunc, Validator |'',
      ''| github.com/Hlgxz/gai/router | router | Router, Group, ResourceController |'',
      ''| github.com/Hlgxz/gai/database/orm | orm | DB, Model, Query[T], Get[T], Create[T] |'',
      ''| github.com/Hlgxz/gai/auth | auth | Manager, Guard, JWTGuard |'',
      ''| github.com/Hlgxz/gai/middleware | middleware | CORS, Logger, Recovery, RateLimit |'',
      ''| github.com/Hlgxz/gai/miniapp/wechat | wechat | Client, Auth, Pay, Message |'',
      ''| github.com/Hlgxz/gai/miniapp/alipay | alipay | Client, Auth |'',
      ''| github.com/Hlgxz/gai/support | support | Snake, Camel, Hash, Env |'',
      [],
      ''## '' @ utf8 [231, 166, 129, 230, 173, 162],
      [],
      ''- '' @ utf8 [229, 175, 188, 229, 133, 165] @ '' gai/http '' @ utf8 [228, 184, 141, 229, 138, 160] @ '' ghttp '' @ utf8 [229, 136, 171, 229, 144, 141],
      ''- '' @ utf8 [229, 156, 168] @ '' handler '' @ utf8 [228, 184, 173, 228, 189, 191, 231, 148, 168] @ '' net/http '' @ utf8 [231, 154, 132] @ '' ResponseWriter/Request'',
      ''- '' @ utf8 [232, 183, 179, 232, 191, 135, 228, 184, 173, 233, 151, 180, 228, 187, 182, 231, 154, 132] @ '' c.Next()'',
      ''- '' @ utf8 [231, 155, 180, 230, 142, 165, 229, 134, 153] @ '' SQL'' @ utf8 [239, 188, 136, 231, 148, 168] @ '' query builder '' @ utf8 [230, 136, 150] @ '' migration blueprint'' @ utf8 [239, 188, 137],
      ''- '' @ utf8 [230, 183, 187, 229, 138, 160] @ '' gin/echo/chi '' @ utf8 [231, 173, 137, 231, 172, 172, 228, 184, 137, 230, 150, 185, 232, 183, 175, 231, 148, 177, 229, 186, 147],
      []]"

definition cursorRulesContent :: "string \<Rightarrow> string" where
  "cursorRulesContent gomod =
     text_of
     [''---'',
      ''description: Gai framework conventions for this project. Apply to all Go files.'',
      src ''globs: ~**/*.go~'',
      ''alwaysApply: true'',
      ''---'',
      [],
      ''# Gai Framework Rules'',
      [],
      []] @ aiRulesCore gomod"

definition claudeContent :: "string \<Rightarrow> string" where
  "claudeContent gomod =
     text_of
     [''# CLAUDE.md '' @ utf8 [226, 128, 148] @ '' Gai Framework Project'',
      [],
      []] @ aiRulesCore gomod"

definition agentsContent :: "string \<Rightarrow> string" where
  "agentsContent gomod =
     text_of
     [''# AGENTS.md '' @ utf8 [226, 128, 148] @ '' Gai Framework Project'',
      [],
      ''> For AI coding agents (Codex CLI, etc.)'',
      [],
      []] @ aiRulesCore gomod"

definition copilotContent :: "string \<Rightarrow> string" where
  "copilotContent gomod =
     text_of
     [''# GitHub Copilot Instructions'',
      [],
      []] @ aiRulesCore gomod"

definition windsurfContent :: "string \<Rightarrow> string" where
  "windsurfContent gomod =
     text_of
     [''# Windsurf Rules'',
      [],
      []] @ aiRulesCore gomod"

definition kiroContent :: "string \<Rightarrow> string" where
  "kiroContent gomod =
     text_of
     [''# Kiro Rules'',
      [],
      []] @ aiRulesCore gomod"

definition geminiContent :: "string \<Rightarrow> string" where
  "geminiContent gomod =
     text_of
     [''# Gemini Style Guide'',
      [],
      []] @ aiRulesCore gomod"

definition rooContent :: "string \<Rightarrow> string" where
  "rooContent gomod =
     text_of
     [''# Roo Code Rules'',
      [],
      []] @ aiRulesCore gomod"

definition augmentContent :: "string \<Rightarrow> string" where
  "augmentContent gomod =
     text_of
     [''# Augment / Antigravity Rules'',
      [],
      []] @ aiRulesCore gomod"

definition clineContent :: "string" where
  "clineContent =
     text_of
     [''# Cline / Roo Code Rules '' @ utf8 [226, 128, 148] @ '' Gai Framework'',
      ''#'',
      ''# Framework: github.com/Hlgxz/gai | Docs: https://github.com/Hlgxz/gai'',
      ''# MUST: import github.com/Hlgxz/gai/http as ghttp'',
      ''# Handler: func(c *ghttp.Context) '' @ utf8 [226, 128, 148] @ '' use c.Success(), c.Error(), c.JSON()'',
      ''# ORM: orm.Query[T](db), orm.Get[T](q), orm.Create[T](db, &item)'',
      src ''# Model: embed orm.Model, use gai:~...~ struct tags'',
      src ''# Route: r.Get(~/:param~, h), r.Group(), r.Resource()'',
      ''# Middleware: return ghttp.HandlerFunc, call c.Next()'',
      ''# Validate: ghttp.NewValidator(data, rules) '' @ utf8 [226, 128, 148] @ '' pipe syntax required|email|min:5'',
      ''# Schema: YAML in schemas/ '' @ utf8 [226, 134, 146] @ '' gai generate --schema schemas/'',
      ''# See CLAUDE.md for full reference.'',
      []]"

end
