(* ===== verification/Cli.thy ===== *)
theory Cli
  imports CliTemplates Generator
begin

text \<open>
  The command line tool (\<^verbatim>\<open>cmd/gai\<close>): the commands that create files, the programs it writes and runs, a new project, and what
  the development server watches. Files are those of \<open>Storage\<close>, with paths relative to the current directory. The formatter of Go
  sources, the clock, the Go tool, the YAML parser and the order in which a map is visited are parameters; what is printed is not
  modelled.
\<close>

section \<open>Files of a project\<close>

definition os_exists :: "string \<Rightarrow> fs \<Rightarrow> bool" where
  "os_exists path s = (case os_Stat path s of Inl _ \<Rightarrow> False | Inr _ \<Rightarrow> True)"

definition mkdir_all :: "string list \<Rightarrow> fs \<Rightarrow> gen_error option \<times> fs" where
  "mkdir_all ps s = (case os_MkdirAll ps s of Inl e \<Rightarrow> (Some (GenOs [] e), s) | Inr s' \<Rightarrow> (None, s'))"

definition write_file :: "string \<Rightarrow> string \<Rightarrow> fs \<Rightarrow> gen_error option \<times> fs" where
  "write_file path content s = (case os_WriteFile path content s of (Some e, s') \<Rightarrow> (Some (GenOs [] e), s') | (None, s') \<Rightarrow> (None, s'))"

definition writeFile :: "string \<Rightarrow> string \<Rightarrow> fs \<Rightarrow> gen_error option \<times> fs" where
  "writeFile path content s = and_then (mkdir_all (butlast (clean_parts path)) s) (write_file path content)"

fun splitLines_go :: "string \<Rightarrow> string \<Rightarrow> string list" where
  "splitLines_go cur [] = (if cur = [] then [] else [rev cur])"
| "splitLines_go cur (c # cs) =
     (if c = CHR 10 then rev (case cur of d # ds \<Rightarrow> if d = CHR 13 then ds else cur | [] \<Rightarrow> []) # splitLines_go [] cs
      else splitLines_go (c # cur) cs)"

definition splitLines :: "string \<Rightarrow> string list" where
  "splitLines s = splitLines_go [] s"

definition detectModule :: "fs \<Rightarrow> string" where
  "detectModule s =
     (case os_ReadFile ''go.mod'' s of
        Inl _ \<Rightarrow> ''myapp''
      | Inr data \<Rightarrow>
          (case find (\<lambda>l. has_prefix l ''module '') (splitLines data) of
             Some l \<Rightarrow> trim_space (trim_prefix l ''module '')
           | None \<Rightarrow> ''myapp''))"

definition formatGoSource :: "(string \<Rightarrow> string option) \<Rightarrow> string \<Rightarrow> string" where
  "formatGoSource format text = (case format text of None \<Rightarrow> text | Some out \<Rightarrow> out)"

definition mustProjectRoot :: "fs \<Rightarrow> gen_error option \<times> fs" where
  "mustProjectRoot s =
     (if os_exists ''go.mod'' s then (None, s)
      else (Some (GenText ''run this command from a Gai project root (go.mod not found)''), s))"

section \<open>gai make\<close>

definition writeTemplate :: "string \<Rightarrow> string \<Rightarrow> string \<Rightarrow> fs \<Rightarrow> gen_error option \<times> fs" where
  "writeTemplate dir filename content s =
     and_then (mkdir_all (clean_parts dir) s) (\<lambda>s.
       let path = path_join [dir, filename] in
       if os_exists path s then (Some (GenText (''file already exists: '' @ path)), s)
       else write_file path content s)"

definition ensure_file :: "string \<Rightarrow> string \<Rightarrow> string \<Rightarrow> fs \<Rightarrow> gen_error option \<times> fs" where
  "ensure_file dir file content s =
     (let path = path_join [dir, file] in
      if os_exists path s then (None, s)
      else and_then (mkdir_all (clean_parts dir) s) (write_file path content))"

definition ensureMigrationRegistry :: "string \<Rightarrow> fs \<Rightarrow> gen_error option \<times> fs" where
  "ensureMigrationRegistry dir = ensure_file dir ''registry.go'' migration_registry"

definition ensureSeederRegistry :: "string \<Rightarrow> fs \<Rightarrow> gen_error option \<times> fs" where
  "ensureSeederRegistry dir = ensure_file dir ''registry.go'' seeder_registry"

definition ensureJobsRegistry :: "string \<Rightarrow> fs \<Rightarrow> gen_error option \<times> fs" where
  "ensureJobsRegistry dir = ensure_file dir ''register.go'' jobs_registry"

definition ensureScheduleRegistry :: "string \<Rightarrow> fs \<Rightarrow> gen_error option \<times> fs" where
  "ensureScheduleRegistry dir s =
     (let path = dir @ ''/register.go'' in if os_exists path s then (None, s) else writeFile path schedule_registry s)"

definition wrap :: "string \<Rightarrow> gen_error option \<times> fs \<Rightarrow> gen_error option \<times> fs" where
  "wrap p r = (map_option (wrap_error p) (fst r), snd r)"

definition makeModel :: "string \<Rightarrow> fs \<Rightarrow> gen_error option \<times> fs" where
  "makeModel arg s =
     (let name = camel arg; table = to_lower (plural (snake name)) in
      case modelStub name table of
        None \<Rightarrow> (Some GenPanic, s)
      | Some content \<Rightarrow> writeTemplate ''app/models'' (snake name @ ''.go'') content s)"

definition makeController :: "string \<Rightarrow> fs \<Rightarrow> gen_error option \<times> fs" where
  "makeController arg = (let name = camel arg in writeTemplate ''app/controllers'' (snake name @ ''_controller.go'') (controllerStub name))"

definition makeMiddleware :: "string \<Rightarrow> fs \<Rightarrow> gen_error option \<times> fs" where
  "makeMiddleware arg = (let name = camel arg in writeTemplate ''app/middleware'' (snake name @ ''.go'') (middlewareStub name))"

definition makeMigration :: "string \<Rightarrow> string \<Rightarrow> fs \<Rightarrow> gen_error option \<times> fs" where
  "makeMigration ts arg s =
     (let name = ts @ ''_'' @ snake arg in
      and_then (wrap ''failed to create migration registry: '' (ensureMigrationRegistry ''database/migrations'' s))
        (writeTemplate ''database/migrations'' (name @ ''.go'') (migrationStub name)))"

definition makeSeeder :: "string \<Rightarrow> fs \<Rightarrow> gen_error option \<times> fs" where
  "makeSeeder arg s =
     (let name = camel arg in
      and_then (wrap ''failed to create seeder registry: '' (ensureSeederRegistry ''database/seeders'' s))
        (writeTemplate ''database/seeders'' (snake name @ ''.go'') (seederStub name)))"

definition makeJob :: "string \<Rightarrow> fs \<Rightarrow> gen_error option \<times> fs" where
  "makeJob arg s =
     (let name = camel arg in
      and_then (ensureJobsRegistry ''app/jobs'' s) (writeTemplate ''app/jobs'' (snake name @ ''.go'') (jobStub name)))"

datatype make_command = MakeModel | MakeController | MakeMiddleware | MakeMigration string | MakeSeeder | MakeJob

definition gai_make :: "make_command \<Rightarrow> string \<Rightarrow> fs \<Rightarrow> gen_error option \<times> fs" where
  "gai_make k arg =
     (case k of
        MakeModel \<Rightarrow> makeModel arg
      | MakeController \<Rightarrow> makeController arg
      | MakeMiddleware \<Rightarrow> makeMiddleware arg
      | MakeMigration ts \<Rightarrow> makeMigration ts arg
      | MakeSeeder \<Rightarrow> makeSeeder arg
      | MakeJob \<Rightarrow> makeJob arg)"

section \<open>Commands that run a program\<close>

text \<open>\<open>runGo\<close> is the Go tool: its error, if any, and the files it leaves.\<close>

type_synonym go_tool = "string list \<Rightarrow> fs \<Rightarrow> gen_error option \<times> fs"

definition write_runner :: "(string \<Rightarrow> string option) \<Rightarrow> string \<Rightarrow> (string \<Rightarrow> string) \<Rightarrow> fs \<Rightarrow> gen_error option \<times> fs" where
  "write_runner format path runner s = writeFile path (formatGoSource format (runner (detectModule s))) s"

definition runMigrate :: "(string \<Rightarrow> string option) \<Rightarrow> go_tool \<Rightarrow> string \<Rightarrow> fs \<Rightarrow> gen_error option \<times> fs" where
  "runMigrate format go command s =
     and_then (mustProjectRoot s) (\<lambda>s.
     and_then (ensureMigrationRegistry ''database/migrations'' s) (\<lambda>s.
     and_then (write_runner format ''database/migrations/cmd/main.go'' migrate_runner s)
       (go [''run'', ''./database/migrations/cmd'', command])))"

text \<open>
  The subcommand of \<^verbatim>\<open>gai migrate\<close>: cobra runs the one the first argument names; a command that is not the root takes other
  arguments as its own.
\<close>

definition migrateCmd :: "string list \<Rightarrow> string" where
  "migrateCmd args =
     (case args of
        [] \<Rightarrow> ''migrate''
      | a # _ \<Rightarrow> if a \<in> set [''rollback'', ''status'', ''fresh'', ''reset''] then a else ''migrate'')"

definition gai_migrate :: "(string \<Rightarrow> string option) \<Rightarrow> go_tool \<Rightarrow> string list \<Rightarrow> fs \<Rightarrow> gen_error option \<times> fs" where
  "gai_migrate format go args s = runMigrate format go (migrateCmd args) s"

text \<open>A subcommand that is misspelt is not refused: the pending migrations are run.\<close>

lemma misspelt_migrates: "gai_migrate format go [''rolback''] s = gai_migrate format go [] s"
  by (simp add: gai_migrate_def migrateCmd_def)

definition runSeed :: "(string \<Rightarrow> string option) \<Rightarrow> go_tool \<Rightarrow> fs \<Rightarrow> gen_error option \<times> fs" where
  "runSeed format go s =
     and_then (mustProjectRoot s) (\<lambda>s.
       if \<not> os_exists (path_join [''database'', ''seeders'', ''registry.go'']) s then (None, s)
       else and_then (write_runner format ''database/seeders/cmd/main.go'' seed_runner s) (go [''run'', ''./database/seeders/cmd'']))"

definition runQueueWork :: "(string \<Rightarrow> string option) \<Rightarrow> go_tool \<Rightarrow> fs \<Rightarrow> gen_error option \<times> fs" where
  "runQueueWork format go s =
     and_then (mustProjectRoot s) (\<lambda>s.
     and_then (ensureJobsRegistry ''app/jobs'' s) (\<lambda>s.
     and_then (write_runner format ''app/jobs/cmd/main.go'' queue_runner s) (go [''run'', ''./app/jobs/cmd''])))"

definition runSchedule :: "(string \<Rightarrow> string option) \<Rightarrow> go_tool \<Rightarrow> fs \<Rightarrow> gen_error option \<times> fs" where
  "runSchedule format go s =
     and_then (mustProjectRoot s) (\<lambda>s.
     and_then (ensureScheduleRegistry ''app/console'' s) (\<lambda>s.
     and_then (write_runner format ''app/console/cmd/main.go'' schedule_runner s) (go [''run'', ''./app/console/cmd''])))"

text \<open>
  \<^verbatim>\<open>gai generate\<close>: \<open>parsedir\<close> and \<open>parsefile\<close> are \<^const>\<open>ParseDir\<close> and \<^const>\<open>ParseFile\<close> on their parameters, \<open>gen\<close> is
  \<^const>\<open>GenerateAll\<close> for the generator with the output directory and the module.
\<close>

definition run_generate :: "(string \<Rightarrow> string + Schema list) \<Rightarrow> (string \<Rightarrow> string + Schema) \<Rightarrow>
    (string \<Rightarrow> string \<Rightarrow> Schema \<Rightarrow> fs \<Rightarrow> gen_error option \<times> fs) \<Rightarrow> string \<Rightarrow> string \<Rightarrow> string \<Rightarrow> bool \<Rightarrow> fs \<Rightarrow> gen_error option \<times> fs" where
  "run_generate parsedir parsefile gen schemaPath gomod outputDir openapi s =
     (let gomod = (if gomod = [] then detectModule s else gomod); outputDir = (if outputDir = [] then ''.'' else outputDir) in
      case os_Stat schemaPath s of
        Inl _ \<Rightarrow> (Some (GenText (''schema path not found: '' @ schemaPath)), s)
      | Inr info \<Rightarrow>
          if openapi then
            (case (if info = Dir then parsedir schemaPath else map_sum id (\<lambda>x. [x]) (parsefile schemaPath)) of
               Inl e \<Rightarrow> (Some (GenText e), s)
             | Inr ss \<Rightarrow> write_file ''openapi.yaml'' (GenerateOpenAPI ''Gai API'' ss) s)
          else if info = Dir then GenerateFromDir parsedir (gen outputDir gomod) schemaPath s
          else (case parsefile schemaPath of Inl e \<Rightarrow> (Some (GenText e), s) | Inr x \<Rightarrow> gen outputDir gomod x s))"

section \<open>gai new\<close>

definition project_dirs :: "string list" where
  "project_dirs =
     [''app/controllers'', ''app/models'', ''app/middleware'', ''config'', ''database/migrations'', ''database/seeders'', ''routes'', ''schemas'',
      ''storage/logs'', ''.cursor/rules'', ''.github'', ''.kiro'', ''.gemini'', ''.roo'', ''.augment'']"

definition project_files :: "string \<Rightarrow> string \<Rightarrow> int \<Rightarrow> (string \<times> string) list" where
  "project_files name gomod port =
     [(''go.mod'', goModContent gomod), (''main.go'', mainGoContent gomod port), (''.env'', envContent port),
      (''config/app.yaml'', appYamlContent name port), (''schemas/.gitkeep'', []), (''database/migrations/.gitkeep'', []),
      (''database/seeders/.gitkeep'', []), (''routes/routes.go'', routesGoContent), (''routes/generated.go'', generatedRoutesContent),
      (''.gitignore'', gitignoreContent), (''.cursor/rules/gai.mdc'', cursorRulesContent gomod), (''CLAUDE.md'', claudeContent gomod),
      (''AGENTS.md'', agentsContent gomod), (''.github/copilot-instructions.md'', copilotContent gomod),
      (''.windsurfrules'', windsurfContent gomod), (''.kiro/rules.md'', kiroContent gomod), (''.gemini/style-guide.md'', geminiContent gomod),
      (''.roo/rules.md'', rooContent gomod), (''.clinerules'', clineContent), (''.augment/rules.md'', augmentContent gomod)]"

fun make_dirs :: "string \<Rightarrow> string list \<Rightarrow> fs \<Rightarrow> gen_error option \<times> fs" where
  "make_dirs name [] s = (None, s)"
| "make_dirs name (d # ds) s =
     and_then (wrap (''failed to create directory '' @ d @ '': '') (mkdir_all (clean_parts (path_join [name, d])) s)) (make_dirs name ds)"

fun write_files :: "string \<Rightarrow> (string \<times> string) list \<Rightarrow> fs \<Rightarrow> gen_error option \<times> fs" where
  "write_files name [] s = (None, s)"
| "write_files name ((p, c) # fs) s =
     and_then (wrap (''failed to write '' @ p @ '': '') (write_file (path_join [name, p]) c s)) (write_files name fs)"

text \<open>\<open>visit\<close> puts the files into the order in which Go visits the map.\<close>

definition createProject :: "((string \<times> string) list \<Rightarrow> (string \<times> string) list) \<Rightarrow> string \<Rightarrow> string \<Rightarrow> int \<Rightarrow> fs \<Rightarrow> gen_error option \<times> fs" where
  "createProject visit name gomod port s =
     and_then (make_dirs name project_dirs s) (write_files name (visit (project_files name gomod port)))"

definition run_new :: "((string \<times> string) list \<Rightarrow> (string \<times> string) list) \<Rightarrow> string \<Rightarrow> string \<Rightarrow> int \<Rightarrow> fs \<Rightarrow> gen_error option \<times> fs" where
  "run_new visit name gomod = createProject visit name (if gomod = [] then ''github.com/yourname/'' @ name else gomod)"

section \<open>gai serve\<close>

text \<open>
  The entries \<^verbatim>\<open>filepath.Walk\<close> meets, as parts relative to the directory, with the time of the last change of a file.
\<close>

definition file_ext :: "string \<Rightarrow> string" where
  "file_ext name = (if CHR ''.'' \<in> set name then CHR ''.'' # rev (takeWhile (\<lambda>c. c \<noteq> CHR ''.'') (rev name)) else [])"

definition watched :: "string list \<Rightarrow> bool" where
  "watched ps \<longleftrightarrow> ps \<noteq> [] \<and> list_all (\<lambda>d. d \<notin> {''tmp'', ''.git'', ''vendor'', ''node_modules''}) (butlast ps) \<and>
     file_ext (last ps) \<in> {''.go'', ''.yaml'', ''.yml'', ''.env''}"

definition collectModTimes :: "(string list \<times> int) list \<Rightarrow> (string list \<rightharpoonup> int)" where
  "collectModTimes files = map_of (filter (\<lambda>e. watched (fst e)) files)"

text \<open>One round of \<^verbatim>\<open>waitForChanges\<close> over the two maps, of which the lists give the keys.\<close>

definition times_changed :: "(string list \<times> int) list \<Rightarrow> (string list \<times> int) list \<Rightarrow> bool" where
  "times_changed old new =
     (let modTimes = collectModTimes old; newTimes = collectModTimes new in
      list_ex (\<lambda>(p, t). watched p \<and> modTimes p \<noteq> newTimes p) new \<or>
      list_ex (\<lambda>(p, t). watched p \<and> newTimes p = None) old)"

definition serve_binary :: "bool \<Rightarrow> string" where
  "serve_binary windows = path_join [''tmp'', ''main''] @ (if windows then ''.exe'' else [])"

text \<open>\<open>exec\<close> runs a command in an environment and gives its error.\<close>

text \<open>The flags are parsed by cobra; \<open>once\<close> and \<open>with_watch\<close> are the two ways below.\<close>

definition serveCmd :: "(int \<Rightarrow> 'a) \<Rightarrow> (int \<Rightarrow> 'a) \<Rightarrow> bool \<Rightarrow> int \<Rightarrow> 'a" where
  "serveCmd once with_watch watch port = (if watch then with_watch port else once port)"

text \<open>\<^verbatim>\<open>main\<close>: what goes to standard error and the exit status, from the error the command ended with.\<close>

definition gai_main :: "string option \<Rightarrow> string \<times> int" where
  "gai_main err = (case err of Some e \<Rightarrow> (e @ [CHR 10], 1) | None \<Rightarrow> ([], 0))"

definition serveOnce :: "(string list \<Rightarrow> string list \<Rightarrow> string option) \<Rightarrow> string list \<Rightarrow> bool \<Rightarrow> int \<Rightarrow> string option" where
  "serveOnce exec environ windows port =
     (case exec [''go'', ''build'', ''-o'', serve_binary windows, ''.''] environ of
        Some e \<Rightarrow> Some (''build failed: '' @ e)
      | None \<Rightarrow> exec [serve_binary windows] (environ @ [''APP_PORT='' @ itoa port]))"

text \<open>
  \<^verbatim>\<open>serveWithWatch\<close>, which never returns, on the turns of its loop: what building and starting end with, the files when the build reads
  them, the files when \<^verbatim>\<open>waitForChanges\<close> begins, and those of its later rounds. The result is what the loop has done when the turns are over, or
  while the last one still waits.
\<close>

record watch_turn =
  wt_build :: "string option"
  wt_start :: "string option"
  wt_built :: "(string list \<times> int) list"
  wt_before :: "(string list \<times> int) list"
  wt_rounds :: "(string list \<times> int) list list"

datatype watch_action = WBuild "string list" "(string list \<times> int) list" | WSleep | WStart "string list" "string list" | WKill

fun serveWithWatch :: "string list \<Rightarrow> bool \<Rightarrow> int \<Rightarrow> watch_turn list \<Rightarrow> watch_action list" where
  "serveWithWatch environ windows port [] = []"
| "serveWithWatch environ windows port (w # ws) =
     (let binary = serve_binary windows in
      WBuild [''go'', ''build'', ''-o'', binary, ''.''] (wt_built w) #
      (if wt_build w \<noteq> None then WSleep # serveWithWatch environ windows port ws
       else if wt_start w \<noteq> None then WSleep # serveWithWatch environ windows port ws
       else WStart [binary] (environ @ [''APP_PORT='' @ itoa port]) #
         (if list_ex (times_changed (wt_before w)) (wt_rounds w) then WKill # serveWithWatch environ windows port ws else [])))"

section \<open>What the commands do to files\<close>

definition files_kept :: "fs \<Rightarrow> fs \<Rightarrow> bool" where
  "files_kept s s' \<longleftrightarrow> (\<forall>q c. fs_node s q = Some (File c) \<longrightarrow> fs_node s' q = Some (File c))"

lemma files_kept_refl [simp]: "files_kept s s"
  by (simp add: files_kept_def)

lemma files_kept_trans: "files_kept s t \<Longrightarrow> files_kept t u \<Longrightarrow> files_kept s u"
  by (simp add: files_kept_def)

lemma kept_and_then [intro]:
  "files_kept s (snd r) \<Longrightarrow> (\<And>t. r = (None, t) \<Longrightarrow> files_kept t (snd (k t))) \<Longrightarrow> files_kept s (snd (and_then r k))"
  by (cases r) (auto simp: and_then_def intro: files_kept_trans split: option.split)

lemma mkdir_all_grows: "grows s (snd (mkdir_all ps s)) q"
  using MkdirAll_grows [of ps s _ q] by (cases "os_MkdirAll ps s") (auto simp: mkdir_all_def)

lemma kept_mkdir_all: "files_kept s (snd (mkdir_all ps s))"
  unfolding files_kept_def
proof (intro allI impI)
  fix q c assume "fs_node s q = Some (File c)"
  then show "fs_node (snd (mkdir_all ps s)) q = Some (File c)" using mkdir_all_grows [of s ps q] by (simp add: grows_def)
qed

lemma write_file_Some:
  "write_file path content s = (None, s') \<longleftrightarrow> os_WriteFile path content s = (None, s')"
  by (auto simp: write_file_def split: prod.splits option.splits)

lemma write_file_failed: "write_file path content s = (Some e, s') \<Longrightarrow> s' = s"
  by (auto simp: write_file_def os_WriteFile_def split: sum.splits)

lemma kept_write_new: "\<not> os_exists path s \<Longrightarrow> files_kept s (snd (write_file path content s))"
proof (cases "write_file path content s")
  case (Pair r s')
  assume new: "\<not> os_exists path s"
  show ?thesis
  proof (cases r)
    case None
    then have w: "os_WriteFile path content s = (None, s')" using Pair by (simp add: write_file_Some)
    then have "fs_node s (clean_parts path) = None"
      using new WriteFile_Some(1) [OF w] by (auto simp: os_exists_def os_Stat_def split: option.splits sum.splits)
    then show ?thesis using Pair by (auto simp: files_kept_def WriteFile_Some(2) [OF w])
  next
    case (Some e)
    then have "s' = s" using Pair by (intro write_file_failed) simp
    then show ?thesis using Pair by simp
  qed
qed

lemma kept_writeTemplate: "files_kept s (snd (writeTemplate dir filename content s))"
  unfolding writeTemplate_def Let_def by (intro kept_and_then kept_mkdir_all) (simp add: kept_write_new)

lemma missing_after_mkdir:
  assumes "\<not> os_exists (path_join [dir, file]) s" and "mkdir_all (clean_parts dir) s = (None, t)" and "list_all (\<lambda>c. c \<noteq> CHR ''/'') file"
    "file \<noteq> []" "file \<noteq> ''.''" "file \<noteq> ''..''"
  shows "\<not> os_exists (path_join [dir, file]) t"
proof -
  let ?ps = "clean_parts (path_join [dir, file])"
  have ps: "?ps = clean_parts dir @ [file]" using path_join_name [OF assms(3-6)] .
  then have ne: "path_join [dir, file] \<noteq> []" by (auto simp: clean_parts_def)
  have t: "t = fold (\<lambda>k s. if fs_node s (take k (clean_parts dir)) = None then fs_put (take k (clean_parts dir)) Dir s else s) [0..<Suc (length (clean_parts dir))] s"
    using assms(2) by (auto simp: mkdir_all_def os_MkdirAll_def split: if_splits sum.splits)
  have "ds @ [file] \<noteq> take a ds" for a ds by (rule notI, drule arg_cong [where f = length]) simp
  moreover have "fs_node u ps = None \<Longrightarrow> ps \<noteq> []" for u ps by (auto simp: fs_node_def)
  ultimately have "fs_node (fold (\<lambda>k s. if fs_node s (take k ds) = None then fs_put (take k ds) Dir s else s) ks u) (ds @ [file]) = fs_node u (ds @ [file])" for ds ks u
    by (induction ks arbitrary: u) (auto simp del: take_eq_Nil)
  then have "fs_node t ?ps = fs_node s ?ps" unfolding ps t .
  then show ?thesis using assms(1) ne by (auto simp: os_exists_def os_Stat_def split: option.splits sum.splits)
qed

lemma kept_ensure_file:
  assumes "list_all (\<lambda>c. c \<noteq> CHR ''/'') file" "file \<noteq> []" "file \<noteq> ''.''" "file \<noteq> ''..''"
  shows "files_kept s (snd (ensure_file dir file content s))"
  unfolding ensure_file_def Let_def
  using missing_after_mkdir [OF _ _ assms]
  by (auto intro!: kept_and_then kept_mkdir_all kept_write_new)

lemma kept_wrap [simp]: "snd (wrap p r) = snd r"
  by (simp add: wrap_def)

text \<open>
  Property C33: \<^verbatim>\<open>gai make\<close> never changes or removes a file that exists, whether it succeeds or fails.
\<close>

theorem make_keeps_files: "files_kept s (snd (gai_make k arg s))"
proof -
  have reg: "files_kept s (snd (ensure_file dir ''registry.go'' content s))" "files_kept s (snd (ensure_file dir ''register.go'' content s))" for dir content s
    by (rule kept_ensure_file; simp)+
  show ?thesis
    by (cases k)
      (auto simp: gai_make_def makeModel_def makeController_def makeMiddleware_def makeMigration_def makeSeeder_def makeJob_def Let_def
        ensureMigrationRegistry_def ensureSeederRegistry_def ensureJobsRegistry_def
        intro!: kept_and_then kept_writeTemplate reg split: option.split)
qed

text \<open>A stub that was created was not there before, and reads back.\<close>

lemma template_written:
  assumes "writeTemplate dir filename content s = (None, s')" and "list_all (\<lambda>c. c \<noteq> CHR ''/'') filename" "filename \<noteq> []" "filename \<noteq> ''.''" "filename \<noteq> ''..''"
  shows "os_ReadFile (path_join [dir, filename]) s' = Inr content \<and> fs_node s (clean_parts dir @ [filename]) = None"
proof -
  have parts: "clean_parts (path_join [dir, filename]) = clean_parts dir @ [filename]" by (rule path_join_name [OF assms(2-5)])
  then have ne: "path_join [dir, filename] \<noteq> []" by (auto simp: clean_parts_def)
  obtain t where t: "mkdir_all (clean_parts dir) s = (None, t)" "\<not> os_exists (path_join [dir, filename]) t" "write_file (path_join [dir, filename]) content t = (None, s')"
    using assms(1) by (cases "mkdir_all (clean_parts dir) s") (auto simp: writeTemplate_def and_then_def Let_def split: option.splits if_splits)
  have w: "os_WriteFile (path_join [dir, filename]) content t = (None, s')" using t(3) by (simp add: write_file_Some)
  have "grows s t (clean_parts dir @ [filename])" using mkdir_all_grows [of s "clean_parts dir" "clean_parts dir @ [filename]"] t(1) by simp
  moreover have "fs_node t (clean_parts dir @ [filename]) = None"
    using t(2) ne parts by (auto simp: os_exists_def os_Stat_def split: option.splits sum.splits)
  ultimately show ?thesis using WriteFile_Some(2) [OF w, of "clean_parts (path_join [dir, filename])"] parts ne
    by (auto simp: ReadFile_iff grows_def)
qed

lemma make_empty_name_panics: "gai_make MakeModel [] s = (Some GenPanic, s)"
  by (simp add: gai_make_def makeModel_def modelStub_def camel_def)

section \<open>A new project is what its files say\<close>

abbreviation project_parts :: "string \<Rightarrow> string \<Rightarrow> string list" where
  "project_parts name p \<equiv> clean_parts (path_join [name, p])"

definition plain_path :: "string \<Rightarrow> bool" where
  "plain_path p \<longleftrightarrow> trim_prefix (path_clean (''/'' @ p)) ''/'' = p \<and> clean_parts (''/'' @ p) \<noteq> []"

lemma project_parts_plain: "plain_path p \<Longrightarrow> project_parts name p = clean_parts name @ clean_parts (''/'' @ p)"
  using join_confined [of name p] by (simp add: plain_path_def)

lemma plain_not_Nil: "plain_path p \<Longrightarrow> path_join [name, p] \<noteq> []"
  using project_parts_plain [of p name] by (auto simp: plain_path_def clean_parts_def)

lemma write_files_read:
  assumes "fst (write_files name fs s) = None" and "list_all (\<lambda>e. plain_path (fst e)) fs"
    and "distinct (map (\<lambda>e. clean_parts (''/'' @ fst e)) fs)"
  shows "(\<forall>e\<in>set fs. fs_node (snd (write_files name fs s)) (project_parts name (fst e)) = Some (File (snd e))) \<and>
     (\<forall>q. q \<notin> (\<lambda>e. project_parts name (fst e)) ` set fs \<longrightarrow> fs_node (snd (write_files name fs s)) q = fs_node s q)"
  using assms
proof (induction fs arbitrary: s)
  case (Cons e fs)
  obtain p c where e: "e = (p, c)" by (cases e)
  obtain t where t: "write_file (path_join [name, p]) c s = (None, t)"
    using Cons.prems(1) e by (cases "write_file (path_join [name, p]) c s") (auto simp: and_then_def wrap_def split: option.splits)
  then have w: "os_WriteFile (path_join [name, p]) c s = (None, t)" by (simp add: write_file_Some)
  have eq: "write_files name (e # fs) s = write_files name fs t" using t e by (simp add: and_then_def wrap_def)
  have ih: "(\<forall>e\<in>set fs. fs_node (snd (write_files name fs t)) (project_parts name (fst e)) = Some (File (snd e))) \<and>
     (\<forall>q. q \<notin> (\<lambda>e. project_parts name (fst e)) ` set fs \<longrightarrow> fs_node (snd (write_files name fs t)) q = fs_node t q)"
    using Cons.prems eq by (intro Cons.IH) simp_all
  have "project_parts name p \<notin> (\<lambda>e. project_parts name (fst e)) ` set fs"
    using Cons.prems(2,3) e by (auto simp: project_parts_plain list_all_iff image_iff)
  then show ?case using ih eq e by (auto simp: WriteFile_Some(2) [OF w])
qed simp

lemma project_files_plain: "list_all (\<lambda>e. plain_path (fst e)) (project_files name gomod port)"
proof -
  have "list_all plain_path (map fst (project_files name gomod port))" by (simp add: project_files_def) code_simp
  then show ?thesis by (simp add: list.pred_map comp_def)
qed

lemma project_files_distinct: "distinct (map (\<lambda>e. clean_parts (''/'' @ fst e)) (project_files name gomod port))"
  unfolding project_files_def list.map fst_conv by code_simp

lemma createProject_parts:
  assumes "createProject visit name gomod port s = (None, s')"
  obtains t where "make_dirs name project_dirs s = (None, t)" "write_files name (visit (project_files name gomod port)) t = (None, s')"
  using assms by (cases "make_dirs name project_dirs s") (auto simp: createProject_def and_then_def split: option.splits)

text \<open>The files of a new project hold their texts; nothing else is written after the directories were made.\<close>

lemma new_project_written:
  assumes "createProject visit name gomod port s = (None, s')" and "mset (visit (project_files name gomod port)) = mset (project_files name gomod port)"
  obtains t where "make_dirs name project_dirs s = (None, t)"
    "\<And>e. e \<in> set (project_files name gomod port) \<Longrightarrow> fs_node s' (project_parts name (fst e)) = Some (File (snd e))"
    "\<And>q. q \<notin> (\<lambda>e. project_parts name (fst e)) ` set (project_files name gomod port) \<Longrightarrow> fs_node s' q = fs_node t q"
proof -
  let ?fs = "project_files name gomod port"
  obtain t where t: "make_dirs name project_dirs s = (None, t)" "write_files name (visit ?fs) t = (None, s')" using createProject_parts [OF assms(1)] by blast
  have set: "set (visit ?fs) = set ?fs" using assms(2) by (rule mset_eq_setD)
  have "mset (map (\<lambda>e. clean_parts (''/'' @ fst e)) (visit ?fs)) = mset (map (\<lambda>e. clean_parts (''/'' @ fst e)) ?fs)"
    using assms(2) by (simp only: mset_map)
  then have d: "distinct (map (\<lambda>e. clean_parts (''/'' @ fst e)) (visit ?fs))"
    using project_files_distinct mset_eq_imp_distinct_iff by blast
  have pl: "list_all (\<lambda>e. plain_path (fst e)) (visit ?fs)" using project_files_plain set by (simp add: list_all_iff)
  show ?thesis using that [OF t(1)] write_files_read [of name "visit ?fs" t] t(2) pl d set by auto
qed

text \<open>The two files of the routes.\<close>

lemma route_files:
  "(''routes/generated.go'', generatedRoutesContent) \<in> set (project_files name gomod port)" "(''routes/routes.go'', routesGoContent) \<in> set (project_files name gomod port)"
  "project_parts name ''routes/generated.go'' = clean_parts name @ [''routes'', ''generated.go'']"
  "project_parts name ''routes/routes.go'' = clean_parts name @ [''routes'', ''routes.go'']"
proof -
  have "plain_path ''routes/generated.go''" "clean_parts (''/'' @ ''routes/generated.go'') = [''routes'', ''generated.go'']"
    "plain_path ''routes/routes.go''" "clean_parts (''/'' @ ''routes/routes.go'') = [''routes'', ''routes.go'']" by code_simp+
  then show "project_parts name ''routes/generated.go'' = clean_parts name @ [''routes'', ''generated.go'']"
    "project_parts name ''routes/routes.go'' = clean_parts name @ [''routes'', ''routes.go'']" by (simp_all add: project_parts_plain)
qed (simp_all add: project_files_def)

lemma routes_wired: "parseGeneratedRoutes generatedRoutesContent = []" "contains routesGoContent ''registerGenerated(''"
  by code_simp+

text \<open>
  When \<^verbatim>\<open>gai new\<close> succeeds, every file of the project holds its text, in whatever order the files were written and whatever
  was there before; the route registry of the new project lists no model and its routes already call the registry, so that the
  generator leaves them as they are.
\<close>

lemma new_project_complete:
  assumes "createProject visit name gomod port s = (None, s')" and "mset (visit (project_files name gomod port)) = mset (project_files name gomod port)"
  shows "(\<forall>e\<in>set (project_files name gomod port). os_ReadFile (path_join [name, fst e]) s' = Inr (snd e)) \<and>
    registry name s' = [] \<and>
    ensureRegisterCall format (path_join [path_join [name, ''routes''], ''routes.go'']) s' = (None, s')"
proof -
  obtain t where t: "make_dirs name project_dirs s = (None, t)"
    and node: "\<And>e. e \<in> set (project_files name gomod port) \<Longrightarrow> fs_node s' (project_parts name (fst e)) = Some (File (snd e))"
    using new_project_written [OF assms] by metis
  have read: "os_ReadFile (path_join [name, fst e]) s' = Inr (snd e)" if "e \<in> set (project_files name gomod port)" for e
    using node [OF that] that project_files_plain plain_not_Nil by (simp add: ReadFile_iff list_all_iff)
  have 2: "registry name s' = []" using node [OF route_files(1)] routes_wired(1) by (simp add: registry_node route_files(3))
  let ?rp = "path_join [path_join [name, ''routes''], ''routes.go'']"
  have rp: "clean_parts ?rp = clean_parts name @ [''routes'', ''routes.go'']" by (simp add: path_join_name)
  then have "?rp \<noteq> []" by (auto simp: clean_parts_def)
  then have "os_ReadFile ?rp s' = Inr routesGoContent" using node [OF route_files(2)] route_files(4) rp by (simp add: ReadFile_iff)
  then have 3: "ensureRegisterCall format ?rp s' = (None, s')" using routes_wired(2) by (simp add: ensureRegisterCall_def)
  from read 2 3 show ?thesis by blast
qed

text \<open>The directories of the project exist, and its registry is ready for the generator.\<close>

lemma make_dirs_exist:
  "make_dirs name ds s = (None, t) \<Longrightarrow> (\<forall>d\<in>set ds. dirs_exist t (clean_parts (path_join [name, d]))) \<and> (\<forall>q. grows s t q)"
proof (induction ds arbitrary: s)
  case (Cons d ds)
  let ?ps = "clean_parts (path_join [name, d])"
  obtain u where u: "mkdir_all ?ps s = (None, u)" "make_dirs name ds u = (None, t)"
    using Cons.prems by (cases "mkdir_all ?ps s") (auto simp: and_then_def wrap_def split: option.splits)
  have "dirs_exist u ?ps" using u(1) MkdirAll_dirs by (auto simp: mkdir_all_def split: sum.splits)
  moreover have "grows s u q" for q using mkdir_all_grows [of s ?ps q] u(1) by simp
  ultimately show ?case using Cons.IH [OF u(2)] by (auto simp: dirs_exist_def intro: grows_dir grows_trans [of s u])
qed (auto simp: grows_def)

lemma new_project_ready:
  assumes "createProject visit name gomod port s = (None, s')" and "mset (visit (project_files name gomod port)) = mset (project_files name gomod port)"
  shows "registry_ready name s'"
proof -
  obtain t where t: "make_dirs name project_dirs s = (None, t)"
    and node: "\<And>e. e \<in> set (project_files name gomod port) \<Longrightarrow> fs_node s' (project_parts name (fst e)) = Some (File (snd e))"
    and rest: "\<And>q. q \<notin> (\<lambda>e. project_parts name (fst e)) ` set (project_files name gomod port) \<Longrightarrow> fs_node s' q = fs_node t q"
    using new_project_written [OF assms] by metis
  have "list_all (\<lambda>e. clean_parts (''/'' @ fst e) \<notin> {[], [''routes'']}) (project_files name gomod port)"
    unfolding project_files_def list.pred_inject fst_conv by code_simp
  moreover have "take k (ds @ [r]) \<noteq> ds @ xs" if "xs \<notin> {[], [r]}" for k and ds xs :: "string list" and r
    using that by (cases "k \<le> length ds") (auto dest: arg_cong [where f = length])
  ultimately have "take k (clean_parts name @ [''routes'']) \<notin> (\<lambda>e. project_parts name (fst e)) ` set (project_files name gomod port)" for k
    using project_files_plain by (fastforce simp: list_all_iff project_parts_plain simp del: take_append)
  moreover have "dirs_exist t (clean_parts (path_join [name, ''routes'']))" using make_dirs_exist [OF t] by (simp add: project_dirs_def)
  then have "dirs_exist t (clean_parts name @ [''routes''])" by (simp add: path_join_name)
  ultimately have "dirs_exist s' (clean_parts name @ [''routes''])" using rest by (simp add: dirs_exist_def del: take_append)
  then show ?thesis using node [OF route_files(1)] node [OF route_files(2)] routes_wired(2) by (simp add: registry_ready_def route_files(3,4))
qed

lemma write_files_ok:
  assumes "\<And>e. e \<in> set fs \<Longrightarrow> plain_path (fst e) \<and> fs_node s (butlast (project_parts name (fst e))) = Some Dir \<and>
      fs_node s (project_parts name (fst e)) \<noteq> Some Dir"
    and "\<And>e e'. e \<in> set fs \<Longrightarrow> e' \<in> set fs \<Longrightarrow> butlast (project_parts name (fst e)) \<noteq> project_parts name (fst e')"
  shows "fst (write_files name fs s) = None"
  using assms
proof (induction fs arbitrary: s)
  case (Cons e fs)
  obtain p c where e: "e = (p, c)" by (cases e)
  let ?ps = "project_parts name p"
  have ok: "plain_path p" "fs_node s (butlast ?ps) = Some Dir" "fs_node s ?ps \<noteq> Some Dir" using Cons.prems(1) [of e] e by auto
  then have w: "os_WriteFile (path_join [name, p]) c s = (None, fs_put ?ps (File c) (fs_put ?ps (File []) s))"
    using plain_not_Nil by (simp add: os_WriteFile_def os_Create_def Let_def)
  let ?t = "fs_put ?ps (File c) (fs_put ?ps (File []) s)"
  have ne: "?ps \<noteq> []" using ok(1) by (simp add: project_parts_plain plain_path_def)
  have "fst (write_files name fs ?t) = None"
  proof (rule Cons.IH)
    fix e' assume e': "e' \<in> set fs"
    then show "plain_path (fst e') \<and> fs_node ?t (butlast (project_parts name (fst e'))) = Some Dir \<and> fs_node ?t (project_parts name (fst e')) \<noteq> Some Dir"
      using Cons.prems(1) [of e'] Cons.prems(2) [of e' e] ne e by auto
  qed (use Cons.prems(2) in auto)
  then show ?case using w e by (simp add: write_file_def and_then_def wrap_def)
qed simp

text \<open>A project with the name of one that exists: its \<^verbatim>\<open>main.go\<close> is written over.\<close>

definition old_project :: fs where
  "old_project = [([''p''], Dir), ([''p'', ''main.go''], File ''mine'')]"

definition can_write :: "fs \<Rightarrow> string \<Rightarrow> string list \<Rightarrow> bool" where
  "can_write s name ps \<longleftrightarrow>
     list_all (\<lambda>p. plain_path p \<and> fs_node s (butlast (project_parts name p)) = Some Dir \<and> fs_node s (project_parts name p) \<noteq> Some Dir \<and>
       list_all (\<lambda>p'. butlast (project_parts name p) \<noteq> project_parts name p') ps) ps"

lemma old_project_new: "\<exists>s'. createProject id ''p'' gomod port old_project = (None, s')"
proof -
  let ?t = "snd (make_dirs ''p'' project_dirs old_project)"
  have t: "make_dirs ''p'' project_dirs old_project = (None, ?t)" by (rule prod_eqI) (simp_all, code_simp)
  have "can_write ?t ''p'' (map fst (project_files ''p'' gomod port))"
    unfolding project_files_def list.map fst_conv by code_simp
  then have "fst (write_files ''p'' (project_files ''p'' gomod port) ?t) = None"
    by (intro write_files_ok) (auto simp: can_write_def list_all_iff)
  moreover have "createProject id ''p'' gomod port old_project = write_files ''p'' (project_files ''p'' gomod port) ?t"
    unfolding createProject_def and_then_def by (subst t) simp
  ultimately show ?thesis by (cases "write_files ''p'' (project_files ''p'' gomod port) ?t") simp
qed

lemma new_project_complete_example:
  "\<exists>s'. createProject id ''p'' ''m'' 80 old_project = (None, s') \<and> os_ReadFile (path_join [''p'', ''go.mod'']) s' = Inr (goModContent ''m'') \<and> registry ''p'' s' = []"
proof -
  obtain s' where s': "createProject id ''p'' ''m'' 80 old_project = (None, s')" using old_project_new by blast
  have "(''go.mod'', goModContent ''m'') \<in> set (project_files ''p'' ''m'' 80)" by (simp add: project_files_def)
  then show ?thesis using new_project_complete [OF s', where format = Some] s' by auto
qed

lemma new_overwrites:
  "os_ReadFile (path_join [''p'', ''main.go'']) old_project = Inr ''mine'' \<and>
   (\<exists>s'. createProject id ''p'' gomod port old_project = (None, s') \<and> os_ReadFile (path_join [''p'', ''main.go'']) s' = Inr (mainGoContent gomod port))"
proof
  show "os_ReadFile (path_join [''p'', ''main.go'']) old_project = Inr ''mine''" by code_simp
  obtain s' where s': "createProject id ''p'' gomod port old_project = (None, s')" using old_project_new by blast
  then obtain t where t: "write_files ''p'' (project_files ''p'' gomod port) t = (None, s')" by (auto elim!: createProject_parts)
  have m: "(''main.go'', mainGoContent gomod port) \<in> set (project_files ''p'' gomod port)" by (simp add: project_files_def)
  have "fs_node s' (project_parts ''p'' ''main.go'') = Some (File (mainGoContent gomod port))"
    using write_files_read [of "''p''" "project_files ''p'' gomod port" t] t project_files_plain project_files_distinct m by force
  moreover have "path_join [''p'', ''main.go''] \<noteq> []" by code_simp
  ultimately show "\<exists>s'. createProject id ''p'' gomod port old_project = (None, s') \<and> os_ReadFile (path_join [''p'', ''main.go'']) s' = Inr (mainGoContent gomod port)"
    using s' by (auto simp: ReadFile_iff)
qed

section \<open>Modules and watched files\<close>

text \<open>Lines that were written with a line feed, or with a carriage return before it, are read back.\<close>

lemma splitLines_go_line: "CHR 10 \<notin> set l \<Longrightarrow> splitLines_go cur (l @ CHR 10 # s) =
    rev (case rev l @ cur of d # ds \<Rightarrow> if d = CHR 13 then ds else rev l @ cur | [] \<Rightarrow> []) # splitLines_go [] s"
  by (induction l arbitrary: cur) (auto split: list.split)

lemma splitLines_lines:
  assumes "\<And>l. l \<in> set ls \<Longrightarrow> CHR 10 \<notin> set l \<and> CHR 13 \<notin> set l" and "nl \<in> {[CHR 10], [CHR 13, CHR 10]}"
  shows "splitLines (concat (map (\<lambda>l. l @ nl) ls)) = ls"
  using assms(1)
proof (induction ls)
  case (Cons l ls)
  have "splitLines_go [] (l @ CHR 10 # s) = l # splitLines_go [] s" for s
    using splitLines_go_line [of l "[]" s] Cons.prems [of l] by (cases l rule: rev_cases) auto
  moreover have "splitLines_go [] ((l @ [CHR 13]) @ CHR 10 # s) = l # splitLines_go [] s" for s
    using splitLines_go_line [of "l @ [CHR 13]" "[]" s] Cons.prems [of l] by simp
  ultimately show ?case using Cons assms(2) by (auto simp: splitLines_def)
qed (simp add: splitLines_def)

text \<open>The module of a new project is the one its commands detect.\<close>

lemma detect_new_module:
  assumes "os_ReadFile ''go.mod'' s = Inr (goModContent gomod)" and "gomod \<noteq> []" and "list_all (\<lambda>c. \<not> is_space c) gomod"
  shows "detectModule s = gomod"
proof -
  have nl: "CHR 10 \<notin> set gomod" "CHR 13 \<notin> set gomod" using assms(3) by (auto simp: list_all_iff is_space_def)
  have id: "trim_space gomod = gomod" using assms(3) by (intro trim_space_id) (auto simp: list_all_iff)
  have "goModContent gomod = (''module '' @ gomod) @ CHR 10 # join [[], ''go 1.24'', [], ''require github.com/Hlgxz/gai v0.2.0'', []] [CHR 10]"
    by (simp add: goModContent_def text_of_def)
  then obtain rest where "splitLines (goModContent gomod) = (''module '' @ gomod) # rest"
    using splitLines_go_line [of "''module '' @ gomod" "[]"] nl by (cases gomod rule: rev_cases) (auto simp: splitLines_def)
  then show ?thesis using assms(1) id by (simp add: detectModule_def trim_prefix_def has_prefix_def)
qed

text \<open>A round of the watcher reports a change exactly if the times of the watched files differ.\<close>

lemma times_changed_iff: "times_changed old new \<longleftrightarrow> collectModTimes old \<noteq> collectModTimes new"
proof
  assume "times_changed old new"
  then consider p where "collectModTimes old p \<noteq> collectModTimes new p" | p t where "(p, t) \<in> set old" "watched p" "collectModTimes new p = None"
    by (auto simp: times_changed_def Let_def list_ex_iff)
  then show "collectModTimes old \<noteq> collectModTimes new"
  proof cases
    case (2 p t)
    then have "p \<in> fst ` set (filter (\<lambda>e. watched (fst e)) old)" by force
    then have "collectModTimes old p \<noteq> None" by (simp add: collectModTimes_def map_of_eq_None_iff)
    then show ?thesis using 2(3) by metis
  qed auto
next
  assume "collectModTimes old \<noteq> collectModTimes new"
  then obtain p where p: "collectModTimes old p \<noteq> collectModTimes new p" by auto
  have mem: "\<exists>t. (p, t) \<in> set fs \<and> watched p" if "collectModTimes fs p \<noteq> None" for fs
    using that by (auto simp: collectModTimes_def dest!: map_of_SomeD)
  show "times_changed old new"
  proof (cases "collectModTimes new p = None")
    case True
    then show ?thesis using mem [of old] p by (auto simp: times_changed_def Let_def list_ex_iff)
  next
    case False
    then show ?thesis using mem [of new] p by (auto simp: times_changed_def Let_def list_ex_iff)
  qed
qed

text \<open>The watcher runs at most one server at a time: a started one is killed before anything else is built.\<close>

fun alive :: "nat \<Rightarrow> watch_action list \<Rightarrow> bool" where
  "alive n [] = True"
| "alive n (WBuild _ _ # as) = (n = 0 \<and> alive n as)"
| "alive n (WSleep # as) = alive n as"
| "alive n (WStart _ _ # as) = (n = 0 \<and> alive 1 as)"
| "alive n (WKill # as) = (n = 1 \<and> alive 0 as)"

lemma watch_one_server: "alive 0 (serveWithWatch environ windows port ws)"
  by (induction ws) (simp_all add: Let_def)

text \<open>A change that is made after the build has read the file and before the watcher looks for the first time is not noticed.\<close>

lemma change_during_build_missed:
  assumes "wt_build w = None" and "wt_start w = None" and "collectModTimes (wt_built w) \<noteq> collectModTimes (wt_before w)"
    and "\<And>r. r \<in> set (wt_rounds w) \<Longrightarrow> collectModTimes r = collectModTimes (wt_before w)"
  shows "\<exists>a b. serveWithWatch environ windows port (w # ws) = [a, b] \<and> (\<forall>args fs. WBuild args fs \<in> {a, b} \<longrightarrow> fs = wt_built w)"
  using assms by (auto simp: Let_def list_ex_iff times_changed_iff)

end
