(* ===== verification/Guarded.thy ===== *)
theory Guarded
  imports Router Auth
begin

text \<open>
  Guarded routes: the router (\<^verbatim>\<open>router/router.go\<close>), the handler chain (\<^verbatim>\<open>http/context.go\<close>) and the guards
  (\<^verbatim>\<open>auth/\<close>) together. A request to a route stops at the first handler of its chain that turns it down; a token that was
  logged out is turned down by the guard.
\<close>

section \<open>A request to a guarded route\<close>

text \<open>The guard the application registers: its answer at one moment, in one state of the revocation list.\<close>

definition jwt_guard :: "jwtlib \<Rightarrow> TokenConfig \<Rightarrow> 'r revoker_ops option \<Rightarrow> int \<Rightarrow> 'r \<Rightarrow> ctx \<Rightarrow> (bool \<times> ctx) option" where
  "jwt_guard lib cfg rv now r c = map_option (\<lambda>(b, c', _). (b, c')) (JWT_Check lib cfg rv now c r)"

text \<open>A request for a registered route stops at the first handler of its chain that turns it down.\<close>

lemma serve_gate:
  assumes "router_reach r" and "lookup_spec (registrations r) (segments (req_path rq)) (req_method rq) = Some (i, ps)"
    and "global r @ rt_middlewares (routes r ! i) = pre @ g # post"
    and "\<And>h. h \<in> set pre \<Longrightarrow> plain h \<and> keeps P h"
    and "\<And>nx n s. P (cx s) \<Longrightarrow> \<exists>s'. run_handler nx n g s = Ret s' \<and> index s' = int n \<and> started s' = started s"
    and "\<And>tr tp ws. P ((SetProxyTrust tr tp (new_context rq))\<lparr>params := ps, writer := ws\<rparr>)"
  shows "\<exists>s. ServeHTTP r rq = Ret s \<and> started s = [0..<Suc (length pre)]"
proof -
  let ?c = "SetProxyTrust (trustAllProxies r) (trustedProxies r) (new_context rq)"
  let ?hs = "global r @ rt_middlewares (routes r ! i) @ [rt_handler (routes r ! i)]"
  obtain al where l: "lookup r (req_method rq) (req_path rq) = (Some i, ps, al)"
    using lookup_refines_raw [OF assms(1), where meth = "req_method rq" and path = "req_path rq"] assms(2)
    by (cases "lookup r (req_method rq) (req_path rq)") auto
  have hs: "?hs = pre @ g # (post @ [rt_handler (routes r ! i)])" using assms(3) by simp
  have run: "\<exists>s. run_chain ?hs (?c\<lparr>params := ps, writer := ws\<rparr>) = Ret s \<and> started s = [0..<Suc (length pre)]" for ws
    unfolding hs by (rule run_chain_gate [where P = P]) (use assms(4,5,6) in auto)
  have "?c\<lparr>params := ps\<rparr> = ?c\<lparr>params := ps, writer := writer ?c\<rparr>" by simp
  then have "\<exists>s. run_chain ?hs (?c\<lparr>params := ps\<rparr>) = Ret s \<and> started s = [0..<Suc (length pre)]" using run [of "writer ?c"] by metis
  with run [of "[HeadW]"] l show ?thesis by (simp add: ServeHTTP_def Let_def)
qed

text \<open>What the guard sees of the request: the token, and no claims that an earlier guard has left.\<close>

definition carries :: "string \<Rightarrow> ctx \<Rightarrow> bool" where
  "carries tok c \<longleftrightarrow> extractBearerToken c = tok \<and> Get c ''auth_claims'' = None"

lemma extractBearerToken_req:
  assumes "req c = req c'"
  shows "extractBearerToken c = extractBearerToken c'"
proof -
  have "Query c k fb = Query c' k fb" for k fb using assms by (simp add: Query_def query_get_def)
  then show ?thesis using assms by (simp add: extractBearerToken_def Header_def Let_def)
qed

lemma carries_new:
  "extractBearerToken (new_context rq) = tok \<Longrightarrow> carries tok ((SetProxyTrust tr tp (new_context rq))\<lparr>params := ps, writer := ws\<rparr>)"
  using extractBearerToken_req [of "(SetProxyTrust tr tp (new_context rq))\<lparr>params := ps, writer := ws\<rparr>" "new_context rq"]
  by (simp add: carries_def Get_def new_context_def SetProxyTrust_def)

text \<open>Behind the guard, whatever revocation list it uses.\<close>

context revoker begin

lemma token_blocked:
  assumes "jwt_laws lib" and "GenerateToken lib cfg t0 jti u extra = Inr tok" and "jti \<noteq> []" and "tok \<noteq> []"
    and "carries tok c" and "\<not> fst (Revoked ops t1 jti rv)"
    and "JWT_Logout lib cfg (Some ops) t1 c rv = Some (c', rv1)" and "t1 \<le> t2" and "quiet jti t2 evs"
    and "router_reach r" and "lookup_spec (registrations r) (segments (req_path rq)) (req_method rq) = Some (i, ps)"
    and "global r @ rt_middlewares (routes r ! i) = pre @ Auth_Middleware m [name] # post"
    and "guards m name = Some (jwt_guard lib cfg (Some ops) t2 (rv_run ops evs rv1))" and "name \<noteq> []"
    and "\<forall>h\<in>set pre. plain h \<and> keeps (carries tok) h" and "extractBearerToken (new_context rq) = tok"
    and "\<And>x. tick dvd NewNumericDate lib x"
  shows "\<exists>s. ServeHTTP r rq = Ret s \<and> started s = [0..<Suc (length pre)]"
proof (rule serve_gate [OF assms(10,11,12), where P = "carries tok"])
  fix nx n and s :: chain
  assume c2: "carries tok (cx s)"
  then obtain r2 where "JWT_Check lib cfg (Some ops) t2 (cx s) (rv_run ops evs rv1) = Some (False, cx s, r2)"
    using logout_lasts [OF assms(1-4) _ _ _ _ assms(6-9,17)] assms(5) unfolding carries_def by blast
  then have "refused m [name] (cx s) (cx s)" using assms(13,14) by (simp add: Guard_def jwt_guard_def)
  then have "run_handler nx n (guard_loop m [name]) s = Ret \<lparr>index = int n, cx = JSON 401 (error_json 401 ''Unauthorized'') (cx s), started = started s\<rparr>"
    using guard_loop_refused [of m "[name]" "cx s" "cx s" nx n "index s" "started s"] by (cases s) (simp del: guard_loop.simps refused.simps)
  then show "\<exists>s'. run_handler nx n (Auth_Middleware m [name]) s = Ret s' \<and> index s' = int n \<and> started s' = started s"
    by (simp add: Auth_Middleware_def del: guard_loop.simps)
qed (use assms(15,16) carries_new in auto)

end


definition sample_router :: "memory_revoker \<Rightarrow> router" where
  "sample_router rv =
     (let m = RegisterGuard ''jwt'' (jwt_guard sample_jwt sample_cfg (Some MemoryRevoker) 20 rv) (NewManager ''jwt'')
      in snd (addRoute ''GET'' ''/'' Done [Auth_Middleware m [''jwt'']] (router_Use [Next Done] new_router)))"

lemma sample_router_reach: "router_reach (sample_router rv)"
  unfolding sample_router_def Let_def by (intro reach_add reach_use reach_new)

lemma sample_router_lookup: "lookup_spec (registrations (sample_router rv)) (segments ''/'') ''GET'' = Some (0, Map.empty)"
proof -
  have segs: "segments ''/'' = []" by (simp add: segments_def splitPath_def)
  have "registrations (sample_router rv) = [([], ''GET'', 0)]"
    unfolding sample_router_def Let_def registrations_add segs by (simp add: registrations_def router_Use_def new_router_def)
  then show ?thesis unfolding segs by (simp add: lookup_spec_def)
qed


end
