(* ===== verification/Compression.thy ===== *)
theory Compression
  imports Middleware
begin

text \<open>
  The compression middleware (\<^verbatim>\<open>middleware/gzip.go\<close>). A compressor of the pool is a position in the response's
  list of compressors; a gzip stream is kept as the chunks it was made of, so that what a client reads after
  decompression is \<open>inflate\<close>. \<^verbatim>\<open>Flush\<close> only sends earlier what \<^verbatim>\<open>Close\<close> sends. The last part shows what the middleware leaves
  behind: the context's writer is the closed compressor.
\<close>

section \<open>The middleware\<close>

definition gzip_start :: "ctx \<Rightarrow> ctx" where
  "gzip_start c =
     (let c = SetHeader ''Vary'' ''Accept-Encoding'' (SetHeader ''Content-Encoding'' ''gzip'' c);
          r = resp c
      in c\<lparr>resp := r\<lparr>gzs := gzs r @ [Some []]\<rparr>, writer := GzipW (length (gzs r)) # writer c\<rparr>)"

text \<open>\<^verbatim>\<open>Close\<close>, which writes the rest of the stream to the writer below, and \<^verbatim>\<open>Reset(io.Discard)\<close>. The writer below is the one with \<open>n\<close> wrappers.\<close>

definition gzip_close :: "nat \<Rightarrow> nat \<Rightarrow> ctx \<Rightarrow> ctx" where
  "gzip_close k n c =
     (let r = resp c in
      c\<lparr>resp := (case gzs r ! k of
                    None \<Rightarrow> r
                  | Some bs \<Rightarrow>
                      let r' = writer_write (GzipStream bs) (drop (length (writer c) - n) (writer c)) r
                      in r'\<lparr>gzs := (gzs r')[k := None]\<rparr>)\<rparr>)"

definition Gzip :: handler where
  "Gzip =
     Dyn (\<lambda>c.
       if \<not> contains (Header c ''Accept-Encoding'') ''gzip'' then Next Done
       else let k = length (gzs (resp c)); n = length (writer c) in
         Do gzip_start (NextRecover (\<lambda>err. Do (gzip_close k n) (Panic err)) (Do (gzip_close k n) Done)))"

section \<open>What the client reads\<close>

text \<open>The writes of a handler: the status, or a part of the body.\<close>

datatype wr = WStatus int | WBody chunk

fun do_writes :: "wr list \<Rightarrow> ctx \<Rightarrow> ctx" where
  "do_writes [] c = c"
| "do_writes (WStatus n # ws) c = do_writes ws (write_header n c)"
| "do_writes (WBody b # ws) c = do_writes ws (write_body b c)"

fun inflate :: "chunk list \<Rightarrow> chunk list" where
  "inflate [] = []"
| "inflate (GzipStream bs # cs) = bs @ inflate cs"
| "inflate (b # cs) = b # inflate cs"

definition final_status :: "response \<Rightarrow> int" where
  "final_status r = (case sent r of None \<Rightarrow> 200 | Some (n, _) \<Rightarrow> n)"

fun body_of :: "wr list \<Rightarrow> chunk list" where
  "body_of [] = []"
| "body_of (WStatus _ # ws) = body_of ws"
| "body_of (WBody b # ws) = b # body_of ws"

text \<open>The status is that of the first write.\<close>

definition status_of :: "wr list \<Rightarrow> int" where
  "status_of ws = (case ws of WStatus n # _ \<Rightarrow> n | _ \<Rightarrow> 200)"

definition sent_status :: "response \<Rightarrow> wr list \<Rightarrow> int" where
  "sent_status r ws = (case sent r of Some (n, _) \<Rightarrow> n | None \<Rightarrow> status_of ws)"

lemma plain_writes:
  "writer c = [] \<Longrightarrow>
     writer (do_writes ws c) = [] \<and> out (resp (do_writes ws c)) = out (resp c) @ body_of ws \<and>
     final_status (resp (do_writes ws c)) = sent_status (resp c) ws"
proof (induction ws c rule: do_writes.induct)
  case (2 n ws c)
  let ?c = "write_header n c"
  have "writer ?c = []" "out (resp ?c) = out (resp c)" "sent_status (resp ?c) ws = sent_status (resp c) (WStatus n # ws)"
    using 2(2) by (auto simp: write_header_def base_write_header_def sent_status_def status_of_def split: option.split)
  then show ?case using 2(1) by simp
next
  case (3 b ws c)
  let ?c = "write_body b c"
  have "writer ?c = []" "out (resp ?c) = out (resp c) @ [b]" "sent_status (resp ?c) ws = sent_status (resp c) (WBody b # ws)"
    using 3(2) by (auto simp: write_body_def base_write_def base_write_header_def sent_status_def status_of_def Let_def split: option.split)
  then show ?case using 3(1) by simp
qed (auto simp: final_status_def sent_status_def status_of_def split: option.split)

text \<open>The same writes through the compressor.\<close>

lemma encoding_key [simp]: "to_lower ''Content-Encoding'' = ''content-encoding''" "to_lower ''Vary'' = ''vary''" "to_lower ''Content-Length'' = ''content-length''"
  by code_simp+

definition gz_state :: "nat \<Rightarrow> chunk list \<Rightarrow> ctx \<Rightarrow> bool" where
  "gz_state k bs c \<longleftrightarrow> writer c = [GzipW k] \<and> k < length (gzs (resp c)) \<and> gzs (resp c) ! k = Some bs \<and>
     headers (resp c) ''content-encoding'' = Some ''gzip'' \<and>
     (case sent (resp c) of None \<Rightarrow> True | Some (_, h) \<Rightarrow> h ''content-encoding'' = Some ''gzip'')"

lemma gzip_writes:
  "gz_state k bs c \<Longrightarrow>
     gz_state k (bs @ body_of ws) (do_writes ws c) \<and> out (resp (do_writes ws c)) = out (resp c) \<and>
     final_status (resp (do_writes ws c)) = sent_status (resp c) ws"
proof (induction ws c arbitrary: bs rule: do_writes.induct)
  case (2 n ws c)
  let ?c = "write_header n c"
  have "gz_state k bs ?c" "out (resp ?c) = out (resp c)" "sent_status (resp ?c) ws = sent_status (resp c) (WStatus n # ws)"
    using 2(2) by (auto simp: gz_state_def write_header_def base_write_header_def sent_status_def status_of_def split: option.split)
  then show ?case using 2(1) by simp
next
  case (3 b ws c)
  let ?c = "write_body b c"
  have "gz_state k (bs @ [b]) ?c" "out (resp ?c) = out (resp c)" "sent_status (resp ?c) ws = sent_status (resp c) (WBody b # ws)"
    using 3(2) by (auto simp: gz_state_def write_body_def base_write_header_def sent_status_def status_of_def Let_def split: option.split)
  then show ?case using 3(1) [of "bs @ [b]"] by simp
qed (auto simp: final_status_def sent_status_def status_of_def split: option.split)

lemma gzip_started: "writer c = [] \<Longrightarrow> sent (resp c) = None \<Longrightarrow> gz_state (length (gzs (resp c))) [] (gzip_start c) \<and>
    out (resp (gzip_start c)) = out (resp c) \<and> sent (resp (gzip_start c)) = None"
  by (simp add: gz_state_def gzip_start_def SetHeader_def header_set_def Let_def)

lemma gzip_closed:
  "gz_state k bs c \<Longrightarrow> out (resp (gzip_close k 0 c)) = out (resp c) @ [GzipStream bs] \<and>
     (\<exists>h. sent (resp (gzip_close k 0 c)) = Some (final_status (resp c), h) \<and> h ''content-encoding'' = Some ''gzip'')"
  by (auto simp: gz_state_def gzip_close_def base_write_def base_write_header_def final_status_def Let_def split: option.splits)


definition gzip_request :: request where
  "gzip_request =
     \<lparr>req_method = ''GET'', req_path = ''/'', req_uri = ''/'', req_host = [], req_tls = False,
      req_header = [''accept-encoding'' \<mapsto> ''gzip, br''], req_query = Map.empty, req_form = Map.empty, req_cookie = Map.empty,
      req_remote = [], req_body = [], req_body_err = None\<rparr>"

lemma gzip_request_accepts: "contains (header_get (req_header gzip_request) ''Accept-Encoding'') ''gzip''"
  by code_simp


text \<open>
  A panic is not answered. When the deferred \<^verbatim>\<open>Close\<close> runs, the end of the stream is written with status 200, and the context
  still writes to the closed compressor: the answer of the recovery middleware around it is lost.
\<close>

lemma gzip_panic_answers_200:
  assumes "contains (header_get (req_header rq) ''Accept-Encoding'') ''gzip''"
  shows "\<exists>s h. run_chain [Recovery, Gzip, Panic v] (new_context rq) = Ret s \<and>
    sent (resp (cx s)) = Some (200, h) \<and> out (resp (cx s)) = [GzipStream []]"
  using assms
  by (simp add: run_chain_def call_next_def next_loop.simps Gzip_def Recovery_def Let_def gzip_start_def gzip_close_def new_context_def SetHeader_def
    Header_def empty_response_def base_write_def base_write_header_def JSON_def respond_def write_header_def write_body_def)

end
