(* ===== verification/Workers.thy ===== *)
theory Workers
  imports Queue Schedule "HOL-Library.Multiset"
begin

text \<open>
  The goroutines of the background packages. The first part is \<^verbatim>\<open>Manager.Work\<close> of \<^verbatim>\<open>queue/queue.go\<close>: a loop that pops jobs, a
  semaphore of bounded size and one goroutine per job, as a step relation on the state they share. The second part is the three
  loops of \<^verbatim>\<open>schedule/schedule.go\<close>, on the sequence of the branches their \<^verbatim>\<open>select\<close> takes.
\<close>

section \<open>The worker pool\<close>

text \<open>
  The backend and the handlers are arguments: \<open>po_pop\<close> and \<open>po_proc\<close> get from \<open>'e\<close> what the clock, the network and the handler decide;
  \<open>po_pop\<close> is \<open>None\<close> while it blocks, \<open>po_proc\<close> when the handler panics, which ends the program. \<open>AtPop\<close>, \<open>Holding\<close> and \<open>Sleeping\<close> are
  the places of the loop; at \<open>Waiting\<close> the deferred \<^verbatim>\<open>wg.Wait\<close> runs. The last two fields are ghosts: the jobs that were popped, and
  those whose goroutine has ended.
\<close>

datatype work_loop = AtPop | Holding Job | Sleeping | Waiting | Returned | Crashed

record 'q pool =
  pl_queue :: 'q
  pl_cancelled :: bool
  pl_loop :: work_loop
  pl_sem :: nat
  pl_running :: "Job list"
  pl_popped :: "Job list"
  pl_ended :: "Job list"

record ('e, 'q) pool_ops =
  po_pop :: "'e \<Rightarrow> 'q \<Rightarrow> ((string + Job) \<times> 'q) option"
  po_proc :: "'e \<Rightarrow> Job \<Rightarrow> 'q \<Rightarrow> 'q option"
  po_env :: "'e \<Rightarrow> 'q \<Rightarrow> 'q"

definition Work_start :: "'q \<Rightarrow> 'q pool" where
  "Work_start q = \<lparr>pl_queue = q, pl_cancelled = False, pl_loop = AtPop, pl_sem = 0, pl_running = [], pl_popped = [], pl_ended = []\<rparr>"

definition work_slots :: "Manager \<Rightarrow> nat" where
  "work_slots m = nat (if concurrency m < 1 then 1 else concurrency m)"

definition remove_nth :: "nat \<Rightarrow> 'a list \<Rightarrow> 'a list" where
  "remove_nth i xs = take i xs @ drop (Suc i) xs"

inductive work_step :: "('e, 'q) pool_ops \<Rightarrow> Manager \<Rightarrow> 'q pool \<Rightarrow> 'q pool \<Rightarrow> bool" for ops m where
  w_cancel: "pl_loop s \<noteq> Crashed \<Longrightarrow> work_step ops m s (s\<lparr>pl_cancelled := True\<rparr>)"
| w_env: "pl_loop s \<noteq> Crashed \<Longrightarrow> work_step ops m s (s\<lparr>pl_queue := po_env ops e (pl_queue s)\<rparr>)"
| w_pop: "pl_loop s = AtPop \<Longrightarrow> po_pop ops e (pl_queue s) = Some (Inr j, q) \<Longrightarrow>
    work_step ops m s (s\<lparr>pl_queue := q, pl_loop := Holding j, pl_popped := pl_popped s @ [j]\<rparr>)"
| w_pop_err: "pl_loop s = AtPop \<Longrightarrow> po_pop ops e (pl_queue s) = Some (Inl err, q) \<Longrightarrow>
    work_step ops m s (s\<lparr>pl_queue := q, pl_loop := if pl_cancelled s then Waiting else Sleeping\<rparr>)"
| w_wake: "pl_loop s = Sleeping \<Longrightarrow> work_step ops m s (s\<lparr>pl_loop := AtPop\<rparr>)"
| w_wake_done: "pl_loop s = Sleeping \<Longrightarrow> pl_cancelled s \<Longrightarrow> work_step ops m s (s\<lparr>pl_loop := Waiting\<rparr>)"
| w_start: "pl_loop s = Holding j \<Longrightarrow> pl_sem s < work_slots m \<Longrightarrow>
    work_step ops m s (s\<lparr>pl_loop := AtPop, pl_sem := pl_sem s + 1, pl_running := pl_running s @ [j]\<rparr>)"
| w_end: "pl_loop s \<noteq> Crashed \<Longrightarrow> i < length (pl_running s) \<Longrightarrow> po_proc ops e (pl_running s ! i) (pl_queue s) = Some q \<Longrightarrow>
    work_step ops m s (s\<lparr>pl_queue := q, pl_sem := pl_sem s - 1, pl_running := remove_nth i (pl_running s), pl_ended := pl_ended s @ [pl_running s ! i]\<rparr>)"
| w_panic: "pl_loop s \<noteq> Crashed \<Longrightarrow> i < length (pl_running s) \<Longrightarrow> po_proc ops e (pl_running s ! i) (pl_queue s) = None \<Longrightarrow>
    work_step ops m s (s\<lparr>pl_loop := Crashed\<rparr>)"
| w_return: "pl_loop s = Waiting \<Longrightarrow> pl_running s = [] \<Longrightarrow> work_step ops m s (s\<lparr>pl_loop := Returned\<rparr>)"

inductive_cases work_step_cases: "work_step ops m s s'"

text \<open>The steps as a function of an event, to run the pool on a concrete schedule.\<close>

datatype 'e work_event = ECancel | EEnv 'e | EPop 'e | EWake | EWakeDone | EStart | EEnd 'e nat | EReturn

fun work_exec :: "('e, 'q) pool_ops \<Rightarrow> Manager \<Rightarrow> 'e work_event \<Rightarrow> 'q pool \<Rightarrow> 'q pool option" where
  "work_exec ops m ECancel s = (if pl_loop s = Crashed then None else Some (s\<lparr>pl_cancelled := True\<rparr>))"
| "work_exec ops m (EEnv e) s = (if pl_loop s = Crashed then None else Some (s\<lparr>pl_queue := po_env ops e (pl_queue s)\<rparr>))"
| "work_exec ops m (EPop e) s =
     (if pl_loop s \<noteq> AtPop then None
      else case po_pop ops e (pl_queue s) of
        None \<Rightarrow> None
      | Some (Inr j, q) \<Rightarrow> Some (s\<lparr>pl_queue := q, pl_loop := Holding j, pl_popped := pl_popped s @ [j]\<rparr>)
      | Some (Inl err, q) \<Rightarrow> Some (s\<lparr>pl_queue := q, pl_loop := if pl_cancelled s then Waiting else Sleeping\<rparr>))"
| "work_exec ops m EWake s = (if pl_loop s = Sleeping then Some (s\<lparr>pl_loop := AtPop\<rparr>) else None)"
| "work_exec ops m EWakeDone s = (if pl_loop s = Sleeping \<and> pl_cancelled s then Some (s\<lparr>pl_loop := Waiting\<rparr>) else None)"
| "work_exec ops m EStart s =
     (case pl_loop s of
        Holding j \<Rightarrow> if pl_sem s < work_slots m then Some (s\<lparr>pl_loop := AtPop, pl_sem := pl_sem s + 1, pl_running := pl_running s @ [j]\<rparr>) else None
      | _ \<Rightarrow> None)"
| "work_exec ops m (EEnd e i) s =
     (if pl_loop s = Crashed \<or> length (pl_running s) \<le> i then None
      else case po_proc ops e (pl_running s ! i) (pl_queue s) of
        None \<Rightarrow> Some (s\<lparr>pl_loop := Crashed\<rparr>)
      | Some q \<Rightarrow> Some (s\<lparr>pl_queue := q, pl_sem := pl_sem s - 1, pl_running := remove_nth i (pl_running s), pl_ended := pl_ended s @ [pl_running s ! i]\<rparr>))"
| "work_exec ops m EReturn s = (if pl_loop s = Waiting \<and> pl_running s = [] then Some (s\<lparr>pl_loop := Returned\<rparr>) else None)"

fun work_run :: "('e, 'q) pool_ops \<Rightarrow> Manager \<Rightarrow> 'e work_event list \<Rightarrow> 'q pool \<Rightarrow> 'q pool option" where
  "work_run ops m [] s = Some s"
| "work_run ops m (ev # evs) s = (case work_exec ops m ev s of None \<Rightarrow> None | Some s' \<Rightarrow> work_run ops m evs s')"

lemma work_exec_step:
  assumes "work_exec ops m ev s = Some s'"
  shows "work_step ops m s s'"
proof (cases ev)
  case (EPop e)
  then show ?thesis using assms w_pop [of s ops e] w_pop_err [of s ops e] by (fastforce split: if_splits option.splits sum.splits)
next
  case EStart
  then show ?thesis using assms w_start [of s _ m ops] by (auto split: if_splits work_loop.splits)
next
  case (EEnd e i)
  then show ?thesis using assms w_end [of s i ops e] w_panic [of s i ops e] by (fastforce split: if_splits option.splits)
qed (use assms in \<open>auto intro: work_step.intros split: if_splits\<close>)

lemma work_run_steps: "work_run ops m evs s = Some s' \<Longrightarrow> (work_step ops m)\<^sup>*\<^sup>* s s'"
  by (induction evs arbitrary: s) (auto intro: converse_rtranclp_into_rtranclp work_exec_step split: option.splits)

definition work_reach :: "('e, 'q) pool_ops \<Rightarrow> Manager \<Rightarrow> 'q \<Rightarrow> 'q pool \<Rightarrow> bool" where
  "work_reach ops m q s \<longleftrightarrow> (work_step ops m)\<^sup>*\<^sup>* (Work_start q) s"

definition held_job :: "work_loop \<Rightarrow> Job list" where
  "held_job l = (case l of Holding j \<Rightarrow> [j] | _ \<Rightarrow> [])"

text \<open>The semaphore counts the running jobs, and every popped job is in exactly one place. After a crash a popped job may be lost.\<close>

definition pool_inv :: "Manager \<Rightarrow> 'q pool \<Rightarrow> bool" where
  "pool_inv m s \<longleftrightarrow>
     pl_sem s = length (pl_running s) \<and> length (pl_running s) \<le> work_slots m \<and>
     (pl_loop s = Returned \<longrightarrow> pl_running s = [] \<and> pl_cancelled s) \<and> (pl_loop s = Waiting \<longrightarrow> pl_cancelled s) \<and>
     (if pl_loop s = Crashed then mset (pl_running s) + mset (pl_ended s) \<subseteq># mset (pl_popped s)
      else mset (pl_popped s) = mset (held_job (pl_loop s)) + mset (pl_running s) + mset (pl_ended s))"

lemma mset_remove_nth: "i < length xs \<Longrightarrow> mset xs = add_mset (xs ! i) (mset (remove_nth i xs))"
  by (subst id_take_nth_drop [of i xs]) (simp_all add: remove_nth_def)

lemma length_remove_nth: "i < length xs \<Longrightarrow> length (remove_nth i xs) = length xs - 1"
  by (simp add: remove_nth_def)

lemma pool_inv_start: "pool_inv m (Work_start q)"
  by (simp add: pool_inv_def Work_start_def held_job_def)

lemma pool_inv_step:
  assumes "work_step ops m s s'" and "pool_inv m s"
  shows "pool_inv m s'"
  using assms
proof cases
  case (w_end i e q)
  then show ?thesis using assms(2) mset_remove_nth [of i "pl_running s"]
    by (auto simp: pool_inv_def length_remove_nth held_job_def split: work_loop.splits)
next
  case (w_panic i e)
  then show ?thesis using assms(2) by (auto simp: pool_inv_def held_job_def split: work_loop.splits)
qed (auto simp: pool_inv_def held_job_def split: if_splits)

lemma pool_inv_reach: "work_reach ops m q s \<Longrightarrow> pool_inv m s"
  unfolding work_reach_def by (induction rule: rtranclp_induct) (auto intro: pool_inv_start pool_inv_step)

text \<open>A pool that waits returns after one step for every job that runs, if no handler panics.\<close>

lemma waiting_returns:
  assumes "pl_loop s = Waiting" and "\<And>j q. \<exists>e q'. po_proc ops e j q = Some q'"
  shows "\<exists>s'. (work_step ops m)\<^sup>*\<^sup>* s s' \<and> pl_loop s' = Returned"
  using assms(1)
proof (induction "length (pl_running s)" arbitrary: s)
  case 0
  then have "work_step ops m s (s\<lparr>pl_loop := Returned\<rparr>)" by (intro w_return) auto
  then show ?case by (intro exI [of _ "s\<lparr>pl_loop := Returned\<rparr>"]) auto
next
  case (Suc k)
  then obtain e q where q: "po_proc ops e (pl_running s ! 0) (pl_queue s) = Some q" using assms(2) by blast
  let ?s = "s\<lparr>pl_queue := q, pl_sem := pl_sem s - 1, pl_running := remove_nth 0 (pl_running s), pl_ended := pl_ended s @ [pl_running s ! 0]\<rparr>"
  have "work_step ops m s ?s" using Suc.prems Suc.hyps(2) q by (intro w_end) auto
  moreover have "k = length (pl_running ?s)" using Suc.hyps(2) length_remove_nth [of 0 "pl_running s"] by (cases "pl_running s") auto
  then obtain s' where "(work_step ops m)\<^sup>*\<^sup>* ?s s'" "pl_loop s' = Returned" using Suc.hyps(1) [of ?s] Suc.prems by auto
  ultimately show ?case by (meson converse_rtranclp_into_rtranclp)
qed

text \<open>The pool on the in-process queue. A handler returns, with an error or none, or panics; a job without a handler is dropped.\<close>

datatype handler_result = HRet "string option" | HPanic

definition memory_pool :: "Manager \<Rightarrow> (bool \<times> bool \<times> time \<times> handler_result \<times> Job, memory_queue) pool_ops" where
  "memory_pool m =
     \<lparr>po_pop = \<lambda>(d, w, now, _) q. (case Pop d w now q of
        (Popped j, q') \<Rightarrow> Some (Inr j, q') | (Cancelled, q') \<Rightarrow> Some (Inl ''context canceled'', q') | (Blocked, _) \<Rightarrow> None),
      po_proc = \<lambda>(_, _, now, res, _) j q. (case res of
        HRet r \<Rightarrow> Some (fst (process Retry Fail m now r j q)) | HPanic \<Rightarrow> if Name j \<in> handlers m then None else Some q),
      po_env = \<lambda>(_, _, now, _, j) q. snd (Push now j q)\<rparr>"

text \<open>
  Property C36: the worker pool keeps its limit and its jobs. However the loop, the job goroutines, the dispatching goroutines and the cancellation
  interleave, at most as many jobs run as the setting says (at least one), no popped job is run twice, and when \<^verbatim>\<open>Work\<close> has
  returned, the context was cancelled and every popped job has been run to its end. From the moment it waits for the running jobs it can
  return, if no handler panics.
\<close>

theorem work_pool:
  assumes "work_reach ops m q s"
  shows "length (pl_running s) \<le> work_slots m \<and> mset (pl_running s) + mset (pl_ended s) \<subseteq># mset (pl_popped s) \<and>
    (pl_loop s = Returned \<longrightarrow> pl_cancelled s \<and> mset (pl_ended s) = mset (pl_popped s)) \<and>
    (pl_loop s = Waiting \<and> (\<forall>j q. \<exists>e q'. po_proc ops e j q = Some q') \<longrightarrow>
       (\<exists>s'. (work_step ops m)\<^sup>*\<^sup>* s s' \<and> pl_loop s' = Returned))"
proof (intro conjI impI)
  have inv: "pool_inv m s" by (rule pool_inv_reach [OF assms])
  then show "length (pl_running s) \<le> work_slots m" by (simp add: pool_inv_def)
  show "mset (pl_running s) + mset (pl_ended s) \<subseteq># mset (pl_popped s)" using inv by (auto simp: pool_inv_def split: if_splits)
  show "pl_cancelled s" "mset (pl_ended s) = mset (pl_popped s)" if "pl_loop s = Returned"
    using inv that by (auto simp: pool_inv_def held_job_def)
  show "\<exists>s'. (work_step ops m)\<^sup>*\<^sup>* s s' \<and> pl_loop s' = Returned"
    if "pl_loop s = Waiting \<and> (\<forall>j q. \<exists>e q'. po_proc ops e j q = Some q')" using that waiting_returns by blast
qed

text \<open>Two jobs and a limit of one: the second is held back until the first has ended.\<close>

definition sample_job :: "string \<Rightarrow> Job" where
  "sample_job jid = \<lparr>ID = jid, Name = ''n'', Payload = [], Delay = 0, Attempts = 0, MaxTries = 3, JobTimeout = 0, JobError = []\<rparr>"

definition sample_mq :: memory_queue where
  "sample_mq = \<lparr>ch = [(sample_job ''a'', 0), (sample_job ''b'', 0)], capacity = 2, failed = []\<rparr>"

lemma sample_pool_reach:
  "\<exists>s. work_reach (memory_pool (Register ''n'' New)) (Register ''n'' New) sample_mq s \<and>
     pl_loop s = Returned \<and> pl_popped s = [sample_job ''a'', sample_job ''b'']"
proof -
  let ?m = "Register ''n'' New" and ?e = "(False, False, 0, HRet None, sample_job [])" and ?d = "(True, False, 0, HRet None, sample_job [])"
  let ?evs = "[EPop ?e, EStart, EPop ?e, EEnd ?e 0, EStart, EEnd ?e 0, ECancel, EPop ?d, EReturn]"
  have "map_option (\<lambda>s. (pl_loop s, pl_popped s)) (work_run (memory_pool ?m) ?m ?evs (Work_start sample_mq)) =
      Some (Returned, [sample_job ''a'', sample_job ''b''])" by code_simp
  then obtain s where "work_run (memory_pool ?m) ?m ?evs (Work_start sample_mq) = Some s" "pl_loop s = Returned" "pl_popped s = [sample_job ''a'', sample_job ''b'']"
    by auto
  then show ?thesis using work_run_steps unfolding work_reach_def by blast
qed

theorem work_pool_witness:
  "\<exists>s :: memory_queue pool. pl_loop s = Returned \<and> pl_popped s = [sample_job ''a'', sample_job ''b''] \<and> mset (pl_ended s) = {#sample_job ''a'', sample_job ''b''#}"
proof -
  obtain s where s: "work_reach (memory_pool (Register ''n'' New)) (Register ''n'' New) sample_mq s" "pl_loop s = Returned" "pl_popped s = [sample_job ''a'', sample_job ''b'']"
    using sample_pool_reach by blast
  have "mset (pl_ended s) = {#sample_job ''a'', sample_job ''b''#}" using work_pool [OF s(1)] s(2,3) by simp
  with s(2,3) show ?thesis by blast
qed

text \<open>A panic in the handler of one job ends the program: nothing recovers it, and no job runs any more.\<close>

lemma panic_crashes:
  assumes "pl_loop s \<noteq> Crashed" and "i < length (pl_running s)" and "Name (pl_running s ! i) \<in> handlers m"
  shows "\<exists>s'. work_step (memory_pool m) m s s' \<and> pl_loop s' = Crashed"
  using assms w_panic [of s i "memory_pool m" "(False, False, 0, HPanic, sample_job [])" m]
  by (intro exI [of _ "s\<lparr>pl_loop := Crashed\<rparr>"]) (simp add: memory_pool_def)

lemma crashed_stops: "pl_loop s = Crashed \<Longrightarrow> \<not> work_step ops m s s'"
  by (auto elim: work_step_cases)

section \<open>The loops of the scheduler\<close>

text \<open>
  The branches a loop's \<^verbatim>\<open>select\<close> takes: the context is done, or the timer has fired, with the delay after the time it was set to, the
  time the function takes, and what other processes do to the shared locks before. The timers are the standard library's; none fires
  before its time. The result lists the times at which the function was called.
\<close>

datatype sched_branch = BDone | BFire int int "lock_memory \<Rightarrow> lock_memory"

abbreviation minute :: int where
  "minute \<equiv> 60000000000"

text \<open>A whole \<^verbatim>\<open>invoke\<close>: whether the function was called, and the time after it.\<close>

definition invoke :: "bool \<Rightarrow> time \<Rightarrow> int \<Rightarrow> (lock_memory \<Rightarrow> lock_memory) \<Rightarrow> task \<Rightarrow> lock_memory \<Rightarrow> bool \<times> time \<times> task \<times> lock_memory" where
  "invoke use_lock now dur others t l =
     (case invoke_begin Acquire use_lock now t (others l) of
        (False, t', l') \<Rightarrow> (False, now, t', l')
      | (True, t', l') \<Rightarrow> (case invoke_end release use_lock t' l' of (t'', l'') \<Rightarrow> (True, now + dur, t'', l'')))"

definition called_at :: "bool \<Rightarrow> time \<Rightarrow> time list" where
  "called_at called now = (if called then [now] else [])"

fun runEvery :: "bool \<Rightarrow> time \<Rightarrow> sched_branch list \<Rightarrow> task \<Rightarrow> lock_memory \<Rightarrow> time list" where
  "runEvery use_lock now [] t l = []"
| "runEvery use_lock now (BDone # bs) t l = []"
| "runEvery use_lock now (BFire lat dur others # bs) t l =
     (case invoke use_lock (now + lat) dur others t l of
        (called, now', t', l') \<Rightarrow> called_at called (now + lat) @ runEvery use_lock now' bs t' l')"

fun runDaily :: "(string \<Rightarrow> (int \<times> int) option) \<Rightarrow> (time \<Rightarrow> int \<Rightarrow> int \<Rightarrow> time) \<Rightarrow> bool \<Rightarrow> time \<Rightarrow> sched_branch list \<Rightarrow> task \<Rightarrow> lock_memory \<Rightarrow> time list" where
  "runDaily parse_hm date_at use_lock now [] t l = []"
| "runDaily parse_hm date_at use_lock now (BDone # bs) t l = []"
| "runDaily parse_hm date_at use_lock now (BFire lat dur others # bs) t l =
     (let fired = now + timeUntil parse_hm (date_at now) now (dailyAt t) + lat in
      case invoke use_lock fired dur others t l of
        (called, now', t', l') \<Rightarrow> called_at called fired @ runDaily parse_hm date_at use_lock now' bs t' l')"

text \<open>\<open>cal\<close> reads the fields of a time.\<close>

fun runCron :: "(time \<Rightarrow> calendar) \<Rightarrow> bool \<Rightarrow> cronExpr \<Rightarrow> time \<Rightarrow> sched_branch list \<Rightarrow> task \<Rightarrow> lock_memory \<Rightarrow> time list" where
  "runCron cal use_lock c now [] t l = []"
| "runCron cal use_lock c now (BDone # bs) t l = []"
| "runCron cal use_lock c now (BFire lat dur others # bs) t l =
     (let fired = now div minute * minute + minute + lat in
      if cron_matches c (cal fired) then
        (case invoke use_lock fired dur others t l of
           (called, now', t', l') \<Rightarrow> called_at called fired @ runCron cal use_lock c now' bs t' l')
      else runCron cal use_lock c fired bs t l)"

lemma sched_branches [case_names Nil Done Fire]:
  assumes "P []" and "\<And>bs. P (BDone # bs)" and "\<And>lat dur others bs. P bs \<Longrightarrow> P (BFire lat dur others # bs)"
  shows "P bs"
proof (induction bs)
  case (Cons b bs)
  then show ?case using assms(2,3) by (cases b) auto
qed (rule assms(1))

definition brief :: "sched_branch \<Rightarrow> bool" where
  "brief b = (case b of BDone \<Rightarrow> False | BFire lat dur _ \<Rightarrow> 0 \<le> lat \<and> 0 \<le> dur \<and> lat + dur < minute)"

text \<open>On a task that does not run, the setting \<^verbatim>\<open>noOverlap\<close> makes no difference, and the task is left as it was.\<close>

lemma idle_eta: "\<not> Schedule.task.running t \<Longrightarrow> t\<lparr>running := False\<rparr> = t"
  by (cases t) simp

lemma invoke_idle:
  assumes "\<not> Schedule.task.running t"
  shows "invoke use_lock now dur others t l =
     (if use_lock \<and> t_name t \<noteq> [] then
        (case Acquire now (''schedule:'' @ t_name t) 60000000000 (others l) of
           (Some _, l') \<Rightarrow> (False, now, t, l')
         | (None, l') \<Rightarrow> (True, now + dur, t, release (''schedule:'' @ t_name t) l'))
      else (True, now + dur, t, others l))"
proof (cases "Acquire now (''schedule:'' @ t_name t) 60000000000 (others l)")
  case (Pair e l')
  then show ?thesis using assms idle_eta [OF assms]
    by (cases "use_lock \<and> t_name t \<noteq> []"; cases "noOverlap t"; cases e) (auto simp: invoke_def invoke_begin_def invoke_end_def Let_def)
qed

lemma invoke_free: "\<not> Schedule.task.running t \<Longrightarrow> invoke False now dur others t l = (True, now + dur, t, others l)"
  by (simp add: invoke_idle)



text \<open>A call that takes longer than its minute makes the loop miss the minutes that begin meanwhile.\<close>

lemma cron_misses_minutes:
  assumes "\<And>x. cron_matches c (cal x)" and "\<not> Schedule.task.running t"
  shows "map (\<lambda>x. x div minute) (runCron cal False c 0 [BFire 0 90000000000 id, BFire 0 0 id] t l) = [1, 3]"
  using assms by (simp add: invoke_free called_at_def Let_def)

text \<open>
  A task's loop calls \<^verbatim>\<open>invoke\<close> again only after the function has returned, so the setting of \<^verbatim>\<open>WithoutOverlapping\<close>
  changes nothing.
\<close>

lemma overlap_setting_idle:
  assumes "\<not> Schedule.task.running t"
  shows "runEvery use_lock now bs (t\<lparr>noOverlap := x\<rparr>) l = runEvery use_lock now bs t l"
    and "runDaily parse_hm date_at use_lock now bs (t\<lparr>noOverlap := x\<rparr>) l = runDaily parse_hm date_at use_lock now bs t l"
    and "runCron cal use_lock c now bs (t\<lparr>noOverlap := x\<rparr>) l = runCron cal use_lock c now bs t l"
proof -
  have "\<not> Schedule.task.running (t\<lparr>noOverlap := x\<rparr>)" using assms by simp
  then have inv: "\<exists>b n l'. invoke use_lock now dur others t l = (b, n, t, l') \<and>
      invoke use_lock now dur others (t\<lparr>noOverlap := x\<rparr>) l = (b, n, t\<lparr>noOverlap := x\<rparr>, l')" for now dur others l
    by (cases "Acquire now (''schedule:'' @ t_name t) 60000000000 (others l)"; cases "fst (Acquire now (''schedule:'' @ t_name t) 60000000000 (others l))")
      (auto simp: invoke_idle assms)
  show "runEvery use_lock now bs (t\<lparr>noOverlap := x\<rparr>) l = runEvery use_lock now bs t l"
  proof (induction bs arbitrary: now l rule: sched_branches)
    case (Fire lat dur others bs)
    let ?n = "now + lat"
    obtain b n l' where "invoke use_lock ?n dur others t l = (b, n, t, l')" "invoke use_lock ?n dur others (t\<lparr>noOverlap := x\<rparr>) l = (b, n, t\<lparr>noOverlap := x\<rparr>, l')"
      using inv by blast
    then show ?case using Fire by (simp add: Let_def)
  qed simp_all
  show "runDaily parse_hm date_at use_lock now bs (t\<lparr>noOverlap := x\<rparr>) l = runDaily parse_hm date_at use_lock now bs t l"
  proof (induction bs arbitrary: now l rule: sched_branches)
    case (Fire lat dur others bs)
    let ?n = "now + timeUntil parse_hm (date_at now) now (dailyAt t) + lat"
    obtain b n l' where "invoke use_lock ?n dur others t l = (b, n, t, l')" "invoke use_lock ?n dur others (t\<lparr>noOverlap := x\<rparr>) l = (b, n, t\<lparr>noOverlap := x\<rparr>, l')"
      using inv by blast
    then show ?case using Fire by (simp add: Let_def)
  qed simp_all
  show "runCron cal use_lock c now bs (t\<lparr>noOverlap := x\<rparr>) l = runCron cal use_lock c now bs t l"
  proof (induction bs arbitrary: now l rule: sched_branches)
    case (Fire lat dur others bs)
    let ?n = "now div minute * minute + minute + lat"
    obtain b n l' where "invoke use_lock ?n dur others t l = (b, n, t, l')" "invoke use_lock ?n dur others (t\<lparr>noOverlap := x\<rparr>) l = (b, n, t\<lparr>noOverlap := x\<rparr>, l')"
      using inv by blast
    then show ?case using Fire by (simp add: Let_def)
  qed simp_all
qed

end
