(* ===== verification/Gaitest.thy ===== *)
theory Gaitest
  imports Router Mail Queue
begin

text \<open>
  Package gaitest: the test client of an application. \<^verbatim>\<open>httptest.NewRequest\<close>, the JSON codec and the bytes of a chunk are arguments; a
  panic is \<^const>\<open>None\<close>. \<^verbatim>\<open>Fatalf\<close> is the message it fails with.
\<close>

section \<open>Requests\<close>

record Response =
  Code :: int
  rs_Header :: "string \<rightharpoonup> string"
  rs_Body :: string

datatype test_body = NoBody | StringBody string | BytesBody string | ValueBody goval

definition test_payload :: "(goval \<Rightarrow> string + string) \<Rightarrow> test_body \<Rightarrow> (string \<times> string) option" where
  "test_payload marshal body =
     (case body of
        NoBody \<Rightarrow> Some ([], [])
      | StringBody s \<Rightarrow> Some (s, ''text/plain'')
      | BytesBody b \<Rightarrow> Some (b, [])
      | ValueBody v \<Rightarrow> (case marshal v of Inl _ \<Rightarrow> None | Inr raw \<Rightarrow> Some (raw, ''application/json'')))"

text \<open>The recorder: the status is 200 when none was written, and \<^verbatim>\<open>Header\<close> is the header map as it is at the end.\<close>

definition recorded :: "(chunk \<Rightarrow> string) \<Rightarrow> response \<Rightarrow> Response" where
  "recorded enc r =
     \<lparr>Code = (case sent r of None \<Rightarrow> 200 | Some (n, _) \<Rightarrow> n), rs_Header = headers r, rs_Body = concat (map enc (out r))\<rparr>"

definition Perform ::
  "(goval \<Rightarrow> string + string) \<Rightarrow> (string \<Rightarrow> string \<Rightarrow> string \<Rightarrow> request option) \<Rightarrow> (chunk \<Rightarrow> string) \<Rightarrow>
   (request \<Rightarrow> outcome) \<Rightarrow> string \<Rightarrow> string \<Rightarrow> test_body \<Rightarrow> Response option" where
  "Perform marshal new_request enc serve meth path body =
     (case test_payload marshal body of
        None \<Rightarrow> None
      | Some (raw, contentType) \<Rightarrow>
          (case new_request meth path raw of
             None \<Rightarrow> None
           | Some rq \<Rightarrow>
               (let rq = (if contentType \<noteq> [] then rq\<lparr>req_header := header_set ''Content-Type'' contentType (req_header rq)\<rparr> else rq) in
                case serve rq of Ret s \<Rightarrow> Some (recorded enc (resp (cx s))) | _ \<Rightarrow> None)))"

section \<open>Assertions\<close>

definition JSONMap :: "(string \<Rightarrow> string + goval) \<Rightarrow> Response \<Rightarrow> goval" where
  "JSONMap unmarshal r =
     (case unmarshal (rs_Body r) of Inl _ \<Rightarrow> GNilMap | Inr (GMap kvs) \<Rightarrow> GMap kvs | Inr _ \<Rightarrow> GNilMap)"

definition AssertStatus :: "Response \<Rightarrow> int \<Rightarrow> string option" where
  "AssertStatus r n =
     (if Code r \<noteq> n then Some (''status: got '' @ itoa (Code r) @ '' want '' @ itoa n @ '' body='' @ rs_Body r) else None)"

definition AssertOK :: "Response \<Rightarrow> string option" where
  "AssertOK r = AssertStatus r 200"

definition fmtVal :: "(goval \<Rightarrow> string + string) \<Rightarrow> goval \<Rightarrow> string" where
  "fmtVal marshal v = (case marshal v of Inl _ \<Rightarrow> [] | Inr b \<Rightarrow> b)"

fun json_at :: "string list \<Rightarrow> goval \<Rightarrow> string + goval" where
  "json_at [] cur = Inr cur"
| "json_at (part # parts) cur =
     (case cur of
        GMap kvs \<Rightarrow> (case map_of kvs part of None \<Rightarrow> Inl (''missing key '' @ part) | Some v \<Rightarrow> json_at parts v)
      | GNilMap \<Rightarrow> Inl (''missing key '' @ part)
      | _ \<Rightarrow> Inl (''not an object at '' @ part))"

text \<open>The two \<^verbatim>\<open>%#v\<close> of the last message are left out.\<close>

definition AssertJSONPath :: "(string \<Rightarrow> string + goval) \<Rightarrow> (goval \<Rightarrow> string + string) \<Rightarrow> Response \<Rightarrow> string \<Rightarrow> goval \<Rightarrow> string option" where
  "AssertJSONPath unmarshal marshal r path want =
     (case json_at (split_by (CHR ''.'') path) (JSONMap unmarshal r) of
        Inl e \<Rightarrow> Some (''json path '' @ path @ '': '' @ e)
      | Inr cur \<Rightarrow> if fmtVal marshal cur \<noteq> fmtVal marshal want then Some (''json path '' @ path) else None)"

section \<open>Fakes\<close>

text \<open>The recorder of messages has sent none.\<close>

definition NewMailRecorder :: "Message list" where
  "NewMailRecorder = []"

definition NewQueue :: memory_queue where
  "NewQueue = queue_NewMemory 32"

section \<open>A route that is not there\<close>

text \<open>A request for a path that no pattern is chosen for passes exactly the assertion of status 404.\<close>

lemma perform_unmatched:
  assumes "router_reach r" and "test_payload marshal body = Some (raw, ct)" and "new_request meth path raw = Some rq"
    and "lookup_spec (registrations r) (segments (req_path rq)) (req_method rq) = None"
    and "allowed_spec (registrations r) (segments (req_path rq)) = {}" and "notFound r = None" and "methodNotAllowed r = None"
  shows "\<exists>rs. Perform marshal new_request enc (ServeHTTP r) meth path body = Some rs \<and> (AssertStatus rs n = None \<longleftrightarrow> n = 404)"
proof -
  let ?rq = "if ct \<noteq> [] then rq\<lparr>req_header := header_set ''Content-Type'' ct (req_header rq)\<rparr> else rq"
  have "req_path ?rq = req_path rq" "req_method ?rq = req_method rq" by simp_all
  then obtain s h where "ServeHTTP r ?rq = Ret s" "sent (resp (cx s)) = Some (404, h)"
    using serve_unmatched_raw [of r ?rq] assms by auto
  then show ?thesis using assms(2,3) by (auto simp: Perform_def Let_def AssertStatus_def recorded_def split: if_splits)
qed

text \<open>An answer with a JSON object is asserted by its members.\<close>

lemma assert_path_of_object:
  assumes "unmarshal (rs_Body r) = Inr (GMap kvs)" and "json_at (split_by (CHR ''.'') path) (GMap kvs) = Inr v"
  shows "AssertJSONPath unmarshal marshal r path want = None \<longleftrightarrow> fmtVal marshal v = fmtVal marshal want"
  using assms by (simp add: AssertJSONPath_def JSONMap_def)

text \<open>The captured headers are those of the handler's map: one that is set after the status was sent is captured, a client does not get it.\<close>

lemma late_header_is_captured:
  assumes "sent (resp c) = None" and "writer c = []"
  shows "\<exists>c'. run_chain [Do (SetHeader ''X-Late'' ''1'' \<circ> JSON 200 obj) Done] c = Ret c' \<and>
    header_get (rs_Header (recorded enc (resp (cx c')))) ''X-Late'' = ''1'' \<and>
    (\<exists>h. sent (resp (cx c')) = Some (200, h) \<and> header_get h ''X-Late'' = header_get (headers (resp c)) ''X-Late'')"
proof -
  have "to_lower ''Content-Type'' \<noteq> to_lower ''X-Late''" by code_simp
  then show ?thesis using assms
    by (simp add: run_chain_def call_next_def next_loop.simps recorded_def SetHeader_def JSON_def respond_def write_header_def write_body_def
        base_write_header_def base_write_def Let_def)
qed

end
