(* ===== verification/Handle.thy ===== *)
theory Handle
  imports OrmQuery Transaction
begin

text \<open>
  The database handle (\<^verbatim>\<open>database/orm/db.go\<close>) beside its transactions: which executor a statement goes to, the statement log, the pool
  settings, and the operations of \<^verbatim>\<open>query.go\<close> and \<^verbatim>\<open>extra.go\<close> that only ask for a number. \<open>run\<close> executes a
  statement on the pool, or on the transaction if its flag is set; the log keeps the statements and their arguments, not the durations.
\<close>

record handle =
  h_tx :: bool
  h_Logger :: bool

type_synonym statement_log = "(string \<times> goval list) list"

definition InTransaction :: "handle \<Rightarrow> bool" where
  "InTransaction h = h_tx h"

definition SetLogger :: "bool \<Rightarrow> handle \<Rightarrow> handle" where
  "SetLogger f h = h\<lparr>h_Logger := f\<rparr>"

definition stmt_log :: "handle \<Rightarrow> string \<Rightarrow> goval list \<Rightarrow> statement_log \<Rightarrow> statement_log" where
  "stmt_log h query args l = (if h_Logger h then l @ [(query, args)] else l)"

text \<open>The three differ only in what the database gives back, \<open>'r\<close>.\<close>

definition execContext ::
  "(bool \<Rightarrow> string \<Rightarrow> goval list \<Rightarrow> 'w \<Rightarrow> 'r \<times> 'w) \<Rightarrow> handle \<Rightarrow> string \<Rightarrow> goval list \<Rightarrow> 'w \<times> statement_log \<Rightarrow> 'r \<times> 'w \<times> statement_log" where
  "execContext run h query args = (\<lambda>(w, l). case run (h_tx h) query args w of (r, w') \<Rightarrow> (r, w', stmt_log h query args l))"

definition queryContext ::
  "(bool \<Rightarrow> string \<Rightarrow> goval list \<Rightarrow> 'w \<Rightarrow> 'r \<times> 'w) \<Rightarrow> handle \<Rightarrow> string \<Rightarrow> goval list \<Rightarrow> 'w \<times> statement_log \<Rightarrow> 'r \<times> 'w \<times> statement_log" where
  "queryContext run h query args = (\<lambda>(w, l). case run (h_tx h) query args w of (r, w') \<Rightarrow> (r, w', stmt_log h query args l))"

definition queryRowContext ::
  "(bool \<Rightarrow> string \<Rightarrow> goval list \<Rightarrow> 'w \<Rightarrow> 'r \<times> 'w) \<Rightarrow> handle \<Rightarrow> string \<Rightarrow> goval list \<Rightarrow> 'w \<times> statement_log \<Rightarrow> 'r \<times> 'w \<times> statement_log" where
  "queryRowContext run h query args = (\<lambda>(w, l). case run (h_tx h) query args w of (r, w') \<Rightarrow> (r, w', stmt_log h query args l))"

definition DB_Exec ::
  "(bool \<Rightarrow> string \<Rightarrow> goval list \<Rightarrow> 'w \<Rightarrow> 'r \<times> 'w) \<Rightarrow> handle \<Rightarrow> string \<Rightarrow> goval list \<Rightarrow> 'w \<times> statement_log \<Rightarrow> 'r \<times> 'w \<times> statement_log" where
  "DB_Exec run h query args = execContext run h query args"

definition DB_Query ::
  "(bool \<Rightarrow> string \<Rightarrow> goval list \<Rightarrow> 'w \<Rightarrow> 'r \<times> 'w) \<Rightarrow> handle \<Rightarrow> string \<Rightarrow> goval list \<Rightarrow> 'w \<times> statement_log \<Rightarrow> 'r \<times> 'w \<times> statement_log" where
  "DB_Query run h query args = queryContext run h query args"

text \<open>\<^verbatim>\<open>Ping\<close> and \<^verbatim>\<open>Close\<close> go to the pool, also from a transaction's handle; a context may be given to the first.\<close>

definition DB_Ping :: "('c \<Rightarrow> 'w \<Rightarrow> string option \<times> 'w) \<Rightarrow> 'c \<Rightarrow> 'c list \<Rightarrow> 'w \<Rightarrow> string option \<times> 'w" where
  "DB_Ping ping background ctxs w = ping (case ctxs of [] \<Rightarrow> background | c # _ \<Rightarrow> c) w"

definition DB_Close :: "('w \<Rightarrow> string option \<times> 'w) \<Rightarrow> 'w \<Rightarrow> string option \<times> 'w" where
  "DB_Close close w = close w"

record pool_settings =
  max_open :: int
  max_idle :: int
  max_lifetime :: int

definition ConfigurePool :: "int \<Rightarrow> int \<Rightarrow> int \<Rightarrow> pool_settings \<Rightarrow> pool_settings" where
  "ConfigurePool maxOpen maxIdle maxLifetime p =
     (let p = (if maxOpen > 0 then p\<lparr>max_open := maxOpen\<rparr> else p);
          p = (if maxIdle > 0 then p\<lparr>max_idle := maxIdle\<rparr> else p)
      in if maxLifetime > 0 then p\<lparr>max_lifetime := maxLifetime\<rparr> else p)"

text \<open>\<open>count\<close> runs the statement and reads the number.\<close>

definition Exists :: "(string \<times> goval list \<Rightarrow> string + int) \<Rightarrow> QueryBuilder \<Rightarrow> string + bool" where
  "Exists count q = (case count (Count_sql q) of Inl e \<Rightarrow> Inl e | Inr n \<Rightarrow> Inr (n > 0))"

definition ExistsRow :: "(string \<times> goval list \<Rightarrow> string + int) \<Rightarrow> DB \<Rightarrow> string \<Rightarrow> string \<Rightarrow> goval \<Rightarrow> string + bool" where
  "ExistsRow count d t column v = Exists count (Where column ''='' v (Table d t))"

definition Sum_sql :: "string \<Rightarrow> QueryBuilder \<Rightarrow> string \<times> goval list" where
  "Sum_sql column q = aggregate_sql ''SUM'' column q"

definition Avg_sql :: "string \<Rightarrow> QueryBuilder \<Rightarrow> string \<times> goval list" where
  "Avg_sql column q = aggregate_sql ''AVG'' column q"

definition Max_sql :: "string \<Rightarrow> QueryBuilder \<Rightarrow> string \<times> goval list" where
  "Max_sql column q = aggregate_sql ''MAX'' column q"

definition Min_sql :: "string \<Rightarrow> QueryBuilder \<Rightarrow> string \<times> goval list" where
  "Min_sql column q = aggregate_sql ''MIN'' column q"

text \<open>A sequence of statements on one handle.\<close>

fun handle_all :: "(bool \<Rightarrow> string \<Rightarrow> goval list \<Rightarrow> 'w \<Rightarrow> string option \<times> 'w) \<Rightarrow> handle \<Rightarrow> (string \<times> goval list) list \<Rightarrow> 'w \<times> statement_log \<Rightarrow> tx_result \<times> 'w \<times> statement_log" where
  "handle_all run h [] s = (TxOk, s)"
| "handle_all run h ((query, args) # qs) s =
     (case execContext run h query args s of (Some e, s') \<Rightarrow> (TxErr e, s') | (None, s') \<Rightarrow> handle_all run h qs s')"

text \<open>The log has exactly the statements up to the first that failed, that one included.\<close>

lemma handle_all_log:
  assumes "handle_all run h qs (w, l) = (r, w', l')" and "h_Logger h"
  shows "\<exists>k. l' = l @ take k qs \<and> (r = TxOk \<longrightarrow> length qs \<le> k)"
  using assms
proof (induction qs arbitrary: w l)
  case (Cons q qs)
  obtain query args where q: "q = (query, args)" by (cases q)
  obtain e w1 where e: "run (h_tx h) query args w = (e, w1)" by (cases "run (h_tx h) query args w")
  show ?case
  proof (cases e)
    case None
    then have "handle_all run h qs (w1, l @ [q]) = (r, w', l')" using Cons.prems q e by (simp add: execContext_def stmt_log_def)
    from Cons.IH [OF this Cons.prems(2)] obtain k where "l' = (l @ [q]) @ take k qs" "r = TxOk \<longrightarrow> length qs \<le> k" by blast
    then show ?thesis by (intro exI [of _ "Suc k"]) simp
  next
    case (Some err)
    then show ?thesis using Cons.prems q e by (intro exI [of _ 1]) (auto simp: execContext_def stmt_log_def)
  qed
qed (simp add: exI [of _ 0])

text \<open>
  The statements of the transactions themselves bypass the handle: a nested transaction whose body runs no statement has sent two to the database
  and logged none.
\<close>

lemma savepoints_unlogged:
  "nested_transaction \<lparr>BeginTx = undefined, tx_Exec = \<lambda>sql (sent, l). (None, sent @ [sql], l), tx_Commit = undefined, tx_Rollback = undefined\<rparr>
     (\<lambda>st. (TxOk, st)) (0, ([], l)) = (TxOk, 1, [''SAVEPOINT sp_1'', ''RELEASE sp_1''], l :: statement_log)"
proof -
  have "savepoint_name 1 = ''sp_1''" by code_simp
  then show ?thesis by (simp add: nested_transaction_def Let_def)
qed

end
