(* ===== verification/RedisStore.thy ===== *)
theory RedisStore
  imports Cache Rbac Auth Guarded "HOL-Library.Sublist"
begin

text \<open>
  The Redis backends under the contracts the process-local ones keep. The server is not part of the
  repository: the locales \<open>redis_strings\<close> and \<open>redis_sets\<close> state the documented effect of the commands the
  adapters send, for a server that answers, and each adapter is shown to keep the contract of its interface
  over them (\<^verbatim>\<open>cache/redis.go\<close>, \<^verbatim>\<open>lock/lock.go\<close>, \<^verbatim>\<open>auth/revoke_redis.go\<close>, \<^verbatim>\<open>session/redis.go\<close>, \<^verbatim>\<open>rbac/rbac.go\<close>). A reference
  server, a table of entries with deadlines, keeps the laws.
\<close>

section \<open>The commands on strings\<close>

text \<open>
  The client sends a time to live in whole milliseconds, at least one, and the server's clock counts
  milliseconds: an entry is there up to the millisecond of its deadline. A time to live of \<open>-1\<close> is the client's
  \<^verbatim>\<open>KeepTTL\<close>, of which nothing is said here.
\<close>

definition redis_tick :: int where
  "redis_tick = 1000000"

definition redis_ms :: "time \<Rightarrow> int" where
  "redis_ms t = t div redis_tick"

definition px :: "int \<Rightarrow> int" where
  "px ttl = max 1 (ttl div redis_tick)"

lemma redis_tick_dvd: "redis_tick dvd ttl \<Longrightarrow> redis_ms (t + ttl) = redis_ms t + ttl div redis_tick"
  unfolding redis_ms_def redis_tick_def by (auto elim!: dvdE)

lemma redis_ms_mono: "t \<le> u \<Longrightarrow> redis_ms t \<le> redis_ms u"
  by (simp add: redis_ms_def redis_tick_def zdiv_mono1)

lemma px_dvd: "redis_tick dvd ttl \<Longrightarrow> 0 < ttl \<Longrightarrow> px ttl = ttl div redis_tick"
  by (auto simp: px_def redis_tick_def elim!: dvdE)

text \<open>An entry with a time to live of whole ticks is there up to its deadline, and gone a tick later.\<close>

lemma deadline_kept:
  assumes "redis_tick dvd ttl" and "0 < ttl" and "u \<le> t + ttl"
  shows "redis_ms u \<le> redis_ms t + px ttl"
  using redis_ms_mono [OF assms(3)] by (simp add: px_dvd redis_tick_dvd assms)

lemma deadline_passed:
  assumes "redis_tick dvd ttl" and "0 < ttl" and "t + ttl + redis_tick \<le> u"
  shows "redis_ms t + px ttl < redis_ms u"
proof -
  have "redis_ms (t + ttl + redis_tick) = redis_ms t + px ttl + 1"
    using redis_tick_dvd [OF assms(1)] px_dvd [OF assms(1,2)] by (simp add: redis_ms_def redis_tick_def)
  then show ?thesis using redis_ms_mono [OF assms(3)] by simp
qed

text \<open>
  A deadline the server's clock can express is kept whatever the time of the command: what the two roundings lose
  is less than the millisecond the entry stays.
\<close>

lemma deadline_until:
  assumes "redis_tick dvd until" and "now < until" and "u < until"
  shows "redis_ms u \<le> redis_ms now + px (until - now)"
proof -
  obtain n where n: "until = redis_tick * n" using assms(1) by (elim dvdE)
  let ?q = "now div redis_tick" and ?d = "(until - now) div redis_tick"
  have "redis_tick * ?q + redis_tick * ?d + 2 * redis_tick > until"
    using div_mult_mod_eq [of now redis_tick] div_mult_mod_eq [of "until - now" redis_tick]
      pos_mod_bound [of redis_tick now] pos_mod_bound [of redis_tick "until - now"]
    by (simp add: redis_tick_def)
  then have "n < ?q + ?d + 2" by (simp add: n redis_tick_def)
  moreover have "redis_ms u < n" using assms(3) n by (simp add: redis_ms_def redis_tick_def div_less_iff_less_mult mult.commute)
  ultimately show ?thesis by (simp add: redis_ms_def px_def)
qed

locale redis_strings =
  fixes rget :: "time \<Rightarrow> string \<Rightarrow> 's \<Rightarrow> string + string option"
    and rset :: "time \<Rightarrow> string \<Rightarrow> string \<Rightarrow> int \<Rightarrow> 's \<Rightarrow> string option \<times> 's"
    and rsetnx :: "time \<Rightarrow> string \<Rightarrow> string \<Rightarrow> int \<Rightarrow> 's \<Rightarrow> (string + bool) \<times> 's"
    and rexists :: "time \<Rightarrow> string \<Rightarrow> 's \<Rightarrow> string + int"
    and rdel :: "string \<Rightarrow> 's \<Rightarrow> string option \<times> 's"
    and live :: "time \<Rightarrow> 's \<Rightarrow> string \<rightharpoonup> string"
  assumes get_live: "rget t k s = Inr (live t s k)"
    and exists_live: "rexists t k s = Inr (if live t s k = None then 0 else 1)"
    and live_earlier: "live u s k = Some v \<Longrightarrow> t \<le> u \<Longrightarrow> live t s k = Some v"
    and rset_ok: "fst (rset t k v ttl s) = None"
    and rset_live: "0 < ttl \<Longrightarrow> live u (snd (rset t k v ttl s)) =
          (live u s)(k := if redis_ms u \<le> redis_ms t + px ttl then Some v else None)"
    and rset_forever: "ttl \<le> 0 \<Longrightarrow> ttl \<noteq> -1 \<Longrightarrow> live u (snd (rset t k v ttl s)) = (live u s)(k \<mapsto> v)"
    and setnx_taken: "live t s k \<noteq> None \<Longrightarrow> rsetnx t k v ttl s = (Inr False, s)"
    and setnx_free: "live t s k = None \<Longrightarrow> 0 < ttl \<Longrightarrow> rsetnx t k v ttl s = (Inr True, snd (rset t k v ttl s))"
    and rdel_ok: "fst (rdel k s) = None"
    and rdel_live: "live u (snd (rdel k s)) = (live u s)(k := None)"

lemma not_keep_ttl [simp]: "redis_tick dvd ttl \<Longrightarrow> ttl \<noteq> -1"
  by (auto simp: redis_tick_def)

text \<open>The adapters' operations on a server, in the form the contracts have.\<close>

abbreviation redis_cache_get where "redis_cache_get rget \<equiv> (\<lambda>t k s. (Redis_Get (rget t) k s, s))"
abbreviation redis_cache_put where "redis_cache_put rset \<equiv> (\<lambda>t. Redis_Set (rset t))"
abbreviation redis_cache_has where "redis_cache_has rexists \<equiv> (\<lambda>t k s. (Redis_Has (rexists t) k s, s))"
abbreviation redis_cache_del where "redis_cache_del rdel \<equiv> (\<lambda>k s. snd (Redis_Delete rdel k s))"

definition RedisRevoker ::
  "(time \<Rightarrow> string \<Rightarrow> string \<Rightarrow> int \<Rightarrow> 's \<Rightarrow> string option \<times> 's) \<Rightarrow> (time \<Rightarrow> string \<Rightarrow> 's \<Rightarrow> string + int) \<Rightarrow> 's revoker_ops" where
  "RedisRevoker rset rexists =
     \<lparr>Revoke = (\<lambda>now. Redis_Revoke (\<lambda>k v ttl s. snd (rset now k v ttl s)) now),
      Revoked = (\<lambda>now jti s. (Redis_Revoked (rexists now) jti s, s))\<rparr>"

lemma default_ttl_pos: "0 < default_ttl ttl"
  by (simp add: default_ttl_def)

sublocale redis_strings \<subseteq> cache: cache_store redis_tick "redis_cache_get rget" "redis_cache_put rset"
    "redis_cache_has rexists" "redis_cache_del rdel" live
proof unfold_locales
  fix t u :: time and k k' v :: string and ttl :: int and s :: 's
  show "live u (snd (Redis_Set (rset t) k v ttl s)) = (live u s)(k \<mapsto> v)"
    if "redis_tick dvd ttl" "ttl \<le> 0 \<or> u \<le> t + ttl"
  proof (cases "0 < ttl")
    case False
    with that(1) show ?thesis by (simp add: Redis_Set_def split_beta rset_forever)
  qed (use that deadline_kept in \<open>auto simp: Redis_Set_def split_beta rset_live\<close>)
  show "live u (snd (Redis_Set (rset t) k v ttl s)) = (live u s)(k := None)"
    if "0 < ttl" "redis_tick dvd ttl" "t + ttl + redis_tick \<le> u"
    using deadline_passed [OF that(2,1,3)] that(1) by (auto simp: Redis_Set_def split_beta rset_live)
  show "live u (snd (Redis_Set (rset t) k v ttl s)) k' = live u s k'" if "redis_tick dvd ttl" "k' \<noteq> k"
    using that by (cases "0 < ttl") (simp_all add: Redis_Set_def split_beta rset_live rset_forever)
qed (auto simp: Redis_Get_def Redis_Has_def Redis_Set_def Redis_Delete_def get_live exists_live rset_ok rdel_live
    redis_tick_def split_beta split: option.split dest: live_earlier)

sublocale redis_strings \<subseteq> lock: locker redis_tick "\<lambda>t. redis_Acquire (rsetnx t)"
    "redis_release (\<lambda>k s. snd (rdel k s))" "\<lambda>t s k. live t s (redis_lock_key k) \<noteq> None"
proof unfold_locales
  fix t u :: time and k k' :: string and ttl :: int and l :: 's
  show "redis_Acquire (rsetnx t) k ttl l = (Some ErrNotAcquired, l)" if "live t l (redis_lock_key k) \<noteq> None"
    using that by (simp add: redis_Acquire_def setnx_taken)
  assume free: "\<not> live t l (redis_lock_key k) \<noteq> None"
  then have acq: "redis_Acquire (rsetnx t) k ttl l = (None, snd (rset t (redis_lock_key k) ''1'' (default_ttl ttl) l))" for ttl
    by (simp add: redis_Acquire_def setnx_free default_ttl_pos)
  show "fst (redis_Acquire (rsetnx t) k ttl l) = None" by (simp add: acq)
  assume ttl: "0 < ttl" "redis_tick dvd ttl"
  then have d: "default_ttl ttl = ttl" by (simp add: default_ttl_def)
  show "live u (snd (redis_Acquire (rsetnx t) k ttl l)) (redis_lock_key k) \<noteq> None" if "u < t + ttl"
    using deadline_kept [OF ttl(2,1), of u t] that ttl by (simp add: acq rset_live d)
  show "\<not> live u (snd (redis_Acquire (rsetnx t) k ttl l)) (redis_lock_key k) \<noteq> None" if "t + ttl + redis_tick \<le> u"
    using deadline_passed [OF ttl(2,1) that] ttl by (simp add: acq rset_live d)
next
  fix t u :: time and k k' :: string and ttl :: int and l :: 's
  show "(live u (snd (redis_Acquire (rsetnx t) k ttl l)) (redis_lock_key k') \<noteq> None) =
      (live u l (redis_lock_key k') \<noteq> None)" if "k' \<noteq> k"
    using that default_ttl_pos [of ttl]
    by (cases "live t l (redis_lock_key k) = None") (simp_all add: redis_Acquire_def setnx_taken setnx_free rset_live redis_lock_key_def)
qed (auto simp: redis_release_def rdel_live redis_lock_key_def dest: live_earlier)

sublocale redis_strings \<subseteq> rev: revoker redis_tick "RedisRevoker rset rexists"
proof unfold_locales
  fix now t until :: int and j :: string and r :: 's
  assume "now \<le> t" "t < until" "redis_tick dvd until"
  then show "fst (Revoked (RedisRevoker rset rexists) t j (Revoke (RedisRevoker rset rexists) now j until r))"
    using deadline_until [of until now t]
    by (simp add: RedisRevoker_def Redis_Revoke_def Redis_Revoked_def exists_live rset_live Let_def)
next
  fix now t until :: int and j k :: string and r :: 's
  assume "j \<noteq> k"
  then show "fst (Revoked (RedisRevoker rset rexists) t k (Revoke (RedisRevoker rset rexists) now j until r)) =
      fst (Revoked (RedisRevoker rset rexists) t k r)"
    by (simp add: RedisRevoker_def Redis_Revoke_def Redis_Revoked_def exists_live rset_live Let_def)
qed (simp add: RedisRevoker_def)

section \<open>The commands on sets\<close>

locale redis_sets =
  fixes sadd :: "string \<Rightarrow> string \<Rightarrow> 's \<Rightarrow> string option \<times> 's"
    and srem :: "string \<Rightarrow> string \<Rightarrow> 's \<Rightarrow> string option \<times> 's"
    and smembers :: "string \<Rightarrow> 's \<Rightarrow> string + string list"
    and sismember :: "string \<Rightarrow> string \<Rightarrow> 's \<Rightarrow> string + bool"
    and members :: "'s \<Rightarrow> string \<Rightarrow> string set"
  assumes sadd_members: "members (snd (sadd k x s)) = (members s)(k := insert x (members s k))"
    and srem_members: "members (snd (srem k x s)) = (members s)(k := members s k - {x})"
    and smembers_list: "\<exists>xs. smembers k s = Inr xs \<and> set xs = members s k"
    and sismember_in: "sismember k x s = Inr (x \<in> members s k)"

lemma keys_distinct [simp]:
  "userKey u = userKey u' \<longleftrightarrow> u = u'" "roleKey r = roleKey r' \<longleftrightarrow> r = r'" "userKey u \<noteq> roleKey r" "roleKey r \<noteq> userKey u"
  by (auto simp: userKey_def roleKey_def)

definition set_roles :: "('s \<Rightarrow> string \<Rightarrow> string set) \<Rightarrow> 's \<Rightarrow> (string \<times> string) set" where
  "set_roles members s = {(u, r). r \<in> members s (userKey u)}"

definition set_perms :: "('s \<Rightarrow> string \<Rightarrow> string set) \<Rightarrow> 's \<Rightarrow> (string \<times> string) set" where
  "set_perms members s = {(r, p). p \<in> members s (roleKey r)}"

sublocale redis_sets \<subseteq> rbac: role_store "silent (Redis_AssignRole sadd)" "silent (Redis_RevokeRole srem)"
    "silent (Redis_Grant sadd)" "silent (Redis_Deny srem)" "Redis_HasRole sismember" "Redis_Can smembers sismember"
    "set_roles members" "set_perms members"
proof unfold_locales
  fix u p :: string and s :: 's
  obtain xs where "smembers (userKey u) s = Inr xs" "set xs = members s (userKey u)"
    using smembers_list by blast
  then show "Redis_Can smembers sismember u p s \<longleftrightarrow> (\<exists>r. (u, r) \<in> set_roles members s \<and>
      ((r, p) \<in> set_perms members s \<or> (r, ''*'') \<in> set_perms members s))"
    by (auto simp: Redis_Can_def sismember_in set_roles_def set_perms_def list_ex_iff)
qed (auto simp: silent_def Redis_AssignRole_def Redis_RevokeRole_def Redis_Grant_def Redis_Deny_def Redis_HasRole_def
    sadd_members srem_members sismember_in set_roles_def set_perms_def split: if_splits)

section \<open>Backends on one server\<close>

text \<open>
  The application hands one client to all its backends. A use is one call of one of them, with the JSON codec of
  the sessions as an argument; the cache's keys begin with its prefix, those of the others with a fixed one.
\<close>

datatype backend_use =
    UseCache store_call
  | UseLock string int
  | UseUnlock string
  | UseSession string svalues int
  | UseSessionEnd string
  | UseRevoke string int

definition use_prefix :: "string \<Rightarrow> backend_use \<Rightarrow> string" where
  "use_prefix pre use =
     (case use of
        UseCache _ \<Rightarrow> pre
      | UseLock _ _ \<Rightarrow> ''gai:lock:''
      | UseUnlock _ \<Rightarrow> ''gai:lock:''
      | UseSession _ _ _ \<Rightarrow> ''gai:session:''
      | UseSessionEnd _ \<Rightarrow> ''gai:session:''
      | UseRevoke _ _ \<Rightarrow> ''gai:jwt:revoked:'')"

fun redis_use where
  "redis_use rget rset rsetnx rexists rdel marshal pre t (UseCache c) s =
     snd (cache_call (redis_cache_get rget) (redis_cache_put rset) (redis_cache_has rexists) (redis_cache_del rdel) pre t c s)"
| "redis_use rget rset rsetnx rexists rdel marshal pre t (UseLock k ttl) s = snd (redis_Acquire (rsetnx t) k ttl s)"
| "redis_use rget rset rsetnx rexists rdel marshal pre t (UseUnlock k) s = redis_release (\<lambda>k s. snd (rdel k s)) k s"
| "redis_use rget rset rsetnx rexists rdel marshal pre t (UseSession sid vs ttl) s = snd (RedisStore_Set (rset t) marshal sid vs ttl s)"
| "redis_use rget rset rsetnx rexists rdel marshal pre t (UseSessionEnd sid) s = snd (RedisStore_Delete rdel sid s)"
| "redis_use rget rset rsetnx rexists rdel marshal pre t (UseRevoke j until) s =
     Redis_Revoke (\<lambda>k v ttl s. snd (rset t k v ttl s)) t j until s"

fun redis_uses where
  "redis_uses rget rset rsetnx rexists rdel marshal pre [] s = s"
| "redis_uses rget rset rsetnx rexists rdel marshal pre ((t, use) # uses) s =
     redis_uses rget rset rsetnx rexists rdel marshal pre uses (redis_use rget rset rsetnx rexists rdel marshal pre t use s)"

lemma foreign_key: "parallel p q \<Longrightarrow> prefix q k \<Longrightarrow> k \<noteq> p @ x"
  using prefix_same_cases [of p "p @ x" q] by (auto simp: parallel_def)

lemma manager_key_append: "manager_key pre k = pre @ k"
  by (simp add: manager_key_def)

text \<open>
  Uses that belong to other backends: their prefixes differ from \<open>q\<close> before either ends, and none of
  them keeps a time to live.
\<close>

definition foreign :: "string \<Rightarrow> string \<Rightarrow> backend_use \<Rightarrow> bool" where
  "foreign pre q use \<longleftrightarrow> parallel (use_prefix pre use) q \<and>
     (case use of UseCache (CSet _ _ ttl) \<Rightarrow> ttl \<noteq> -1 | UseSession _ _ ttl \<Rightarrow> ttl \<noteq> -1 | _ \<Rightarrow> True)"

context redis_strings begin

text \<open>No command to another key is seen, unless it is a \<^verbatim>\<open>SET\<close> with the client's \<^verbatim>\<open>KeepTTL\<close>.\<close>

lemma rset_other: "k' \<noteq> k \<Longrightarrow> ttl \<noteq> -1 \<Longrightarrow> live u (snd (rset t k v ttl s)) k' = live u s k'"
  by (cases "0 < ttl") (simp_all add: rset_live rset_forever)

lemma use_other:
  assumes "foreign pre q use" and "prefix q k"
  shows "live u (redis_use rget rset rsetnx rexists rdel marshal pre t use s) k = live u s k"
proof -
  have key: "k \<noteq> use_prefix pre use @ x" for x
    using foreign_key [OF _ assms(2)] assms(1) by (simp add: foreign_def)
  show ?thesis
  proof (cases use)
    case (UseCache c)
    then have "k \<noteq> manager_key pre x" for x using key [of x] by (simp add: use_prefix_def manager_key_append)
    then show ?thesis using UseCache assms(1)
      by (cases c) (auto simp: foreign_def Manager_Get_def Manager_Has_def Manager_Set_def Manager_Delete_def Redis_Set_def
          Redis_Delete_def split_beta rset_other rdel_live)
  next
    case (UseLock x ttl)
    then show ?thesis using key [of x] default_ttl_pos [of ttl]
      by (cases "live t s (redis_lock_key x) = None")
        (simp_all add: redis_Acquire_def setnx_taken setnx_free rset_live use_prefix_def redis_lock_key_def)
  next
    case (UseUnlock x)
    then show ?thesis using key [of x] by (simp add: redis_release_def rdel_live use_prefix_def redis_lock_key_def)
  next
    case (UseSession x vs ttl)
    then show ?thesis using key [of x] assms(1)
      by (auto simp: foreign_def RedisStore_Set_def rset_other use_prefix_def split: sum.split)
  next
    case (UseSessionEnd x)
    then show ?thesis using key [of x] by (simp add: RedisStore_Delete_def rdel_live use_prefix_def)
  next
    case (UseRevoke j until)
    then show ?thesis using key [of j] by (auto simp: Redis_Revoke_def rset_live Let_def use_prefix_def)
  qed
qed

lemma uses_other:
  "\<forall>(t, use)\<in>set uses. foreign pre q use \<Longrightarrow> prefix q k \<Longrightarrow>
     live u (redis_uses rget rset rsetnx rexists rdel marshal pre uses s) k = live u s k"
proof (induction uses arbitrary: s)
  case (Cons x uses)
  then show ?case using use_other by (cases x) fastforce
qed simp

text \<open>Its own answers are all a backend reads.\<close>

lemma revoked_local: "live u s' (''gai:jwt:revoked:'' @ j) = live u s (''gai:jwt:revoked:'' @ j) \<Longrightarrow>
    Redis_Revoked (rexists u) j s' = Redis_Revoked (rexists u) j s"
  by (simp add: Redis_Revoked_def exists_live)

lemma session_local: "live u s' (''gai:session:'' @ sid) = live u s (''gai:session:'' @ sid) \<Longrightarrow>
    RedisStore_Get (rget u) unmarshal sid s' = RedisStore_Get (rget u) unmarshal sid s"
  by (simp add: RedisStore_Get_def get_live)

lemma acquire_local: "live u s' (''gai:lock:'' @ k) = live u s (''gai:lock:'' @ k) \<Longrightarrow>
    fst (redis_Acquire (rsetnx u) k ttl s') = fst (redis_Acquire (rsetnx u) k ttl s)"
  using default_ttl_pos [of ttl]
  by (cases "live u s (''gai:lock:'' @ k) = None") (simp_all add: redis_Acquire_def redis_lock_key_def setnx_taken setnx_free)

lemma session_saved:
  assumes "marshal vs = Inr b" and "unmarshal b = Inr (Some vs')" and "redis_tick dvd ttl" and "ttl \<le> 0 \<or> u \<le> t + ttl"
  shows "RedisStore_Get (rget u) unmarshal sid (snd (RedisStore_Set (rset t) marshal sid vs ttl s)) = (None, Some vs')"
  using assms deadline_kept [of ttl u t]
  by (cases "0 < ttl") (auto simp: RedisStore_Get_def RedisStore_Set_def Session_Encode_def Session_Decode_def get_live rset_live rset_forever)

text \<open>
  A value a handler puts into a session on Redis is there in the next request, in the form it has after the codec:
  \<open>json\<close> is what encoding and decoding make of a value. JSON knows one kind of number, so an integer may come back as a
  floating-point number.
\<close>

lemma redis_session_round_trip:
  assumes codec: "\<And>vs. \<exists>b. marshal vs = Inr b \<and> unmarshal b = Inr (Some (map (apsnd json) vs))"
    and "Cookie c (CookieName m) = Some sid" "sid \<noteq> []"
    and "session_Middleware m fresh (\<lambda>sid s. snd (RedisStore_Get (rget t) unmarshal sid s))
           (\<lambda>sid vs s. snd (RedisStore_Set (rset t') marshal sid vs (TTL m) s)) (put_rest key v) c s = Some (c1, s1)"
    and "redis_tick dvd TTL m" "TTL m \<le> 0 \<or> u \<le> t' + TTL m"
  shows "Session_Get key (snd (session_open m fresh' (\<lambda>sid s. snd (RedisStore_Get (rget u) unmarshal sid s)) c s1)) = json v"
proof -
  let ?old = "snd (RedisStore_Get (rget t) unmarshal sid s)"
  obtain vs where vs: "?old = Some vs" and s1: "s1 = snd (RedisStore_Set (rset t') marshal sid (AList.update key v vs) (TTL m) s)"
    using assms(2-4)
    by (auto simp: session_Middleware_def session_open_def put_rest_def Session_Set_def values_of_def Let_def split: option.splits)
  obtain b where b: "marshal (AList.update key v vs) = Inr b" "unmarshal b = Inr (Some (map (apsnd json) (AList.update key v vs)))"
    using codec by blast
  have "snd (RedisStore_Get (rget u) unmarshal sid s1) = Some (map (apsnd json) (AList.update key v vs))"
    unfolding s1 using session_saved [where marshal = marshal and unmarshal = unmarshal, OF b assms(5,6)] by simp
  moreover have "map_of (map (apsnd json) (AList.update key v vs)) key = Some (json v)"
    by (simp add: map_of_map apsnd_def map_prod_def update_conv')
  ultimately show ?thesis
    using assms(2,3) by (simp add: session_open_def Session_Get_def values_of_def Let_def)
qed

text \<open>What the contracts give for the adapters.\<close>

lemma cache_answers:
  assumes "\<forall>u k. live u s k = None" and "on_clock redis_tick t cs"
  shows "fst (cache_calls (redis_cache_get rget) (redis_cache_put rset) (redis_cache_has rexists) (redis_cache_del rdel) pre cs s)
    = cache_replies [] cs"
  using assms by (intro cache.calls_answers) (auto simp: cache.tracks_def)

text \<open>The cache and the locker on one server, for keys that differ.\<close>

lemma once_on_server:
  assumes "redis_lock_key lk \<noteq> ck"
  shows "once_backend redis_tick (redis_cache_get rget) (redis_cache_put rset) (redis_cache_has rexists) (redis_cache_del rdel) live
    (\<lambda>t. redis_Acquire (rsetnx t)) (redis_release (\<lambda>k s. snd (rdel k s))) (\<lambda>t s k. live t s (redis_lock_key k) \<noteq> None) ck lk"
proof unfold_locales
  fix t u :: time and ttl :: int and v :: string and s :: 's
  show "live u (snd (redis_Acquire (rsetnx t) lk ttl s)) ck = live u s ck"
    using assms default_ttl_pos [of ttl]
    by (cases "live t s (redis_lock_key lk) = None") (auto simp: redis_Acquire_def setnx_taken setnx_free rset_live)
  show "live u (redis_release (\<lambda>k s. snd (rdel k s)) lk s) ck = live u s ck"
    using assms by (auto simp: redis_release_def rdel_live)
  show "(live u (snd (redis_cache_put rset t ck v ttl s)) (redis_lock_key lk) \<noteq> None) = (live u s (redis_lock_key lk) \<noteq> None)"
    if "redis_tick dvd ttl"
    using assms that by (simp add: Redis_Set_def split_beta rset_other)
qed simp

lemmas lock_excludes = lock.exclusive_history
lemmas refresh_rejected = rev.refresh_once
lemmas logout_rejected = rev.logout_lasts
lemmas token_blocked = rev.token_blocked

lemma isolated:
  "\<forall>(t, use)\<in>set uses. foreign pre ''gai:jwt:revoked:'' use \<Longrightarrow>
     Redis_Revoked (rexists u) j (redis_uses rget rset rsetnx rexists rdel marshal pre uses s) = Redis_Revoked (rexists u) j s"
  "\<forall>(t, use)\<in>set uses. foreign pre ''gai:session:'' use \<Longrightarrow>
     RedisStore_Get (rget u) unmarshal sid (redis_uses rget rset rsetnx rexists rdel marshal pre uses s) =
       RedisStore_Get (rget u) unmarshal sid s"
  "\<forall>(t, use)\<in>set uses. foreign pre ''gai:lock:'' use \<Longrightarrow>
     fst (redis_Acquire (rsetnx u) k ttl (redis_uses rget rset rsetnx rexists rdel marshal pre uses s)) =
       fst (redis_Acquire (rsetnx u) k ttl s)"
  subgoal by (rule revoked_local) (rule uses_other, assumption, simp)
  subgoal by (rule session_local) (rule uses_other, assumption, simp)
  subgoal by (rule acquire_local) (rule uses_other, assumption, simp)
  done

end

context redis_sets begin

lemmas can_history = rbac.can_history

lemma empty_sets: "\<forall>k. members s k = {} \<Longrightarrow> set_roles members s = {} \<and> set_perms members s = {}"
  by (simp add: set_roles_def set_perms_def)

end

section \<open>A reference server\<close>

text \<open>A table of values with their deadlines in milliseconds, and one of sets.\<close>

type_synonym redis_table = "string \<rightharpoonup> string \<times> int option"

definition table_live :: "time \<Rightarrow> redis_table \<Rightarrow> string \<rightharpoonup> string" where
  "table_live u s k =
     (case s k of
        None \<Rightarrow> None
      | Some (v, None) \<Rightarrow> Some v
      | Some (v, Some d) \<Rightarrow> if redis_ms u \<le> d then Some v else None)"

definition table_get :: "time \<Rightarrow> string \<Rightarrow> redis_table \<Rightarrow> string + string option" where
  "table_get t k s = Inr (table_live t s k)"

definition table_exists :: "time \<Rightarrow> string \<Rightarrow> redis_table \<Rightarrow> string + int" where
  "table_exists t k s = Inr (if table_live t s k = None then 0 else 1)"

definition table_set :: "time \<Rightarrow> string \<Rightarrow> string \<Rightarrow> int \<Rightarrow> redis_table \<Rightarrow> string option \<times> redis_table" where
  "table_set t k v ttl s =
     (None, s(k \<mapsto> (v, if 0 < ttl then Some (redis_ms t + px ttl)
                    else if ttl = -1 then (case s k of None \<Rightarrow> None | Some (_, d) \<Rightarrow> d) else None)))"

definition table_setnx :: "time \<Rightarrow> string \<Rightarrow> string \<Rightarrow> int \<Rightarrow> redis_table \<Rightarrow> (string + bool) \<times> redis_table" where
  "table_setnx t k v ttl s = (if table_live t s k = None then (Inr True, snd (table_set t k v ttl s)) else (Inr False, s))"

definition table_del :: "string \<Rightarrow> redis_table \<Rightarrow> string option \<times> redis_table" where
  "table_del k s = (None, s(k := None))"

lemma table_live_earlier: "table_live u s k = Some v \<Longrightarrow> t \<le> u \<Longrightarrow> table_live t s k = Some v"
  using redis_ms_mono [of t u] by (auto simp: table_live_def split: option.splits if_splits)

interpretation table: redis_strings table_get table_set table_setnx table_exists table_del table_live
  by unfold_locales
    (auto simp: table_get_def table_exists_def table_set_def table_setnx_def table_del_def fun_eq_iff
      dest: table_live_earlier, auto simp: table_live_def split: option.splits)

type_synonym redis_set_table = "string \<Rightarrow> string list"

definition table_sadd :: "string \<Rightarrow> string \<Rightarrow> redis_set_table \<Rightarrow> string option \<times> redis_set_table" where
  "table_sadd k x s = (None, s(k := List.insert x (s k)))"

definition table_srem :: "string \<Rightarrow> string \<Rightarrow> redis_set_table \<Rightarrow> string option \<times> redis_set_table" where
  "table_srem k x s = (None, s(k := removeAll x (s k)))"

definition table_smembers :: "string \<Rightarrow> redis_set_table \<Rightarrow> string + string list" where
  "table_smembers k s = Inr (s k)"

definition table_sismember :: "string \<Rightarrow> string \<Rightarrow> redis_set_table \<Rightarrow> string + bool" where
  "table_sismember k x s = Inr (List.member (s k) x)"

interpretation set_table: redis_sets table_sadd table_srem table_smembers table_sismember "\<lambda>s k. set (s k)"
  by unfold_locales
    (auto simp: table_sadd_def table_srem_def table_smembers_def table_sismember_def fun_eq_iff)

section \<open>Properties\<close>

lemma on_clock_fine: "on_clock tick t cs \<Longrightarrow> on_clock 1 t cs"
  by (induction tick t cs rule: on_clock.induct) (auto split: store_call.splits)

text \<open>
  Property C11: the cache's backends cannot be told apart. Over any sequence of calls of the manager, at times that do not go back,
  the Redis store on a server that was empty and the process-local store give the same answers, namely those that the calls
  before determine: an entry is what the last \<^verbatim>\<open>Set\<close> of its key wrote, until its deadline or a \<^verbatim>\<open>Delete\<close>. Times and
  times to live are whole milliseconds, which is what the server can express; the server is any that keeps the laws of its
  commands.
\<close>

theorem cache_backends_agree:
  assumes "redis_strings rget rset rsetnx rexists rdel live" and "\<forall>u k. live u s k = None" and "on_clock redis_tick t cs"
  shows "fst (cache_calls (redis_cache_get rget) (redis_cache_put rset) (redis_cache_has rexists) (redis_cache_del rdel) pre cs s)
      = cache_replies [] cs
    \<and> fst (cache_calls Memory_Get Memory_Set Memory_Has Memory_Delete pre cs cache_NewMemory) = cache_replies [] cs"
proof
  show "fst (cache_calls Memory_Get Memory_Set Memory_Has Memory_Delete pre cs cache_NewMemory) = cache_replies [] cs"
    using on_clock_fine [OF assms(3)]
    by (intro mem.calls_answers) (auto simp: mem.tracks_def visible_def cache_NewMemory_def)
  show "fst (cache_calls (redis_cache_get rget) (redis_cache_put rset) (redis_cache_has rexists) (redis_cache_del rdel) pre cs s)
      = cache_replies [] cs"
    using redis_strings.cache_answers [OF assms] .
qed

theorem cache_backends_agree_witness:
  "fst (cache_calls (redis_cache_get table_get) (redis_cache_put table_set) (redis_cache_has table_exists) (redis_cache_del table_del)
      ''p:'' [(0, CSet ''k'' ''v'' 2000000), (2000000, CGet ''k''), (3000000, CHas ''k'')] Map.empty)
    = [ASet None, AGet (Inr ''v''), AHas (Inr False)]"
proof -
  have empty: "\<forall>u k. table_live u Map.empty k = None" by (simp add: table_live_def)
  have "on_clock redis_tick 0 [(0, CSet ''k'' ''v'' 2000000), (2000000, CGet ''k''), (3000000, CHas ''k'')]"
    by (simp add: redis_tick_def)
  from cache_backends_agree [OF table.redis_strings_axioms, OF empty this, of "''p:''"] show ?thesis by simp
qed

text \<open>
  Property C14: backends that share a server do not disturb each other. Uses of the cache, the locker, the session store and the
  revocation list, in any order and number, change neither the revocations, nor the sessions, nor the locks, unless they are
  uses of that backend itself; the cache's prefix must not run into theirs. (A \<^verbatim>\<open>Set\<close> with the client's
  \<^verbatim>\<open>KeepTTL\<close> is left out.)
\<close>

theorem backends_isolated:
  assumes "redis_strings rget rset rsetnx rexists rdel live"
  shows "((\<forall>(t, use)\<in>set uses. foreign pre ''gai:jwt:revoked:'' use) \<longrightarrow>
        Redis_Revoked (rexists u) j (redis_uses rget rset rsetnx rexists rdel marshal pre uses s) = Redis_Revoked (rexists u) j s) \<and>
     ((\<forall>(t, use)\<in>set uses. foreign pre ''gai:session:'' use) \<longrightarrow>
        RedisStore_Get (rget u) unmarshal sid (redis_uses rget rset rsetnx rexists rdel marshal pre uses s) =
          RedisStore_Get (rget u) unmarshal sid s) \<and>
     ((\<forall>(t, use)\<in>set uses. foreign pre ''gai:lock:'' use) \<longrightarrow>
        fst (redis_Acquire (rsetnx u) k ttl (redis_uses rget rset rsetnx rexists rdel marshal pre uses s)) =
          fst (redis_Acquire (rsetnx u) k ttl s))"
  by (intro conjI impI; rule redis_strings.isolated [OF assms])

theorem backends_isolated_witness:
  "Redis_Revoked (table_exists 9000000) ''j'' (redis_uses table_get table_set table_setnx table_exists table_del (\<lambda>_. Inr ''{}'') ''app:''
      [(1, UseCache (CDelete ''gai:jwt:revoked:j'')), (2, UseLock ''k'' 5), (3, UseSession ''s'' [] 0), (4, UseUnlock ''k'')]
      (Redis_Revoke (\<lambda>k v ttl s. snd (table_set 0 k v ttl s)) 0 ''j'' 10000000 Map.empty))"
proof -
  have "\<forall>(t, use)\<in>set [(1 :: time, UseCache (CDelete ''gai:jwt:revoked:j'')), (2, UseLock ''k'' 5), (3, UseSession ''s'' [] 0), (4, UseUnlock ''k'')].
      foreign ''app:'' ''gai:jwt:revoked:'' use"
    by (simp add: foreign_def use_prefix_def parallel_def)
  with backends_isolated [OF table.redis_strings_axioms,
      where uses = "[(1, UseCache (CDelete ''gai:jwt:revoked:j'')), (2, UseLock ''k'' 5), (3, UseSession ''s'' [] 0), (4, UseUnlock ''k'')]"]
  show ?thesis
    by (simp add: Redis_Revoked_def Redis_Revoke_def table_exists_def table_set_def table_live_def redis_ms_def redis_tick_def px_def)
qed

text \<open>
  Property C12: authorisation is decided by history, whichever store keeps it. After any history of assignments, revocations,
  grants and denials, in the process-local store or in an empty Redis database that answers, a user can do something
  exactly if some role whose last assignment to the user was not revoked has the permission, or the permission \<^verbatim>\<open>*\<close>, by
  a grant that was not denied after it.
\<close>

theorem rbac_backends_agree:
  assumes "redis_sets sadd srem smembers sismember members" and "\<forall>k. members s k = {}"
  shows "Can u p (foldr (apply_op AssignRole RevokeRole Grant Deny) ops NewMemoryStore) =
        (\<exists>r. assigned ops u r \<and> (granted ops r p \<or> granted ops r ''*'')) \<and>
      Redis_Can smembers sismember u p (foldr (apply_op (silent (Redis_AssignRole sadd)) (silent (Redis_RevokeRole srem))
          (silent (Redis_Grant sadd)) (silent (Redis_Deny srem))) ops s) =
        (\<exists>r. assigned ops u r \<and> (granted ops r p \<or> granted ops r ''*''))"
  using can_iff_history redis_sets.can_history [OF assms(1)] redis_sets.empty_sets [OF assms] by blast

theorem rbac_backends_agree_witness:
  "Redis_Can table_smembers table_sismember ''u'' ''edit'' (foldr (apply_op (silent (Redis_AssignRole table_sadd))
     (silent (Redis_RevokeRole table_srem)) (silent (Redis_Grant table_sadd)) (silent (Redis_Deny table_srem)))
     [OGrant ''admin'' ''*'', ODeny ''admin'' ''edit'', OAssign ''u'' ''admin''] (\<lambda>_. []))"
  using rbac_backends_agree [OF set_table.redis_sets_axioms, of "\<lambda>_. []" "''u''" "''edit''"
      "[OGrant ''admin'' ''*'', ODeny ''admin'' ''edit'', OAssign ''u'' ''admin'']"] by simp

text \<open>The guarantees on tokens hold with the Redis revocation list too: the dates in tokens are whole seconds.\<close>

lemma redis_refresh_single_use:
  assumes "redis_strings rget rset rsetnx rexists rdel live" and "\<And>x. redis_tick dvd NewNumericDate lib x" and "jwt_laws lib"
    and "GenerateRefreshToken lib cfg t0 jti u extra = Inr tok" and "jti \<noteq> []"
    and "Refresh lib cfg (Some (RedisRevoker rset rexists)) t1 jtis tok r = (Inr p, r1)" and "t1 \<le> t2" and "quiet jti t2 evs"
  shows "\<exists>e r2. Refresh lib cfg (Some (RedisRevoker rset rexists)) t2 jtis' tok (rv_run (RedisRevoker rset rexists) evs r1) = (Inl e, r2)"
  using redis_strings.refresh_rejected [OF assms(1,3-8,2)] .

lemma redis_lock_exclusive:
  assumes "redis_strings rget rset rsetnx rexists rdel live"
    and "fst (redis_Acquire (rsetnx t) k ttl s) = None" and "0 < ttl" and "redis_tick dvd ttl" and "u < t + ttl"
  shows "fst (redis_Acquire (rsetnx u) k ttl' (other_keys (\<lambda>t. redis_Acquire (rsetnx t)) (redis_release (\<lambda>k s. snd (rdel k s))) k ops
      (snd (redis_Acquire (rsetnx t) k ttl s)))) = Some ErrNotAcquired"
  using redis_strings.lock_excludes [OF assms] .

text \<open>
  \<^verbatim>\<open>Once\<close> over Redis runs its function at most once. The cache and the locker are on one server, which any number of
  processes share: whatever the interleaving of their calls on one key, and the order of their readings of the clock, as long as all of it
  happens within the time to live the function succeeds at most once and never runs in two places at a time. The time to live is
  a whole number of milliseconds, and whatever the cache's prefix the marker and the lock have different keys.
\<close>

lemma redis_once_at_most_once:
  assumes "redis_strings rget rset rsetnx rexists rdel live"
    and "once_reach (redis_cache_has rexists) (redis_cache_put rset) (\<lambda>t. redis_Acquire (rsetnx t))
           (redis_release (\<lambda>k s. snd (rdel k s))) pre key ttl lo hi st"
    and "hi < lo + ttl" and "0 < ttl" and "redis_tick dvd ttl"
  shows "o_runs st \<le> 1 \<and> (\<forall>i j. o_pc st i = PRun \<and> o_pc st j = PRun \<longrightarrow> i = j)"
proof -
  have "length (redis_lock_key (manager_key pre (''once:'' @ key))) \<noteq> length (manager_key pre key)"
    by (simp add: redis_lock_key_def manager_key_def)
  then have "redis_lock_key (manager_key pre (''once:'' @ key)) \<noteq> manager_key pre key" by metis
  from once_backend.once_exclusive [OF redis_strings.once_on_server [OF assms(1) this] assms(2-5)] show ?thesis by simp
qed

lemma redis_once_at_most_once_example:
  "o_runs (once_thread_step (redis_cache_has table_exists) (redis_cache_put table_set) (\<lambda>t. redis_Acquire (table_setnx t))
      (redis_release (\<lambda>k s. snd (table_del k s))) ''gai:'' ''k'' 9000000 2000000 True 0
     \<lparr>o_backend = Map.empty, o_pc = (\<lambda>_. PHas), o_runs = 0\<rparr>) \<le> 1"
proof -
  let ?st = "\<lparr>o_backend = Map.empty, o_pc = (\<lambda>_. PHas), o_runs = 0\<rparr> :: redis_table once_state"
  have "once_reach (redis_cache_has table_exists) (redis_cache_put table_set) (\<lambda>t. redis_Acquire (table_setnx t))
      (redis_release (\<lambda>k s. snd (table_del k s))) ''gai:'' ''k'' 9000000 0 5000000
      (once_thread_step (redis_cache_has table_exists) (redis_cache_put table_set) (\<lambda>t. redis_Acquire (table_setnx t))
        (redis_release (\<lambda>k s. snd (table_del k s))) ''gai:'' ''k'' 9000000 2000000 True 0 ?st)"
    by (rule once_next [OF once_start]) simp_all
  from redis_once_at_most_once [OF table.redis_strings_axioms this] show ?thesis by (simp add: redis_tick_def)
qed

text \<open>
  The prefix the application gives its cache when none is configured is \<^verbatim>\<open>gai:\<close>, which the other backends' keys begin with: a
  cache entry \<^verbatim>\<open>session:S\<close> is the session \<open>S\<close>. Deleting it ends the session, and writing it makes one up.
\<close>

lemma default_prefix_reaches_sessions:
  assumes "redis_strings rget rset rsetnx rexists rdel live"
  shows "RedisStore_Get (rget u) unmarshal sid (redis_use rget rset rsetnx rexists rdel marshal ''gai:'' t (UseCache (CDelete (''session:'' @ sid))) s)
      = (None, Some [])"
    and "RedisStore_Get (rget u) unmarshal sid (redis_use rget rset rsetnx rexists rdel marshal ''gai:'' t (UseCache (CSet (''session:'' @ sid) b 0)) s)
      = (case Session_Decode unmarshal b of (e, m) \<Rightarrow> (e, Some m))"
  using redis_strings.get_live [OF assms] redis_strings.rdel_live [OF assms] redis_strings.rset_forever [OF assms]
  by (simp_all add: RedisStore_Get_def Manager_Delete_def Manager_Set_def manager_key_def Redis_Delete_def Redis_Set_def split_beta)

text \<open>
  A revocation is silently lost when Redis does not take it, and a revoked token is accepted while Redis does not
  answer.
\<close>

lemma revocation_needs_redis:
  "setex (''gai:jwt:revoked:'' @ j) ''1'' (until - now) s = s \<Longrightarrow> Redis_Revoke setex now j until s = s"
  "exists_cmd (''gai:jwt:revoked:'' @ j) s = Inl e \<Longrightarrow> \<not> Redis_Revoked exists_cmd j s"
  by (simp_all add: Redis_Revoke_def Redis_Revoked_def Let_def)

text \<open>
  Sessions pass through JSON. If a user's identifier, stored as an integer, is read back as a number that
  prints in another way, as the floating-point numbers from a million on do, none of the user's roles is found.
\<close>

lemma roles_lost_in_session:
  assumes "sprint (GFloat q) = ''1e+06''"
  shows "\<not> Manager_HasRole HasRole sprint (GFloat q) r (Manager_AssignRole AssignRole sprint (GUint64 1000000) r NewMemoryStore)"
proof -
  have "itoa 1000000 \<noteq> ''1e+06''"
    using nat_str_digits [of "CHR ''e''" "nat 1000000"] by (auto simp: itoa_def is_digit_def)
  then show ?thesis using assms
    by (simp add: Manager_HasRole_def Manager_AssignRole_def HasRole_def AssignRole_def NewMemoryStore_def uid_def at_key_def)
qed

end
