(* ===== verification/RedisQueue.thy ===== *)
theory RedisQueue
  imports Queue "HOL-Library.Multiset" "HOL-Library.AList"
begin

text \<open>
  The Redis backend of the queue (\<^verbatim>\<open>queue/redis.go\<close>, modelled in \<open>Queue\<close>) over the documented effect of the commands it sends:
  a ready list, a sorted set of delayed jobs and a list of failed ones. The locale \<open>redis_lists\<close> states the commands' laws for a
  server that answers; its lemmas say that one worker at a time loses no job, runs none twice and none before its second. A
  reference server keeps the laws.
\<close>

section \<open>The commands on lists and sorted sets\<close>

text \<open>What the queue under a key holds: the ready and the delayed entries.\<close>

definition held_raw ::
  "('s \<Rightarrow> string \<Rightarrow> string list) \<Rightarrow> ('s \<Rightarrow> string \<Rightarrow> string \<rightharpoonup> int) \<Rightarrow> string \<Rightarrow> 's \<Rightarrow> string multiset" where
  "held_raw lst zset key s = mset (lst s key) + mset_set (dom (zset s (delayedKey key)))"

text \<open>A worker's history: jobs pushed and pops, each at its time; the result has the popped jobs with their times.\<close>

datatype queue_call = QPush time Job | QPop time

fun redis_queue_run where
  "redis_queue_run ops enc dec key [] s = ([], s)"
| "redis_queue_run ops enc dec key (QPush t j # cs) s = redis_queue_run ops enc dec key cs (snd (Redis_Push ops enc key t j s))"
| "redis_queue_run ops enc dec key (QPop t # cs) s =
     (case Redis_Pop ops dec key t s of
        (Inl e, s') \<Rightarrow> redis_queue_run ops enc dec key cs s'
      | (Inr j, s') \<Rightarrow> apfst (Cons (t, j)) (redis_queue_run ops enc dec key cs s'))"

fun pushed :: "queue_call list \<Rightarrow> (time \<times> Job) list" where
  "pushed [] = []"
| "pushed (QPush t j # cs) = (t, j) # pushed cs"
| "pushed (QPop t # cs) = pushed cs"

fun queue_clock :: "time \<Rightarrow> queue_call list \<Rightarrow> time \<Rightarrow> bool" where
  "queue_clock t [] u = (t \<le> u)"
| "queue_clock t (QPush t' j # cs) u = (t \<le> t' \<and> queue_clock t' cs u)"
| "queue_clock t (QPop t' # cs) u = (t \<le> t' \<and> queue_clock t' cs u)"

definition due_second :: "time \<Rightarrow> Job \<Rightarrow> int" where
  "due_second t j = (t + Delay j) div 1000000000"

text \<open>
  The JSON codec reads back what it wrote, but for the delay, which the tag of the field leaves out.
\<close>

definition stored :: "Job \<Rightarrow> Job" where
  "stored j = j\<lparr>Delay := 0\<rparr>"

lemma ID_stored [simp]: "ID (stored j) = ID j"
  by (simp add: stored_def)

definition codec_ok ::
  "(Job \<times> int \<Rightarrow> string + string) \<Rightarrow> (string \<Rightarrow> string + (Job \<times> int)) \<Rightarrow> (time \<times> Job) set \<Rightarrow> bool" where
  "codec_ok enc dec P \<longleftrightarrow>
     (\<forall>(t, j)\<in>P. \<exists>raw. enc (j, due_second t j) = Inr raw \<and> dec raw = Inr (stored j, due_second t j))"

definition job_of :: "(string \<Rightarrow> string + (Job \<times> int)) \<Rightarrow> string \<Rightarrow> Job" where
  "job_of dec raw = (case dec raw of Inr (j, _) \<Rightarrow> j)"

text \<open>\<open>lst\<close> and \<open>zset\<close> are what the server holds; a sorted set is a finite map from members to scores.\<close>

locale redis_lists =
  fixes ops :: "'s redis_ops"
    and lst :: "'s \<Rightarrow> string \<Rightarrow> string list"
    and zset :: "'s \<Rightarrow> string \<Rightarrow> string \<rightharpoonup> int"
  assumes rpush_ok: "fst (rpush ops k x s) = None"
    and rpush_lst: "lst (snd (rpush ops k x s)) = (lst s)(k := lst s k @ [x])"
    and rpush_zset: "zset (snd (rpush ops k x s)) = zset s"
    and zadd_ok: "fst (zadd ops k n x s) = None"
    and zadd_lst: "lst (snd (zadd ops k n x s)) = lst s"
    and zadd_zset: "zset (snd (zadd ops k n x s)) = (zset s)(k := (zset s k)(x \<mapsto> n))"
    and zrange_due: "\<exists>xs. zrange ops k mx s = Inr xs \<and> distinct xs \<and> set xs = {x. \<exists>n\<le>mx. zset s k x = Some n}
          \<and> sorted (map (\<lambda>x. the (zset s k x)) xs)"
    and move_ok: "fst (move ops z k x s) = None"
    and move_lst: "lst (snd (move ops z k x s)) = (lst s)(k := lst s k @ [x])"
    and move_zset: "zset (snd (move ops z k x s)) = (zset s)(z := (zset s z)(x := None))"
    and blpop_some: "lst s k = x # xs \<Longrightarrow> \<exists>s'. blpop ops k s = (Inr [k, x], s') \<and> lst s' = (lst s)(k := xs) \<and> zset s' = zset s"
    and blpop_none: "lst s k = [] \<Longrightarrow> blpop ops k s = (Inl ''redis: nil'', s)"
    and finite_zset: "finite (dom (zset s k))"
begin

abbreviation held where "held \<equiv> held_raw lst zset"

lemma promote_items_effect:
  "fst (promote_items ops key xs s) = None
   \<and> lst (snd (promote_items ops key xs s)) = (lst s)(key := lst s key @ xs)
   \<and> zset (snd (promote_items ops key xs s)) = (zset s)(delayedKey key := zset s (delayedKey key) |` (- set xs))"
proof (induction xs arbitrary: s)
  case (Cons x xs)
  obtain s1 where s1: "move ops (delayedKey key) key x s = (None, s1)"
    using move_ok [of "delayedKey key" key x s] by (metis prod.collapse)
  have "lst s1 = (lst s)(key := lst s key @ [x])" "zset s1 = (zset s)(delayedKey key := (zset s (delayedKey key))(x := None))"
    using move_lst [of "delayedKey key" key x s] move_zset [of "delayedKey key" key x s] s1 by simp_all
  with Cons [of s1] show ?case by (auto simp: s1 fun_eq_iff restrict_map_def)
qed (simp add: fun_eq_iff restrict_map_def)

text \<open>Promotion appends exactly the due entries to the ready list, earliest first, and removes them from the sorted set.\<close>

lemma promote_effect:
  obtains xs s' where "promoteDelayed ops key now s = (None, s')" and "distinct xs"
    and "set xs = {x. \<exists>n\<le>now div 1000000000. zset s (delayedKey key) x = Some n}"
    and "sorted (map (\<lambda>x. the (zset s (delayedKey key) x)) xs)"
    and "lst s' = (lst s)(key := lst s key @ xs)"
    and "zset s' = (zset s)(delayedKey key := zset s (delayedKey key) |` (- set xs))"
proof -
  obtain xs where "zrange ops (delayedKey key) (now div 1000000000) s = Inr xs" "distinct xs"
    "set xs = {x. \<exists>n\<le>now div 1000000000. zset s (delayedKey key) x = Some n}"
    "sorted (map (\<lambda>x. the (zset s (delayedKey key) x)) xs)"
    using zrange_due by blast
  then show ?thesis
    using that [of "snd (promote_items ops key xs s)" xs] promote_items_effect [of key xs s]
    by (simp add: promoteDelayed_def prod_eq_iff)
qed

lemma held_promoted:
  assumes "promoteDelayed ops key now s = (r, s')"
  shows "held key s' = held key s"
proof -
  obtain xs s2 where p: "promoteDelayed ops key now s = (None, s2)" and "distinct xs"
    and due: "set xs = {x. \<exists>n\<le>now div 1000000000. zset s (delayedKey key) x = Some n}"
    and "lst s2 = (lst s)(key := lst s key @ xs)"
    and "zset s2 = (zset s)(delayedKey key := zset s (delayedKey key) |` (- set xs))"
    by (rule promote_effect [of key now s])
  moreover have "s2 = s'" using p assms by simp
  ultimately have xs: "distinct xs" "lst s' = (lst s)(key := lst s key @ xs)"
    "zset s' = (zset s)(delayedKey key := zset s (delayedKey key) |` (- set xs))" by simp_all
  let ?z = "zset s (delayedKey key)"
  have sub: "set xs \<subseteq> dom ?z" using due by auto
  have "dom ?z = set xs \<union> (dom ?z - set xs)" using sub by blast
  then have "mset_set (dom ?z) = mset_set (set xs) + mset_set (dom ?z - set xs)"
    using mset_set_Union [of "set xs" "dom ?z - set xs"] finite_zset by auto
  moreover have "mset_set (set xs) = mset xs" using xs(1) by (rule mset_set_set)
  moreover have "dom (?z |` (- set xs)) = dom ?z - set xs" by (auto simp: restrict_map_def split: if_splits)
  ultimately show ?thesis by (simp add: held_raw_def xs(2,3))
qed

lemma push_held:
  assumes "enc (job, (now + Delay job) div 1000000000) = Inr raw" and "raw \<notin> dom (zset s (delayedKey key))"
  shows "fst (Redis_Push ops enc key now job s) = None"
    and "held key (snd (Redis_Push ops enc key now job s)) = add_mset raw (held key s)"
proof -
  have "delayedKey key \<noteq> key" by (simp add: delayedKey_def)
  then show "fst (Redis_Push ops enc key now job s) = None"
    and "held key (snd (Redis_Push ops enc key now job s)) = add_mset raw (held key s)"
    using assms finite_zset
    by (simp_all add: Redis_Push_def held_raw_def rpush_ok rpush_lst rpush_zset zadd_ok zadd_lst zadd_zset domIff)
qed

text \<open>A pop takes one entry, or none when nothing is ready.\<close>

lemma pop_held:
  "(\<exists>raw. held key s = add_mset raw (held key (snd (Redis_Pop ops dec key now s))) \<and>
      fst (Redis_Pop ops dec key now s) = (case dec raw of Inl e \<Rightarrow> Inl e | Inr (job, due) \<Rightarrow> Inr job)) \<or>
   (held key (snd (Redis_Pop ops dec key now s)) = held key s \<and> fst (Redis_Pop ops dec key now s) = Inl ''redis: nil'')"
proof -
  obtain s1 where s1: "promoteDelayed ops key now s = (None, s1)" by (rule promote_effect [of key now s])
  then have h: "held key s1 = held key s" by (rule held_promoted)
  show ?thesis
  proof (cases "lst s1 key")
    case Nil
    then show ?thesis using h by (simp add: Redis_Pop_def s1 blpop_none)
  next
    case (Cons raw rest)
    then obtain s2 where s2: "blpop ops key s1 = (Inr [key, raw], s2)" "lst s2 = (lst s1)(key := rest)" "zset s2 = zset s1"
      using blpop_some by blast
    then have "held key s1 = add_mset raw (held key s2)" using Cons by (simp add: held_raw_def)
    then show ?thesis using h s1 s2(1) by (auto simp: Redis_Pop_def split: sum.split)
  qed
qed

text \<open>
  The invariant: every entry is the encoding of a job of \<open>P\<close>; what is ready was due, and what is delayed has its due
  second as its score.
\<close>

definition entries_ok where
  "entries_ok dec key now P s \<longleftrightarrow>
     (\<forall>raw\<in>set (lst s key). \<exists>(t, j)\<in>P. dec raw = Inr (stored j, due_second t j) \<and> due_second t j \<le> now div 1000000000) \<and>
     (\<forall>raw n. zset s (delayedKey key) raw = Some n \<longrightarrow> (\<exists>(t, j)\<in>P. dec raw = Inr (stored j, n) \<and> n = due_second t j))"

lemma key_neq [simp]: "delayedKey key \<noteq> key" "key \<noteq> delayedKey key"
  by (simp_all add: delayedKey_def)

lemma entries_ok_mono:
  assumes "entries_ok dec key now P s" and "now \<le> u"
  shows "entries_ok dec key u P s"
proof -
  have "now div 1000000000 \<le> u div 1000000000" using assms(2) by (rule zdiv_mono1) simp
  with assms(1) show ?thesis unfolding entries_ok_def by fastforce
qed

lemma held_entry:
  assumes "entries_ok dec key now P s" and "raw \<in># held key s"
  obtains t j where "(t, j) \<in> P" and "dec raw = Inr (stored j, due_second t j)"
  using assms finite_zset by (fastforce simp: entries_ok_def held_raw_def)

lemma push_step:
  assumes "codec_ok enc dec {(t, j)}" and "entries_ok dec key now P s" and "now \<le> t" and "\<forall>(t', j')\<in>P. ID j' \<noteq> ID j"
  defines "s' \<equiv> snd (Redis_Push ops enc key t j s)"
  shows "entries_ok dec key t (insert (t, j) P) s'"
    and "image_mset (job_of dec) (held key s') = add_mset (stored j) (image_mset (job_of dec) (held key s))"
proof -
  obtain raw where raw: "enc (j, due_second t j) = Inr raw" "dec raw = Inr (stored j, due_second t j)"
    using assms(1) by (auto simp: codec_ok_def)
  have "raw \<notin># held key s"
  proof
    assume "raw \<in># held key s"
    then obtain t' j' where j': "(t', j') \<in> P" "dec raw = Inr (stored j', due_second t' j')" by (rule held_entry [OF assms(2)])
    then have "stored j = stored j'" using raw(2) by simp
    then have "ID j = ID j'" by (metis ID_stored)
    with j'(1) assms(4) show False by auto
  qed
  then have fresh: "raw \<notin> dom (zset s (delayedKey key))" using finite_zset by (simp add: held_raw_def)
  have h: "held key s' = add_mset raw (held key s)"
    using push_held(2) [of enc j t raw s key, OF raw(1) [unfolded due_second_def] fresh] by (simp add: s'_def)
  then show "image_mset (job_of dec) (held key s') = add_mset (stored j) (image_mset (job_of dec) (held key s))"
    by (simp add: job_of_def raw(2))
  have ok: "entries_ok dec key t P s" using entries_ok_mono assms(2,3) .
  show "entries_ok dec key t (insert (t, j) P) s'"
  proof (cases "Delay j > 0")
    case True
    then have "lst s' = lst s" "zset s' = (zset s)(delayedKey key := (zset s (delayedKey key))(raw \<mapsto> due_second t j))"
      using raw(1) by (simp_all add: s'_def Redis_Push_def due_second_def zadd_lst zadd_zset)
    with ok raw(2) show ?thesis by (fastforce simp: entries_ok_def)
  next
    case False
    then have "lst s' = (lst s)(key := lst s key @ [raw])" "zset s' = zset s"
      using raw(1) by (simp_all add: s'_def Redis_Push_def due_second_def rpush_lst rpush_zset)
    moreover have "due_second t j \<le> t div 1000000000"
      unfolding due_second_def using False by (intro zdiv_mono1) simp_all
    ultimately show ?thesis using ok raw(2) by (fastforce simp: entries_ok_def)
  qed
qed

lemma promote_step:
  assumes "entries_ok dec key now P s" and "now \<le> u" and "promoteDelayed ops key u s = (None, s')"
  shows "entries_ok dec key u P s'" and "zset s' (delayedKey key) raw = Some n \<Longrightarrow> u div 1000000000 < n"
proof -
  obtain xs s2 where p: "promoteDelayed ops key u s = (None, s2)" and "distinct xs"
    and due: "set xs = {x. \<exists>n\<le>u div 1000000000. zset s (delayedKey key) x = Some n}"
    and l: "lst s2 = (lst s)(key := lst s key @ xs)"
    and z: "zset s2 = (zset s)(delayedKey key := zset s (delayedKey key) |` (- set xs))"
    by (rule promote_effect [of key u s])
  have s2: "s2 = s'" using p assms(3) by simp
  show "u div 1000000000 < n" if "zset s' (delayedKey key) raw = Some n"
  proof -
    have "raw \<notin> set xs" and "zset s (delayedKey key) raw = Some n"
      using that by (simp_all add: s2 [symmetric] z restrict_map_def split: if_splits)
    then show ?thesis using due by auto
  qed
  show "entries_ok dec key u P s'"
    using entries_ok_mono [OF assms(1,2)] l z due unfolding s2 entries_ok_def
    by (fastforce simp: restrict_map_def split: if_splits)
qed

lemma pop_step:
  assumes ok: "entries_ok dec key now P s" and "now \<le> u" and pop: "Redis_Pop ops dec key u s = (r, s')"
  shows "entries_ok dec key u P s'"
    and "case r of
        Inr j \<Rightarrow> image_mset (job_of dec) (held key s) = add_mset j (image_mset (job_of dec) (held key s')) \<and>
          (\<exists>(t, j')\<in>P. j = stored j' \<and> due_second t j' \<le> u div 1000000000)
      | Inl e \<Rightarrow> held key s' = held key s \<and> lst s' key = [] \<and>
          (\<forall>raw n. zset s' (delayedKey key) raw = Some n \<longrightarrow> u div 1000000000 < n)"
proof -
  obtain s1 where s1: "promoteDelayed ops key u s = (None, s1)" by (rule promote_effect [of key u s])
  have ok1: "entries_ok dec key u P s1" using promote_step(1) [OF ok assms(2) s1] .
  have h1: "held key s1 = held key s" using s1 by (rule held_promoted)
  have "entries_ok dec key u P s' \<and> (case r of
        Inr j \<Rightarrow> image_mset (job_of dec) (held key s) = add_mset j (image_mset (job_of dec) (held key s')) \<and>
          (\<exists>(t, j')\<in>P. j = stored j' \<and> due_second t j' \<le> u div 1000000000)
      | Inl e \<Rightarrow> held key s' = held key s \<and> lst s' key = [] \<and>
          (\<forall>raw n. zset s' (delayedKey key) raw = Some n \<longrightarrow> u div 1000000000 < n))"
  proof (cases "lst s1 key")
    case Nil
    then have "r = Inl ''redis: nil''" "s' = s1" using pop by (simp_all add: Redis_Pop_def s1 blpop_none)
    with ok1 h1 Nil promote_step(2) [OF ok assms(2) s1] show ?thesis by simp
  next
    case (Cons raw rest)
    then obtain s2 where s2: "blpop ops key s1 = (Inr [key, raw], s2)" "lst s2 = (lst s1)(key := rest)" "zset s2 = zset s1"
      using blpop_some by blast
    obtain t j where tj: "(t, j) \<in> P" "dec raw = Inr (stored j, due_second t j)" "due_second t j \<le> u div 1000000000"
      using ok1 Cons by (auto simp: entries_ok_def)
    have r: "r = Inr (stored j)" "s' = s2" using pop s1 s2(1) tj(2) by (simp_all add: Redis_Pop_def)
    have "held key s1 = add_mset raw (held key s2)" using Cons s2(2,3) by (simp add: held_raw_def)
    moreover have "entries_ok dec key u P s2" using ok1 Cons s2(2,3) by (simp add: entries_ok_def)
    ultimately show ?thesis using tj h1 by (force simp: r job_of_def)
  qed
  then show "entries_ok dec key u P s'" and "case r of
        Inr j \<Rightarrow> image_mset (job_of dec) (held key s) = add_mset j (image_mset (job_of dec) (held key s')) \<and>
          (\<exists>(t, j')\<in>P. j = stored j' \<and> due_second t j' \<le> u div 1000000000)
      | Inl e \<Rightarrow> held key s' = held key s \<and> lst s' key = [] \<and>
          (\<forall>raw n. zset s' (delayedKey key) raw = Some n \<longrightarrow> u div 1000000000 < n)" by simp_all
qed

text \<open>The whole history: nothing lost, nothing twice, nothing early, and nothing due left waiting by a pop that finds nothing.\<close>

lemma run_held:
  assumes "codec_ok enc dec (set (pushed cs))" and "redis_queue_run ops enc dec key cs s = (popped, s')"
    and "entries_ok dec key now P s" and "queue_clock now cs u" and "distinct (map (ID \<circ> snd) (pushed cs))"
    and "\<forall>(t, j)\<in>P. ID j \<notin> set (map (ID \<circ> snd) (pushed cs))"
  shows "entries_ok dec key u (P \<union> set (pushed cs)) s'
    \<and> mset (map snd popped) + image_mset (job_of dec) (held key s') =
        image_mset (job_of dec) (held key s) + mset (map (stored \<circ> snd) (pushed cs))
    \<and> (\<forall>(v, j)\<in>set popped. \<exists>(t, j')\<in>P \<union> set (pushed cs). j = stored j' \<and> due_second t j' \<le> v div 1000000000)"
  using assms
proof (induction cs arbitrary: s popped now P)
  case Nil
  then show ?case using entries_ok_mono by auto
next
  case (Cons c cs)
  show ?case
  proof (cases c)
    case (QPush t j)
    let ?s = "snd (Redis_Push ops enc key t j s)"
    have fresh: "\<forall>(t', j')\<in>P. ID j' \<noteq> ID j" using Cons.prems(6) QPush by auto
    have le: "now \<le> t" using Cons.prems(4) QPush by simp
    have enc: "codec_ok enc dec {(t, j)}" "codec_ok enc dec (set (pushed cs))" using Cons.prems(1) QPush by (simp_all add: codec_ok_def)
    note st = push_step [OF enc(1) Cons.prems(3) le fresh]
    have run: "redis_queue_run ops enc dec key cs ?s = (popped, s')" "queue_clock t cs u" "distinct (map (ID \<circ> snd) (pushed cs))"
      using Cons.prems QPush by (simp_all add: comp_def)
    have "\<forall>(t', j')\<in>insert (t, j) P. ID j' \<notin> set (map (ID \<circ> snd) (pushed cs))" using Cons.prems(5,6) QPush by auto
    from Cons.IH [OF enc(2) run(1) st(1) run(2,3) this] st(2) QPush show ?thesis by simp
  next
    case (QPop t)
    obtain r s1 where pop: "Redis_Pop ops dec key t s = (r, s1)" by fastforce
    have le: "now \<le> t" using Cons.prems(4) QPop by simp
    note st = pop_step [OF Cons.prems(3) le pop]
    have enc: "codec_ok enc dec (set (pushed cs))" using Cons.prems(1) QPop by simp
    have rest: "queue_clock t cs u" "distinct (map (ID \<circ> snd) (pushed cs))"
      "\<forall>(t, j)\<in>P. ID j \<notin> set (map (ID \<circ> snd) (pushed cs))" "pushed (c # cs) = pushed cs"
      using Cons.prems QPop by (simp_all add: comp_def)
    show ?thesis
    proof (cases r)
      case (Inl e)
      then have "redis_queue_run ops enc dec key cs s1 = (popped, s')" using Cons.prems(2) QPop pop by simp
      with Cons.IH [OF enc this st(1) rest(1-3)] st(2) Inl show ?thesis unfolding rest(4) by simp
    next
      case (Inr j)
      obtain popped' where p: "redis_queue_run ops enc dec key cs s1 = (popped', s')" "popped = (t, j) # popped'"
        using Cons.prems(2) QPop pop Inr by (auto simp: apfst_def map_prod_def split: prod.splits)
      with Cons.IH [OF enc p(1) st(1) rest(1-3)] st(2) Inr show ?thesis unfolding rest(4) by auto
    qed
  qed
qed

text \<open>Nothing found means nothing due.\<close>

lemma run_prompt:
  assumes "entries_ok dec key now P s" and "now \<le> u" and "fst (Redis_Pop ops dec key u s) = Inl e" and "raw \<in># held key s"
  shows "\<exists>j due. dec raw = Inr (j, due) \<and> u div 1000000000 < due"
proof -
  obtain s' where pop: "Redis_Pop ops dec key u s = (Inl e, s')" using assms(3) by (metis prod.collapse)
  note st = pop_step [OF assms(1,2) pop]
  have "held key s' = held key s" and "lst s' key = []"
    and late: "\<And>raw n. zset s' (delayedKey key) raw = Some n \<Longrightarrow> u div 1000000000 < n" using st(2) by simp_all
  then have "raw \<in># held key s'" "lst s' key = []" using assms(4) by simp_all
  then have "raw \<in> dom (zset s' (delayedKey key))" using finite_zset by (simp add: held_raw_def)
  then obtain n where "zset s' (delayedKey key) raw = Some n" by blast
  moreover have "\<exists>j. dec raw = Inr (j, n)" using st(1) calculation by (fastforce simp: entries_ok_def)
  ultimately show ?thesis using late by blast
qed

lemma queue_delivers:
  assumes "codec_ok enc dec (set (pushed cs))" and "lst s key = []" and "zset s (delayedKey key) = Map.empty"
    and "queue_clock t0 cs u" and "distinct (map (ID \<circ> snd) (pushed cs))"
    and "redis_queue_run ops enc dec key cs s = (popped, s')"
  shows "mset (map snd popped) + image_mset (job_of dec) (held key s') = mset (map (stored \<circ> snd) (pushed cs)) \<and>
     (\<forall>(v, j)\<in>set popped. \<exists>(t, j')\<in>set (pushed cs). j = stored j' \<and> due_second t j' \<le> v div 1000000000) \<and>
     (\<forall>e raw. fst (Redis_Pop ops dec key u s') = Inl e \<longrightarrow> raw \<in># held key s' \<longrightarrow>
        (\<exists>j due. dec raw = Inr (j, due) \<and> u div 1000000000 < due))"
proof -
  have "entries_ok dec key t0 {} s" using assms(2,3) by (simp add: entries_ok_def)
  with run_held [OF assms(1,6) _ assms(4,5), of "{}"]
  have run: "entries_ok dec key u (set (pushed cs)) s'"
    "mset (map snd popped) + image_mset (job_of dec) (held key s') =
      image_mset (job_of dec) (held key s) + mset (map (stored \<circ> snd) (pushed cs))"
    "\<forall>(v, j)\<in>set popped. \<exists>(t, j')\<in>set (pushed cs). j = stored j' \<and> due_second t j' \<le> v div 1000000000" by simp_all
  moreover have "held key s = {#}" using assms(2,3) by (simp add: held_raw_def)
  ultimately show ?thesis using run_prompt [OF run(1)] by simp
qed

end

section \<open>A reference server\<close>

text \<open>Lists, and sorted sets as maps with the list of their members.\<close>

record table_server =
  ts_lists :: "string \<Rightarrow> string list"
  ts_zsets :: "string \<Rightarrow> (string \<times> int) list"

definition table_lst :: "table_server \<Rightarrow> string \<Rightarrow> string list" where
  "table_lst s = ts_lists s"

definition table_zset :: "table_server \<Rightarrow> string \<Rightarrow> string \<rightharpoonup> int" where
  "table_zset s k = map_of (ts_zsets s k)"

definition table_queue_ops :: "table_server redis_ops" where
  "table_queue_ops =
     \<lparr>zadd = (\<lambda>k n x s. (None, s\<lparr>ts_zsets := (ts_zsets s)(k := AList.update x n (ts_zsets s k))\<rparr>)),
      rpush = (\<lambda>k x s. (None, s\<lparr>ts_lists := (ts_lists s)(k := ts_lists s k @ [x])\<rparr>)),
      blpop = (\<lambda>k s. case ts_lists s k of
                 [] \<Rightarrow> (Inl ''redis: nil'', s)
               | x # xs \<Rightarrow> (Inr [k, x], s\<lparr>ts_lists := (ts_lists s)(k := xs)\<rparr>)),
      zrange = (\<lambda>k mx s. Inr (sort_key (\<lambda>x. the (map_of (ts_zsets s k) x))
                  (filter (\<lambda>x. the (map_of (ts_zsets s k) x) \<le> mx) (remdups (map fst (ts_zsets s k)))))),
      move = (\<lambda>z k x s. (None, s\<lparr>ts_zsets := (ts_zsets s)(z := AList.delete x (ts_zsets s z)),
                                   ts_lists := (ts_lists s)(k := ts_lists s k @ [x])\<rparr>)),
      lrange = (\<lambda>k lo hi s. Inr (take (nat (hi - lo + 1)) (drop (nat lo) (ts_lists s k))))\<rparr>"

interpretation table_queue: redis_lists table_queue_ops table_lst table_zset
proof unfold_locales
  fix k :: string and mx :: int and s :: table_server
  let ?z = "map_of (ts_zsets s k)"
  have "dom ?z = fst ` set (ts_zsets s k)" by (rule dom_map_of_conv_image_fst)
  then have "set (remdups (map fst (ts_zsets s k))) = dom ?z" by simp
  then show "\<exists>xs. zrange table_queue_ops k mx s = Inr xs \<and> distinct xs \<and> set xs = {x. \<exists>n\<le>mx. table_zset s k x = Some n}
      \<and> sorted (map (\<lambda>x. the (table_zset s k x)) xs)"
    by (auto simp: table_queue_ops_def table_zset_def)
qed (auto simp: table_queue_ops_def table_lst_def table_zset_def fun_eq_iff update_conv' delete_conv' finite_dom_map_of split: list.splits)

section \<open>Properties\<close>

text \<open>
  Property C15: the Redis queue loses no job, hands none out twice and none early. Over any history of dispatches and pops by one worker,
  on a server that answers and held no job, the jobs popped and those the server still holds are together exactly
  the jobs pushed (without their delay, which is not part of the JSON); each was popped when its due second had come; and a
  pop after the history that finds nothing leaves only jobs whose second is still to come. The identifiers of the
  jobs are distinct, times do not go back, and the codec reads back what it wrote.
\<close>

theorem redis_queue_delivers:
  assumes "redis_lists ops lst zset" and "codec_ok enc dec (set (pushed cs))" and "lst s key = []" and "zset s (delayedKey key) = Map.empty"
    and "queue_clock t0 cs u" and "distinct (map (ID \<circ> snd) (pushed cs))"
    and "redis_queue_run ops enc dec key cs s = (popped, s')"
  shows "mset (map snd popped) + image_mset (job_of dec) (held_raw lst zset key s') = mset (map (stored \<circ> snd) (pushed cs)) \<and>
     (\<forall>(v, j)\<in>set popped. \<exists>(t, j')\<in>set (pushed cs). j = stored j' \<and> due_second t j' \<le> v div 1000000000) \<and>
     (\<forall>e raw. fst (Redis_Pop ops dec key u s') = Inl e \<longrightarrow> raw \<in># held_raw lst zset key s' \<longrightarrow>
        (\<exists>j due. dec raw = Inr (j, due) \<and> u div 1000000000 < due))"
  using redis_lists.queue_delivers [OF assms] .

text \<open>A codec for the jobs of the example: a job is written as its identifier.\<close>

definition sample_enc :: "Job \<times> int \<Rightarrow> string + string" where
  "sample_enc x = Inr (ID (fst x))"

definition sample_dec :: "string \<Rightarrow> string + (Job \<times> int)" where
  "sample_dec raw =
     (if raw = ''a'' then Inr (new_job New ''a'' ''mail'' [] 0, 5)
      else if raw = ''b'' then Inr (new_job New ''b'' ''mail'' [] 0, 1) else Inl ''unexpected end of JSON input'')"

theorem redis_queue_delivers_witness:
  "\<exists>popped s'. redis_queue_run table_queue_ops sample_enc sample_dec ''q''
       [QPush 0 (new_job New ''a'' ''mail'' [] 5000000000), QPush 1000000000 (new_job New ''b'' ''mail'' [] 0),
        QPop 2000000000, QPop 3000000000, QPop 6000000000] \<lparr>ts_lists = (\<lambda>_. []), ts_zsets = (\<lambda>_. [])\<rparr> = (popped, s') \<and>
     mset (map snd popped) + image_mset (job_of sample_dec) (held_raw table_lst table_zset ''q'' s') =
       {#new_job New ''a'' ''mail'' [] 0, new_job New ''b'' ''mail'' [] 0#}"
proof -
  let ?cs = "[QPush 0 (new_job New ''a'' ''mail'' [] 5000000000), QPush 1000000000 (new_job New ''b'' ''mail'' [] 0),
        QPop 2000000000, QPop 3000000000, QPop 6000000000]"
  let ?s = "\<lparr>ts_lists = (\<lambda>_. []), ts_zsets = (\<lambda>_. [])\<rparr>"
  obtain popped s' where run: "redis_queue_run table_queue_ops sample_enc sample_dec ''q'' ?cs ?s = (popped, s')" by fastforce
  have "codec_ok sample_enc sample_dec (set (pushed ?cs))"
    by (simp add: codec_ok_def sample_enc_def sample_dec_def due_second_def stored_def new_job_def)
  moreover have "table_lst ?s ''q'' = []" "table_zset ?s (delayedKey ''q'') = Map.empty" by (simp_all add: table_lst_def table_zset_def)
  moreover have "queue_clock 0 ?cs 6000000000" "distinct (map (ID \<circ> snd) (pushed ?cs))" by (simp_all add: new_job_def)
  ultimately have "mset (map snd popped) + image_mset (job_of sample_dec) (held_raw table_lst table_zset ''q'' s') =
      mset (map (stored \<circ> snd) (pushed ?cs))"
    using redis_queue_delivers [OF table_queue.redis_lists_axioms, where cs = ?cs, OF _ _ _ _ _ run] by blast
  then show ?thesis using run by (auto simp: stored_def new_job_def)
qed

end
