(* ===== verification/Fleet.thy ===== *)
theory Fleet
  imports Schedule RedisStore
begin

text \<open>
  A named task on several servers whose schedulers share a locker (\<^verbatim>\<open>schedule/schedule.go\<close>, \<^verbatim>\<open>services.go\<close>): one call of \<^verbatim>\<open>invoke\<close> is the
  step that begins it and the step that ends it, and the calls of all servers interleave, at times that do not go back. The lemmas hold for
  every locker; the theorem is about the one on Redis.
\<close>

section \<open>The servers\<close>

text \<open>\<open>fl_since\<close> is when the run that is going on at a server began; \<open>fl_calls\<close> are the calls of the function so far, latest first.\<close>

record 'l fleet =
  fl_lock :: 'l
  fl_tasks :: "nat \<Rightarrow> task"
  fl_since :: "nat \<Rightarrow> time option"
  fl_clock :: time
  fl_calls :: "(nat \<times> time) list"

text \<open>No run has gone on for a minute: the time to live of the lock.\<close>

definition brief_runs :: "time \<Rightarrow> 'l fleet \<Rightarrow> bool" where
  "brief_runs now s \<longleftrightarrow> (\<forall>i t0. fl_since s i = Some t0 \<longrightarrow> now < t0 + 60000000000)"

text \<open>
  A server's loop calls \<^verbatim>\<open>invoke\<close> again only after it returned. The last two steps are what anybody else does with other keys of the
  locker.
\<close>

inductive fleet_step for acquire rel name where
  fl_fire: "fl_since s i = None \<Longrightarrow> fl_clock s \<le> now \<Longrightarrow> invoke_begin acquire True now (fl_tasks s i) (fl_lock s) = (True, t', l') \<Longrightarrow>
     fleet_step acquire rel name s
       (s\<lparr>fl_lock := l', fl_tasks := (fl_tasks s)(i := t'), fl_since := (fl_since s)(i \<mapsto> now), fl_clock := now, fl_calls := (i, now) # fl_calls s\<rparr>)"
| fl_skip: "fl_since s i = None \<Longrightarrow> fl_clock s \<le> now \<Longrightarrow> invoke_begin acquire True now (fl_tasks s i) (fl_lock s) = (False, t', l') \<Longrightarrow>
     fleet_step acquire rel name s (s\<lparr>fl_lock := l', fl_tasks := (fl_tasks s)(i := t'), fl_clock := now\<rparr>)"
| fl_return: "fl_since s i = Some t0 \<Longrightarrow> fl_clock s \<le> now \<Longrightarrow> invoke_end rel True (fl_tasks s i) (fl_lock s) = (t', l') \<Longrightarrow>
     fleet_step acquire rel name s (s\<lparr>fl_lock := l', fl_tasks := (fl_tasks s)(i := t'), fl_since := (fl_since s)(i := None), fl_clock := now\<rparr>)"
| fl_acquire: "fl_clock s \<le> now \<Longrightarrow> k \<noteq> ''schedule:'' @ name \<Longrightarrow>
     fleet_step acquire rel name s (s\<lparr>fl_lock := snd (acquire now k ttl (fl_lock s)), fl_clock := now\<rparr>)"
| fl_release: "k \<noteq> ''schedule:'' @ name \<Longrightarrow> fleet_step acquire rel name s (s\<lparr>fl_lock := rel k (fl_lock s)\<rparr>)"

inductive fleet_reach for acquire rel name where
  fl_start: "(\<And>i. t_name (ts i) = name) \<Longrightarrow>
     fleet_reach acquire rel name \<lparr>fl_lock = l, fl_tasks = ts, fl_since = (\<lambda>_. None), fl_clock = t, fl_calls = []\<rparr>"
| fl_next: "fleet_reach acquire rel name s \<Longrightarrow> fleet_step acquire rel name s s' \<Longrightarrow> brief_runs (fl_clock s') s \<Longrightarrow>
     fleet_reach acquire rel name s'"

context locker
begin

definition fleet_inv :: "string \<Rightarrow> 'l fleet \<Rightarrow> bool" where
  "fleet_inv name s \<longleftrightarrow>
     (\<forall>i. t_name (fl_tasks s i) = name) \<and>
     (\<forall>i j. fl_since s i \<noteq> None \<longrightarrow> fl_since s j \<noteq> None \<longrightarrow> i = j) \<and>
     (\<forall>i t0. fl_since s i = Some t0 \<longrightarrow> (\<forall>u<t0 + 60000000000. is_locked u (fl_lock s) (''schedule:'' @ name)))"

lemma begin_effect:
  assumes "invoke_begin acquire True now t l = (called, t', l')" and "t_name t = name" and "name \<noteq> []"
  shows "t_name t' = name" and "called \<Longrightarrow> \<not> is_locked now l (''schedule:'' @ name) \<and> l' = snd (acquire now (''schedule:'' @ name) 60000000000 l)"
    and "\<not> called \<Longrightarrow> l' = l"
proof -
  let ?k = "''schedule:'' @ name"
  have "acquire now ?k 60000000000 l = (None, snd (acquire now ?k 60000000000 l))" if "\<not> is_locked now l ?k"
    using acquire_succeeds [OF that, of 60000000000] by (metis prod.collapse)
  then show "t_name t' = name" and "called \<Longrightarrow> \<not> is_locked now l ?k \<and> l' = snd (acquire now ?k 60000000000 l)" and "\<not> called \<Longrightarrow> l' = l"
    using assms acquire_fails [of now l ?k 60000000000]
    by (cases "is_locked now l ?k"; auto simp: invoke_begin_def Let_def split: if_splits prod.splits option.splits)+
qed

lemma fleet_step_inv:
  assumes inv: "fleet_inv name s" and step: "fleet_step acquire rel name s s'" and brief: "brief_runs (fl_clock s') s"
    and tick: "tick dvd 60000000000" and name: "name \<noteq> []"
  shows "fleet_inv name s'"
  using step
proof cases
  case (fl_fire i now t' l')
  note eff = begin_effect [OF fl_fire(4) _ name]
  have nm: "t_name (fl_tasks s j) = name" for j using inv by (simp add: fleet_inv_def)
  have idle: "fl_since s j = None" for j
  proof (rule ccontr)
    assume "fl_since s j \<noteq> None"
    then obtain t0 where j: "fl_since s j = Some t0" by blast
    then have "now < t0 + 60000000000" using brief fl_fire(1) by (auto simp: brief_runs_def)
    then have "is_locked now (fl_lock s) (''schedule:'' @ name)" using inv j by (simp add: fleet_inv_def)
    then show False using eff(2) nm by simp
  qed
  have "is_locked u l' (''schedule:'' @ name)" if "u < now + 60000000000" for u
    using eff(2) nm acquire_locks [OF _ _ tick that] by simp
  then show ?thesis using fl_fire(1) idle nm eff(1) by (auto simp: fleet_inv_def)
next
  case (fl_skip i now t' l')
  then show ?thesis using inv begin_effect [OF fl_skip(4) _ name] by (auto simp: fleet_inv_def)
next
  case (fl_return i t0 now t' l')
  have "t_name t' = name" using fl_return(4) inv by (auto simp: invoke_end_def fleet_inv_def split: if_splits)
  moreover have "fl_since s j = None" if "j \<noteq> i" for j using inv fl_return(2) that by (auto simp: fleet_inv_def)
  ultimately show ?thesis using fl_return(1) inv by (auto simp: fleet_inv_def)
next
  case (fl_acquire now k ttl)
  then show ?thesis using inv acquire_other [of "''schedule:'' @ name" k] by (simp add: fleet_inv_def)
next
  case (fl_release k)
  then show ?thesis using inv by (simp add: fleet_inv_def rel_unlocks)
qed

lemma fleet_exclusive:
  assumes "fleet_reach acquire rel name s" and "tick dvd 60000000000" and "name \<noteq> []"
  shows "fl_since s i \<noteq> None \<Longrightarrow> fl_since s j \<noteq> None \<Longrightarrow> i = j"
proof -
  have "fleet_inv name s"
    using assms(1)
  proof (induction rule: fleet_reach.induct)
    case (fl_start ts l t)
    then show ?case by (simp add: fleet_inv_def)
  next
    case (fl_next s s')
    then show ?case using fleet_step_inv assms(2,3) by blast
  qed
  then show "fl_since s i \<noteq> None \<Longrightarrow> fl_since s j \<noteq> None \<Longrightarrow> i = j" by (simp add: fleet_inv_def)
qed

text \<open>A server that finds the lock free calls the function, and its return leaves the lock free.\<close>

lemma fleet_fires:
  assumes "name \<noteq> []" and "noOverlap t \<Longrightarrow> \<not> running t" and "t_name t = name" and "\<not> is_locked now l (''schedule:'' @ name)"
  shows "fst (invoke_begin acquire True now t l)"
  using acquire_succeeds [OF assms(4), of 60000000000] assms(1-3) by (auto simp: invoke_begin_def Let_def split: prod.split)

lemma return_frees: "t_name t \<noteq> [] \<Longrightarrow> \<not> is_locked u (snd (invoke_end rel True t l)) (''schedule:'' @ t_name t)"
  by (simp add: invoke_end_def rel_unlocks)

text \<open>
  So a tick that fires on two servers may call the function twice, one call after the other: the lock is given up when the first call
  returns, however early in the tick, and a server whose clock is a little behind, or whose loop is, finds it free.
\<close>

lemma fleet_tick_twice:
  assumes "t_name t1 \<noteq> []" and "t_name t2 = t_name t1" and "noOverlap t2 \<Longrightarrow> \<not> running t2"
  shows "fst (invoke_begin acquire True later t2 (snd (invoke_end rel True t1 l)))"
proof (rule fleet_fires)
  show "\<not> is_locked later (snd (invoke_end rel True t1 l)) (''schedule:'' @ t_name t2)" using return_frees assms by simp
qed (use assms in auto)

end

section \<open>The locker on Redis\<close>

context redis_strings begin

lemmas fleet_one = lock.fleet_exclusive
lemmas fleet_calls = lock.fleet_fires
lemmas fleet_twice = lock.fleet_tick_twice

end


text \<open>
  Property C13: a named task runs on one server at a time. The servers' schedulers share the locker on Redis and each calls the task
  whenever its own loop fires; the locker is used with other keys meanwhile. As long as no call takes a minute, at
  most one server is inside the function, in every interleaving. The last conjunct says that the exclusion costs nothing: a server that
  fires while no server is inside and the lock was not left behind calls the function.
\<close>

theorem fleet_task_exclusive:
  assumes "redis_strings rget rset rsetnx rexists rdel live" and "name \<noteq> []"
    and "fleet_reach (\<lambda>t. redis_Acquire (rsetnx t)) (redis_release (\<lambda>k s. snd (rdel k s))) name s"
  shows "(\<forall>i j. fl_since s i \<noteq> None \<and> fl_since s j \<noteq> None \<longrightarrow> i = j) \<and>
    (\<forall>t. (noOverlap t \<longrightarrow> \<not> running t) \<and> t_name t = name \<and> live now (fl_lock s) (redis_lock_key (''schedule:'' @ name)) = None \<longrightarrow>
       fst (invoke_begin (\<lambda>t. redis_Acquire (rsetnx t)) True now t (fl_lock s)))"
  using redis_strings.fleet_one [OF assms(1,3) _ assms(2)] redis_strings.fleet_calls [OF assms(1,2)] by (auto simp: redis_tick_def)

definition server_task :: task where
  "server_task = \<lparr>t_name = ''report'', interval = 60000000000, dailyAt = [], cron = None, t_fn = 0, noOverlap = False, running = False\<rparr>"

definition idle_servers :: "redis_table fleet" where
  "idle_servers = \<lparr>fl_lock = Map.empty, fl_tasks = (\<lambda>_. server_task), fl_since = (\<lambda>_. None), fl_clock = 0, fl_calls = []\<rparr>"

theorem fleet_task_exclusive_witness:
  "\<exists>s. fl_since s 3 = Some 7000000 \<and> fl_since s 4 = None \<and>
     fleet_reach (\<lambda>t. redis_Acquire (table_setnx t)) (redis_release (\<lambda>k s. snd (table_del k s))) ''report'' s"
proof -
  let ?acq = "\<lambda>t. redis_Acquire (table_setnx t)" and ?rel = "redis_release (\<lambda>k s. snd (table_del k s))"
  obtain t' l' where run: "invoke_begin ?acq True 7000000 (fl_tasks idle_servers 3) (fl_lock idle_servers) = (True, t', l')"
    by (simp add: idle_servers_def server_task_def invoke_begin_def redis_Acquire_def table_setnx_def table_live_def table_set_def)
  let ?s = "idle_servers\<lparr>fl_lock := l', fl_tasks := (fl_tasks idle_servers)(3 := t'), fl_since := (fl_since idle_servers)(3 \<mapsto> 7000000),
     fl_clock := 7000000, fl_calls := (3, 7000000) # fl_calls idle_servers\<rparr>"
  have "fleet_reach ?acq ?rel ''report'' idle_servers"
    unfolding idle_servers_def by (rule fl_start) (simp add: server_task_def)
  moreover have "fleet_step ?acq ?rel ''report'' idle_servers ?s"
    using run by (intro fl_fire) (simp_all add: idle_servers_def)
  moreover have "brief_runs (fl_clock ?s) idle_servers" by (simp add: brief_runs_def idle_servers_def)
  ultimately have reach: "fleet_reach ?acq ?rel ''report'' ?s" by (rule fl_next)
  have since: "fl_since ?s 3 = Some 7000000" by simp
  have "fl_since ?s 4 = None"
    using fleet_task_exclusive [OF table.redis_strings_axioms _ reach] since by (metis list.distinct(1) num.simps(1) option.distinct(1) numeral_eq_iff semiring_norm(88))
  then show ?thesis using reach since by blast
qed

text \<open>The tick that two servers both serve, on Redis.\<close>

lemma redis_fleet_tick_twice:
  assumes "redis_strings rget rset rsetnx rexists rdel live"
    and "t_name t1 \<noteq> []" and "t_name t2 = t_name t1" and "noOverlap t2 \<Longrightarrow> \<not> running t2"
  shows "fst (invoke_begin (\<lambda>t. redis_Acquire (rsetnx t)) True later t2
      (snd (invoke_end (redis_release (\<lambda>k s. snd (rdel k s))) True t1 l)))"
  using redis_strings.fleet_twice [OF assms] .

end
